(* ===== verification/Prelude.thy ===== *)
theory Prelude
  imports Main "HOL-Library.Word"
begin

text \<open>
  Shared vocabulary of the development: machine-integer types, ring buffers over a C array
  with a head and a tail index, and the contract of a bounded first-in first-out queue that
  several components of the firmware (override queues, CAN bus queues, stream buffers)
  provide in their own way.
\<close>

unbundle bit_operations_syntax

subsection \<open>Machine integers\<close>

text \<open>The types of \<open>stdint.h\<close> as the code uses them; \<open>uint_fast8_t\<close>, \<open>uint_fast16_t\<close> and
  \<open>size_t\<close> are 32 bits wide on the target (an ARM Cortex-M3).\<close>

type_synonym u8 = "8 word"
type_synonym u16 = "16 word"
type_synonym u32 = "32 word"
type_synonym u64 = "64 word"

named_theorems word_index
named_theorems ring_simps

lemma unat_and_mask [word_index]:
  "unat (w AND mask k :: 'a::len word) = unat w mod 2 ^ k"
  proof -
  have "unat (w AND mask k) = take_bit k (unat w)"
    by (simp only: take_bit_eq_mask [symmetric] unsigned_take_bit_eq)
  then show ?thesis by (simp add: take_bit_eq_mod)
qed

lemma unat_and_15 [word_index]: "unat (w AND 15 :: u32) = unat w mod 16"
  using unat_and_mask [of w 4] by (simp add: mask_eq_exp_minus_1)

lemma unat_Suc_mod_dvd:
  assumes "n dvd 2 ^ LENGTH('a)"
  shows "unat (w + 1 :: 'a::len word) mod n = (unat w + 1) mod n"
  using assms by (simp add: unat_word_ariths mod_mod_cancel)

subsection \<open>Ring buffers\<close>

text \<open>
  A C array \<open>buf\<close> of length n with indices head (next free slot) and tail (oldest entry)
  holds the entries \<open>buf[tail], buf[tail+1 mod n], \<dots>\<close> up to the head; one slot stays unused
  so that \<open>head = tail\<close> means empty.
\<close>

definition ring_count :: "nat \<Rightarrow> nat \<Rightarrow> nat \<Rightarrow> nat" where
  "ring_count n h t = (h + n - t) mod n"

definition ring_list :: "'a list \<Rightarrow> nat \<Rightarrow> nat \<Rightarrow> 'a list" where
  "ring_list buf h t =
     map (\<lambda>i. buf ! ((t + i) mod length buf)) [0..<ring_count (length buf) h t]"

lemma length_ring_list [ring_simps]: "length (ring_list buf h t) = ring_count (length buf) h t"
  by (simp add: ring_list_def)

lemma ring_count_less [ring_simps]: "0 < n \<Longrightarrow> ring_count n h t < n"
  by (simp add: ring_count_def)

lemma ring_count_cases:
  "h < n \<Longrightarrow> t < n \<Longrightarrow> ring_count n h t = (if t \<le> h then h - t else h + n - t)"
  by (auto simp: ring_count_def mod_if)

lemma add_mod_cases:
  "a < n \<Longrightarrow> b < n \<Longrightarrow> (a + b) mod n = (if a + b < n then a + b else a + b - n)" for a b n :: nat
  by (auto simp: mod_if)

lemma Suc_mod_cases: "a < n \<Longrightarrow> Suc a mod n = (if Suc a < n then Suc a else 0)"
  by (auto simp: mod_if)

lemma ring_count_0 [ring_simps]:
  "h < n \<Longrightarrow> t < n \<Longrightarrow> ring_count n h t = 0 \<longleftrightarrow> h = t"
  by (auto simp: ring_count_cases)

text \<open>Storing at the head and advancing it appends; advancing the tail drops the oldest.\<close>

lemma ring_count_push:
  "h < n \<Longrightarrow> t < n \<Longrightarrow> Suc h mod n \<noteq> t \<Longrightarrow>
     ring_count n (Suc h mod n) t = Suc (ring_count n h t)"
  by (auto simp: ring_count_cases Suc_mod_cases split: if_splits)

lemma ring_list_push [ring_simps]:
  assumes "h < length buf" and "t < length buf" and "Suc h mod length buf \<noteq> t"
  shows "ring_list (buf[h := x]) (Suc h mod length buf) t = ring_list buf h t @ [x]"
proof -
  let ?n = "length buf" and ?c = "ring_count (length buf) h t"
  have c: "?c < ?n" using assms by (auto intro: ring_count_less)
  have last: "(t + ?c) mod ?n = h"
    using assms by (auto simp: ring_count_cases add_mod_cases split: if_splits)
  have rest: "(t + i) mod ?n \<noteq> h" if "i < ?c" for i
    using assms that by (auto simp: ring_count_cases add_mod_cases split: if_splits)
  have "map (\<lambda>i. buf[h := x] ! ((t + i) mod ?n)) [0..<?c] =
        map (\<lambda>i. buf ! ((t + i) mod ?n)) [0..<?c]"
  proof (rule map_cong)
    fix i assume "i \<in> set [0..<?c]"
    with rest [of i] show "buf[h := x] ! ((t + i) mod ?n) = buf ! ((t + i) mod ?n)" by simp
  qed simp
  with assms last show ?thesis
    by (simp add: ring_list_def ring_count_push)
qed

lemma ring_count_pop:
  "h < n \<Longrightarrow> t < n \<Longrightarrow> h \<noteq> t \<Longrightarrow> ring_count n h t = Suc (ring_count n h (Suc t mod n))"
  by (auto simp: ring_count_cases Suc_mod_cases split: if_splits)

lemma ring_list_pop [ring_simps]:
  assumes "h < length buf" and "t < length buf" and "h \<noteq> t"
  shows "ring_list buf h t = buf ! t # ring_list buf h (Suc t mod length buf)"
proof -
  let ?n = "length buf" and ?c = "ring_count (length buf) h (Suc t mod length buf)"
  have idx: "Suc (t + i) mod ?n = (Suc t mod ?n + i) mod ?n" for i
    by (simp add: mod_add_left_eq)
  have "[0..<Suc ?c] = 0 # map Suc [0..<?c]"
    by (simp add: map_Suc_upt upt_conv_Cons)
  then show ?thesis
    using assms by (simp add: ring_list_def ring_count_pop comp_def idx del: upt_Suc)
qed

lemma ring_list_empty [ring_simps]: "ring_list buf h h = []"
  by (simp add: ring_list_def ring_count_def)

subsection \<open>The contract of a bounded queue\<close>

text \<open>
  A client enqueues and dequeues. \<open>enq\<close> silently drops a new entry when the queue is full;
  \<open>deq\<close> returns a value of the code's own result type, \<open>res None\<close> when nothing is queued.
\<close>

datatype 'a fifo_op = Enq 'a | Deq

fun fifo_run ::
  "('q \<Rightarrow> 'a \<Rightarrow> 'q) \<Rightarrow> ('q \<Rightarrow> 'r \<times> 'q) \<Rightarrow> 'a fifo_op list \<Rightarrow> 'q \<Rightarrow> 'r list \<times> 'q" where
  "fifo_run enq deq [] q = ([], q)"
| "fifo_run enq deq (Enq x # ops) q = fifo_run enq deq ops (enq q x)"
| "fifo_run enq deq (Deq # ops) q =
     (let (r, q') = deq q; (rs, q'') = fifo_run enq deq ops q' in (r # rs, q''))"

text \<open>The abstract queue: a list of at most \<open>cap\<close> entries.\<close>

definition spec_enq :: "nat \<Rightarrow> 'a list \<Rightarrow> 'a \<Rightarrow> 'a list" where
  "spec_enq cap xs x = (if length xs < cap then xs @ [x] else xs)"

fun spec_deq :: "('a option \<Rightarrow> 'r) \<Rightarrow> 'a list \<Rightarrow> 'r \<times> 'a list" where
  "spec_deq res [] = (res None, [])"
| "spec_deq res (x # xs) = (res (Some x), xs)"

locale bounded_fifo =
  fixes enq :: "'q \<Rightarrow> 'a \<Rightarrow> 'q"
    and deq :: "'q \<Rightarrow> 'r \<times> 'q"
    and res :: "'a option \<Rightarrow> 'r"
    and contents :: "'q \<Rightarrow> 'a list"
    and inv :: "'q \<Rightarrow> bool"
    and cap :: nat
  assumes inv_enq: "inv q \<Longrightarrow> inv (enq q x)"
    and inv_deq: "inv q \<Longrightarrow> inv (snd (deq q))"
    and enq_contents: "inv q \<Longrightarrow> contents (enq q x) = spec_enq cap (contents q) x"
    and deq_contents: "inv q \<Longrightarrow> contents (snd (deq q)) = snd (spec_deq res (contents q))"
    and deq_result: "inv q \<Longrightarrow> fst (deq q) = fst (spec_deq res (contents q))"
    and inv_bound: "inv q \<Longrightarrow> length (contents q) \<le> cap"
begin

text \<open>Any sequence of operations refines the abstract queue.\<close>

lemma run_refines:
  assumes "inv q"
  shows "inv (snd (fifo_run enq deq ops q)) \<and>
    fst (fifo_run enq deq ops q) = fst (fifo_run (spec_enq cap) (spec_deq res) ops (contents q)) \<and>
    contents (snd (fifo_run enq deq ops q)) =
      snd (fifo_run (spec_enq cap) (spec_deq res) ops (contents q))"
  using assms
proof (induction ops arbitrary: q)
  case Nil
  then show ?case by simp
next
  case (Cons op ops)
  show ?case
  proof (cases op)
    case (Enq x)
    with Cons show ?thesis by (simp add: inv_enq enq_contents)
  next
    case Deq
    obtain r q' where d: "deq q = (r, q')" by force
    obtain s c' where e: "spec_deq res (contents q) = (s, c')" by force
    have "inv q'" "contents q' = c'" "r = s"
      using Cons.prems inv_deq [of q] deq_contents [of q] deq_result [of q] d e by simp_all
    with Cons.IH [of q'] Deq d e show ?thesis
      by (simp add: split_beta)
  qed
qed

lemma run_bound:
  "inv q \<Longrightarrow> length (contents (snd (fifo_run enq deq ops q))) \<le> cap"
  using run_refines inv_bound by blast

text \<open>Filling an empty queue and draining it returns the first \<open>cap\<close> entries in order.\<close>

lemma fill_contents:
  "inv q \<Longrightarrow> contents (snd (fifo_run enq deq (map Enq xs) q)) =
     contents q @ take (cap - length (contents q)) xs"
proof (induction xs arbitrary: q)
  case Nil
  then show ?case by simp
next
  case (Cons x xs)
  then have "length (contents q) \<le> cap" by (simp add: inv_bound)
  with Cons show ?case
    by (cases "cap - length (contents q)")
       (auto simp: inv_enq enq_contents spec_enq_def diff_Suc split: nat.splits)
qed

end

end
