(* ===== verification/Crc.thy ===== *)
theory Crc
  imports Prelude
begin

text \<open>
  The checksums of \<open>grbl/crc.c\<close>: the rotating 8-bit sum that protects stored settings, the
  Modbus CRC-16 and the shift-and-xor CCITT CRC-16 of the YModem receiver. A buffer and its
  size are the list of its first \<open>size\<close> bytes.
\<close>

subsection \<open>The checksums\<close>

definition crc8_step :: "u8 \<Rightarrow> u8 \<Rightarrow> u8" where
  "crc8_step checksum b = ((push_bit 1 checksum) OR (drop_bit 7 checksum)) + b"

fun grbl_crc8_loop :: "u8 \<Rightarrow> u8 list \<Rightarrow> u8" where
  "grbl_crc8_loop checksum [] = checksum"
| "grbl_crc8_loop checksum (b # buf) = grbl_crc8_loop (crc8_step checksum b) buf"

definition grbl_crc8 :: "u8 list \<Rightarrow> u16" where
  "grbl_crc8 buf = ucast (grbl_crc8_loop 0 buf)"

definition crc16_bit :: "u16 \<Rightarrow> u16" where
  "crc16_bit crc = (if crc AND 0x0001 \<noteq> 0 then drop_bit 1 crc XOR 0xA001 else drop_bit 1 crc)"

definition crc16_step :: "u16 \<Rightarrow> u8 \<Rightarrow> u16" where
  "crc16_step crc b = (crc16_bit ^^ 8) (crc XOR ucast b)"

fun modbus_crc16x_loop :: "u16 \<Rightarrow> u8 list \<Rightarrow> u16" where
  "modbus_crc16x_loop crc [] = crc"
| "modbus_crc16x_loop crc (b # buf) = modbus_crc16x_loop (crc16_step crc b) buf"

definition modbus_crc16x :: "u8 list \<Rightarrow> u16" where
  "modbus_crc16x buf = modbus_crc16x_loop 0xFFFF buf"

definition ccitt_step :: "u16 \<Rightarrow> u8 \<Rightarrow> u16" where
  "ccitt_step crc b =
     (let x = drop_bit 8 crc XOR ucast b;
          x = x XOR drop_bit 4 x
      in push_bit 8 crc XOR push_bit 12 x XOR push_bit 5 x XOR x)"

fun ccitt_crc16_loop :: "u16 \<Rightarrow> u8 list \<Rightarrow> u16" where
  "ccitt_crc16_loop crc [] = crc"
| "ccitt_crc16_loop crc (b # buf) = ccitt_crc16_loop (ccitt_step crc b) buf"

definition ccitt_crc16 :: "u8 list \<Rightarrow> u16" where
  "ccitt_crc16 buf = ccitt_crc16_loop 0 buf"

subsection \<open>Evaluation\<close>

lemma funpow_8: "(f ^^ 8) x = f (f (f (f (f (f (f (f x)))))))"
  by (simp add: numeral_eq_Suc)

lemmas modbus_crc_eval = modbus_crc16x_def crc16_step_def funpow_8 crc16_bit_def drop_bit_eq_div

lemma crc_low_byte: "ucast (crc AND 0xFF :: u16) = (ucast crc :: u8)"
proof -
  have m: "(0xFF :: u16) = mask 8" by (simp add: mask_eq_exp_minus_1)
  show ?thesis
    unfolding m by (simp only: word_unat_eq_iff unsigned_ucast_eq unat_and_mask) (simp add: take_bit_eq_mod)
qed

subsection \<open>The loops are folds\<close>

lemma grbl_crc8_loop_append:
  "grbl_crc8_loop c (xs @ ys) = grbl_crc8_loop (grbl_crc8_loop c xs) ys"
  by (induction xs arbitrary: c) auto

lemma modbus_crc16x_loop_append:
  "modbus_crc16x_loop c (xs @ ys) = modbus_crc16x_loop (modbus_crc16x_loop c xs) ys"
  by (induction xs arbitrary: c) auto

lemma ccitt_crc16_loop_append:
  "ccitt_crc16_loop c (xs @ ys) = ccitt_crc16_loop (ccitt_crc16_loop c xs) ys"
  by (induction xs arbitrary: c) auto

subsection \<open>A checksum whose step is injective in state and byte detects one changed byte\<close>

locale checksum =
  fixes step :: "'c \<Rightarrow> 'b \<Rightarrow> 'c" and loop :: "'c \<Rightarrow> 'b list \<Rightarrow> 'c"
  assumes inj_state: "step c b = step d b \<Longrightarrow> c = d"
    and inj_byte: "step c a = step c b \<Longrightarrow> a = b"
    and loop_Nil: "loop c [] = c"
    and loop_Cons: "loop c (b # bs) = loop (step c b) bs"
begin

lemma loop_inj: "loop c bs = loop d bs \<Longrightarrow> c = d"
  by (induction bs arbitrary: c d) (auto simp: loop_Nil loop_Cons dest: inj_state)

lemma loop_app: "loop c (xs @ ys) = loop (loop c xs) ys"
  by (induction xs arbitrary: c) (auto simp: loop_Nil loop_Cons)

lemma detects_one_byte:
  "a \<noteq> b \<Longrightarrow> loop c (xs @ a # ys) \<noteq> loop c (xs @ b # ys)"
  by (auto simp: loop_app loop_Cons dest!: loop_inj inj_byte)

end

subsection \<open>Injectivity of the steps\<close>

declare push_bit_Suc [simp del]

lemma bit_push_1: "bit (push_bit (Suc 0) w) n \<longleftrightarrow> n \<noteq> 0 \<and> n < LENGTH('a) \<and> bit w (n - 1)"
  for w :: "'a::len word"
  by (auto simp: bit_push_bit_iff)

lemma rotl8_bit:
  "n < 8 \<Longrightarrow> bit (push_bit 1 c OR drop_bit 7 c :: u8) (Suc n mod 8) = bit c n"
  by (cases "n = 7") (auto simp: bit_or_iff bit_drop_bit_eq bit_push_1 dest: bit_imp_le_length)

lemma rotl8_inj:
  assumes "(push_bit 1 c OR drop_bit 7 c :: u8) = push_bit 1 d OR drop_bit 7 d"
  shows "c = d"
proof (rule bit_word_eqI)
  fix n assume "n < LENGTH(8)"
  then have "n < 8" by simp
  then show "bit c n = bit d n" using assms rotl8_bit by metis
qed

interpretation crc8: checksum crc8_step grbl_crc8_loop
  by unfold_locales (auto simp: crc8_step_def simp del: One_nat_def dest: rotl8_inj)

lemma and_1_bit: "w AND 1 \<noteq> 0 \<longleftrightarrow> bit w 0" for w :: "'a::len word"
  by (simp add: and_one_eq bit_0 odd_iff_mod_2_eq_one)

lemma bit_0xA001: "bit (0xA001 :: u16) n \<longleftrightarrow> n = 0 \<or> n = 13 \<or> n = 15"
proof (cases "n < 16")
  case True
  then have "n \<in> {0..<16}" by simp
  then show ?thesis by (simp add: atLeastLessThan_nat_numeral bit_0) auto
next
  case False
  then show ?thesis by (auto dest: bit_imp_le_length)
qed

lemma crc16_bit_bits:
  "n < 16 \<Longrightarrow> bit (crc16_bit c) n =
     ((n < 15 \<and> bit c (Suc n)) \<noteq> (bit c 0 \<and> (n = 0 \<or> n = 13 \<or> n = 15)))"
  by (auto simp: crc16_bit_def and_1_bit bit_xor_iff bit_drop_bit_eq bit_0xA001
           simp del: bit_numeral_word_iff dest: bit_imp_le_length)

lemma crc16_bit_inj: "crc16_bit c = crc16_bit d \<Longrightarrow> c = d"
proof (rule bit_word_eqI)
  fix n assume eq: "crc16_bit c = crc16_bit d" and "n < LENGTH(16)"
  have b0: "bit c 0 = bit d 0"
    using arg_cong [OF eq, of "\<lambda>w. bit w 15"] by (simp add: crc16_bit_bits)
  have "bit c (Suc m) = bit d (Suc m)" if "m < 15" for m
    using arg_cong [OF eq, of "\<lambda>w. bit w m"] that b0 by (auto simp: crc16_bit_bits)
  with b0 \<open>n < LENGTH(16)\<close> show "bit c n = bit d n" by (cases n) auto
qed

lemma crc16_bits_inj: "(crc16_bit ^^ k) c = (crc16_bit ^^ k) d \<Longrightarrow> c = d"
  by (induction k arbitrary: c d) (auto simp: funpow_swap1 dest: crc16_bit_inj)

lemma xor_cancel_right: "(a XOR c = b XOR c) = (a = b)" for a b c :: "'a::len word"
  by (metis xor.assoc xor_self_eq xor.right_neutral)

lemma xor_cancel_left: "(c XOR a = c XOR b) = (a = b)" for a b c :: "'a::len word"
  by (metis xor.assoc xor_self_eq xor.left_neutral)

lemma ucast_u8_inj: "(ucast a :: u16) = ucast b \<Longrightarrow> a = b" for a b :: u8
proof (rule bit_word_eqI)
  fix n assume eq: "(ucast a :: u16) = ucast b" and "n < LENGTH(8)"
  have "bit (ucast a :: u16) n = bit (ucast b :: u16) n" by (simp only: eq)
  then show "bit a n = bit b n" using \<open>n < LENGTH(8)\<close> by (simp add: bit_ucast_iff)
qed

interpretation crc16: checksum crc16_step modbus_crc16x_loop
  by unfold_locales
     (auto simp: crc16_step_def xor_cancel_right xor_cancel_left
           dest!: crc16_bits_inj ucast_u8_inj)

subsection \<open>The Modbus residue\<close>

lemma crc16_bit_even: "\<not> bit c 0 \<Longrightarrow> crc16_bit c = drop_bit 1 c"
  by (auto simp: crc16_bit_def and_1_bit)

lemma crc16_bits_shift: "(\<And>i. i < k \<Longrightarrow> \<not> bit c i) \<Longrightarrow> (crc16_bit ^^ k) c = drop_bit k c"
proof (induction k)
  case 0
  then show ?case by simp
next
  case (Suc k)
  then have "(crc16_bit ^^ k) c = drop_bit k c" and "\<not> bit c k" by auto
  then show ?case by (simp add: crc16_bit_even bit_drop_bit_eq)
qed

lemma crc16_step_low: "crc16_step c (ucast c) = drop_bit 8 c"
proof -
  have low: "bit (c XOR ucast (ucast c :: u8)) i = (8 \<le> i \<and> bit c i)" for i
    by (auto simp: bit_xor_iff bit_ucast_iff dest: bit_imp_le_length)
  have "drop_bit 8 (c XOR ucast (ucast c :: u8)) = drop_bit 8 c"
    by (rule bit_word_eqI) (simp only: bit_drop_bit_eq low o_apply, simp)
  then show ?thesis by (simp only: crc16_step_def) (subst crc16_bits_shift, auto simp: low)
qed

lemma crc16_step_self: "crc16_step (ucast b) b = 0"
  by (simp only: crc16_step_def xor_self_eq) (subst crc16_bits_shift, auto)


subsection \<open>The CCITT checksum, bit by bit\<close>

text \<open>The reference: polynomial division by x^16 + x^12 + x^5 + 1, most significant bit first.\<close>

definition ccitt_ref_bit :: "u16 \<Rightarrow> u16" where
  "ccitt_ref_bit crc =
     (if bit crc 15 then push_bit 1 crc XOR 0x1021 else push_bit 1 crc)"

definition ccitt_ref_step :: "u16 \<Rightarrow> u8 \<Rightarrow> u16" where
  "ccitt_ref_step crc b = (ccitt_ref_bit ^^ 8) (crc XOR push_bit 8 (ucast b))"

lemma bit_0x1021: "bit (0x1021 :: u16) n \<longleftrightarrow> n = 0 \<or> n = 5 \<or> n = 12"
proof (cases "n < 16")
  case True
  then have "n \<in> {0..<16}" by simp
  then show ?thesis by (simp add: atLeastLessThan_nat_numeral bit_0) auto
next
  case False
  then show ?thesis by (auto dest: bit_imp_le_length)
qed

lemma ccitt_ref_bit_bits:
  "n < 16 \<Longrightarrow> bit (ccitt_ref_bit c) n =
     ((n \<noteq> 0 \<and> bit c (n - 1)) \<noteq> (bit c 15 \<and> (n = 0 \<or> n = 5 \<or> n = 12)))"
  by (auto simp: ccitt_ref_bit_def bit_xor_iff bit_push_1 bit_0x1021
           simp del: bit_numeral_word_iff dest: bit_imp_le_length)

lemma ccitt_xor_bits:
  "n < 16 \<Longrightarrow> bit (c XOR push_bit 8 (ucast b) :: u16) n = (bit c n \<noteq> (8 \<le> n \<and> bit b (n - 8)))"
  for b :: u8
  by (auto simp: bit_xor_iff bit_push_bit_iff bit_ucast_iff)

definition ccitt_t :: "u16 \<Rightarrow> u8 \<Rightarrow> nat \<Rightarrow> bool" where
  "ccitt_t c b j \<longleftrightarrow> j < 8 \<and> bit c (8 + j) \<noteq> bit b j"

lemma ccitt_x_bits:
  "bit (drop_bit 8 c XOR ucast b :: u16) j = ccitt_t c b j" for b :: u8
  by (auto simp: ccitt_t_def bit_xor_iff bit_drop_bit_eq bit_ucast_iff dest: bit_imp_le_length)

lemma ccitt_mix_bits:
  "n < 16 \<Longrightarrow>
   bit (push_bit 8 c XOR push_bit 12 (x XOR drop_bit 4 x) XOR push_bit 5 (x XOR drop_bit 4 x)
        XOR (x XOR drop_bit 4 x) :: u16) n =
    ((8 \<le> n \<and> bit c (n - 8)) \<noteq>
     ((12 \<le> n \<and> bit x (n - 12) \<noteq> bit x (4 + (n - 12))) \<noteq>
      ((5 \<le> n \<and> bit x (n - 5) \<noteq> bit x (4 + (n - 5))) \<noteq> (bit x n \<noteq> bit x (4 + n)))))"
  by (simp only: bit_xor_iff bit_push_bit_iff bit_drop_bit_eq o_apply possible_bit_word) simp

lemma ccitt_step_bits:
  "n < 16 \<Longrightarrow> bit (ccitt_step c b) n =
    ((8 \<le> n \<and> bit c (n - 8)) \<noteq>
     ((12 \<le> n \<and> ccitt_t c b (n - 12) \<noteq> ccitt_t c b (4 + (n - 12))) \<noteq>
      ((5 \<le> n \<and> ccitt_t c b (n - 5) \<noteq> ccitt_t c b (4 + (n - 5))) \<noteq>
       (ccitt_t c b n \<noteq> ccitt_t c b (4 + n)))))"
  by (simp only: ccitt_step_def Let_def ccitt_mix_bits ccitt_x_bits)

lemma all_bits16: "(\<forall>n<16. P n) \<longleftrightarrow> P 0 \<and> P 1 \<and> P 2 \<and> P 3 \<and> P 4 \<and> P 5 \<and> P 6 \<and> P 7 \<and> P 8 \<and>
   P 9 \<and> P 10 \<and> P 11 \<and> P 12 \<and> P 13 \<and> P 14 \<and> P (15::nat)"
  by (simp add: numeral_eq_Suc All_less_Suc) auto

lemma ccitt_step_ref: "ccitt_step c b = ccitt_ref_step c b"
proof -
  have "\<forall>n<16. bit (ccitt_step c b) n = bit (ccitt_ref_step c b) n"
    unfolding all_bits16 ccitt_ref_step_def funpow_8
    apply (intro conjI)
    apply (simp add: ccitt_step_bits ccitt_ref_bit_bits ccitt_xor_bits ccitt_t_def; argo?)+
    done
  then show ?thesis by (auto intro: bit_word_eqI)
qed

lemma ccitt_ref_bit_inj: "ccitt_ref_bit c = ccitt_ref_bit d \<Longrightarrow> c = d"
proof (rule bit_word_eqI)
  fix n assume eq: "ccitt_ref_bit c = ccitt_ref_bit d" and n: "n < LENGTH(16)"
  have b15: "bit c 15 = bit d 15"
    using arg_cong [OF eq, of "\<lambda>w. bit w 0"] by (simp add: ccitt_ref_bit_bits)
  show "bit c n = bit d n"
  proof (cases "n = 15")
    case False
    with n have "Suc n < 16" by simp
    then show ?thesis
      using arg_cong [OF eq, of "\<lambda>w. bit w (Suc n)"] b15 by (auto simp: ccitt_ref_bit_bits)
  qed (simp add: b15)
qed

lemma ccitt_ref_bits_inj: "(ccitt_ref_bit ^^ k) c = (ccitt_ref_bit ^^ k) d \<Longrightarrow> c = d"
  by (induction k arbitrary: c d) (auto simp: funpow_swap1 dest: ccitt_ref_bit_inj)

lemma push_8_inj: "(push_bit 8 (ucast a) :: u16) = push_bit 8 (ucast b) \<Longrightarrow> a = b" for a b :: u8
proof (rule bit_word_eqI)
  fix n assume eq: "(push_bit 8 (ucast a) :: u16) = push_bit 8 (ucast b)" and "n < LENGTH(8)"
  then have "8 + n < 16" by simp
  then show "bit a n = bit b n"
    using arg_cong [OF eq, of "\<lambda>w. bit w (8 + n)"] by (simp add: bit_push_bit_iff bit_ucast_iff)
qed

interpretation ccitt: checksum ccitt_step ccitt_crc16_loop
  by unfold_locales
     (auto simp: ccitt_step_ref ccitt_ref_step_def xor_cancel_right xor_cancel_left
           dest!: ccitt_ref_bits_inj push_8_inj)

subsection \<open>The optimised checksum agrees with the reference on every buffer\<close>

fun ccitt_ref_loop :: "u16 \<Rightarrow> u8 list \<Rightarrow> u16" where
  "ccitt_ref_loop crc [] = crc"
| "ccitt_ref_loop crc (b # buf) = ccitt_ref_loop (ccitt_ref_step crc b) buf"

lemma ccitt_loop_ref: "ccitt_crc16_loop crc buf = ccitt_ref_loop crc buf"
  by (induction buf arbitrary: crc) (auto simp: ccitt_step_ref)

lemma modbus_loop_residue:
  "modbus_crc16x_loop c [ucast c, ucast (drop_bit 8 c)] = 0"
proof -
  have "(ucast (ucast (drop_bit 8 c) :: u8) :: u16) = drop_bit 8 c"
    by (rule bit_word_eqI) (auto simp: bit_ucast_iff bit_drop_bit_eq dest: bit_imp_le_length)
  then have "crc16_step (drop_bit 8 c) (ucast (drop_bit 8 c)) = 0"
    using crc16_step_self [of "ucast (drop_bit 8 c)"] by simp
  then show ?thesis by (simp add: crc16_step_low)
qed

text \<open>
  C20. The table-free CRC-16 of the YModem receiver (\<open>ccitt_crc16\<close>, five shifts and
  exclusive-ors per byte) equals the polynomial division by x^16 + x^12 + x^5 + 1 done one bit
  at a time, on every buffer.
\<close>

theorem ccitt_crc16_correct: "ccitt_crc16 buf = ccitt_ref_loop 0 buf"
  by (simp add: ccitt_crc16_def ccitt_loop_ref)

lemma modbus_frame_residue:
  "modbus_crc16x (msg @ [ucast (modbus_crc16x msg), ucast (drop_bit 8 (modbus_crc16x msg))]) = 0"
  by (simp only: modbus_crc16x_def modbus_crc16x_loop_append modbus_loop_residue)

text \<open>
  C21. A Modbus frame to which the transmitter has appended its CRC, low byte first, checks to
  zero: the receiver-side residue of a whole intact frame.
\<close>

theorem modbus_crc_residue:
  "modbus_crc16x (msg @ [ucast (modbus_crc16x msg), ucast (drop_bit 8 (modbus_crc16x msg))]) = 0"
  by (rule modbus_frame_residue)

text \<open>
  C22. None of the three checksums of \<open>grbl/crc.c\<close> (the one of stored settings, the Modbus CRC and the
  CCITT CRC of the YModem receiver) confuses two buffers that differ in exactly one byte, so a single
  corrupted byte in what they protect is always noticed.
\<close>

theorem checksums_detect_one_byte:
  assumes "a \<noteq> b"
  shows "grbl_crc8 (xs @ a # ys) \<noteq> grbl_crc8 (xs @ b # ys) \<and>
    modbus_crc16x (xs @ a # ys) \<noteq> modbus_crc16x (xs @ b # ys) \<and>
    ccitt_crc16 (xs @ a # ys) \<noteq> ccitt_crc16 (xs @ b # ys)"
  using crc8.detects_one_byte [OF assms] crc16.detects_one_byte [OF assms] ccitt.detects_one_byte [OF assms]
  by (auto simp: grbl_crc8_def modbus_crc16x_def ccitt_crc16_def dest: ucast_u8_inj)

theorem checksums_detect_one_byte_witness:
  "grbl_crc8 ([7] @ 1 # [9]) \<noteq> grbl_crc8 ([7] @ 2 # [9]) \<and>
   modbus_crc16x ([7] @ 1 # [9]) \<noteq> modbus_crc16x ([7] @ 2 # [9]) \<and>
   ccitt_crc16 ([7] @ 1 # [9]) \<noteq> ccitt_crc16 ([7] @ 2 # [9])"
  by (rule checksums_detect_one_byte) simp

end
