(* ===== verification/Utf8.thy ===== *)
theory Utf8
  imports Prelude
begin

text \<open>
  UTF-8 encoding of code points, \<open>utf32_to_utf8\<close> in \<open>grbl/utf8.c\<close>. The result is the
  returned length and the bytes stored from \<open>buffer[0]\<close> on.
\<close>

subsection \<open>The encoder\<close>

lemma unat_drop6: "unat (drop_bit 6 w) = unat w div 64" for w :: u32
  by (subst unat_drop_bit_eq) (simp add: drop_bit_eq_div)

function utf8_length_loop :: "u16 \<Rightarrow> u32 \<Rightarrow> u32 \<Rightarrow> u16 \<times> u32 \<times> u32" where
  "utf8_length_loop len first_byte msk =
     (if drop_bit 6 first_byte > drop_bit 1 msk
      then utf8_length_loop (len + 1) (drop_bit 6 first_byte) (drop_bit 1 msk)
      else (len + 1, drop_bit 6 first_byte, drop_bit 1 msk))"
  by pat_completeness auto
termination
proof (relation "measure (\<lambda>(l, f, m). unat f)", simp)
  fix len :: u16 and f m :: u32
  assume gt: "drop_bit 1 m < drop_bit 6 f"
  have "unat (drop_bit 6 f) = unat f div 64" by (rule unat_drop6)
  moreover have "unat (drop_bit 1 m) < unat (drop_bit 6 f)" using gt by (simp only: word_less_nat_alt)
  ultimately have "unat (drop_bit 6 f) < unat f" by linarith
  then show "((len + 1, drop_bit 6 f, drop_bit 1 m), (len, f, m)) \<in> measure (\<lambda>(l, f, m). unat f)"
    by simp
qed

declare utf8_length_loop.simps [simp del]

fun utf8_tail_loop :: "nat \<Rightarrow> u32 \<Rightarrow> u8 list \<Rightarrow> u8 list" where
  "utf8_tail_loop 0 code_point buffer = buffer"
| "utf8_tail_loop (Suc idx) code_point buffer =
     utf8_tail_loop idx (drop_bit 6 code_point)
       (buffer[Suc idx := ucast ((code_point AND 0x3F) OR 0x80)])"

definition utf32_to_utf8 :: "u32 \<Rightarrow> u16 \<times> u8 list" where
  "utf32_to_utf8 code_point =
     (if code_point > 0x10FFFF then (0, [])
      else
        let (len, first_byte, msk) =
              (if code_point \<le> 0x7F then (1, code_point, 0x3F)
               else utf8_length_loop 1 code_point 0x3F)
        in (len,
            if len \<le> 4
            then utf8_tail_loop (unat len - 1) code_point
                   ((replicate (unat len) 0)
                      [0 := ucast (first_byte + push_bit 1 (NOT msk))])
            else []))"

subsection \<open>The reference decoder\<close>

definition utf8_cont :: "u8 \<Rightarrow> bool" where
  "utf8_cont b \<longleftrightarrow> 0x80 \<le> b \<and> b < 0xC0"

definition utf8_payload :: "u8 \<Rightarrow> nat" where
  "utf8_payload b = unat b - 0x80"

fun utf8_decode :: "u8 list \<Rightarrow> nat option" where
  "utf8_decode [a] = (if a < 0x80 then Some (unat a) else None)"
| "utf8_decode [a, b] =
     (if 0xC0 \<le> a \<and> a < 0xE0 \<and> utf8_cont b
      then Some ((unat a - 0xC0) * 64 + utf8_payload b) else None)"
| "utf8_decode [a, b, c] =
     (if 0xE0 \<le> a \<and> a < 0xF0 \<and> utf8_cont b \<and> utf8_cont c
      then Some (((unat a - 0xE0) * 64 + utf8_payload b) * 64 + utf8_payload c) else None)"
| "utf8_decode [a, b, c, d] =
     (if 0xF0 \<le> a \<and> a < 0xF8 \<and> utf8_cont b \<and> utf8_cont c \<and> utf8_cont d
      then Some ((((unat a - 0xF0) * 64 + utf8_payload b) * 64 + utf8_payload c) * 64
                 + utf8_payload d) else None)"
| "utf8_decode _ = None"

subsection \<open>The bytes\<close>

lemma unat_cont: "unat (ucast ((w AND 0x3F) OR 0x80 :: u32) :: u8) = 0x80 + unat w mod 64"
proof -
  have m: "unat (w AND 0x3F) = unat w mod 64"
    using unat_and_mask [of w 6] by (simp add: mask_eq_exp_minus_1)
  have "(w AND 0x3F) AND 0x80 = 0"
    by (simp add: and.assoc)
  then have "(w AND 0x3F) OR 0x80 = (w AND 0x3F) + 0x80"
    by (simp add: disjunctive_add_eq_or)
  moreover have "unat ((w AND 0x3F) + 0x80) = unat w mod 64 + 0x80"
    by (subst unat_add_lem [THEN iffD1]) (simp_all add: m)
  ultimately show ?thesis by (simp add: unsigned_ucast_eq take_bit_eq_mod)
qed


lemma unat_lead:
  "unat (ucast (fb + k :: u32) :: u8) = (unat fb + unat k) mod 256"
  by (simp add: unsigned_ucast_eq take_bit_eq_mod unat_word_ariths mod_mod_cancel)

lemma drop1_masks:
  "drop_bit 1 (0x3F :: u32) = 0x1F" "drop_bit 1 (0x1F :: u32) = 0x0F" "drop_bit 1 (0x0F :: u32) = 0x07"
  by simp_all

lemma lead_consts:
  "unat (push_bit 1 (NOT 0x1F) :: u32) mod 256 = 0xC0"
  "unat (push_bit 1 (NOT 0x0F) :: u32) mod 256 = 0xE0"
  "unat (push_bit 1 (NOT 0x07) :: u32) mod 256 = 0xF0"
  "unat (push_bit 1 (NOT 0x3F) :: u32) mod 256 = 0x80"
  by simp_all


lemmas loop_arith = drop1_masks word_less_nat_alt unat_drop6 not_less

lemma loop_len2:
  assumes "unat cp < 0x800"
  shows "utf8_length_loop 1 cp 0x3F = (2, drop_bit 6 cp, 0x1F)"
proof -
  have "unat cp div 64 < 32" using assms by (simp add: div_less_iff_less_mult)
  then show ?thesis by (subst utf8_length_loop.simps) (simp add: loop_arith)
qed

lemma loop_len3:
  assumes "0x800 \<le> unat cp" and "unat cp < 0x10000"
  shows "utf8_length_loop 1 cp 0x3F = (3, drop_bit 6 (drop_bit 6 cp), 0x0F)"
proof -
  have "32 \<le> unat cp div 64" and "unat cp div 64 div 64 < 16"
    using assms by (simp_all add: div_less_iff_less_mult less_eq_div_iff_mult_less_eq)
  then show ?thesis
    by (simp add: utf8_length_loop.simps [of 1 cp] utf8_length_loop.simps [of 2 "drop_bit 6 cp"]
        loop_arith del: drop_bit_drop_bit)
qed

lemma loop_len4:
  assumes "0x10000 \<le> unat cp" and "unat cp < 0x200000"
  shows "utf8_length_loop 1 cp 0x3F = (4, drop_bit 6 (drop_bit 6 (drop_bit 6 cp)), 0x07)"
proof -
  have "32 \<le> unat cp div 64" and "16 \<le> unat cp div 64 div 64"
    and "unat cp div 64 div 64 div 64 < 8"
    using assms by (simp_all add: div_less_iff_less_mult less_eq_div_iff_mult_less_eq)
  then show ?thesis
    by (simp add: utf8_length_loop.simps [of 1 cp] utf8_length_loop.simps [of 2 "drop_bit 6 cp"]
        utf8_length_loop.simps [of 3 "drop_bit 6 (drop_bit 6 cp)"]
        loop_arith del: drop_bit_drop_bit)
qed

subsection \<open>Correctness\<close>

lemma utf8_cont_cont: "utf8_cont (ucast ((w AND 0x3F) OR 0x80 :: u32))"
  by (simp add: utf8_cont_def word_le_nat_alt word_less_nat_alt unat_cont)

lemma utf8_payload_cont: "utf8_payload (ucast ((w AND 0x3F) OR 0x80 :: u32)) = unat w mod 64"
  by (simp add: utf8_payload_def unat_cont)

lemma unat_lead_add:
  "unat k mod 256 = c \<Longrightarrow> c + unat fb < 256 \<Longrightarrow> unat (ucast (fb + k :: u32) :: u8) = c + unat fb"
  by (simp add: unat_lead) (metis add.commute mod_add_right_eq mod_less)

lemmas utf8_lead = lead_consts [THEN unat_lead_add]

lemma tail_loops:
  "utf8_tail_loop 2 cp buf = utf8_tail_loop 1 (drop_bit 6 cp) (buf[2 := ucast ((cp AND 0x3F) OR 0x80)])"
  "utf8_tail_loop 3 cp buf = utf8_tail_loop 2 (drop_bit 6 cp) (buf[3 := ucast ((cp AND 0x3F) OR 0x80)])"
  "replicate 2 (0::u8) = [0, 0]" "replicate 3 (0::u8) = [0, 0, 0]" "replicate 4 (0::u8) = [0, 0, 0, 0]"
  by (simp_all add: numeral_eq_Suc)

lemma not_ascii: "0x80 \<le> unat cp \<Longrightarrow> \<not> cp \<le> 0x7F" for cp :: u32
  by (simp add: word_le_nat_alt)

lemma in_range: "unat cp \<le> 0x10FFFF \<Longrightarrow> \<not> cp > 0x10FFFF" for cp :: u32
  by (simp add: word_less_nat_alt)

lemma encode2:
  assumes "0x80 \<le> unat cp" and "unat cp < 0x800"
  shows "utf32_to_utf8 cp =
     (2, [ucast (drop_bit 6 cp + push_bit 1 (NOT 0x1F)), ucast ((cp AND 0x3F) OR 0x80)])"
  using assms not_ascii [of cp] in_range [of cp]
  by (simp add: utf32_to_utf8_def loop_len2 tail_loops word_le_nat_alt)

lemma encode3:
  assumes "0x800 \<le> unat cp" and "unat cp < 0x10000"
  shows "utf32_to_utf8 cp =
     (3, [ucast (drop_bit 6 (drop_bit 6 cp) + push_bit 1 (NOT 0x0F)),
          ucast ((drop_bit 6 cp AND 0x3F) OR 0x80), ucast ((cp AND 0x3F) OR 0x80)])"
  using assms not_ascii [of cp] in_range [of cp]
  by (simp add: utf32_to_utf8_def loop_len3 tail_loops word_le_nat_alt
      del: drop_bit_drop_bit)

lemma encode4:
  assumes "0x10000 \<le> unat cp" and "unat cp \<le> 0x10FFFF"
  shows "utf32_to_utf8 cp =
     (4, [ucast (drop_bit 6 (drop_bit 6 (drop_bit 6 cp)) + push_bit 1 (NOT 0x07)),
          ucast ((drop_bit 6 (drop_bit 6 cp) AND 0x3F) OR 0x80),
          ucast ((drop_bit 6 cp AND 0x3F) OR 0x80), ucast ((cp AND 0x3F) OR 0x80)])"
  using assms not_ascii [of cp] in_range [of cp]
  by (simp add: utf32_to_utf8_def loop_len4 tail_loops word_le_nat_alt
      del: drop_bit_drop_bit)

lemma decode2:
  assumes "0x80 \<le> unat cp" and "unat cp < 0x800"
  shows "utf8_decode (snd (utf32_to_utf8 cp)) = Some (unat cp)"
proof -
  have "unat cp div 64 < 32" using assms by (simp add: div_less_iff_less_mult)
  then have "unat (ucast (drop_bit 6 cp + push_bit 1 (NOT 0x1F)) :: u8) = 0xC0 + unat cp div 64"
    by (subst utf8_lead) (simp_all add: unat_drop6)
  with assms \<open>unat cp div 64 < 32\<close> show ?thesis
    by (simp only: encode2 snd_conv utf8_decode.simps)
       (simp add: word_le_nat_alt word_less_nat_alt utf8_cont_cont utf8_payload_cont)
qed

lemma decode3:
  assumes "0x800 \<le> unat cp" and "unat cp < 0x10000"
  shows "utf8_decode (snd (utf32_to_utf8 cp)) = Some (unat cp)"
proof -
  have "unat cp div 64 div 64 < 16" using assms by (simp add: div_less_iff_less_mult)
  then have "unat (ucast (drop_bit 6 (drop_bit 6 cp) + push_bit 1 (NOT 0x0F)) :: u8) =
      0xE0 + unat cp div 64 div 64"
    by (subst utf8_lead) (simp_all add: unat_drop6 del: drop_bit_drop_bit)
  with assms \<open>unat cp div 64 div 64 < 16\<close> show ?thesis
    by (simp only: encode3 snd_conv utf8_decode.simps)
       (simp add: word_le_nat_alt word_less_nat_alt utf8_cont_cont utf8_payload_cont unat_drop6
          del: drop_bit_drop_bit)
qed

lemma decode4:
  assumes "0x10000 \<le> unat cp" and "unat cp \<le> 0x10FFFF"
  shows "utf8_decode (snd (utf32_to_utf8 cp)) = Some (unat cp)"
proof -
  have "unat cp div 64 div 64 div 64 < 8" using assms by (simp add: div_less_iff_less_mult)
  then have "unat (ucast (drop_bit 6 (drop_bit 6 (drop_bit 6 cp)) + push_bit 1 (NOT 0x07)) :: u8) =
      0xF0 + unat cp div 64 div 64 div 64"
    by (subst utf8_lead) (simp_all add: unat_drop6 del: drop_bit_drop_bit)
  with assms \<open>unat cp div 64 div 64 div 64 < 8\<close> show ?thesis
    by (simp only: encode4 snd_conv utf8_decode.simps)
       (simp add: word_le_nat_alt word_less_nat_alt utf8_cont_cont utf8_payload_cont unat_drop6
          del: drop_bit_drop_bit)
qed

lemma utf8_decodes:
  assumes "0x80 \<le> cp" and "cp \<le> 0x10FFFF"
  shows "utf8_decode (snd (utf32_to_utf8 cp)) = Some (unat cp) \<and>
    unat (fst (utf32_to_utf8 cp)) = length (snd (utf32_to_utf8 cp))"
proof -
  have r: "0x80 \<le> unat cp" "unat cp \<le> 0x10FFFF"
    using assms by (simp_all add: word_le_nat_alt)
  consider "unat cp < 0x800" | "0x800 \<le> unat cp \<and> unat cp < 0x10000" | "0x10000 \<le> unat cp"
    by linarith
  then show ?thesis
    using r by cases (simp_all only: decode2 decode3 decode4, simp_all add: encode2 encode3 encode4)
qed

text \<open>The single byte stored for an ASCII code point is the code point with its top bit set, because the
  mask of the one-byte case has six one bits instead of seven.\<close>

lemma utf8_ascii_wrong:
  assumes "cp \<le> 0x7F"
  shows "utf32_to_utf8 cp = (1, [ucast cp + 0x80]) \<and> utf8_decode (snd (utf32_to_utf8 cp)) = None"
proof -
  have "unat cp < 128" using assms by (simp add: word_le_nat_alt)
  then have u: "unat (ucast (cp + push_bit 1 (NOT 0x3F)) :: u8) = 0x80 + unat cp"
    by (subst utf8_lead) simp_all
  moreover have "unat (ucast cp + 0x80 :: u8) = 0x80 + unat cp"
    using \<open>unat cp < 128\<close> by (simp add: unat_word_ariths unsigned_ucast_eq take_bit_eq_mod)
  ultimately have b: "(ucast (cp + push_bit 1 (NOT 0x3F)) :: u8) = ucast cp + 0x80"
    by (simp only: word_unat_eq_iff)
  moreover have "utf32_to_utf8 cp = (1, [ucast (cp + push_bit 1 (NOT 0x3F))])"
    using assms in_range [of cp] \<open>unat cp < 128\<close> by (simp add: utf32_to_utf8_def)
  moreover have "\<not> (ucast (cp + push_bit 1 (NOT 0x3F)) :: u8) < 0x80"
    using u by (simp only: word_less_nat_alt) simp
  ultimately show ?thesis by simp
qed

text \<open>
  C23. Every code point from U+0080 to U+10FFFF is encoded as well-formed UTF-8: the returned
  length is the number of bytes stored, and a reference decoder that checks the lead byte and
  every continuation byte reads the code point back. No ASCII code point is: the one byte stored
  for it is the code point with its top bit set, which the decoder rejects.
\<close>

theorem utf8_roundtrip:
  assumes "cp \<le> 0x10FFFF"
  shows "if 0x80 \<le> cp
    then utf8_decode (snd (utf32_to_utf8 cp)) = Some (unat cp) \<and>
      unat (fst (utf32_to_utf8 cp)) = length (snd (utf32_to_utf8 cp))
    else utf32_to_utf8 cp = (1, [ucast cp + 0x80]) \<and> utf8_decode (snd (utf32_to_utf8 cp)) = None"
proof (cases "0x80 \<le> cp")
  case True
  then show ?thesis using utf8_decodes [OF True assms] by simp
next
  case False
  then have "cp \<le> 0x7F" by (simp add: word_le_nat_alt)
  from utf8_ascii_wrong [OF this] show ?thesis unfolding if_not_P [OF False] .
qed

lemma utf8_roundtrip_witness:
  "utf8_decode (snd (utf32_to_utf8 0x20AC)) = Some (unat (0x20AC :: u32)) \<and>
   unat (fst (utf32_to_utf8 0x20AC)) = length (snd (utf32_to_utf8 0x20AC)) \<and>
   utf8_decode (snd (utf32_to_utf8 0x41)) = None"
  using utf8_roundtrip [of "0x20AC"] utf8_roundtrip [of "0x41"] by simp

end
