(* ===== verification/Override.thy ===== *)
theory Override
  imports Prelude
begin

text \<open>
  The realtime override queues of \<open>grbl/override.c\<close>: three ring buffers of command bytes, filled
  by the serial interrupt and drained by the protocol loop. \<open>OVERRIDE_BUFSIZE\<close> is 16, so a
  queue holds at most 15 commands; a get on an empty queue returns 0.
\<close>

subsection \<open>State and operations\<close>

definition OVERRIDE_BUFSIZE :: nat where
  "OVERRIDE_BUFSIZE = 16"

record override_queue =
  oq_head :: u32
  oq_tail :: u32
  oq_buf :: "u8 list"

record override_state =
  feed :: override_queue
  spindle :: override_queue
  coolant :: override_queue

definition oq_put :: "override_queue \<Rightarrow> u8 \<Rightarrow> override_queue" where
  "oq_put q cmd =
     (let bptr = (oq_head q + 1) AND 15
      in if bptr \<noteq> oq_tail q
         then q\<lparr>oq_buf := (oq_buf q)[unat (oq_head q) := cmd], oq_head := bptr\<rparr>
         else q)"

definition oq_get :: "override_queue \<Rightarrow> u8 \<times> override_queue" where
  "oq_get q =
     (let bptr = oq_tail q
      in if bptr \<noteq> oq_head q
         then (oq_buf q ! unat bptr, q\<lparr>oq_tail := (bptr + 1) AND 15\<rparr>)
         else (0, q))"

definition enqueue_feed_override :: "override_state \<Rightarrow> u8 \<Rightarrow> override_state" where
  "enqueue_feed_override s cmd = s\<lparr>feed := oq_put (feed s) cmd\<rparr>"

definition get_feed_override :: "override_state \<Rightarrow> u8 \<times> override_state" where
  "get_feed_override s = (let (data, q) = oq_get (feed s) in (data, s\<lparr>feed := q\<rparr>))"

definition enqueue_spindle_override :: "override_state \<Rightarrow> u8 \<Rightarrow> override_state" where
  "enqueue_spindle_override s cmd = s\<lparr>spindle := oq_put (spindle s) cmd\<rparr>"

definition get_spindle_override :: "override_state \<Rightarrow> u8 \<times> override_state" where
  "get_spindle_override s = (let (data, q) = oq_get (spindle s) in (data, s\<lparr>spindle := q\<rparr>))"

definition enqueue_coolant_override :: "override_state \<Rightarrow> u8 \<Rightarrow> override_state" where
  "enqueue_coolant_override s cmd = s\<lparr>coolant := oq_put (coolant s) cmd\<rparr>"

definition get_coolant_override :: "override_state \<Rightarrow> u8 \<times> override_state" where
  "get_coolant_override s = (let (data, q) = oq_get (coolant s) in (data, s\<lparr>coolant := q\<rparr>))"

definition oq_flush :: "override_queue \<Rightarrow> override_queue" where
  "oq_flush q = q\<lparr>oq_head := 0, oq_tail := 0\<rparr>"

definition flush_override_buffers :: "override_state \<Rightarrow> override_state" where
  "flush_override_buffers s =
     s\<lparr>feed := oq_flush (feed s), spindle := oq_flush (spindle s), coolant := oq_flush (coolant s)\<rparr>"

definition oq_init :: override_queue where
  "oq_init = \<lparr>oq_head = 0, oq_tail = 0, oq_buf = replicate OVERRIDE_BUFSIZE 0\<rparr>"

definition override_init :: override_state where
  "override_init = \<lparr>feed = oq_init, spindle = oq_init, coolant = oq_init\<rparr>"

subsection \<open>Invariant and abstraction\<close>

definition oq_inv :: "override_queue \<Rightarrow> bool" where
  "oq_inv q \<longleftrightarrow> length (oq_buf q) = OVERRIDE_BUFSIZE \<and>
     unat (oq_head q) < OVERRIDE_BUFSIZE \<and> unat (oq_tail q) < OVERRIDE_BUFSIZE"

definition oq_list :: "override_queue \<Rightarrow> u8 list" where
  "oq_list q = ring_list (oq_buf q) (unat (oq_head q)) (unat (oq_tail q))"

definition override_inv :: "override_state \<Rightarrow> bool" where
  "override_inv s \<longleftrightarrow> oq_inv (feed s) \<and> oq_inv (spindle s) \<and> oq_inv (coolant s)"

definition oq_res :: "u8 option \<Rightarrow> u8" where
  "oq_res r = (case r of None \<Rightarrow> 0 | Some c \<Rightarrow> c)"

lemma oq_next: "unat ((w + 1) AND 15 :: u32) = Suc (unat w) mod 16"
  using unat_Suc_mod_dvd [of 16 w] by (simp add: unat_and_15)

lemma oq_next_neq: "unat h < 16 \<Longrightarrow> (((h + 1) AND 15 :: u32) \<noteq> t) = (Suc (unat h) mod 16 \<noteq> unat t)"
  by (simp add: word_unat_eq_iff oq_next)

lemma oq_length: "oq_inv q \<Longrightarrow> length (oq_list q) \<le> 15"
  using ring_count_less [of 16 "unat (oq_head q)" "unat (oq_tail q)"]
  by (simp add: oq_inv_def oq_list_def length_ring_list OVERRIDE_BUFSIZE_def)

lemma oq_full:
  "oq_inv q \<Longrightarrow> (length (oq_list q) < 15) = (Suc (unat (oq_head q)) mod 16 \<noteq> unat (oq_tail q))"
  by (auto simp: oq_inv_def oq_list_def length_ring_list OVERRIDE_BUFSIZE_def ring_count_cases
       Suc_mod_cases)

lemma oq_put_inv: "oq_inv q \<Longrightarrow> oq_inv (oq_put q c)"
  by (auto simp: oq_inv_def oq_put_def Let_def OVERRIDE_BUFSIZE_def oq_next)

lemma oq_put_list: "oq_inv q \<Longrightarrow> oq_list (oq_put q c) = spec_enq 15 (oq_list q) c"
  using oq_full [of q] ring_list_push [of "unat (oq_head q)" "oq_buf q" "unat (oq_tail q)" c]
  by (auto simp: spec_enq_def oq_put_def Let_def oq_next_neq oq_next oq_list_def oq_inv_def
        OVERRIDE_BUFSIZE_def)

lemma oq_get_inv: "oq_inv q \<Longrightarrow> oq_inv (snd (oq_get q))"
  by (auto simp: oq_inv_def oq_get_def Let_def OVERRIDE_BUFSIZE_def oq_next)

lemma oq_get_spec:
  assumes "oq_inv q"
  shows "fst (oq_get q) = fst (spec_deq oq_res (oq_list q)) \<and>
    oq_list (snd (oq_get q)) = snd (spec_deq oq_res (oq_list q))"
proof (cases "oq_tail q = oq_head q")
  case True
  then show ?thesis by (simp add: oq_get_def oq_list_def ring_list_empty oq_res_def)
next
  case False
  then have "unat (oq_head q) \<noteq> unat (oq_tail q)" by (auto simp: word_unat_eq_iff)
  with assms have "oq_list q = oq_buf q ! unat (oq_tail q) #
      ring_list (oq_buf q) (unat (oq_head q)) (Suc (unat (oq_tail q)) mod 16)"
    by (simp add: oq_list_def oq_inv_def OVERRIDE_BUFSIZE_def ring_list_pop)
  with False show ?thesis by (simp add: oq_get_def Let_def oq_list_def oq_next oq_res_def)
qed

interpretation oq: bounded_fifo oq_put oq_get oq_res oq_list oq_inv 15
  by unfold_locales
     (auto simp: oq_put_inv oq_get_inv oq_put_list oq_get_spec oq_length)

lemma oq_init_inv: "oq_inv oq_init" "oq_list oq_init = []"
  by (simp_all add: oq_inv_def oq_init_def OVERRIDE_BUFSIZE_def oq_list_def ring_list_empty)

subsection \<open>The three queues together\<close>

datatype override_op =
    FeedPut u8 | FeedGet | SpindlePut u8 | SpindleGet | CoolantPut u8 | CoolantGet | Flush

text \<open>One call of the interface, with the byte a get returns.\<close>

fun override_step :: "override_op \<Rightarrow> override_state \<Rightarrow> u8 option \<times> override_state" where
  "override_step (FeedPut c) s = (None, enqueue_feed_override s c)"
| "override_step FeedGet s = (let (d, s') = get_feed_override s in (Some d, s'))"
| "override_step (SpindlePut c) s = (None, enqueue_spindle_override s c)"
| "override_step SpindleGet s = (let (d, s') = get_spindle_override s in (Some d, s'))"
| "override_step (CoolantPut c) s = (None, enqueue_coolant_override s c)"
| "override_step CoolantGet s = (let (d, s') = get_coolant_override s in (Some d, s'))"
| "override_step Flush s = (None, flush_override_buffers s)"

fun override_run :: "override_op list \<Rightarrow> override_state \<Rightarrow> u8 option list \<times> override_state" where
  "override_run [] s = ([], s)"
| "override_run (x # xs) s =
     (let (r, s') = override_step x s; (rs, s'') = override_run xs s' in (r # rs, s''))"

text \<open>The abstract interface: three independent bounded lists.\<close>

type_synonym override_abs = "u8 list \<times> u8 list \<times> u8 list"

fun override_spec :: "override_op \<Rightarrow> override_abs \<Rightarrow> u8 option \<times> override_abs" where
  "override_spec (FeedPut c) (f, p, k) = (None, spec_enq 15 f c, p, k)"
| "override_spec FeedGet (f, p, k) = (let (d, f') = spec_deq oq_res f in (Some d, f', p, k))"
| "override_spec (SpindlePut c) (f, p, k) = (None, f, spec_enq 15 p c, k)"
| "override_spec SpindleGet (f, p, k) = (let (d, p') = spec_deq oq_res p in (Some d, f, p', k))"
| "override_spec (CoolantPut c) (f, p, k) = (None, f, p, spec_enq 15 k c)"
| "override_spec CoolantGet (f, p, k) = (let (d, k') = spec_deq oq_res k in (Some d, f, p, k'))"
| "override_spec Flush _ = (None, [], [], [])"

fun override_spec_run :: "override_op list \<Rightarrow> override_abs \<Rightarrow> u8 option list \<times> override_abs" where
  "override_spec_run [] a = ([], a)"
| "override_spec_run (x # xs) a =
     (let (r, a') = override_spec x a; (rs, a'') = override_spec_run xs a' in (r # rs, a''))"

definition override_abs :: "override_state \<Rightarrow> override_abs" where
  "override_abs s = (oq_list (feed s), oq_list (spindle s), oq_list (coolant s))"

lemmas override_ops =
  enqueue_feed_override_def get_feed_override_def enqueue_spindle_override_def
  get_spindle_override_def enqueue_coolant_override_def get_coolant_override_def
  flush_override_buffers_def

lemma oq_flush_simps [simp]: "oq_list (oq_flush q) = []" "oq_inv (oq_flush q) = (length (oq_buf q) = 16)"
  by (simp_all add: oq_flush_def oq_list_def oq_inv_def ring_list_empty OVERRIDE_BUFSIZE_def)

lemma override_step_inv: "override_inv s \<Longrightarrow> override_inv (snd (override_step x s))"
  by (cases x)
     (auto simp: override_ops override_inv_def oq_put_inv split_beta oq_get_inv,
      auto simp: oq_inv_def OVERRIDE_BUFSIZE_def)

lemma override_step_refines:
  "override_inv s \<Longrightarrow>
   override_spec x (override_abs s) =
     (fst (override_step x s), override_abs (snd (override_step x s)))"
  by (cases x)
     (simp_all add: override_ops override_inv_def override_abs_def oq_put_list oq_get_spec split_beta)

lemma override_run_refines:
  "override_inv s \<Longrightarrow> override_inv (snd (override_run xs s)) \<and>
   override_spec_run xs (override_abs s) =
     (fst (override_run xs s), override_abs (snd (override_run xs s)))"
proof (induction xs arbitrary: s)
  case Nil
  then show ?case by simp
next
  case (Cons x xs)
  have "override_inv (snd (override_step x s))" using Cons.prems by (rule override_step_inv)
  from Cons.IH [OF this] override_step_refines [OF Cons.prems, of x] show ?case
    by (simp add: split_beta)
qed

text \<open>
  C19. From the firmware's initial state, every sequence of enqueue, get and flush calls on the
  three override queues returns exactly what three independent first-in first-out lists bounded
  by 15 entries return; in particular no call on one queue affects another and nothing is lost
  or reordered before a queue is full.
\<close>

theorem override_queues_refine:
  "override_spec_run ops ([], [], []) =
     (fst (override_run ops override_init), override_abs (snd (override_run ops override_init)))"
proof -
  have "override_inv override_init" and "override_abs override_init = ([], [], [])"
    by (simp_all add: override_inv_def override_init_def override_abs_def oq_init_inv)
  then show ?thesis using override_run_refines [of override_init ops] by simp
qed

text \<open>
  The ring indices never leave the buffer: after any sequence of calls every head and tail is
  below 16, every buffer keeps its 16 slots, and no queue holds more than 15 commands.
\<close>

theorem override_queues_safe:
  "let s = snd (override_run ops override_init)
   in override_inv s \<and> length (oq_list (feed s)) \<le> 15 \<and> length (oq_list (spindle s)) \<le> 15 \<and>
      length (oq_list (coolant s)) \<le> 15"
proof -
  have "override_inv override_init"
    by (simp add: override_inv_def override_init_def oq_init_inv)
  then have "override_inv (snd (override_run ops override_init))"
    using override_run_refines by blast
  then show ?thesis by (auto simp: Let_def override_inv_def oq.inv_bound)
qed

end
