(* ===== verification/Canbus.thy ===== *)
theory Canbus
  imports Prelude
begin

text \<open>
  The CAN bus plugin core, \<open>grbl/canbus.c\<close>: a transmit and a receive ring of 8 slots, the
  receive interrupt, the 1 ms poll task and the baud rate setting. The driver's \<open>can_put\<close>,
  \<open>can_start\<close> and \<open>can_set_baud\<close> (weak functions the board support replaces) are parameters;
  so is what a registered receive callback does to this module, the list of transmit calls it
  makes.
\<close>

subsection \<open>State\<close>

definition CANBUS_BUFFER_LEN :: nat where
  "CANBUS_BUFFER_LEN = 8"

record canbus_message =
  can_id :: u32
  can_len :: u8
  can_data :: "u8 list"

record 'e can_ring =
  cr_head :: u8
  cr_tail :: u8
  cr_buf :: "'e list"

record 'cb canbus =
  isEnabled :: bool
  tx_buffer :: "(canbus_message \<times> bool) can_ring"
  rx_buffer :: "(canbus_message \<times> 'cb option) can_ring"
  canbus_baud :: u8
  poll_tasks :: nat \<comment> \<open>how many times \<open>canbus_poll\<close> was added to the systick tasks\<close>

definition can_next :: "u8 \<Rightarrow> u8" where
  "can_next i = of_nat ((unat i + 1) mod CANBUS_BUFFER_LEN)"

definition ring_put :: "'e can_ring \<Rightarrow> 'e \<Rightarrow> bool \<times> 'e can_ring" where
  "ring_put r e =
     (let next_head = can_next (cr_head r)
      in if next_head \<noteq> cr_tail r
         then (True, r\<lparr>cr_buf := (cr_buf r)[unat (cr_head r) := e], cr_head := next_head\<rparr>)
         else (False, r))"

definition ring_front :: "'e can_ring \<Rightarrow> 'e option" where
  "ring_front r = (if cr_head r \<noteq> cr_tail r then Some (cr_buf r ! unat (cr_tail r)) else None)"

definition ring_drop :: "'e can_ring \<Rightarrow> 'e can_ring" where
  "ring_drop r = r\<lparr>cr_tail := can_next (cr_tail r)\<rparr>"

subsection \<open>Operations\<close>

text \<open>What the module does, as a trace: a message accepted for transmission, a message accepted
  from the receive interrupt, an attempt to transmit with the driver's answer, a message handed
  to its callback.\<close>

datatype 'cb can_event =
    Queued canbus_message bool
  | Received canbus_message "'cb option"
  | CanPut canbus_message bool bool
  | Delivered canbus_message "'cb option"

definition canbus_queue_rx ::
  "'cb canbus \<Rightarrow> canbus_message \<Rightarrow> 'cb option \<Rightarrow> bool \<times> 'cb can_event list \<times> 'cb canbus" where
  "canbus_queue_rx s message callback =
     (let (ok, r) = ring_put (rx_buffer s) (message, callback)
      in (ok, if ok then [Received message callback] else [], s\<lparr>rx_buffer := r\<rparr>))"

definition canbus_queue_tx ::
  "'cb canbus \<Rightarrow> canbus_message \<Rightarrow> bool \<Rightarrow> bool \<times> 'cb can_event list \<times> 'cb canbus" where
  "canbus_queue_tx s message ext_id =
     (let (ok, r) = ring_put (tx_buffer s) (message, ext_id)
      in (ok, if ok then [Queued message ext_id] else [], s\<lparr>tx_buffer := r\<rparr>))"

fun queue_all ::
  "'cb canbus \<Rightarrow> (canbus_message \<times> bool) list \<Rightarrow> 'cb can_event list \<times> 'cb canbus" where
  "queue_all s [] = ([], s)"
| "queue_all s ((m, ext) # ms) =
     (let (_, ev, s') = canbus_queue_tx s m ext; (ev', s'') = queue_all s' ms in (ev @ ev', s''))"

definition canbus_poll_tx ::
  "(canbus_message \<Rightarrow> bool \<Rightarrow> bool) \<Rightarrow> 'cb canbus \<Rightarrow> 'cb can_event list \<times> 'cb canbus" where
  "canbus_poll_tx can_put s =
     (case ring_front (tx_buffer s) of None \<Rightarrow> ([], s)
      | Some (m, ext) \<Rightarrow>
          ([CanPut m ext (can_put m ext)],
           if can_put m ext then s\<lparr>tx_buffer := ring_drop (tx_buffer s)\<rparr> else s))"

definition canbus_poll_rx ::
  "('cb \<Rightarrow> canbus_message \<Rightarrow> (canbus_message \<times> bool) list) \<Rightarrow> 'cb canbus \<Rightarrow>
   'cb can_event list \<times> 'cb canbus" where
  "canbus_poll_rx cb_sends s =
     (case ring_front (rx_buffer s) of None \<Rightarrow> ([], s)
      | Some (m, cb) \<Rightarrow>
          let (ev, s') = (case cb of None \<Rightarrow> ([], s) | Some f \<Rightarrow> queue_all s (cb_sends f m))
          in (Delivered m cb # ev, s'\<lparr>rx_buffer := ring_drop (rx_buffer s')\<rparr>))"

definition canbus_poll ::
  "(canbus_message \<Rightarrow> bool \<Rightarrow> bool) \<Rightarrow> ('cb \<Rightarrow> canbus_message \<Rightarrow> (canbus_message \<times> bool) list) \<Rightarrow>
   'cb canbus \<Rightarrow> 'cb can_event list \<times> 'cb canbus" where
  "canbus_poll can_put cb_sends s =
     (let (ev1, s1) = canbus_poll_tx can_put s; (ev2, s2) = canbus_poll_rx cb_sends s1
      in (ev1 @ ev2, s2))"

definition can_baud :: "u32 list" where
  "can_baud = [125000, 250000, 500000, 1000000]"

text \<open>\<open>Some True\<close> is \<open>Status_OK\<close>, \<open>Some False\<close> is \<open>Status_SettingValueOutOfRange\<close>; None is a read
  past the four entries of the baud rate table.\<close>

definition canbus_set_baud ::
  "(u32 \<Rightarrow> bool) \<Rightarrow> 'cb canbus \<Rightarrow> u32 \<Rightarrow> bool option \<times> 'cb canbus" where
  "canbus_set_baud can_set_baud s value =
     (let s = s\<lparr>canbus_baud := ucast value\<rparr>
      in (if unat (canbus_baud s) < length can_baud
          then Some (can_set_baud (can_baud ! unat (canbus_baud s))) else None, s))"

definition canbus_get_baud :: "'cb canbus \<Rightarrow> u32" where
  "canbus_get_baud s =
     (if unat (canbus_baud s) < length can_baud then ucast (canbus_baud s) else 0)"

definition canbus_start :: "(u32 \<Rightarrow> bool) \<Rightarrow> 'cb canbus \<Rightarrow> u32 \<Rightarrow> bool \<times> 'cb canbus" where
  "canbus_start can_start s baud =
     (if can_start baud then (True, s\<lparr>isEnabled := True, poll_tasks := poll_tasks s + 1\<rparr>)
      else (False, s\<lparr>isEnabled := False\<rparr>))"

definition canbus_settings_restore :: "'cb canbus \<Rightarrow> 'cb canbus" where
  "canbus_settings_restore s = s\<lparr>canbus_baud := 0\<rparr>"

definition canbus_settings_load :: "(u32 \<Rightarrow> bool) \<Rightarrow> 'cb canbus \<Rightarrow> 'cb canbus" where
  "canbus_settings_load can_start s =
     snd (canbus_start can_start s (can_baud ! unat (canbus_get_baud s)))"

subsection \<open>Invariant and abstraction\<close>

definition cr_inv :: "'e can_ring \<Rightarrow> bool" where
  "cr_inv r \<longleftrightarrow> length (cr_buf r) = 8 \<and> unat (cr_head r) < 8 \<and> unat (cr_tail r) < 8"

definition cr_list :: "'e can_ring \<Rightarrow> 'e list" where
  "cr_list r = ring_list (cr_buf r) (unat (cr_head r)) (unat (cr_tail r))"

definition ring_get :: "'e can_ring \<Rightarrow> 'e option \<times> 'e can_ring" where
  "ring_get r = (ring_front r, if ring_front r = None then r else ring_drop r)"

lemma can_next: "unat (can_next i) = Suc (unat i) mod 8"
proof -
  have "Suc (unat i) mod 8 < 8" by simp
  then have "Suc (unat i) mod 8 < 256" by linarith
  then show ?thesis by (simp add: can_next_def CANBUS_BUFFER_LEN_def unat_of_nat)
qed

lemma can_next_neq: "(can_next h \<noteq> t) = (Suc (unat h) mod 8 \<noteq> unat t)"
  by (simp add: word_unat_eq_iff can_next)

lemma cr_full: "cr_inv r \<Longrightarrow> (length (cr_list r) < 7) = (can_next (cr_head r) \<noteq> cr_tail r)"
  by (auto simp: can_next_neq cr_inv_def cr_list_def length_ring_list ring_count_cases Suc_mod_cases)

lemma cr_length: "cr_inv r \<Longrightarrow> length (cr_list r) \<le> 7"
  using ring_count_less [of 8 "unat (cr_head r)" "unat (cr_tail r)"]
  by (simp add: cr_inv_def cr_list_def length_ring_list)

lemma ring_put_inv: "cr_inv r \<Longrightarrow> cr_inv (snd (ring_put r e))"
  by (auto simp: cr_inv_def ring_put_def Let_def can_next)

lemma ring_put_ok: "cr_inv r \<Longrightarrow> fst (ring_put r e) = (length (cr_list r) < 7)"
  by (simp add: ring_put_def Let_def cr_full)

lemma ring_put_list: "cr_inv r \<Longrightarrow> cr_list (snd (ring_put r e)) = spec_enq 7 (cr_list r) e"
  using cr_full [of r] ring_list_push [of "unat (cr_head r)" "cr_buf r" "unat (cr_tail r)" e]
  by (auto simp: spec_enq_def ring_put_def Let_def can_next_neq can_next cr_list_def cr_inv_def)

lemma ring_drop_inv: "cr_inv r \<Longrightarrow> cr_inv (ring_drop r)"
  by (auto simp: cr_inv_def ring_drop_def can_next)

lemma ring_front_list:
  assumes "cr_inv r"
  shows "ring_front r = (case cr_list r of [] \<Rightarrow> None | x # _ \<Rightarrow> Some x)"
    and "ring_front r \<noteq> None \<Longrightarrow> cr_list (ring_drop r) = tl (cr_list r)"
proof -
  have "ring_front r = (case cr_list r of [] \<Rightarrow> None | x # _ \<Rightarrow> Some x) \<and>
    (ring_front r \<noteq> None \<longrightarrow> cr_list (ring_drop r) = tl (cr_list r))"
  proof (cases "cr_head r = cr_tail r")
    case True
    then show ?thesis by (simp add: ring_front_def cr_list_def ring_list_empty)
  next
    case False
    then have "unat (cr_head r) \<noteq> unat (cr_tail r)" by (auto simp: word_unat_eq_iff)
    with assms have "cr_list r = cr_buf r ! unat (cr_tail r) #
        ring_list (cr_buf r) (unat (cr_head r)) (Suc (unat (cr_tail r)) mod 8)"
      by (simp add: cr_list_def cr_inv_def ring_list_pop)
    with False show ?thesis
      by (simp add: ring_front_def ring_drop_def cr_list_def can_next)
  qed
  then show "ring_front r = (case cr_list r of [] \<Rightarrow> None | x # _ \<Rightarrow> Some x)"
    and "ring_front r \<noteq> None \<Longrightarrow> cr_list (ring_drop r) = tl (cr_list r)" by blast+
qed

interpretation can: bounded_fifo "\<lambda>r e. snd (ring_put r e)" ring_get "\<lambda>x. x" cr_list cr_inv 7
proof unfold_locales
  fix q :: "'a can_ring" and x
  assume q: "cr_inv q"
  then show "cr_inv (snd (ring_put q x))" and "cr_inv (snd (ring_get q))"
    and "cr_list (snd (ring_put q x)) = spec_enq 7 (cr_list q) x" and "length (cr_list q) \<le> 7"
    by (simp_all add: ring_put_inv ring_put_list cr_length ring_get_def ring_drop_inv)
  show "cr_list (snd (ring_get q)) = snd (spec_deq (\<lambda>x. x) (cr_list q))"
    and "fst (ring_get q) = fst (spec_deq (\<lambda>x. x) (cr_list q))"
    using ring_front_list [OF q] by (cases "cr_list q"; simp add: ring_get_def)+
qed

subsection \<open>Delivery\<close>

text \<open>What can happen to the module: a transmit request, a receive interrupt, a poll (with the
  driver's answer to a transmit attempt).\<close>

datatype 'cb can_op =
    TxRequest canbus_message bool
  | RxInterrupt canbus_message "'cb option"
  | PollTick "canbus_message \<Rightarrow> bool \<Rightarrow> bool"

fun can_step ::
  "('cb \<Rightarrow> canbus_message \<Rightarrow> (canbus_message \<times> bool) list) \<Rightarrow> 'cb can_op \<Rightarrow> 'cb canbus \<Rightarrow>
   'cb can_event list \<times> 'cb canbus" where
  "can_step sends (TxRequest m ext) s = snd (canbus_queue_tx s m ext)"
| "can_step sends (RxInterrupt m cb) s = snd (canbus_queue_rx s m cb)"
| "can_step sends (PollTick put) s = canbus_poll put sends s"

fun can_run ::
  "('cb \<Rightarrow> canbus_message \<Rightarrow> (canbus_message \<times> bool) list) \<Rightarrow> 'cb can_op list \<Rightarrow> 'cb canbus \<Rightarrow>
   'cb can_event list \<times> 'cb canbus" where
  "can_run sends [] s = ([], s)"
| "can_run sends (x # xs) s =
     (let (ev, s') = can_step sends x s; (ev', s'') = can_run sends xs s' in (ev @ ev', s''))"

fun queued :: "'cb can_event list \<Rightarrow> (canbus_message \<times> bool) list" where
  "queued [] = []"
| "queued (Queued m ext # es) = (m, ext) # queued es"
| "queued (_ # es) = queued es"

fun sent :: "'cb can_event list \<Rightarrow> (canbus_message \<times> bool) list" where
  "sent [] = []"
| "sent (CanPut m ext ok # es) = (if ok then (m, ext) # sent es else sent es)"
| "sent (_ # es) = sent es"

fun received :: "'cb can_event list \<Rightarrow> (canbus_message \<times> 'cb option) list" where
  "received [] = []"
| "received (Received m cb # es) = (m, cb) # received es"
| "received (_ # es) = received es"

fun delivered :: "'cb can_event list \<Rightarrow> (canbus_message \<times> 'cb option) list" where
  "delivered [] = []"
| "delivered (Delivered m cb # es) = (m, cb) # delivered es"
| "delivered (_ # es) = delivered es"

lemma queued_append [simp]: "queued (a @ b) = queued a @ queued b"
  by (induction a rule: queued.induct) simp_all

lemma sent_append [simp]: "sent (a @ b) = sent a @ sent b"
  by (induction a rule: sent.induct) simp_all

lemma received_append [simp]: "received (a @ b) = received a @ received b"
  by (induction a rule: received.induct) simp_all

lemma delivered_append [simp]: "delivered (a @ b) = delivered a @ delivered b"
  by (induction a rule: delivered.induct) simp_all

definition can_inv :: "'cb canbus \<Rightarrow> bool" where
  "can_inv s \<longleftrightarrow> cr_inv (tx_buffer s) \<and> cr_inv (rx_buffer s)"

text \<open>The balance a step keeps: what was pending and what was accepted since is what was sent
  (delivered) since, followed by what is still pending.\<close>

definition can_balance :: "'cb canbus \<Rightarrow> 'cb can_event list \<Rightarrow> 'cb canbus \<Rightarrow> bool" where
  "can_balance s ev s' \<longleftrightarrow>
     cr_list (tx_buffer s) @ queued ev = sent ev @ cr_list (tx_buffer s') \<and>
     cr_list (rx_buffer s) @ received ev = delivered ev @ cr_list (rx_buffer s')"


lemma can_balance_trans:
  "can_balance s ev s' \<Longrightarrow> can_balance s' ev' s'' \<Longrightarrow> can_balance s (ev @ ev') s''"
  by (simp add: can_balance_def) (metis append_assoc)

lemma can_balance_refl: "can_balance s [] s"
  by (simp add: can_balance_def)

definition can_ok :: "'cb canbus \<Rightarrow> 'cb can_event list \<times> 'cb canbus \<Rightarrow> bool" where
  "can_ok s r \<longleftrightarrow> can_inv (snd r) \<and> can_balance s (fst r) (snd r)"

lemma can_ok_trans:
  "can_ok s (ev, s') \<Longrightarrow> (can_inv s' \<Longrightarrow> can_ok s' (ev', s'')) \<Longrightarrow> can_ok s (ev @ ev', s'')"
  by (auto simp: can_ok_def intro: can_balance_trans)

lemma queue_tx_ok: "can_inv s \<Longrightarrow> can_ok s (snd (canbus_queue_tx s m ext))"
  by (auto simp: can_ok_def can_inv_def can_balance_def canbus_queue_tx_def split_beta
      ring_put_inv ring_put_ok ring_put_list spec_enq_def)

lemma queue_rx_ok: "can_inv s \<Longrightarrow> can_ok s (snd (canbus_queue_rx s m cb))"
  by (auto simp: can_ok_def can_inv_def can_balance_def canbus_queue_rx_def split_beta
      ring_put_inv ring_put_ok ring_put_list spec_enq_def)

lemma queue_all_ok: "can_inv s \<Longrightarrow> can_ok s (queue_all s ms)"
proof (induction s ms rule: queue_all.induct)
  case (1 s)
  then show ?case by (simp add: can_ok_def can_balance_refl)
next
  case (2 s m ext ms)
  obtain ok ev s' where q: "canbus_queue_tx s m ext = (ok, ev, s')" by (cases "canbus_queue_tx s m ext")
  obtain ev' s'' where r: "queue_all s' ms = (ev', s'')" by force
  have "can_ok s (ev, s')" using queue_tx_ok [OF 2(2), of m ext] q by simp
  then have "can_ok s (ev @ ev', s'')"
    by (rule can_ok_trans) (use 2(1) q r in auto)
  with q r show ?case by simp
qed

lemma queue_all_rx: "rx_buffer (snd (queue_all s ms)) = rx_buffer s"
  by (induction s ms rule: queue_all.induct)
     (auto simp: canbus_queue_tx_def split_beta)

lemma queue_all_delivered: "delivered (fst (queue_all s ms)) = []"
  by (induction s ms rule: queue_all.induct) (auto simp: canbus_queue_tx_def split_beta)

lemma poll_tx_ok: "can_inv s \<Longrightarrow> can_ok s (canbus_poll_tx put s)"
  using ring_front_list [of "tx_buffer s"]
  by (cases "cr_list (tx_buffer s)")
     (auto simp: can_ok_def can_inv_def can_balance_def canbus_poll_tx_def ring_drop_inv)

lemma drop_rx_balance:
  assumes "can_ok s (ev, s')" and "rx_buffer s' = rx_buffer s" and "delivered ev = []"
    and "can_inv s" and "ring_front (rx_buffer s) = Some (m, cb)"
  shows "can_ok s (Delivered m cb # ev, s'\<lparr>rx_buffer := ring_drop (rx_buffer s')\<rparr>)"
proof -
  obtain xs where "cr_list (rx_buffer s) = (m, cb) # xs"
    using assms(4,5) ring_front_list(1) [of "rx_buffer s"]
    by (auto simp: can_inv_def split: list.splits)
  moreover have "cr_list (ring_drop (rx_buffer s)) = tl (cr_list (rx_buffer s))"
    using assms(4,5) ring_front_list(2) [of "rx_buffer s"] by (simp add: can_inv_def)
  ultimately show ?thesis
    using assms by (auto simp: can_ok_def can_balance_def can_inv_def ring_drop_inv)
qed

lemma poll_rx_ok:
  assumes "can_inv s"
  shows "can_ok s (canbus_poll_rx sends s)"
proof (cases "ring_front (rx_buffer s)")
  case None
  with assms show ?thesis by (simp add: canbus_poll_rx_def can_ok_def can_balance_refl)
next
  case (Some e)
  obtain m cb where e: "e = (m, cb)" by force
  obtain ev s' where r: "(case cb of None \<Rightarrow> ([], s) | Some f \<Rightarrow> queue_all s (sends f m)) = (ev, s')"
    by force
  have "can_ok s (ev, s') \<and> rx_buffer s' = rx_buffer s \<and> delivered ev = []"
  proof (cases cb)
    case None
    with r assms show ?thesis by (auto simp: can_ok_def can_balance_refl)
  next
    case (Some f)
    with r have "queue_all s (sends f m) = (ev, s')" by simp
    with queue_all_ok [OF assms, of "sends f m"] queue_all_rx [of s "sends f m"]
      queue_all_delivered [of s "sends f m"]
    show ?thesis by simp
  qed
  with drop_rx_balance [of s ev s' m cb] assms Some e r show ?thesis
    by (simp add: canbus_poll_rx_def)
qed

lemma can_step_ok: "can_inv s \<Longrightarrow> can_ok s (can_step sends x s)"
proof (cases x)
  case (PollTick put)
  assume inv: "can_inv s"
  obtain ev s' where t: "canbus_poll_tx put s = (ev, s')" by force
  obtain ev' s'' where r: "canbus_poll_rx sends s' = (ev', s'')" by force
  have "can_ok s (ev @ ev', s'')"
    using poll_tx_ok [OF inv, of put] poll_rx_ok [of s' sends] t r by (auto intro: can_ok_trans)
  with t r PollTick show ?thesis by (simp add: canbus_poll_def)
qed (auto intro: queue_tx_ok queue_rx_ok)

lemma can_run_ok: "can_inv s \<Longrightarrow> can_ok s (can_run sends xs s)"
proof (induction xs arbitrary: s)
  case Nil
  then show ?case by (simp add: can_ok_def can_balance_refl)
next
  case (Cons x xs)
  obtain ev s' where t: "can_step sends x s = (ev, s')" by force
  obtain ev' s'' where r: "can_run sends xs s' = (ev', s'')" by force
  have "can_ok s (ev @ ev', s'')"
    using can_step_ok [OF Cons.prems, of sends x] Cons.IH [of s'] t r by (auto intro: can_ok_trans)
  with t r show ?case by simp
qed

definition can_ring_init :: "'e \<Rightarrow> 'e can_ring" where
  "can_ring_init e = \<lparr>cr_head = 0, cr_tail = 0, cr_buf = replicate CANBUS_BUFFER_LEN e\<rparr>"

definition canbus_zero :: "'cb canbus" where
  "canbus_zero =
     \<lparr>isEnabled = False,
      tx_buffer = can_ring_init (\<lparr>can_id = 0, can_len = 0, can_data = replicate 8 0\<rparr>, False),
      rx_buffer = can_ring_init (\<lparr>can_id = 0, can_len = 0, can_data = replicate 8 0\<rparr>, None),
      canbus_baud = 0, poll_tasks = 0\<rparr>"

lemma can_ring_init: "cr_inv (can_ring_init e)" "cr_list (can_ring_init e) = []"
  by (simp_all add: can_ring_init_def cr_inv_def cr_list_def ring_list_empty CANBUS_BUFFER_LEN_def)

text \<open>
  C15. In every history of transmit requests, receive interrupts and poll ticks (whatever the
  driver answers and whatever the callbacks transmit in turn), the messages the driver took are
  an initial part, in order and each exactly once, of the messages accepted for transmission,
  the rest being still queued; and likewise for received messages and their callbacks. A message
  the driver refused stays at the front of the queue and nothing overtakes it.
\<close>

theorem canbus_in_order_exactly_once:
  "let (ev, s) = can_run sends ops canbus_zero
   in queued ev = sent ev @ cr_list (tx_buffer s) \<and>
      received ev = delivered ev @ cr_list (rx_buffer s) \<and>
      length (cr_list (tx_buffer s)) \<le> 7 \<and> length (cr_list (rx_buffer s)) \<le> 7"
proof -
  have "can_inv canbus_zero" by (simp add: canbus_zero_def can_inv_def can_ring_init)
  from can_run_ok [OF this, of sends ops] show ?thesis
    by (auto simp: can_ok_def can_balance_def can_inv_def split_beta canbus_zero_def
        can_ring_init intro: can.inv_bound)
qed

end
