(* ===== verification/TaskQueue.thy ===== *)
theory TaskQueue
  imports Prelude
begin

text \<open>
  The task scheduler of \<open>grbl/grbllib.c\<close>: a pool of 40 nodes from which five singly linked
  queues are built (immediate, delayed, systick, on_booted, on_reset), the one-slot cache of
  the last freed node, and the foreground loop \<open>task_execute\<close>. A pointer to a node is its index
  in the pool (NULL is None); the five head pointers are one field \<open>heads\<close>. A walk along
  \<open>next\<close> pointers that would not end (a cyclic list) is None, so that every function that walks
  a list has an option result. What a task function does when it is called is the parameter
  \<open>call\<close>.
\<close>

subsection \<open>State\<close>

definition CORE_TASK_POOL_SIZE :: nat where
  "CORE_TASK_POOL_SIZE = 40"

record 'f core_task =
  t_time :: u32
  t_fn :: "'f option"
  t_data :: u32
  t_next :: "nat option"

datatype queue_id = Immediate | Delayed | Systick | OnBooted | OnReset

record 'f tasks =
  heads :: "queue_id \<Rightarrow> nat option"
  last_freed :: "nat option"
  pool :: "'f core_task list"
  last_ms :: u32 \<comment> \<open>static of \<open>task_execute\<close>\<close>
  exec_lock :: bool \<comment> \<open>static of \<open>task_execute\<close>\<close>

definition set_node :: "'f tasks \<Rightarrow> nat \<Rightarrow> ('f core_task \<Rightarrow> 'f core_task) \<Rightarrow> 'f tasks" where
  "set_node ts i f = ts\<lparr>pool := (pool ts)[i := f (pool ts ! i)]\<rparr>"

definition set_head :: "'f tasks \<Rightarrow> queue_id \<Rightarrow> nat option \<Rightarrow> 'f tasks" where
  "set_head ts q h = ts\<lparr>heads := (heads ts)(q := h)\<rparr>"

text \<open>The C comparison \<open>(int32_t)(a - b) <= 0\<close> of millisecond counters.\<close>

definition time_le :: "u32 \<Rightarrow> u32 \<Rightarrow> bool" where
  "time_le a b \<longleftrightarrow> sint (a - b) \<le> 0"

definition time_less :: "u32 \<Rightarrow> u32 \<Rightarrow> bool" where
  "time_less a b \<longleftrightarrow> sint (a - b) < 0"

subsection \<open>Allocation\<close>

definition task_free :: "'f tasks \<Rightarrow> nat \<Rightarrow> 'f tasks" where
  "task_free ts i =
     (let ts = set_node ts i (\<lambda>t. t\<lparr>t_fn := None, t_next := None\<rparr>)
      in if last_freed ts = None then ts\<lparr>last_freed := Some i\<rparr> else ts)"

fun pool_scan :: "'f core_task list \<Rightarrow> nat \<Rightarrow> nat option" where
  "pool_scan p 0 = None"
| "pool_scan p (Suc idx) = (if t_fn (p ! idx) = None then Some idx else pool_scan p idx)"

definition task_alloc :: "'f tasks \<Rightarrow> nat option \<times> 'f tasks" where
  "task_alloc ts =
     (case last_freed ts of
        Some i \<Rightarrow> (Some i, ts\<lparr>last_freed := None\<rparr>)
      | None \<Rightarrow> (pool_scan (pool ts) CORE_TASK_POOL_SIZE, ts))"

subsection \<open>Appending to a queue\<close>

partial_function (option) last_link :: "'f core_task list \<Rightarrow> nat \<Rightarrow> nat option" where
  "last_link p t = (case t_next (p ! t) of None \<Rightarrow> Some t | Some n \<Rightarrow> last_link p n)"

text \<open>The body shared by \<open>task_add_immediate\<close>, \<open>task_add_systick\<close>, \<open>task_run_on_reset\<close> and
  \<open>task_run_on_startup\<close>: fill a fresh node, then make it the head or link it to the last node.\<close>

definition task_append ::
  "queue_id \<Rightarrow> 'f option \<Rightarrow> u32 \<Rightarrow> 'f tasks \<Rightarrow> (bool \<times> 'f tasks) option" where
  "task_append q fn data ts =
     (if fn = None then Some (False, ts)
      else case task_alloc ts of
        (None, ts) \<Rightarrow> Some (False, ts)
      | (Some i, ts) \<Rightarrow>
          let ts = set_node ts i (\<lambda>t. t\<lparr>t_fn := fn, t_data := data, t_next := None\<rparr>)
          in case heads ts q of
               None \<Rightarrow> Some (True, set_head ts q (Some i))
             | Some h \<Rightarrow>
                 map_option (\<lambda>l. (True, set_node ts l (\<lambda>t. t\<lparr>t_next := Some i\<rparr>)))
                   (last_link (pool ts) h))"

definition task_add_immediate :: "'f option \<Rightarrow> u32 \<Rightarrow> 'f tasks \<Rightarrow> (bool \<times> 'f tasks) option" where
  "task_add_immediate fn data ts = task_append Immediate fn data ts"

definition task_add_systick :: "'f option \<Rightarrow> u32 \<Rightarrow> 'f tasks \<Rightarrow> (bool \<times> 'f tasks) option" where
  "task_add_systick fn data ts = task_append Systick fn data ts"

definition task_run_on_reset ::
  "bool \<Rightarrow> 'f option \<Rightarrow> u32 \<Rightarrow> 'f tasks \<Rightarrow> (bool \<times> 'f tasks) option" where
  "task_run_on_reset cold_start fn data ts =
     (if \<not> cold_start then task_append OnReset fn data ts else Some (False, ts))"

definition task_run_on_startup ::
  "bool \<Rightarrow> 'f option \<Rightarrow> u32 \<Rightarrow> 'f tasks \<Rightarrow> (bool \<times> 'f tasks) option" where
  "task_run_on_startup cold_start fn data ts =
     (if cold_start then task_append OnBooted fn data ts else task_add_immediate fn data ts)"

subsection \<open>Delayed tasks\<close>

partial_function (option) insert_link ::
  "u32 \<Rightarrow> nat \<Rightarrow> nat \<Rightarrow> 'f tasks \<Rightarrow> 'f tasks option" where
  "insert_link time i t ts =
     (case t_next (pool ts ! t) of
        None \<Rightarrow> Some (set_node (set_node ts i (\<lambda>x. x\<lparr>t_next := None\<rparr>)) t (\<lambda>x. x\<lparr>t_next := Some i\<rparr>))
      | Some n \<Rightarrow>
          if time_less time (t_time (pool ts ! n))
          then Some (set_node (set_node ts i (\<lambda>x. x\<lparr>t_next := Some n\<rparr>)) t (\<lambda>x. x\<lparr>t_next := Some i\<rparr>))
          else insert_link time i n ts)"

definition task_add_delayed ::
  "u32 \<Rightarrow> 'f option \<Rightarrow> u32 \<Rightarrow> u32 \<Rightarrow> 'f tasks \<Rightarrow> (bool \<times> 'f tasks) option" where
  "task_add_delayed ticks fn data delay_ms ts =
     (if fn = None then Some (False, ts)
      else case task_alloc ts of
        (None, ts) \<Rightarrow> Some (False, ts)
      | (Some i, ts) \<Rightarrow>
          let time = ticks + delay_ms;
              ts = set_node ts i
                     (\<lambda>t. t\<lparr>t_time := time, t_fn := fn, t_data := data, t_next := None\<rparr>)
          in case heads ts Delayed of
               None \<Rightarrow> Some (True, set_head ts Delayed (Some i))
             | Some h \<Rightarrow>
                 if time_le time (t_time (pool ts ! h))
                 then Some (True, set_head (set_node ts i (\<lambda>t. t\<lparr>t_next := Some h\<rparr>)) Delayed (Some i))
                 else map_option (\<lambda>ts. (True, ts)) (insert_link time i h ts))"

subsection \<open>Deleting\<close>

text \<open>The search loop of \<open>task_delete\<close> and \<open>task_delete_systick\<close>; \<open>match\<close> is the test of a node.\<close>

partial_function (option) delete_link ::
  "queue_id \<Rightarrow> ('f core_task \<Rightarrow> bool) \<Rightarrow> nat option \<Rightarrow> nat \<Rightarrow> 'f tasks \<Rightarrow> 'f tasks option" where
  "delete_link q match prev t ts =
     (if match (pool ts ! t)
      then Some (task_free
             (case prev of
                Some p \<Rightarrow> set_node ts p (\<lambda>x. x\<lparr>t_next := t_next (pool ts ! t)\<rparr>)
              | None \<Rightarrow> set_head ts q (t_next (pool ts ! t))) t)
      else case t_next (pool ts ! t) of
             None \<Rightarrow> Some ts
           | Some n \<Rightarrow> delete_link q match (Some t) n ts)"

definition delete_from :: "queue_id \<Rightarrow> ('f core_task \<Rightarrow> bool) \<Rightarrow> 'f tasks \<Rightarrow> 'f tasks option" where
  "delete_from q match ts =
     (case heads ts q of None \<Rightarrow> Some ts | Some h \<Rightarrow> delete_link q match None h ts)"

definition task_delete :: "'f option \<Rightarrow> u32 \<Rightarrow> 'f tasks \<Rightarrow> 'f tasks option" where
  "task_delete fn data ts =
     delete_from Delayed (\<lambda>t. fn = t_fn t \<and> (data = 0 \<or> data = t_data t)) ts"

definition task_delete_systick :: "'f option \<Rightarrow> u32 \<Rightarrow> 'f tasks \<Rightarrow> 'f tasks option" where
  "task_delete_systick fn data ts =
     delete_from Systick (\<lambda>t. fn = t_fn t \<and> data = t_data t) ts"

subsection \<open>Running tasks\<close>

text \<open>The world outside is a value of type \<open>'w\<close>; \<open>call f d\<close> is the effect of calling task function
  \<open>f\<close> with argument \<open>d\<close>, on the world and on the queues. Calling a null function is a fault.\<close>

type_synonym ('f, 'w) task_call = "'f \<Rightarrow> u32 \<Rightarrow> 'w \<times> 'f tasks \<Rightarrow> 'w \<times> 'f tasks"

definition task_run ::
  "('f, 'w) task_call \<Rightarrow> nat \<Rightarrow> 'w \<times> 'f tasks \<Rightarrow> (nat option \<times> 'w \<times> 'f tasks) option" where
  "task_run call i s =
     (let t = pool (snd s) ! i
      in case t_fn t of None \<Rightarrow> None
         | Some f \<Rightarrow> Some (t_next t, call f (t_data t) (fst s, task_free (snd s) i)))"

partial_function (option) run_list ::
  "('f, 'w) task_call \<Rightarrow> nat option \<Rightarrow> 'w \<times> 'f tasks \<Rightarrow> ('w \<times> 'f tasks) option" where
  "run_list call h s =
     (case h of None \<Rightarrow> Some s
      | Some i \<Rightarrow> Option.bind (task_run call i s) (\<lambda>(n, s'). run_list call n s'))"

partial_function (option) systick_loop ::
  "('f, 'w) task_call \<Rightarrow> nat option \<Rightarrow> 'w \<times> 'f tasks \<Rightarrow> ('w \<times> 'f tasks) option" where
  "systick_loop call h s =
     (case h of None \<Rightarrow> Some s
      | Some i \<Rightarrow>
          (case t_fn (pool (snd s) ! i) of None \<Rightarrow> None
           | Some f \<Rightarrow>
               let s' = call f (t_data (pool (snd s) ! i)) s
               in systick_loop call (t_next (pool (snd s') ! i)) s'))"

text \<open>Unlinking a node that is no longer the head of the delayed queue.\<close>

partial_function (option) unlink_walk :: "nat \<Rightarrow> nat \<Rightarrow> 'f tasks \<Rightarrow> 'f tasks option" where
  "unlink_walk task t ts =
     (case t_next (pool ts ! t) of
        None \<Rightarrow> Some ts
      | Some n \<Rightarrow>
          if n = task then Some (set_node ts t (\<lambda>x. x\<lparr>t_next := t_next (pool ts ! task)\<rparr>))
          else unlink_walk task n ts)"

definition unlink_delayed :: "nat \<Rightarrow> 'f tasks \<Rightarrow> 'f tasks option" where
  "unlink_delayed task ts =
     (if heads ts Delayed = Some task
      then Some (set_head ts Delayed (t_next (pool ts ! task)))
      else case heads ts Delayed of None \<Rightarrow> Some ts | Some t \<Rightarrow> unlink_walk task t ts)"

text \<open>\<open>intr\<close> is what an interrupt does between the test of the head and \<open>irq_disable\<close>.\<close>

partial_function (option) delayed_loop ::
  "('f, 'w) task_call \<Rightarrow> ('f tasks \<Rightarrow> 'f tasks) \<Rightarrow> u32 \<Rightarrow> 'w \<times> 'f tasks \<Rightarrow> ('w \<times> 'f tasks) option" where
  "delayed_loop call intr now s =
     (case heads (snd s) Delayed of
        None \<Rightarrow> Some s
      | Some i \<Rightarrow>
          if time_le (t_time (pool (snd s) ! i)) now
          then Option.bind (unlink_delayed i (intr (snd s)))
                 (\<lambda>ts. case t_fn (pool ts ! i) of None \<Rightarrow> None
                     | Some f \<Rightarrow>
                         delayed_loop call intr now
                           (call f (t_data (pool ts ! i)) (fst s, task_free ts i)))
          else Some s)"

definition task_execute ::
  "('f, 'w) task_call \<Rightarrow> ('f tasks \<Rightarrow> 'f tasks) \<Rightarrow> bool \<Rightarrow> u32 \<Rightarrow> 'w \<times> 'f tasks \<Rightarrow>
   ('w \<times> 'f tasks) option" where
  "task_execute call intr driver_started now s =
     Option.bind
       (if heads (snd s) Immediate \<noteq> None \<and> driver_started
        then run_list call (heads (snd s) Immediate) (fst s, set_head (snd s) Immediate None)
        else Some s)
       (\<lambda>(w, ts).
          if exec_lock ts then Some (w, ts)
          else
            let ts = ts\<lparr>exec_lock := True\<rparr>
            in map_option (\<lambda>(w, ts). (w, ts\<lparr>exec_lock := False\<rparr>))
                 (if \<not> (now = last_ms ts \<or> heads ts Delayed = heads ts Systick)
                  then Option.bind (systick_loop call (heads ts Systick) (w, ts\<lparr>last_ms := now\<rparr>))
                         (delayed_loop call intr now)
                  else Some (w, ts)))"

subsection \<open>Start up\<close>

text \<open>\<open>while((tasks.q = task_run(tasks.q)));\<close> for the on_booted and on_reset queues.\<close>

partial_function (option) run_queue ::
  "('f, 'w) task_call \<Rightarrow> queue_id \<Rightarrow> 'w \<times> 'f tasks \<Rightarrow> ('w \<times> 'f tasks) option" where
  "run_queue call q s =
     (case heads (snd s) q of None \<Rightarrow> Some s
      | Some i \<Rightarrow> Option.bind (task_run call i s)
                    (\<lambda>(n, w, ts). run_queue call q (w, set_head ts q n)))"

partial_function (option) keep_warnings ::
  "'f \<Rightarrow> nat option \<Rightarrow> nat option \<Rightarrow> 'f tasks \<Rightarrow> 'f tasks option" where
  "keep_warnings report_warning prev task ts =
     (case task of None \<Rightarrow> Some ts
      | Some i \<Rightarrow>
          (let (prev', ts') =
             (if t_fn (pool ts ! i) \<noteq> Some report_warning
              then (prev, task_free
                      (case prev of
                         Some p \<Rightarrow> set_node ts p (\<lambda>x. x\<lparr>t_next := t_next (pool ts ! i)\<rparr>)
                       | None \<Rightarrow> set_head ts OnBooted (t_next (pool ts ! i))) i)
              else (Some i, ts))
           in keep_warnings report_warning prev'
                (case prev' of Some p \<Rightarrow> t_next (pool ts' ! p) | None \<Rightarrow> heads ts' OnBooted) ts'))"

partial_function (option) drain_delayed :: "'f tasks \<Rightarrow> 'f tasks option" where
  "drain_delayed ts =
     (case heads ts Delayed of None \<Rightarrow> Some ts
      | Some h \<Rightarrow> Option.bind (task_delete (t_fn (pool ts ! h)) 0 ts) drain_delayed)"

partial_function (option) drain_systick :: "'f tasks \<Rightarrow> 'f tasks option" where
  "drain_systick ts =
     (case heads ts Systick of None \<Rightarrow> Some ts
      | Some h \<Rightarrow> Option.bind (task_delete_systick (t_fn (pool ts ! h)) 0 ts) drain_systick)"

text \<open>Up to the final endless loop of a failed self test, which is the True of the result.\<close>

definition task_execute_on_startup ::
  "('f, 'w) task_call \<Rightarrow> 'f \<Rightarrow> bool \<Rightarrow> bool \<Rightarrow> 'w \<times> 'f tasks \<Rightarrow> (bool \<times> 'w \<times> 'f tasks) option" where
  "task_execute_on_startup call report_warning driver_started linestate_event s =
     Option.bind
       (if \<not> driver_started
        then map_option (\<lambda>ts. (fst s, ts))
               (Option.bind (keep_warnings report_warning None (heads (snd s) OnBooted) (snd s))
                 (\<lambda>ts. Option.bind (drain_delayed ts) drain_systick))
        else Some s)
       (\<lambda>s. Option.bind
          (if heads (snd s) OnBooted \<noteq> None \<and> (driver_started \<or> \<not> linestate_event)
           then run_queue call OnBooted s else Some s)
          (\<lambda>s. map_option (\<lambda>s. (\<not> driver_started, s)) (run_queue call OnReset s)))"

end
