(* ===== verification/TaskQueue_Inv.thy ===== *)
theory TaskQueue_Inv
  imports TaskQueue
begin

text \<open>
  The heap invariant of the task scheduler and what its operations do to the five queues seen
  as lists: appending, inserting by due time, deleting, running.
\<close>

subsection \<open>Linked lists in the pool\<close>

fun chain :: "'f core_task list \<Rightarrow> nat option \<Rightarrow> nat list \<Rightarrow> bool" where
  "chain p h [] = (h = None)"
| "chain p h (x # xs) = (h = Some x \<and> x < length p \<and> chain p (t_next (p ! x)) xs)"

lemma chain_cong:
  assumes "chain p h xs" and "length p' = length p"
    and "\<And>x. x \<in> set xs \<Longrightarrow> t_next (p' ! x) = t_next (p ! x)"
  shows "chain p' h xs"
  using assms by (induction xs arbitrary: h) auto

lemma chain_update_other:
  "chain p h xs \<Longrightarrow> i \<notin> set xs \<Longrightarrow> chain (p[i := t]) h xs"
  by (erule chain_cong) (simp, metis nth_list_update_neq)

lemma chain_in_pool: "chain p h xs \<Longrightarrow> x \<in> set xs \<Longrightarrow> x < length p"
  by (induction xs arbitrary: h) auto

lemma chain_None [simp]: "chain p None xs \<longleftrightarrow> xs = []"
  by (cases xs) auto

lemma chain_Some: "chain p (Some h) xs \<Longrightarrow> \<exists>ys. xs = h # ys"
  by (cases xs) auto

lemma last_link_chain: "chain p (Some h) (h # xs) \<Longrightarrow> last_link p h = Some (last (h # xs))"
proof (induction xs arbitrary: h)
  case Nil
  then show ?case by (simp add: last_link.simps)
next
  case (Cons x xs)
  then have "t_next (p ! h) = Some x" and "chain p (Some x) (x # xs)" by auto
  with Cons.IH show ?case by (subst last_link.simps) simp
qed

lemma chain_append_node:
  assumes "chain p h (xs @ [l])" and "distinct (xs @ [l])" and "i \<notin> set (xs @ [l])"
    and "i < length p" and "t_next (p ! i) = None"
  shows "chain (p[l := (p ! l)\<lparr>t_next := Some i\<rparr>]) h (xs @ [l, i])"
  using assms
proof (induction xs arbitrary: h)
  case Nil
  then show ?case by (auto simp: nth_list_update)
next
  case (Cons x xs)
  then show ?case by (auto simp: nth_list_update)
qed

subsection \<open>The invariant\<close>

text \<open>
  \<open>task_repr ts ex L\<close>: queue q is the list of nodes \<open>L q\<close>; the nodes \<open>ex\<close> are in use but in no
  queue (a batch of immediate tasks being run); queues and batch share no node; a node is in
  use exactly when its function pointer is set; a cached freed node is free.
\<close>

definition used_nodes :: "nat list \<Rightarrow> (queue_id \<Rightarrow> nat list) \<Rightarrow> nat set" where
  "used_nodes ex L = set ex \<union> (\<Union>q. set (L q))"

definition task_repr :: "'f tasks \<Rightarrow> nat list \<Rightarrow> (queue_id \<Rightarrow> nat list) \<Rightarrow> bool" where
  "task_repr ts ex L \<longleftrightarrow>
     length (pool ts) = CORE_TASK_POOL_SIZE \<and>
     (\<forall>q. chain (pool ts) (heads ts q) (L q) \<and> distinct (L q)) \<and>
     (\<forall>q r. q \<noteq> r \<longrightarrow> set (L q) \<inter> set (L r) = {}) \<and>
     distinct ex \<and> (\<forall>q. set ex \<inter> set (L q) = {}) \<and> set ex \<subseteq> {..<CORE_TASK_POOL_SIZE} \<and>
     (\<forall>i < CORE_TASK_POOL_SIZE. t_fn (pool ts ! i) \<noteq> None \<longleftrightarrow> i \<in> used_nodes ex L) \<and>
     (\<forall>i. last_freed ts = Some i \<longrightarrow> i < CORE_TASK_POOL_SIZE \<and> i \<notin> used_nodes ex L)"

text \<open>What a queue holds: due time, function and argument of each node, in order.\<close>

definition entry :: "'f tasks \<Rightarrow> nat \<Rightarrow> u32 \<times> 'f option \<times> u32" where
  "entry ts i = (t_time (pool ts ! i), t_fn (pool ts ! i), t_data (pool ts ! i))"

definition entries :: "'f tasks \<Rightarrow> (queue_id \<Rightarrow> nat list) \<Rightarrow> queue_id \<Rightarrow> (u32 \<times> 'f option \<times> u32) list" where
  "entries ts L q = map (entry ts) (L q)"

lemma task_reprD:
  assumes "task_repr ts ex L"
  shows "length (pool ts) = 40" "chain (pool ts) (heads ts q) (L q)" "distinct (L q)"
    "q \<noteq> r \<Longrightarrow> set (L q) \<inter> set (L r) = {}"
    "i < 40 \<Longrightarrow> t_fn (pool ts ! i) \<noteq> None \<longleftrightarrow> i \<in> used_nodes ex L"
    "last_freed ts = Some i \<Longrightarrow> i < 40 \<and> i \<notin> used_nodes ex L"
  using assms by (auto simp: task_repr_def CORE_TASK_POOL_SIZE_def)

lemma used_in_pool: "task_repr ts ex L \<Longrightarrow> i \<in> used_nodes ex L \<Longrightarrow> i < 40"
  using chain_in_pool task_reprD(1,2)
  by (fastforce simp: used_nodes_def task_repr_def CORE_TASK_POOL_SIZE_def)

lemma batch_disjoint: "task_repr ts ex L \<Longrightarrow> j \<in> set ex \<Longrightarrow> j \<notin> set (L q)"
  by (auto simp: task_repr_def)

lemma batch_used: "j \<in> set ex \<Longrightarrow> j \<in> used_nodes ex L"
  by (simp add: used_nodes_def)

subsection \<open>Allocation\<close>

lemma pool_scan_None: "pool_scan p n = None \<Longrightarrow> i < n \<Longrightarrow> t_fn (p ! i) \<noteq> None"
  by (induction n) (auto split: if_splits elim: less_SucE)

lemma pool_scan_Some: "pool_scan p n = Some i \<Longrightarrow> i < n \<and> t_fn (p ! i) = None"
  by (induction n) (auto split: if_splits)

lemma task_alloc_repr:
  assumes "task_repr ts ex L"
  shows "case task_alloc ts of
      (None, ts') \<Rightarrow> ts' = ts \<and> used_nodes ex L = {..<40}
    | (Some i, ts') \<Rightarrow> i < 40 \<and> i \<notin> used_nodes ex L \<and> ts' = ts\<lparr>last_freed := None\<rparr>"
proof (cases "last_freed ts")
  case (Some i)
  then show ?thesis using task_reprD(6) [OF assms] by (simp add: task_alloc_def)
next
  case None
  then have [simp]: "ts\<lparr>last_freed := None\<rparr> = ts" by (cases ts) simp
  show ?thesis
  proof (cases "pool_scan (pool ts) 40")
    case N: None
    then have "i \<in> used_nodes ex L" if "i < 40" for i
      using pool_scan_None task_reprD(5) [OF assms that] that by blast
    then show ?thesis
      using None N used_in_pool [OF assms]
      by (auto simp: task_alloc_def CORE_TASK_POOL_SIZE_def)
  next
    case (Some i)
    then show ?thesis
      using None pool_scan_Some [OF Some] task_reprD(5) [OF assms, of i]
      by (auto simp: task_alloc_def CORE_TASK_POOL_SIZE_def)
  qed
qed


subsection \<open>Moving nodes between a batch and a queue\<close>

lemma pool_set_node [simp]:
  "pool (set_node ts i f) = (pool ts)[i := f (pool ts ! i)]"
  "heads (set_node ts i f) = heads ts" "last_freed (set_node ts i f) = last_freed ts"
  by (simp_all add: set_node_def)

lemma pool_set_head [simp]:
  "pool (set_head ts q h) = pool ts" "heads (set_head ts q h) = (heads ts)(q := h)"
  "last_freed (set_head ts q h) = last_freed ts"
  by (simp_all add: set_head_def)

lemma fill_repr:
  assumes "task_repr ts ex L" and "i < 40" and "i \<notin> used_nodes ex L"
    and "t_fn (g (pool ts ! i)) \<noteq> None"
  shows "task_repr (set_node (ts\<lparr>last_freed := None\<rparr>) i g) (i # ex) L"
  using assms
  by (auto simp: task_repr_def used_nodes_def CORE_TASK_POOL_SIZE_def nth_list_update
      intro!: chain_update_other)

lemma free_repr:
  assumes "task_repr ts (i # ex) L"
  shows "task_repr (task_free ts i) ex L"
proof -
  have i: "i < 40" "\<And>q. i \<notin> set (L q)" "i \<notin> set ex"
    using assms by (auto simp: task_repr_def CORE_TASK_POOL_SIZE_def)
  show ?thesis
    using assms i
    by (auto simp: task_repr_def task_free_def Let_def used_nodes_def CORE_TASK_POOL_SIZE_def
        nth_list_update intro!: chain_update_other)
qed

text \<open>Node i goes from the batch into queue q (\<open>link\<close>), or out of queue q into the batch.\<close>

lemma link_repr:
  assumes "task_repr ts (i # ex) L"
    and "length (pool ts') = 40" and "last_freed ts' = last_freed ts"
    and "\<And>j. j < 40 \<Longrightarrow> t_fn (pool ts' ! j) = t_fn (pool ts ! j)"
    and "\<And>r. r \<noteq> q \<Longrightarrow> chain (pool ts') (heads ts' r) (L r)"
    and "chain (pool ts') (heads ts' q) xs" and "distinct xs" and "set xs = insert i (set (L q))"
  shows "task_repr ts' ex (L(q := xs))"
proof -
  have u: "used_nodes ex (L(q := xs)) = used_nodes (i # ex) L"
    using assms(8) by (auto simp: used_nodes_def split: if_splits)
  have i: "\<And>q. i \<notin> set (L q)" "i \<notin> set ex"
    using assms(1) by (auto simp: task_repr_def)
  show ?thesis
    using assms i unfolding task_repr_def u
    by (auto simp: CORE_TASK_POOL_SIZE_def)
qed

lemma unlink_repr:
  assumes "task_repr ts ex L"
    and "length (pool ts') = 40" and "last_freed ts' = last_freed ts"
    and "\<And>j. j < 40 \<Longrightarrow> t_fn (pool ts' ! j) = t_fn (pool ts ! j)"
    and "\<And>r. r \<noteq> q \<Longrightarrow> chain (pool ts') (heads ts' r) (L r)"
    and "chain (pool ts') (heads ts' q) xs" and "distinct (i # xs)" and "set (L q) = insert i (set xs)"
  shows "task_repr ts' (i # ex) (L(q := xs))"
proof -
  have u: "used_nodes (i # ex) (L(q := xs)) = used_nodes ex L"
    using assms(8) by (auto simp: used_nodes_def split: if_splits) (metis insertE)
  have i: "i < 40" using used_in_pool [OF assms(1), of i] assms(8) by (auto simp: used_nodes_def)
  have "\<And>r. r \<noteq> q \<Longrightarrow> i \<notin> set (L r)" "i \<notin> set ex"
    "\<And>r. r \<noteq> q \<Longrightarrow> set xs \<inter> set (L r) = {} \<and> set (L r) \<inter> set xs = {}" "set ex \<inter> set xs = {}"
    using assms(1,8) unfolding task_repr_def by blast+
  then show ?thesis
    using assms i unfolding task_repr_def u
    by (simp add: CORE_TASK_POOL_SIZE_def)
qed

subsection \<open>Appending\<close>

lemma entry_set_node:
  "(\<And>t. t_time (f t) = t_time t \<and> t_fn (f t) = t_fn t \<and> t_data (f t) = t_data t) \<Longrightarrow>
   entry (set_node ts i f) j = entry ts j"
  by (cases "i = j"; cases "j < length (pool ts)")
     (auto simp: entry_def nth_list_update list_update_beyond)

lemma entry_set_head: "entry (set_head ts q h) j = entry ts j"
  by (simp add: entry_def)

lemma entry_fill:
  "i < length (pool ts) \<Longrightarrow>
   entry (set_node (ts\<lparr>last_freed := x\<rparr>) i g) j =
     (if j = i then (t_time (g (pool ts ! i)), t_fn (g (pool ts ! i)), t_data (g (pool ts ! i)))
      else entry ts j)"
  by (auto simp: entry_def nth_list_update)

lemma append_link:
  assumes r: "task_repr ts (i # ex) L" and n: "t_next (pool ts ! i) = None"
    and h: "heads ts q = Some h"
  shows "\<exists>l. last_link (pool ts) h = Some l \<and> l \<in> set (L q) \<and>
    task_repr (set_node ts l (\<lambda>t. t\<lparr>t_next := Some i\<rparr>)) ex (L(q := L q @ [i]))"
proof -
  have c: "chain (pool ts) (heads ts q) (L q)" and d: "distinct (L q)"
    and len: "length (pool ts) = 40" using task_reprD [OF r] by auto
  have i: "i < 40" "i \<notin> set (L q)"
    using r by (auto simp: task_repr_def CORE_TASK_POOL_SIZE_def)
  obtain ys where ys: "L q = h # ys" using c h chain_Some by fastforce
  then obtain zs l where l: "L q = zs @ [l]" by (metis append_butlast_last_id list.distinct(1))
  have ll: "last_link (pool ts) h = Some l"
    using last_link_chain [of "pool ts" h ys] c h ys l by (metis last_snoc)
  have others: "r \<noteq> q \<Longrightarrow> l \<notin> set (L r)" for r
    using task_reprD(4) [OF r, of q r] l by auto
  have "task_repr (set_node ts l (\<lambda>t. t\<lparr>t_next := Some i\<rparr>)) ex (L(q := L q @ [i]))"
  proof (rule link_repr [OF r])
    show "chain (pool (set_node ts l (\<lambda>t. t\<lparr>t_next := Some i\<rparr>)))
        (heads (set_node ts l (\<lambda>t. t\<lparr>t_next := Some i\<rparr>)) q) (L q @ [i])"
      using chain_append_node [of "pool ts" "heads ts q" zs l i] c d i l n len by simp
    show "t_fn (pool (set_node ts l (\<lambda>t. t\<lparr>t_next := Some i\<rparr>)) ! j) = t_fn (pool ts ! j)"
      if "j < 40" for j using that len by (cases "j = l") simp_all
  qed (use len d i others task_reprD(2) [OF r] in \<open>auto intro: chain_update_other\<close>)
  with ll l show ?thesis by auto
qed

lemma head_link:
  assumes r: "task_repr ts (i # ex) L" and n: "t_next (pool ts ! i) = heads ts q"
  shows "task_repr (set_head ts q (Some i)) ex (L(q := i # L q))"
proof (rule link_repr [OF r])
  have i: "i < 40" "i \<notin> set (L q)"
    using r by (auto simp: task_repr_def CORE_TASK_POOL_SIZE_def)
  then show "distinct (i # L q)" and "chain (pool (set_head ts q (Some i))) (heads (set_head ts q (Some i)) q) (i # L q)"
    using task_reprD(1,2,3) [OF r] n by auto
qed (use task_reprD(1,2) [OF r] in auto)

lemma task_append_repr:
  assumes r: "task_repr ts ex L" and free: "used_nodes ex L \<noteq> {..<40}"
  shows "\<exists>i ts'. task_append q (Some f) data ts = Some (True, ts') \<and>
    i \<notin> used_nodes ex L \<and> task_repr ts' ex (L(q := L q @ [i])) \<and>
    snd (entry ts' i) = (Some f, data) \<and> (\<forall>j. j \<noteq> i \<longrightarrow> entry ts' j = entry ts j) \<and>
    (\<forall>j \<in> set ex. pool ts' ! j = pool ts ! j)"
proof -
  obtain i where a: "task_alloc ts = (Some i, ts\<lparr>last_freed := None\<rparr>)"
    and i: "i < 40" "i \<notin> used_nodes ex L"
    using task_alloc_repr [OF r] free by (auto split: prod.splits option.splits)
  define g where "g = (\<lambda>t::'a core_task. t\<lparr>t_fn := Some f, t_data := data, t_next := None\<rparr>)"
  define ts1 where "ts1 = set_node (ts\<lparr>last_freed := None\<rparr>) i g"
  have r1: "task_repr ts1 (i # ex) L"
    unfolding ts1_def using r i by (rule fill_repr) (simp add: g_def)
  have len: "length (pool ts) = 40" using task_reprD(1) [OF r] .
  have n1: "t_next (pool ts1 ! i) = None" using i len by (simp add: ts1_def g_def)
  have e1: "snd (entry ts1 i) = (Some f, data)" "\<And>j. j \<noteq> i \<Longrightarrow> entry ts1 j = entry ts j"
    using i len by (simp_all add: ts1_def entry_fill g_def)
  have b1: "\<And>j. j \<in> set ex \<Longrightarrow> pool ts1 ! j = pool ts ! j"
    using i by (simp add: ts1_def used_nodes_def) (metis nth_list_update_neq)
  have ev: "task_append q (Some f) data ts =
      (case heads ts1 q of None \<Rightarrow> Some (True, set_head ts1 q (Some i))
       | Some h \<Rightarrow> map_option (\<lambda>l. (True, set_node ts1 l (\<lambda>t. t\<lparr>t_next := Some i\<rparr>)))
           (last_link (pool ts1) h))"
    unfolding task_append_def a ts1_def g_def by (simp add: Let_def)
  show ?thesis
  proof (cases "heads ts1 q")
    case None
    then have "L q = []" using task_reprD(2) [OF r1, of q] by simp
    with head_link [OF r1, of q] None n1 e1 b1 i show ?thesis
      unfolding ev by (auto simp: entry_set_head)
  next
    case (Some h)
    from append_link [OF r1 n1 Some] obtain l where "last_link (pool ts1) h = Some l"
      and l: "l \<in> set (L q)"
      and "task_repr (set_node ts1 l (\<lambda>t. t\<lparr>t_next := Some i\<rparr>)) ex (L(q := L q @ [i]))" by blast
    moreover have "\<And>j. j \<in> set ex \<Longrightarrow> pool (set_node ts1 l (\<lambda>t. t\<lparr>t_next := Some i\<rparr>)) ! j = pool ts ! j"
      using b1 l batch_disjoint [OF r] by (metis nth_list_update_neq pool_set_node(1))
    ultimately show ?thesis using e1 i Some
      by (intro exI [of _ i]) (auto simp: ev entry_set_node)
  qed
qed

lemma task_append_full:
  assumes r: "task_repr ts ex L" and full: "used_nodes ex L = {..<40}"
  shows "task_append q (Some f) data ts = Some (False, ts)"
  using task_alloc_repr [OF r] full by (auto simp: task_append_def split: prod.splits option.splits)

subsection \<open>Due times\<close>

text \<open>
  Relative to a base time \<open>b\<close>, the wrapping comparison of two times at most \<open>2^31 - 1\<close> ms
  ahead of the base is the comparison of their distances from it.
\<close>

definition ahead :: "u32 \<Rightarrow> u32 \<Rightarrow> nat" where
  "ahead b t = unat (t - b)"

definition in_window :: "u32 \<Rightarrow> u32 \<Rightarrow> bool" where
  "in_window b t \<longleftrightarrow> ahead b t < 2 ^ 31"

lemma sint_diff_window:
  assumes "in_window b x" and "in_window b y"
  shows "sint (x - y) = int (ahead b x) - int (ahead b y)"
proof -
  have "x - y = (x - b) - (y - b)" by simp
  then have "x - y = word_of_int (int (ahead b x) - int (ahead b y))"
    by (simp add: ahead_def wi_hom_sub)
  then have "sint (x - y) = sint (word_of_int (int (ahead b x) - int (ahead b y)) :: u32)"
    by (rule arg_cong)
  also have "\<dots> = signed_take_bit 31 (int (ahead b x) - int (ahead b y))"
    by (simp only: sint_sbintrunc') simp
  also have "\<dots> = int (ahead b x) - int (ahead b y)"
    using assms by (intro signed_take_bit_int_eq_self) (auto simp: in_window_def)
  finally show ?thesis .
qed

lemma time_le_window: "in_window b x \<Longrightarrow> in_window b y \<Longrightarrow> time_le x y \<longleftrightarrow> ahead b x \<le> ahead b y"
  by (simp add: time_le_def sint_diff_window)

lemma time_less_window: "in_window b x \<Longrightarrow> in_window b y \<Longrightarrow> time_less x y \<longleftrightarrow> ahead b x < ahead b y"
  by (simp add: time_less_def sint_diff_window)

subsection \<open>Insertion by due time\<close>

fun insert_after :: "('n \<Rightarrow> u32) \<Rightarrow> 'n \<Rightarrow> 'n list \<Rightarrow> 'n list" where
  "insert_after time x [] = [x]"
| "insert_after time x (y # ys) =
     (if time_less (time x) (time y) then x # y # ys else y # insert_after time x ys)"

fun delayed_insert :: "('n \<Rightarrow> u32) \<Rightarrow> 'n \<Rightarrow> 'n list \<Rightarrow> 'n list" where
  "delayed_insert time x [] = [x]"
| "delayed_insert time x (y # ys) =
     (if time_le (time x) (time y) then x # y # ys else y # insert_after time x ys)"

lemma set_insert_after [simp]: "set (insert_after time x ys) = insert x (set ys)"
  by (induction ys) auto

lemma distinct_insert_after [simp]: "distinct (insert_after time x ys) = distinct (x # ys)"
  by (induction ys) auto

lemma map_insert_after:
  "(\<And>y. y \<in> set (x # ys) \<Longrightarrow> time' (f y) = time y) \<Longrightarrow>
   map f (insert_after time x ys) = insert_after time' (f x) (map f ys)"
  by (induction ys) auto

lemma map_delayed_insert:
  "(\<And>y. y \<in> set (x # ys) \<Longrightarrow> time' (f y) = time y) \<Longrightarrow>
   map f (delayed_insert time x ys) = delayed_insert time' (f x) (map f ys)"
  by (cases ys) (auto intro!: map_insert_after)

lemma chain_next: "chain p h (pre @ t # post) \<Longrightarrow> t_next (p ! t) = (case post of [] \<Rightarrow> None | x # _ \<Rightarrow> Some x)"
  by (induction pre arbitrary: h) (auto split: list.splits)

lemma chain_insert_node:
  assumes "chain p h (pre @ t # post)" and "distinct (pre @ t # post)"
    and "i \<notin> set (pre @ t # post)" and "i < length p" and "n = t_next (p ! t)"
  shows "chain (p[i := (p ! i)\<lparr>t_next := n\<rparr>, t := (p ! t)\<lparr>t_next := Some i\<rparr>]) h (pre @ t # i # post)"
  using assms
proof (induction pre arbitrary: h)
  case Nil
  then have "chain p n post" "t < length p" "i \<noteq> t" "h = Some t" "t \<notin> set post" "i \<notin> set post"
    by auto
  then show ?case using Nil.prems(4) by (simp add: chain_update_other)
next
  case (Cons x xs)
  then have "x \<noteq> i" "x \<noteq> t" by auto
  with Cons show ?case by simp
qed

lemma insert_node_repr:
  assumes r: "task_repr ts (i # ex) L" and q: "L q = pre @ t # post"
    and n: "n = t_next (pool ts ! t)"
  shows "task_repr (set_node (set_node ts i (\<lambda>x. x\<lparr>t_next := n\<rparr>)) t (\<lambda>x. x\<lparr>t_next := Some i\<rparr>))
           ex (L(q := pre @ t # i # post))"
    (is "task_repr ?ts' _ _")
proof (rule link_repr [OF r])
  have c: "chain (pool ts) (heads ts q) (L q)" and d: "distinct (L q)"
    and len: "length (pool ts) = 40" using task_reprD [OF r] by auto
  have i: "i < 40" "\<And>q. i \<notin> set (L q)"
    using r by (auto simp: task_repr_def CORE_TASK_POOL_SIZE_def)
  have it: "i \<noteq> t" using i(2) [of q] q by auto
  have p: "pool ?ts' = (pool ts)[i := (pool ts ! i)\<lparr>t_next := n\<rparr>, t := (pool ts ! t)\<lparr>t_next := Some i\<rparr>]"
    using it by simp
  show "chain (pool ?ts') (heads ?ts' q) (pre @ t # i # post)"
    unfolding p using chain_insert_node [of "pool ts" "heads ts q" pre t post i n] c d i(1) i(2) [of q] len n q
    by simp
  show "t_fn (pool ?ts' ! j) = t_fn (pool ts ! j)" if "j < 40" for j
    unfolding p using that len it by (cases "j = t"; cases "j = i") simp_all
  show "chain (pool ?ts') (heads ?ts' r') (L r')" if "r' \<noteq> q" for r'
  proof -
    have "t \<notin> set (L r')" using task_reprD(4) [OF r, of q r'] that q by auto
    with i show ?thesis unfolding p using task_reprD(2) [OF r, of r'] by (simp add: chain_update_other)
  qed
  show "distinct (pre @ t # i # post)" using d q i(2) [of q] by auto
qed (use q task_reprD(1) [OF r] in auto)

lemma insert_node_frame:
  assumes "task_repr ts (i # ex) L" and "L q = pre @ t # post" and "j \<in> set ex"
  shows "pool (set_node (set_node ts i f) t g) ! j = pool ts ! j"
proof -
  have "j \<notin> set (L q)" using batch_disjoint [OF assms(1), of j q] assms(3) by simp
  then have "j \<noteq> i" "j \<noteq> t" using assms by (auto simp: task_repr_def)
  then show ?thesis by simp
qed

lemma insert_link_repr:
  assumes "task_repr ts (i # ex) L" and "L Delayed = pre @ t # post"
  shows "\<exists>ts'. insert_link (t_time (pool ts ! i)) i t ts = Some ts' \<and>
    task_repr ts' ex (L(Delayed := pre @ t # insert_after (\<lambda>j. t_time (pool ts ! j)) i post)) \<and>
    (\<forall>j. entry ts' j = entry ts j) \<and> (\<forall>j \<in> set ex. pool ts' ! j = pool ts ! j)"
  using assms
proof (induction post arbitrary: t pre)
  case Nil
  have "chain (pool ts) (heads ts Delayed) (pre @ [t])" using task_reprD(2) [OF Nil(1)] Nil(2) by metis
  then have n: "t_next (pool ts ! t) = None"
    by (auto dest: chain_next)
  with insert_node_repr [OF Nil(1,2), of None] insert_node_frame [OF Nil] show ?case
    by (subst insert_link.simps) (simp add: entry_set_node del: pool_set_node)
next
  case (Cons y ys)
  have "chain (pool ts) (heads ts Delayed) (pre @ t # y # ys)"
    using task_reprD(2) [OF Cons.prems(1)] Cons.prems(2) by metis
  then have n: "t_next (pool ts ! t) = Some y"
    by (auto dest: chain_next)
  show ?case
  proof (cases "time_less (t_time (pool ts ! i)) (t_time (pool ts ! y))")
    case True
    with insert_node_repr [OF Cons.prems, of "Some y"] insert_node_frame [OF Cons.prems] n show ?thesis
      by (subst insert_link.simps) (simp add: entry_set_node del: pool_set_node)
  next
    case False
    have q: "L Delayed = (pre @ [t]) @ y # ys" using Cons.prems(2) by simp
    have "insert_link (t_time (pool ts ! i)) i t ts = insert_link (t_time (pool ts ! i)) i y ts"
      using n False by (subst insert_link.simps) simp
    moreover have "(pre @ [t]) @ y # insert_after (\<lambda>j. t_time (pool ts ! j)) i ys =
        pre @ t # insert_after (\<lambda>j. t_time (pool ts ! j)) i (y # ys)"
      using False by simp
    ultimately show ?thesis using Cons.IH [OF Cons.prems(1) q] by metis
  qed
qed

lemma task_add_delayed_repr:
  assumes r: "task_repr ts ex L" and free: "used_nodes ex L \<noteq> {..<40}"
  shows "\<exists>i ts'. task_add_delayed ticks (Some f) data delay_ms ts = Some (True, ts') \<and>
    i \<notin> used_nodes ex L \<and>
    task_repr ts' ex (L(Delayed := delayed_insert (\<lambda>j. t_time (pool ts' ! j)) i (L Delayed))) \<and>
    entry ts' i = (ticks + delay_ms, Some f, data) \<and> (\<forall>j. j \<noteq> i \<longrightarrow> entry ts' j = entry ts j) \<and>
    (\<forall>j \<in> set ex. pool ts' ! j = pool ts ! j)"
proof -
  obtain i where a: "task_alloc ts = (Some i, ts\<lparr>last_freed := None\<rparr>)"
    and i: "i < 40" "i \<notin> used_nodes ex L"
    using task_alloc_repr [OF r] free by (auto split: prod.splits option.splits)
  define g where "g = (\<lambda>t::'a core_task.
    t\<lparr>t_time := ticks + delay_ms, t_fn := Some f, t_data := data, t_next := None\<rparr>)"
  define ts1 where "ts1 = set_node (ts\<lparr>last_freed := None\<rparr>) i g"
  have r1: "task_repr ts1 (i # ex) L"
    unfolding ts1_def using r i by (rule fill_repr) (simp add: g_def)
  have len: "length (pool ts) = 40" using task_reprD(1) [OF r] .
  have n1: "t_next (pool ts1 ! i) = None" "t_time (pool ts1 ! i) = ticks + delay_ms"
    using i len by (simp_all add: ts1_def g_def)
  have e1: "entry ts1 i = (ticks + delay_ms, Some f, data)" "\<And>j. j \<noteq> i \<Longrightarrow> entry ts1 j = entry ts j"
    using i len by (simp_all add: ts1_def entry_fill g_def)
  have b1: "\<And>j. j \<in> set ex \<Longrightarrow> j \<noteq> i \<and> pool ts1 ! j = pool ts ! j"
    using i by (simp add: ts1_def used_nodes_def) (metis nth_list_update_neq)
  have ev: "task_add_delayed ticks (Some f) data delay_ms ts =
      (case heads ts1 Delayed of None \<Rightarrow> Some (True, set_head ts1 Delayed (Some i))
       | Some h \<Rightarrow>
          if time_le (ticks + delay_ms) (t_time (pool ts1 ! h))
          then Some (True, set_head (set_node ts1 i (\<lambda>t. t\<lparr>t_next := Some h\<rparr>)) Delayed (Some i))
          else map_option (\<lambda>ts. (True, ts)) (insert_link (ticks + delay_ms) i h ts1))"
    unfolding task_add_delayed_def a ts1_def g_def by (simp add: Let_def)
  have times: "(\<lambda>j. t_time (pool ts2 ! j)) = (\<lambda>j. t_time (pool ts1 ! j))"
    if "\<And>j. entry ts2 j = entry ts1 j" for ts2
    using that by (auto simp: entry_def)
  show ?thesis
  proof (cases "heads ts1 Delayed")
    case None
    then have "L Delayed = []" using task_reprD(2) [OF r1, of Delayed] by simp
    with head_link [OF r1, of Delayed] None n1 e1 b1 i show ?thesis
      by (intro exI [of _ i]) (auto simp: ev entry_set_head)
  next
    case (Some h)
    obtain ys where ys: "L Delayed = h # ys"
      using task_reprD(2) [OF r1, of Delayed] Some chain_Some by fastforce
    show ?thesis
    proof (cases "time_le (ticks + delay_ms) (t_time (pool ts1 ! h))")
      case True
      let ?ts2 = "set_node ts1 i (\<lambda>t. t\<lparr>t_next := Some h\<rparr>)"
      have "i < length (pool ts1)" using i len by (simp add: ts1_def)
      moreover have "task_repr ?ts2 (i # ex) L"
        using r1 by (auto simp: task_repr_def CORE_TASK_POOL_SIZE_def nth_list_update
            intro!: chain_update_other)
      ultimately have "task_repr (set_head ?ts2 Delayed (Some i)) ex (L(Delayed := i # L Delayed))"
        using Some by (intro head_link) simp_all
      moreover have "\<And>j. t_time (pool (set_head ?ts2 Delayed (Some i)) ! j) = t_time (pool ts1 ! j)"
        using times [of ?ts2] by (simp add: entry_set_node) metis
      moreover have "\<And>j. j \<in> set ex \<Longrightarrow> pool (set_head ?ts2 Delayed (Some i)) ! j = pool ts ! j"
        using b1 by (metis nth_list_update_neq pool_set_head(1) pool_set_node(1))
      ultimately show ?thesis using e1 i True Some ys n1
        by (intro exI [of _ i]) (auto simp: ev entry_set_node entry_set_head)
    next
      case False
      obtain ts' where ts': "insert_link (ticks + delay_ms) i h ts1 = Some ts'"
        "task_repr ts' ex (L(Delayed := h # insert_after (\<lambda>j. t_time (pool ts1 ! j)) i ys))"
        "\<And>j. entry ts' j = entry ts1 j" "\<forall>j \<in> set ex. pool ts' ! j = pool ts1 ! j"
        using insert_link_repr [OF r1, of "[]" h ys] ys n1 by auto
      with times [of ts'] False Some ys n1 e1 b1 i show ?thesis
        by (intro exI [of _ i]) (auto simp: ev fun_eq_iff)
    qed
  qed
qed

end
