(* ===== verification/TaskQueue_Run.thy ===== *)
theory TaskQueue_Run
  imports TaskQueue_Inv
begin

text \<open>
  Deleting and running tasks: \<open>task_delete\<close> removes the first matching entry, a batch of immediate
  tasks runs in order and exactly once, the delayed loop runs every due task and stops, and two
  places where the start-up code misbehaves.
\<close>

subsection \<open>Deleting\<close>

fun remove_first :: "('n \<Rightarrow> bool) \<Rightarrow> 'n list \<Rightarrow> 'n list" where
  "remove_first P [] = []"
| "remove_first P (x # xs) = (if P x then xs else x # remove_first P xs)"

lemma set_remove_first: "set (remove_first P xs) \<subseteq> set xs"
  by (induction xs) auto

lemma map_remove_first:
  "(\<And>x. x \<in> set xs \<Longrightarrow> Q (f x) = P x) \<Longrightarrow> map f (remove_first P xs) = remove_first Q (map f xs)"
  by (induction xs) auto

lemma chain_remove_node:
  assumes "chain p h (zs @ a # t # post)" and "distinct (zs @ a # t # post)"
  shows "chain (p[a := (p ! a)\<lparr>t_next := t_next (p ! t)\<rparr>]) h (zs @ a # post)"
  using assms
proof (induction zs arbitrary: h)
  case Nil
  then show ?case by (auto simp: chain_update_other)
next
  case (Cons x xs)
  then have "x \<noteq> a" by auto
  with Cons show ?case by simp
qed

lemma chain_remove_head: "chain p h (t # post) \<Longrightarrow> chain p (t_next (p ! t)) post"
  by simp

definition unlink_prev :: "queue_id \<Rightarrow> nat list \<Rightarrow> nat \<Rightarrow> 'f tasks \<Rightarrow> 'f tasks" where
  "unlink_prev q pre t ts =
     (if pre = [] then set_head ts q (t_next (pool ts ! t))
      else set_node ts (last pre) (\<lambda>x. x\<lparr>t_next := t_next (pool ts ! t)\<rparr>))"

lemma unlink_prev_repr:
  assumes r: "task_repr ts ex L" and q: "L q = pre @ t # post"
  shows "task_repr (unlink_prev q pre t ts) (t # ex) (L(q := pre @ post))"
proof (rule unlink_repr [OF r])
  have c: "chain (pool ts) (heads ts q) (pre @ t # post)" and d: "distinct (pre @ t # post)"
    and len: "length (pool ts) = 40" using task_reprD [OF r] q by metis+
  let ?ts' = "unlink_prev q pre t ts"
  show "length (pool ?ts') = 40" "last_freed ?ts' = last_freed ts"
    using len by (auto simp: unlink_prev_def)
  show "distinct (t # pre @ post)" using d by auto
  show "set (L q) = insert t (set (pre @ post))" using q by auto
  show "t_fn (pool ?ts' ! j) = t_fn (pool ts ! j)" if "j < 40" for j
    using that len by (cases "j = last pre") (auto simp: unlink_prev_def)
  show "chain (pool ?ts') (heads ?ts' q) (pre @ post)"
  proof (cases "pre = []")
    case True
    with c show ?thesis by (auto simp: unlink_prev_def)
  next
    case False
    then obtain zs a where pre: "pre = zs @ [a]" by (cases pre rule: rev_cases) auto
    then show ?thesis using chain_remove_node [of "pool ts" "heads ts q" zs a t post] c d
      by (simp add: unlink_prev_def)
  qed
  show "chain (pool ?ts') (heads ?ts' r') (L r')" if "r' \<noteq> q" for r'
  proof -
    have "pre \<noteq> [] \<Longrightarrow> last pre \<notin> set (L r')"
      using task_reprD(4) [OF r, of q r'] that q by (auto dest: last_in_set)
    then show ?thesis using task_reprD(2) [OF r, of r'] that
      by (auto simp: unlink_prev_def chain_update_other)
  qed
qed

lemma unlink_prev_frame:
  "task_repr ts ex L \<Longrightarrow> L q = pre @ t # post \<Longrightarrow> j \<in> set ex \<Longrightarrow>
   pool (task_free (unlink_prev q pre t ts) t) ! j = pool ts ! j"
  using batch_disjoint [of ts ex L j q]
  by (cases pre rule: rev_cases) (auto simp: unlink_prev_def task_free_def Let_def)

lemma entry_free: "j \<noteq> i \<Longrightarrow> entry (task_free ts i) j = entry ts j"
  by (auto simp: task_free_def Let_def entry_def)

lemma entry_unlink_prev: "entry (unlink_prev q pre t ts) j = entry ts j"
  by (simp add: unlink_prev_def entry_set_node entry_set_head)

lemma delete_match:
  assumes r: "task_repr ts ex L" and q: "L q = pre @ t # post"
    and prev: "prev = (if pre = [] then None else Some (last pre))" and m: "match (pool ts ! t)"
  shows "\<exists>ts'. delete_link q match prev t ts = Some ts' \<and> task_repr ts' ex (L(q := pre @ post)) \<and>
    (\<forall>j \<in> used_nodes ex (L(q := pre @ post)). entry ts' j = entry ts j) \<and>
    (\<forall>j \<in> set ex. pool ts' ! j = pool ts ! j)"
proof -
  have "delete_link q match prev t ts = Some (task_free (unlink_prev q pre t ts) t)"
    using m prev by (subst delete_link.simps) (simp add: unlink_prev_def)
  moreover have r': "task_repr (unlink_prev q pre t ts) (t # ex) (L(q := pre @ post))"
    using unlink_prev_repr [OF r q] .
  then have "task_repr (task_free (unlink_prev q pre t ts) t) ex (L(q := pre @ post))"
    by (rule free_repr)
  moreover have "t \<notin> used_nodes ex (L(q := pre @ post))"
    using r' by (auto simp: task_repr_def used_nodes_def split: if_splits)
  then have "entry (task_free (unlink_prev q pre t ts) t) j = entry ts j"
    if "j \<in> used_nodes ex (L(q := pre @ post))" for j
    using that entry_free [of j t "unlink_prev q pre t ts"] entry_unlink_prev by metis
  ultimately show ?thesis using unlink_prev_frame [OF r q] by blast
qed

lemma delete_link_repr:
  assumes "task_repr ts ex L" and "L q = pre @ t # post"
    and "prev = (if pre = [] then None else Some (last pre))"
  shows "\<exists>ts'. delete_link q match prev t ts = Some ts' \<and>
    task_repr ts' ex (L(q := pre @ remove_first (\<lambda>j. match (pool ts ! j)) (t # post))) \<and>
    (\<forall>j \<in> used_nodes ex (L(q := pre @ remove_first (\<lambda>j. match (pool ts ! j)) (t # post))).
       entry ts' j = entry ts j) \<and> (\<forall>j \<in> set ex. pool ts' ! j = pool ts ! j)"
  using assms
proof (induction post arbitrary: t pre prev)
  case (Nil t)
  have "chain (pool ts) (heads ts q) (pre @ [t])" using task_reprD(2) [OF Nil(1)] Nil(2) by metis
  then have n: "t_next (pool ts ! t) = None" by (auto dest: chain_next)
  show ?case
  proof (cases "match (pool ts ! t)")
    case True
    with delete_match [OF Nil, of match] show ?thesis
      by (simp only: True remove_first.simps if_True simp_thms append_Nil2)
  next
    case False
    then have "pre @ remove_first (\<lambda>j. match (pool ts ! j)) [t] = L q" using Nil(2) by simp
    then have "L(q := pre @ remove_first (\<lambda>j. match (pool ts ! j)) [t]) = L" by (metis fun_upd_idem)
    moreover have "delete_link q match prev t ts = Some ts"
      using n False by (subst delete_link.simps) simp
    ultimately show ?thesis using Nil(1) by (simp only:) blast
  qed
next
  case (Cons y ys)
  have "chain (pool ts) (heads ts q) (pre @ t # y # ys)"
    using task_reprD(2) [OF Cons.prems(1)] Cons.prems(2) by metis
  then have n: "t_next (pool ts ! t) = Some y" by (auto dest: chain_next)
  show ?case
  proof (cases "match (pool ts ! t)")
    case True
    with delete_match [OF Cons.prems, of match] show ?thesis
      by (simp only: True remove_first.simps if_True simp_thms)
  next
    case False
    have q: "L q = (pre @ [t]) @ y # ys" using Cons.prems(2) by simp
    have "delete_link q match prev t ts = delete_link q match (Some t) y ts"
      using n False by (subst delete_link.simps) simp
    moreover have "(pre @ [t]) @ remove_first (\<lambda>j. match (pool ts ! j)) (y # ys) =
        pre @ remove_first (\<lambda>j. match (pool ts ! j)) (t # y # ys)"
      using False by simp
    ultimately show ?thesis using Cons.IH [OF Cons.prems(1) q, of "Some t"]
      by (simp del: remove_first.simps append_assoc)
  qed
qed

lemma delete_from_repr:
  assumes r: "task_repr ts ex L"
  shows "\<exists>ts'. delete_from q match ts = Some ts' \<and>
    task_repr ts' ex (L(q := remove_first (\<lambda>j. match (pool ts ! j)) (L q))) \<and>
    (\<forall>j \<in> used_nodes ex (L(q := remove_first (\<lambda>j. match (pool ts ! j)) (L q))).
       entry ts' j = entry ts j) \<and> (\<forall>j \<in> set ex. pool ts' ! j = pool ts ! j)"
proof (cases "heads ts q")
  case None
  then have "L q = []" using task_reprD(2) [OF r, of q] by simp
  then have "L(q := remove_first (\<lambda>j. match (pool ts ! j)) (L q)) = L" by (simp add: fun_upd_idem)
  with None r show ?thesis by (simp only: delete_from_def option.case) blast
next
  case (Some h)
  then obtain ys where "L q = [] @ h # ys"
    using task_reprD(2) [OF r, of q] chain_Some by fastforce
  from delete_link_repr [OF r this refl, of match] Some \<open>L q = [] @ h # ys\<close> show ?thesis
    by (simp only: delete_from_def option.case append_Nil simp_thms if_True)
qed

subsection \<open>Order of due times\<close>

definition due_sorted :: "u32 \<Rightarrow> (u32 \<times> 'f option \<times> u32) list \<Rightarrow> bool" where
  "due_sorted b es \<longleftrightarrow>
     (\<forall>e \<in> set es. in_window b (fst e)) \<and> sorted (map (\<lambda>e. ahead b (fst e)) es)"

lemma insert_after_sorted:
  assumes "in_window b (fst e)" and "due_sorted b es"
  shows "due_sorted b (insert_after fst e es) \<and>
    (\<forall>m. m \<le> ahead b (fst e) \<longrightarrow> (\<forall>x \<in> set es. m \<le> ahead b (fst x)) \<longrightarrow>
       (\<forall>x \<in> set (insert_after fst e es). m \<le> ahead b (fst x)))"
  using assms
proof (induction es)
  case Nil
  then show ?case by (simp add: due_sorted_def)
next
  case (Cons x xs)
  then show ?case
    by (auto simp: due_sorted_def time_less_window not_less intro: order_trans less_imp_le)
qed

lemma delayed_insert_sorted:
  assumes "in_window b (fst e)" and "due_sorted b es"
  shows "due_sorted b (delayed_insert fst e es)"
proof (cases es)
  case Nil
  with assms show ?thesis by (simp add: due_sorted_def)
next
  case (Cons x xs)
  with assms have x: "in_window b (fst x)" "due_sorted b xs" "\<forall>y \<in> set xs. ahead b (fst x) \<le> ahead b (fst y)"
    by (auto simp: due_sorted_def)
  show ?thesis
  proof (cases "time_le (fst e) (fst x)")
    case True
    then have "ahead b (fst e) \<le> ahead b (fst x)" using assms(1) x(1) by (simp add: time_le_window)
    with True assms Cons x show ?thesis by (auto simp: due_sorted_def intro: order_trans)
  next
    case False
    then have "ahead b (fst x) \<le> ahead b (fst e)" using assms(1) x(1) by (simp add: time_le_window)
    with insert_after_sorted [OF assms(1) x(2)] x False Cons show ?thesis
      by (auto simp: due_sorted_def)
  qed
qed

subsection \<open>What task functions do to the scheduler\<close>

text \<open>
  A task function's effect on this module is a sequence of calls of its interface (made with the
  millisecond counter at a given value); its other effects are recorded as a call in the log.
\<close>

datatype 'f api_call =
    AddImmediate 'f u32
  | AddDelayed 'f u32 u32
  | AddSystick 'f u32
  | DeleteDelayed 'f u32

fun api_do :: "u32 \<Rightarrow> 'f api_call \<Rightarrow> 'f tasks \<Rightarrow> 'f tasks" where
  "api_do ticks (AddImmediate f d) ts =
     (case task_add_immediate (Some f) d ts of Some (_, ts') \<Rightarrow> ts' | None \<Rightarrow> ts)"
| "api_do ticks (AddDelayed f d delay) ts =
     (case task_add_delayed ticks (Some f) d delay ts of Some (_, ts') \<Rightarrow> ts' | None \<Rightarrow> ts)"
| "api_do ticks (AddSystick f d) ts =
     (case task_add_systick (Some f) d ts of Some (_, ts') \<Rightarrow> ts' | None \<Rightarrow> ts)"
| "api_do ticks (DeleteDelayed f d) ts =
     (case task_delete (Some f) d ts of Some ts' \<Rightarrow> ts' | None \<Rightarrow> ts)"

definition program_call ::
  "u32 \<Rightarrow> ('f \<Rightarrow> u32 \<Rightarrow> 'f api_call list) \<Rightarrow> ('f, ('f \<times> u32) list) task_call" where
  "program_call ticks body f d s = (fst s @ [(f, d)], fold (api_do ticks) (body f d) (snd s))"

lemma task_add_delayed_full:
  assumes r: "task_repr ts ex L" and full: "used_nodes ex L = {..<40}"
  shows "task_add_delayed ticks (Some f) data delay ts = Some (False, ts)"
  using task_alloc_repr [OF r] full
  by (auto simp: task_add_delayed_def split: prod.splits option.splits)

definition due :: "u32 \<Rightarrow> (u32 \<times> 'f option \<times> u32) list \<Rightarrow> (u32 \<times> 'f option \<times> u32) list" where
  "due now es = filter (\<lambda>e. time_le (fst e) now) es"

lemma due_insert_after: "\<not> time_le (fst e) now \<Longrightarrow> due now (insert_after fst e es) = due now es"
  by (induction es) (auto simp: due_def)

lemma due_insert: "\<not> time_le (fst e) now \<Longrightarrow> due now (delayed_insert fst e es) = due now es"
  using due_insert_after [of e now] by (cases es) (auto simp: due_def)

lemma entries_cong: "(\<And>j. j \<in> set (L q) \<Longrightarrow> entry ts' j = entry ts j) \<Longrightarrow> entries ts' L q = entries ts L q"
  by (simp add: entries_def)

text \<open>A call keeps the invariant and leaves a running batch alone. When it deletes no delayed task and adds
  none that is already due it also keeps the order of the delayed tasks and those of them that are due.\<close>

definition api_ok :: "u32 \<Rightarrow> u32 \<Rightarrow> u32 \<Rightarrow> 'f api_call \<Rightarrow> bool" where
  "api_ok b now ticks c \<longleftrightarrow>
     (case c of
        AddDelayed f d delay \<Rightarrow> in_window b (ticks + delay) \<and> \<not> time_le (ticks + delay) now
      | DeleteDelayed f d \<Rightarrow> False
      | _ \<Rightarrow> True)"

definition preserves ::
  "u32 \<Rightarrow> u32 \<Rightarrow> nat list \<Rightarrow> (queue_id \<Rightarrow> nat list) \<Rightarrow> 'f tasks \<Rightarrow> 'f tasks \<Rightarrow> bool \<Rightarrow> bool" where
  "preserves b now ex L ts ts' ok \<longleftrightarrow>
     (\<exists>L'. task_repr ts' ex L' \<and> (\<forall>j \<in> set ex. pool ts' ! j = pool ts ! j) \<and>
       (ok \<longrightarrow> due_sorted b (entries ts L Delayed) \<longrightarrow>
          due_sorted b (entries ts' L' Delayed) \<and>
          due now (entries ts' L' Delayed) = due now (entries ts L Delayed)))"

lemma preserves_refl: "task_repr ts ex L \<Longrightarrow> preserves b now ex L ts ts ok"
  by (auto simp: preserves_def)

lemma append_preserves:
  assumes r: "task_repr ts ex L" and q: "q \<noteq> Delayed"
  shows "preserves b now ex L ts
    (case task_append q (Some f) d ts of Some (_, ts') \<Rightarrow> ts' | None \<Rightarrow> ts) ok"
proof (cases "used_nodes ex L = {..<40}")
  case True
  with task_append_full [OF r True] r show ?thesis by (simp add: preserves_refl)
next
  case False
  obtain i ts' where t: "task_append q (Some f) d ts = Some (True, ts')" and i: "i \<notin> used_nodes ex L"
    and r': "task_repr ts' ex (L(q := L q @ [i]))" and e: "\<And>j. j \<noteq> i \<Longrightarrow> entry ts' j = entry ts j"
    and p: "\<forall>j \<in> set ex. pool ts' ! j = pool ts ! j"
    using task_append_repr [OF r False, of q f d] by blast
  have "entries ts' (L(q := L q @ [i])) Delayed = entries ts L Delayed"
    using q i by (auto simp: entries_def used_nodes_def intro!: e)
  with t r' p show ?thesis by (auto simp: preserves_def)
qed

lemma entries_insert:
  assumes i: "i \<notin> set (L Delayed)" and e: "\<And>j. j \<noteq> i \<Longrightarrow> entry ts' j = entry ts j"
  shows "entries ts' (L(Delayed := delayed_insert (\<lambda>j. t_time (pool ts' ! j)) i (L Delayed))) Delayed =
    delayed_insert fst (entry ts' i) (entries ts L Delayed)"
proof -
  have "map (entry ts') (delayed_insert (\<lambda>j. t_time (pool ts' ! j)) i (L Delayed)) =
      delayed_insert fst (entry ts' i) (map (entry ts') (L Delayed))"
    by (rule map_delayed_insert) (simp add: entry_def)
  moreover have "map (entry ts') (L Delayed) = map (entry ts) (L Delayed)"
    using i by (auto intro!: e)
  ultimately show ?thesis by (simp add: entries_def)
qed

lemma add_delayed_preserves:
  assumes r: "task_repr ts ex L"
  shows "preserves b now ex L ts
    (case task_add_delayed ticks (Some f) d delay ts of Some (_, ts') \<Rightarrow> ts' | None \<Rightarrow> ts)
    (in_window b (ticks + delay) \<and> \<not> time_le (ticks + delay) now)"
proof (cases "used_nodes ex L = {..<40}")
  case True
  with task_add_delayed_full [OF r True] r show ?thesis by (simp add: preserves_refl)
next
  case False
  obtain i ts' where t: "task_add_delayed ticks (Some f) d delay ts = Some (True, ts')"
    and i: "i \<notin> used_nodes ex L"
    and r': "task_repr ts' ex (L(Delayed := delayed_insert (\<lambda>j. t_time (pool ts' ! j)) i (L Delayed)))"
    and ei: "entry ts' i = (ticks + delay, Some f, d)"
    and e: "\<And>j. j \<noteq> i \<Longrightarrow> entry ts' j = entry ts j"
    and p: "\<forall>j \<in> set ex. pool ts' ! j = pool ts ! j"
    using task_add_delayed_repr [OF r False, of ticks f d delay] by blast
  have "i \<notin> set (L Delayed)" using i by (auto simp: used_nodes_def)
  from entries_insert [of i L ts' ts, OF this e] ei
  have "in_window b (ticks + delay) \<and> \<not> time_le (ticks + delay) now \<longrightarrow> due_sorted b (entries ts L Delayed) \<longrightarrow>
      due_sorted b (entries ts' (L(Delayed := delayed_insert (\<lambda>j. t_time (pool ts' ! j)) i (L Delayed))) Delayed) \<and>
      due now (entries ts' (L(Delayed := delayed_insert (\<lambda>j. t_time (pool ts' ! j)) i (L Delayed))) Delayed) =
    due now (entries ts L Delayed)"
    by (simp add: due_insert delayed_insert_sorted)
  with t r' p show ?thesis unfolding preserves_def by (intro exI conjI) auto
qed

lemma entries_remove:
  assumes r: "task_repr ts ex L"
    and e: "\<forall>j \<in> used_nodes ex (L(q := remove_first P (L q))). entry ts' j = entry ts j"
  shows "entries ts' (L(q := remove_first P (L q))) q = map (entry ts) (remove_first P (L q))"
proof -
  have "x \<in> used_nodes ex (L(q := remove_first P (L q)))" if "x \<in> set (remove_first P (L q))" for x
    unfolding used_nodes_def by (rule UnI2, rule UN_I [of q]) (simp_all add: that)
  with e show ?thesis by (simp add: entries_def)
qed

lemma delete_preserves:
  assumes r: "task_repr ts ex L"
  shows "preserves b now ex L ts (case task_delete fn d ts of Some ts' \<Rightarrow> ts' | None \<Rightarrow> ts) False"
proof -
  obtain ts' L' where "task_delete fn d ts = Some ts'" "task_repr ts' ex L'"
    "\<forall>j \<in> set ex. pool ts' ! j = pool ts ! j"
    using delete_from_repr [OF r, of Delayed] unfolding task_delete_def by blast
  then show ?thesis by (auto simp: preserves_def)
qed

lemma api_do_preserves: "task_repr ts ex L \<Longrightarrow> preserves b now ex L ts (api_do ticks c ts) (api_ok b now ticks c)"
  by (cases c)
     (auto simp: api_ok_def task_add_immediate_def task_add_systick_def
       intro: append_preserves add_delayed_preserves delete_preserves)

lemma fold_api_preserves:
  "task_repr ts ex L \<Longrightarrow>
   preserves b now ex L ts (fold (api_do ticks) cs ts) (\<forall>c \<in> set cs. api_ok b now ticks c)"
proof (induction cs arbitrary: ts L)
  case Nil
  then show ?case by (simp add: preserves_refl)
next
  case (Cons c cs)
  obtain L' where r': "task_repr (api_do ticks c ts) ex L'"
    and p: "\<forall>j \<in> set ex. pool (api_do ticks c ts) ! j = pool ts ! j"
    and d: "api_ok b now ticks c \<Longrightarrow> due_sorted b (entries ts L Delayed) \<Longrightarrow>
      due_sorted b (entries (api_do ticks c ts) L' Delayed) \<and>
      due now (entries (api_do ticks c ts) L' Delayed) = due now (entries ts L Delayed)"
    using api_do_preserves [OF Cons.prems, of b now ticks c] by (auto simp: preserves_def)
  from Cons.IH [OF r'] obtain L'' where
    "task_repr (fold (api_do ticks) (c # cs) ts) ex L''"
    "\<forall>j \<in> set ex. pool (fold (api_do ticks) (c # cs) ts) ! j = pool (api_do ticks c ts) ! j"
    "(\<forall>c \<in> set cs. api_ok b now ticks c) \<Longrightarrow> due_sorted b (entries (api_do ticks c ts) L' Delayed) \<Longrightarrow>
      due_sorted b (entries (fold (api_do ticks) (c # cs) ts) L'' Delayed) \<and>
      due now (entries (fold (api_do ticks) (c # cs) ts) L'' Delayed) =
      due now (entries (api_do ticks c ts) L' Delayed)"
    by (auto simp: preserves_def)
  with p d show ?case unfolding preserves_def by (intro exI conjI) auto
qed

subsection \<open>The empty scheduler\<close>

text \<open>The zeroed static \<open>tasks\<close> of a cold start.\<close>

definition tasks_init :: "'f tasks" where
  "tasks_init = \<lparr>heads = (\<lambda>_. None), last_freed = None,
     pool = replicate CORE_TASK_POOL_SIZE \<lparr>t_time = 0, t_fn = None, t_data = 0, t_next = None\<rparr>,
     last_ms = 0, exec_lock = False\<rparr>"

lemma tasks_init_repr: "task_repr tasks_init [] (\<lambda>_. [])"
  by (simp add: task_repr_def tasks_init_def used_nodes_def)

lemma tasks_init_free: "used_nodes [] (\<lambda>_. []) \<noteq> {..<40}"
  by (simp add: used_nodes_def lessThan_empty_iff eq_commute [of "{}"])

lemma tasks_init_append:
  obtains i ts where "task_append q (Some f) d tasks_init = Some (True, ts)"
    and "task_repr ts [] ((\<lambda>_. [])(q := [i]))" and "snd (entry ts i) = (Some f, d)" and "i < 40"
proof -
  from task_append_repr [OF tasks_init_repr tasks_init_free, of q f d] obtain i ts where
    a: "task_append q (Some f) d tasks_init = Some (True, ts)"
    and r: "task_repr ts [] ((\<lambda>_. [])(q := [] @ [i]))" and e: "snd (entry ts i) = (Some f, d)"
    by blast
  have "i < 40" by (rule used_in_pool [OF r]) (auto simp: used_nodes_def)
  with a r e show thesis by (intro that) auto
qed

subsection \<open>Running a batch of immediate tasks\<close>

definition called :: "'f tasks \<Rightarrow> nat list \<Rightarrow> ('f \<times> u32) list" where
  "called ts xs = map (\<lambda>i. (the (t_fn (pool ts ! i)), t_data (pool ts ! i))) xs"

lemma pool_free_other: "j \<noteq> i \<Longrightarrow> pool (task_free ts i) ! j = pool ts ! j"
  by (simp add: task_free_def Let_def)

lemma length_pool_free: "length (pool (task_free ts i)) = length (pool ts)"
  by (simp add: task_free_def Let_def)

lemma run_list_batch:
  assumes "task_repr ts (xs @ ex) L" and "chain (pool ts) h xs"
  shows "\<exists>ts' L'. run_list (program_call ticks body) h (w, ts) = Some (w @ called ts xs, ts') \<and>
    task_repr ts' ex L' \<and> (\<forall>j \<in> set ex. pool ts' ! j = pool ts ! j)"
  using assms
proof (induction xs arbitrary: ts L h w)
  case Nil
  then show ?case by (auto simp: run_list.simps called_def)
next
  case (Cons i xs)
  have h: "h = Some i" and c: "chain (pool ts) (t_next (pool ts ! i)) xs" using Cons.prems(2) by auto
  have dis: "i \<notin> set xs" "i \<notin> set ex" using Cons.prems(1) by (auto simp: task_repr_def)
  have len: "length (pool ts) = 40" using task_reprD(1) [OF Cons.prems(1)] .
  obtain f where f: "t_fn (pool ts ! i) = Some f"
    using task_reprD(5) [OF Cons.prems(1), of i] used_in_pool [OF Cons.prems(1), of i]
    by (auto simp: used_nodes_def)
  define d where "d = t_data (pool ts ! i)"
  define ts1 where "ts1 = task_free ts i"
  have r1: "task_repr ts1 (xs @ ex) L" using Cons.prems(1) free_repr unfolding ts1_def by fastforce
  obtain ts2 L2 where ts2: "ts2 = fold (api_do ticks) (body f d) ts1"
    and r2: "task_repr ts2 (xs @ ex) L2" and b2: "\<forall>j \<in> set (xs @ ex). pool ts2 ! j = pool ts1 ! j"
    using fold_api_preserves [OF r1, of 0 0 ticks "body f d"] by (auto simp: preserves_def)
  have same: "\<And>j. j \<in> set (xs @ ex) \<Longrightarrow> pool ts2 ! j = pool ts ! j"
    using b2 dis pool_free_other unfolding ts1_def by (metis Un_iff set_append)
  have "chain (pool ts2) (t_next (pool ts ! i)) xs"
    using c by (rule chain_cong) (use same len task_reprD(1) [OF r2] in simp_all)
  from Cons.IH [OF r2 this, of "w @ [(f, d)]"] obtain ts' L' where
    run: "run_list (program_call ticks body) (t_next (pool ts ! i)) (w @ [(f, d)], ts2) =
        Some ((w @ [(f, d)]) @ called ts2 xs, ts')"
    and r': "task_repr ts' ex L'" and b': "\<forall>j \<in> set ex. pool ts' ! j = pool ts2 ! j"
    by blast
  have "run_list (program_call ticks body) h (w, ts) =
      run_list (program_call ticks body) (t_next (pool ts ! i)) (w @ [(f, d)], ts2)"
    by (subst run_list.simps) (simp add: h task_run_def Let_def f program_call_def ts2 ts1_def d_def)
  moreover have "called ts (i # xs) = (f, d) # called ts2 xs"
    using same by (simp add: called_def f d_def)
  ultimately show ?case using run r' b' same by auto
qed

lemma detach_immediate:
  assumes r: "task_repr ts [] L"
  shows "task_repr (set_head ts Immediate None) (L Immediate) (L(Immediate := []))"
proof -
  have u: "used_nodes (L Immediate) (L(Immediate := [])) = used_nodes [] L"
    by (auto simp: used_nodes_def split: if_splits)
  have "set (L Immediate) \<subseteq> {..<40}" using used_in_pool [OF r] by (auto simp: used_nodes_def)
  with r show ?thesis unfolding task_repr_def u by (auto simp: CORE_TASK_POOL_SIZE_def)
qed

text \<open>
  C16. Every immediate task queued when the foreground loop starts runs exactly once, in the order
  it was queued, with the argument it was queued with, and the loop over them ends, whatever the
  tasks in turn add to or delete from the scheduler's queues; tasks they queue are kept for the
  next round and the pool stays well formed.
\<close>

theorem immediate_tasks_run_in_order:
  assumes "task_repr ts [] L"
  shows "\<exists>ts' L'.
    run_list (program_call ticks body) (heads ts Immediate) (log, set_head ts Immediate None) =
      Some (log @ called ts (L Immediate), ts') \<and> task_repr ts' [] L'"
proof -
  have "chain (pool (set_head ts Immediate None)) (heads ts Immediate) (L Immediate)"
    using task_reprD(2) [OF assms] by simp
  then have "\<exists>ts' L'.
    run_list (program_call ticks body) (heads ts Immediate) (log, set_head ts Immediate None) =
      Some (log @ called (set_head ts Immediate None) (L Immediate), ts') \<and> task_repr ts' [] L'"
    using run_list_batch [of "set_head ts Immediate None" "L Immediate" "[]"] detach_immediate [OF assms]
    by simp
  then show ?thesis by (simp add: called_def)
qed

lemma immediate_tasks_run_in_order_witness:
  "\<exists>ts ts' L'. task_add_immediate (Some (1::nat)) 7 tasks_init = Some (True, ts) \<and>
     run_list (program_call 0 (\<lambda>f d. [AddImmediate (f + 1) d])) (heads ts Immediate)
       ([], set_head ts Immediate None) = Some ([(1, 7)], ts') \<and> task_repr ts' [] L'"
proof -
  obtain i ts where a: "task_append Immediate (Some (1::nat)) 7 tasks_init = Some (True, ts)"
    and r: "task_repr ts [] ((\<lambda>_. [])(Immediate := [i]))" and e: "snd (entry ts i) = (Some 1, 7)"
    by (rule tasks_init_append)
  have "called ts [i] = [(1, 7)]" using e by (simp add: called_def entry_def)
  with immediate_tasks_run_in_order [OF r, of 0 "\<lambda>f d. [AddImmediate (f + 1) d]" "[]"] a
  show ?thesis by (auto simp: task_add_immediate_def)
qed

subsection \<open>The delayed loop\<close>

lemma unlink_walk_repr:
  assumes "chain (pool ts) h (pre @ [p] @ i # post)" and "distinct (pre @ [p] @ i # post)"
    and "h = Some t"
  shows "unlink_walk i t ts = Some (set_node ts p (\<lambda>x. x\<lparr>t_next := t_next (pool ts ! i)\<rparr>))"
  using assms
proof (induction pre arbitrary: h t)
  case Nil
  then show ?case by (subst unlink_walk.simps) simp
next
  case (Cons x xs)
  then have "t = x" by simp
  obtain n ys where n: "xs @ [p] @ i # post = n # ys" by (cases xs) auto
  with Cons.prems have nx: "t_next (pool ts ! x) = Some n" "n \<noteq> i"
    by (cases xs; auto)+
  have "unlink_walk i n ts = Some (set_node ts p (\<lambda>x. x\<lparr>t_next := t_next (pool ts ! i)\<rparr>))"
    using Cons.IH [of "Some n" n] Cons.prems nx by simp
  with nx \<open>t = x\<close> show ?case by (subst unlink_walk.simps) simp
qed

lemma unlink_delayed_eq:
  assumes r: "task_repr ts ex L" and q: "L Delayed = pre @ i # post"
  shows "unlink_delayed i ts = Some (unlink_prev Delayed pre i ts)"
proof (cases pre rule: rev_cases)
  case Nil
  then show ?thesis using task_reprD(2) [OF r, of Delayed] q
    by (simp add: unlink_delayed_def unlink_prev_def)
next
  case (snoc zs p)
  have c: "chain (pool ts) (heads ts Delayed) (zs @ [p] @ i # post)" and d: "distinct (zs @ [p] @ i # post)"
    using task_reprD(2,3) [OF r, of Delayed] q snoc by auto
  obtain t where t: "heads ts Delayed = Some t" "t \<noteq> i" using c d by (cases zs) auto
  with unlink_walk_repr [OF c d t(1)] snoc show ?thesis
    by (simp add: unlink_delayed_def unlink_prev_def)
qed

text \<open>The call of a task for an entry of a queue.\<close>

definition call_of :: "u32 \<times> 'f option \<times> u32 \<Rightarrow> 'f \<times> u32" where
  "call_of e = (the (fst (snd e)), snd (snd e))"

text \<open>One round of the loop runs the task at the head.\<close>

lemma delayed_step:
  assumes r: "task_repr ts [] L" and h: "heads ts Delayed = Some i"
    and is_due: "time_le (t_time (pool ts ! i)) now" and sorted: "due_sorted b (entries ts L Delayed)"
    and ok: "\<And>f d c. c \<in> set (body f d) \<Longrightarrow> api_ok b now ticks c"
  shows "\<exists>e ts' L'. delayed_loop (program_call ticks body) (\<lambda>ts. ts) now (w, ts) =
      delayed_loop (program_call ticks body) (\<lambda>ts. ts) now (w @ [call_of e], ts') \<and>
    task_repr ts' [] L' \<and> due_sorted b (entries ts' L' Delayed) \<and>
    due now (entries ts L Delayed) = e # due now (entries ts' L' Delayed)"
proof -
  obtain post where q: "L Delayed = [] @ i # post"
    using task_reprD(2) [OF r, of Delayed] h chain_Some by fastforce
  have iu: "i \<in> used_nodes [] L"
    unfolding used_nodes_def by (rule UnI2, rule UN_I [of Delayed]) (simp_all add: q)
  then have i: "i < 40" by (rule used_in_pool [OF r])
  then obtain f where f: "t_fn (pool ts ! i) = Some f"
    using task_reprD(5) [OF r, of i] iu by auto
  define d where "d = t_data (pool ts ! i)"
  define ts0 where "ts0 = unlink_prev Delayed [] i ts"
  define ts1 where "ts1 = task_free ts0 i"
  have r0: "task_repr ts0 [i] (L(Delayed := post))"
    using unlink_prev_repr [OF r q] by (simp add: ts0_def)
  have r1: "task_repr ts1 [] (L(Delayed := post))"
    using free_repr [OF r0] by (simp add: ts1_def)
  have node: "pool ts0 ! i = pool ts ! i" by (simp add: ts0_def unlink_prev_def)
  have "i \<notin> set post" using task_reprD(3) [OF r, of Delayed] q by simp
  then have e1: "entries ts1 (L(Delayed := post)) Delayed = map (entry ts) post"
    by (auto simp: entries_def ts1_def ts0_def intro!: trans [OF entry_free entry_unlink_prev])
  have all: "entries ts L Delayed = entry ts i # map (entry ts) post" using q by (simp add: entries_def)
  then have sorted1: "due_sorted b (entries ts1 (L(Delayed := post)) Delayed)"
    using sorted e1 by (auto simp: due_sorted_def)
  define ts2 where "ts2 = fold (api_do ticks) (body f d) ts1"
  obtain L2 where r2: "task_repr ts2 [] L2" and s2: "due_sorted b (entries ts2 L2 Delayed)"
    and c2: "due now (entries ts2 L2 Delayed) = due now (map (entry ts) post)"
    using fold_api_preserves [OF r1, of b now ticks "body f d"] ok [of _ f d] e1 sorted1
    by (auto simp: preserves_def ts2_def)
  have "due now (entries ts L Delayed) = entry ts i # due now (map (entry ts) post)"
    using is_due all by (simp add: due_def) (simp add: entry_def)
  moreover have "call_of (entry ts i) = (f, d)" using f by (simp add: call_of_def entry_def d_def)
  moreover have "delayed_loop (program_call ticks body) (\<lambda>ts. ts) now (w, ts) =
      delayed_loop (program_call ticks body) (\<lambda>ts. ts) now (w @ [(f, d)], ts2)"
    by (subst delayed_loop.simps)
       (simp add: h is_due unlink_delayed_eq [OF r q] ts0_def [symmetric] node f program_call_def
          ts1_def [symmetric] ts2_def d_def)
  ultimately show ?thesis using r2 s2 c2
    by (intro exI [of _ "entry ts i"] exI [of _ ts2] exI [of _ L2]) simp
qed

text \<open>When the head is not due, nothing is.\<close>

lemma not_due_rest:
  assumes "due_sorted b (e # es)" and "in_window b now" and "\<not> time_le (fst e) now"
  shows "due now (e # es) = []"
  using assms
  by (fastforce simp: due_def due_sorted_def time_le_window filter_empty_conv not_le)

lemma delayed_loop_runs:
  assumes "task_repr ts [] L" and "due_sorted b (entries ts L Delayed)" and now: "in_window b now"
    and ok: "\<And>f d c. c \<in> set (body f d) \<Longrightarrow> api_ok b now ticks c"
  shows "\<exists>ts' L'. delayed_loop (program_call ticks body) (\<lambda>ts. ts) now (w, ts) =
      Some (w @ map call_of (due now (entries ts L Delayed)), ts') \<and>
    task_repr ts' [] L' \<and> due_sorted b (entries ts' L' Delayed) \<and> due now (entries ts' L' Delayed) = []"
  using assms(1,2)
proof (induction "due now (entries ts L Delayed)" arbitrary: ts L w rule: length_induct)
  case (1 ts L w)
  have prems: "task_repr ts [] L" "due_sorted b (entries ts L Delayed)" by fact+
  have chain: "chain (pool ts) (heads ts Delayed) (L Delayed)" using task_reprD(2) [OF prems(1)] .
  consider "heads ts Delayed = None"
    | i where "heads ts Delayed = Some i" "time_le (t_time (pool ts ! i)) now"
    | i where "heads ts Delayed = Some i" "\<not> time_le (t_time (pool ts ! i)) now"
    by fastforce
  then show ?case
  proof cases
    case a: 1
    with chain have "entries ts L Delayed = []" by (simp add: entries_def)
    with a prems show ?thesis by (subst delayed_loop.simps) (auto simp: due_def)
  next
    case (2 i)
    obtain e ts' L' where
      eq: "delayed_loop (program_call ticks body) (\<lambda>ts. ts) now (w, ts) =
        delayed_loop (program_call ticks body) (\<lambda>ts. ts) now (w @ [call_of e], ts')"
      and r': "task_repr ts' [] L'" and s': "due_sorted b (entries ts' L' Delayed)"
      and d: "due now (entries ts L Delayed) = e # due now (entries ts' L' Delayed)"
      using delayed_step [where w = w and body = body and ticks = ticks, OF prems(1) 2 prems(2)] ok by blast
    have "length (due now (entries ts' L' Delayed)) < length (due now (entries ts L Delayed))" using d by simp
    from 1(1) [rule_format, OF this refl r' s', of "w @ [call_of e]"] show ?thesis unfolding eq d by simp
  next
    case (3 i)
    then obtain post where "L Delayed = i # post" using chain chain_Some by fastforce
    then have "due now (entries ts L Delayed) = []"
      using not_due_rest [of b "entry ts i" "map (entry ts) post" now] prems(2) now 3(2)
      by (simp add: entries_def) (simp add: entry_def)
    with 3 prems show ?thesis by (subst delayed_loop.simps) auto
  qed
qed

text \<open>
  C14. The delayed loop runs every delayed task that is due, exactly once, in order of due time and with its
  argument, and no other, and then ends with no due task left and a well-formed pool. The queue is sorted
  by due time within a window of 2^31 ms in which the loop's time lies (as scheduling keeps it, C17); the
  tasks may add immediate and periodic tasks and delayed ones that are not yet due at the loop's time, but
  delete no delayed task. Each task sees the same counter value and no interrupt changes the queues.
\<close>

theorem delayed_tasks_all_run:
  assumes "task_repr ts [] L" and "due_sorted b (entries ts L Delayed)" and "in_window b now"
    and "\<forall>f d. \<forall>c \<in> set (body f d). api_ok b now ticks c"
  shows "\<exists>ts' L'. delayed_loop (program_call ticks body) (\<lambda>ts. ts) now (log, ts) =
      Some (log @ map call_of (filter (\<lambda>e. time_le (fst e) now) (entries ts L Delayed)), ts') \<and>
    task_repr ts' [] L' \<and> due_sorted b (entries ts' L' Delayed) \<and>
    (\<forall>e \<in> set (entries ts' L' Delayed). \<not> time_le (fst e) now)"
proof -
  obtain ts' L' where l: "delayed_loop (program_call ticks body) (\<lambda>ts. ts) now (log, ts) =
      Some (log @ map call_of (due now (entries ts L Delayed)), ts')"
    "task_repr ts' [] L'" "due_sorted b (entries ts' L' Delayed)" "due now (entries ts' L' Delayed) = []"
    using delayed_loop_runs [OF assms(1-3), of body ticks log] assms(4) by blast
  then have "\<forall>e \<in> set (entries ts' L' Delayed). \<not> time_le (fst e) now"
    by (simp add: due_def filter_empty_conv)
  with l show ?thesis unfolding due_def by blast
qed

lemma delayed_tasks_all_run_witness:
  "\<exists>ts ts' L'. task_add_delayed 100 (Some (1::nat)) 7 5 tasks_init = Some (True, ts) \<and>
     delayed_loop (program_call 105 (\<lambda>f d. [AddDelayed f d 5])) (\<lambda>ts. ts) 105 ([], ts) =
       Some ([(1, 7)], ts') \<and> task_repr ts' [] L'"
proof -
  obtain i ts where a: "task_add_delayed 100 (Some (1::nat)) 7 5 tasks_init = Some (True, ts)"
    and r: "task_repr ts [] ((\<lambda>_. [])
      (Delayed := delayed_insert (\<lambda>j. t_time (pool ts ! j)) i []))"
    and e: "entry ts i = (100 + 5, Some 1, 7)"
    using task_add_delayed_repr [OF tasks_init_repr tasks_init_free, of 100 1 7 5] by blast
  let ?L = "(\<lambda>_. [])(Delayed := delayed_insert (\<lambda>j. t_time (pool ts ! j)) i [])"
  have es: "entries ts ?L Delayed = [(105, Some 1, 7)]" using e by (simp add: entries_def)
  have w: "in_window 100 105" "in_window 100 110" by (simp_all add: in_window_def ahead_def)
  have "\<forall>f d. \<forall>c \<in> set ((\<lambda>f d. [AddDelayed f d 5]) (f::nat) d). api_ok 100 105 105 c"
    using w by (simp add: api_ok_def time_le_def)
  moreover have "due_sorted 100 (entries ts ?L Delayed)" using w es by (simp add: due_sorted_def)
  moreover have "map call_of (filter (\<lambda>e. time_le (fst e) 105) (entries ts ?L Delayed)) = [(1, 7)]"
    unfolding es by (simp add: time_le_def call_of_def)
  ultimately show ?thesis using delayed_tasks_all_run [OF r _ w(1), of "\<lambda>f d. [AddDelayed f d 5]" 105 "[]"] a
    by auto
qed

subsection \<open>Scheduling\<close>

text \<open>
  C17. Scheduling a delayed task keeps the queue in order of due time, across the wrap-around of
  the millisecond counter: if all pending tasks and the new one are due less than 2^31 ms after a
  common base time, the queue stays sorted by distance from that base, and it gains exactly the
  new entry; the call reports failure only when all 40 nodes are in use.
\<close>

theorem task_add_delayed_sorted:
  assumes "task_repr ts [] L" and "used_nodes [] L \<noteq> {..<40}"
    and "due_sorted b (entries ts L Delayed)" and "in_window b (ticks + delay_ms)"
  shows "\<exists>ts' L'. task_add_delayed ticks (Some f) data delay_ms ts = Some (True, ts') \<and>
    task_repr ts' [] L' \<and> due_sorted b (entries ts' L' Delayed) \<and>
    entries ts' L' Delayed =
      delayed_insert fst (ticks + delay_ms, Some f, data) (entries ts L Delayed)"
proof -
  obtain i ts' where t: "task_add_delayed ticks (Some f) data delay_ms ts = Some (True, ts')"
    and i: "i \<notin> used_nodes [] L"
    and r': "task_repr ts' [] (L(Delayed := delayed_insert (\<lambda>j. t_time (pool ts' ! j)) i (L Delayed)))"
    and ei: "entry ts' i = (ticks + delay_ms, Some f, data)"
    and e: "\<And>j. j \<noteq> i \<Longrightarrow> entry ts' j = entry ts j"
    using task_add_delayed_repr [OF assms(1,2), of ticks f data delay_ms] by blast
  have "i \<notin> set (L Delayed)" using i by (auto simp: used_nodes_def)
  from entries_insert [of i L ts' ts, OF this e] ei
  have ent: "entries ts' (L(Delayed := delayed_insert (\<lambda>j. t_time (pool ts' ! j)) i (L Delayed))) Delayed =
    delayed_insert fst (ticks + delay_ms, Some f, data) (entries ts L Delayed)" by simp
  show ?thesis
    using t r' ent delayed_insert_sorted [of b "(ticks + delay_ms, Some f, data)"] assms(3,4)
    by (intro exI conjI) auto
qed

lemma task_add_delayed_sorted_witness:
  "\<exists>ts' L'. task_add_delayed 0xFFFFFFF0 (Some (2::nat)) 7 32 tasks_init = Some (True, ts') \<and>
     task_repr ts' [] L' \<and> entries ts' L' Delayed = [(0xFFFFFFF0 + 32, Some 2, 7)]"
proof -
  have s: "due_sorted 0xFFFFFFF0 (entries (tasks_init :: nat tasks) (\<lambda>_. []) Delayed)"
    by (simp add: due_sorted_def entries_def)
  have w: "in_window 0xFFFFFFF0 (0xFFFFFFF0 + 32)" by (simp add: in_window_def ahead_def)
  have "delayed_insert fst (0xFFFFFFF0 + 32, Some 2, 7) (entries (tasks_init :: nat tasks) (\<lambda>_. []) Delayed) =
      [(0xFFFFFFF0 + 32, Some 2, 7)]"
    by (simp add: entries_def)
  with task_add_delayed_sorted [OF tasks_init_repr tasks_init_free s w, of 2 7] show ?thesis by metis
qed

subsection \<open>What deleting a task does\<close>

text \<open>
  C18. \<open>task_delete\<close> removes exactly the earliest delayed task with the given function (and the given
  argument, unless it is NULL), keeps the order of the others and leaves the other queues alone.
\<close>

theorem task_delete_first_match:
  assumes "task_repr ts [] L"
  shows "\<exists>ts' L'. task_delete fn data ts = Some ts' \<and> task_repr ts' [] L' \<and>
    entries ts' L' Delayed =
      remove_first (\<lambda>(time, f, d). fn = f \<and> (data = 0 \<or> data = d)) (entries ts L Delayed) \<and>
    (\<forall>q. q \<noteq> Delayed \<longrightarrow> entries ts' L' q = entries ts L q)"
proof -
  let ?P = "\<lambda>j. fn = t_fn (pool ts ! j) \<and> (data = 0 \<or> data = t_data (pool ts ! j))"
  let ?L = "L(Delayed := remove_first ?P (L Delayed))"
  obtain ts' where t: "task_delete fn data ts = Some ts'" and r': "task_repr ts' [] ?L"
    and e: "\<forall>j \<in> used_nodes [] ?L. entry ts' j = entry ts j"
    using delete_from_repr [OF assms, of Delayed] unfolding task_delete_def by blast
  have "map (entry ts) (remove_first ?P (L Delayed)) =
      remove_first (\<lambda>(time, f, d). fn = f \<and> (data = 0 \<or> data = d)) (map (entry ts) (L Delayed))"
    by (rule map_remove_first) (simp add: entry_def)
  then have "entries ts' ?L Delayed =
      remove_first (\<lambda>(time, f, d). fn = f \<and> (data = 0 \<or> data = d)) (entries ts L Delayed)"
    unfolding entries_remove [OF assms e] by (simp add: entries_def)
  moreover have "entries ts' ?L q = entries ts L q" if "q \<noteq> Delayed" for q
  proof -
    have "x \<in> used_nodes [] ?L" if "x \<in> set (L q)" for x
      unfolding used_nodes_def by (rule UnI2, rule UN_I [of q]) (simp_all add: that \<open>q \<noteq> Delayed\<close>)
    with e that show ?thesis by (simp add: entries_def)
  qed
  ultimately show ?thesis using t r' by (intro exI [of _ ts'] exI [of _ ?L]) blast
qed

lemma task_delete_first_match_witness:
  "\<exists>ts' L'. task_delete (Some (2::nat)) 7 tasks_init = Some ts' \<and> task_repr ts' [] L' \<and>
     entries ts' L' Delayed = []"
  using task_delete_first_match [OF tasks_init_repr, of "Some 2" 7] by (auto simp: entries_def)

subsection \<open>Start up\<close>

lemma delete_link_no_match:
  "chain (pool ts) (Some t) (t # xs) \<Longrightarrow> \<forall>x \<in> set (t # xs). \<not> match (pool ts ! x) \<Longrightarrow>
   delete_link q match prev t ts = Some ts"
proof (induction xs arbitrary: t prev)
  case Nil
  then show ?case by (subst delete_link.simps) simp
next
  case (Cons x xs)
  then have "t_next (pool ts ! t) = Some x" by simp
  with Cons show ?case by (subst delete_link.simps) simp
qed

definition systick_stuck :: "'f tasks \<Rightarrow> bool" where
  "systick_stuck ts \<longleftrightarrow> (\<exists>h. heads ts Systick = Some h \<and>
     task_delete_systick (t_fn (pool ts ! h)) 0 ts = Some ts)"

lemma drain_systick_diverges: "systick_stuck ts \<Longrightarrow> drain_systick ts = None"
proof (rule ccontr)
  assume stuck: "systick_stuck ts" and "drain_systick ts \<noteq> None"
  then obtain r where "drain_systick ts = Some r" by blast
  then have "\<not> systick_stuck ts"
    by (rule drain_systick.raw_induct [rotated]) (fastforce simp: systick_stuck_def)
  with stuck show False by simp
qed

lemma systick_data_stuck:
  assumes r: "task_repr ts [] L" and ne: "L Systick \<noteq> []"
    and d: "\<forall>i \<in> set (L Systick). t_data (pool ts ! i) \<noteq> 0"
  shows "systick_stuck ts"
proof -
  obtain h xs where L: "L Systick = h # xs" using ne by (cases "L Systick") auto
  have c: "chain (pool ts) (heads ts Systick) (h # xs)" using task_reprD(2) [OF r, of Systick] L by simp
  then have h: "heads ts Systick = Some h" by simp
  with c have "delete_link Systick (\<lambda>t. t_fn (pool ts ! h) = t_fn t \<and> 0 = t_data t) None h ts = Some ts"
    using d L by (intro delete_link_no_match) auto
  with h show ?thesis by (simp add: systick_stuck_def task_delete_systick_def delete_from_def)
qed

text \<open>
  C6. After a failed driver start the start-up code hangs when systick tasks are queued and all of
  them have a non-NULL argument: \<open>task_delete_systick(fn, NULL)\<close>, unlike \<open>task_delete\<close>, does not take
  NULL as any argument, so the draining loop never removes its head.
\<close>

theorem startup_systick_drain_hangs:
  assumes "task_repr ts [] L" and "L OnBooted = []" and "L Delayed = []" and "L Systick \<noteq> []"
    and "\<forall>i \<in> set (L Systick). t_data (pool ts ! i) \<noteq> 0"
  shows "task_execute_on_startup call report_warning False linestate_event (w, ts) = None"
proof -
  have "heads ts OnBooted = None" "heads ts Delayed = None"
    using task_reprD(2) [OF assms(1)] assms(2,3) by (metis chain.simps(1))+
  moreover have "drain_systick ts = None"
    by (rule drain_systick_diverges [OF systick_data_stuck [OF assms(1,4,5)]])
  ultimately show ?thesis
    by (simp add: task_execute_on_startup_def keep_warnings.simps drain_delayed.simps)
qed

lemma startup_systick_drain_hangs_witness:
  "\<exists>ts. task_add_systick (Some (1::nat)) 5 tasks_init = Some (True, ts) \<and>
     task_execute_on_startup (\<lambda>f d s. s) 0 False False ((), ts) = None"
proof -
  obtain i ts where a: "task_append Systick (Some (1::nat)) 5 tasks_init = Some (True, ts)"
    and r: "task_repr ts [] ((\<lambda>_. [])(Systick := [i]))" and e: "snd (entry ts i) = (Some 1, 5)"
    by (rule tasks_init_append)
  have "t_data (pool ts ! i) = 5" using e by (simp add: entry_def)
  with startup_systick_drain_hangs [OF r, of "\<lambda>f d s. s" 0 False "()"] a show ?thesis
    by (auto simp: task_add_systick_def)
qed

definition reregister_call :: "'f \<Rightarrow> 'f \<Rightarrow> ('f, 'f list) task_call" where
  "reregister_call f g h d s =
     (fst s @ [h],
      if h = f then (case task_run_on_reset False (Some g) 0 (snd s) of
                       Some (_, ts) \<Rightarrow> ts | None \<Rightarrow> snd s)
      else snd s)"

text \<open>
  A task on the on_reset queue that itself registers an on_reset task loses it: the node just
  freed is still the head of the queue, is handed out again and linked to itself, and the head is
  then cleared. The second task never runs and its node is never freed.
\<close>

theorem on_reset_reregistration_lost:
  "\<exists>ts ts'. task_run_on_reset False (Some f) 0 tasks_init = Some (True, ts) \<and>
     run_queue (reregister_call f g) OnReset ([], ts) = Some ([f], ts') \<and>
     heads ts' OnReset = None \<and> t_fn (pool ts' ! 39) = Some g \<and> t_next (pool ts' ! 39) = Some 39"
proof -
  define node :: "'a core_task" where "node = \<lparr>t_time = 0, t_fn = None, t_data = 0, t_next = None\<rparr>"
  have scan: "pool_scan (pool (tasks_init :: 'a tasks)) 40 = Some 39"
    using pool_scan.simps(2) [of "pool (tasks_init :: 'a tasks)" 39]
    by (simp add: tasks_init_def CORE_TASK_POOL_SIZE_def)
  define ts :: "'a tasks" where
    "ts = tasks_init\<lparr>heads := (\<lambda>_. None)(OnReset := Some 39),
       pool := (pool tasks_init)[39 := node\<lparr>t_fn := Some f\<rparr>]\<rparr>"
  have n39: "pool (tasks_init :: 'a tasks) ! 39 = node" "length (pool (tasks_init :: 'a tasks)) = 40"
    by (simp_all add: tasks_init_def node_def CORE_TASK_POOL_SIZE_def)
  have a: "task_run_on_reset False (Some f) 0 tasks_init = Some (True, ts)"
    using scan n39
    by (simp add: task_run_on_reset_def task_append_def task_alloc_def set_node_def set_head_def
      ts_def CORE_TASK_POOL_SIZE_def tasks_init_def node_def)
  define ts1 :: "'a tasks" where
    "ts1 = ts\<lparr>pool := (pool tasks_init)[39 := node\<lparr>t_fn := Some g, t_next := Some 39\<rparr>]\<rparr>"
  have run: "task_run (reregister_call f g) 39 ([], ts) = Some (None, [f], ts1)"
    using n39 by (simp add: task_run_def Let_def task_free_def set_node_def reregister_call_def
      task_run_on_reset_def task_append_def task_alloc_def last_link.simps ts_def ts1_def
      tasks_init_def node_def)
  have "run_queue (reregister_call f g) OnReset ([], ts) = Some ([f], set_head ts1 OnReset None)"
    by (subst run_queue.simps, simp add: ts_def [THEN arg_cong [where f = heads]] run)
       (simp add: run_queue.simps)
  with a show ?thesis using n39
    by (intro exI [of _ ts] exI [of _ "set_head ts1 OnReset None"]) (simp add: ts1_def)
qed

end
