(* ===== verification/Modbus.thy ===== *)
theory Modbus
  imports Crc
begin

text \<open>
  The Modbus RTU client of \<open>grbl/modbus_rtu.c\<close>: the message queue, the state machine run once per
  millisecond by \<open>modbus_poll\<close>, and \<open>modbus_send_rtu\<close>, which sends either blocking, with retries,
  or by queueing the message. The serial stream is the list of received bytes \<open>mb_rx\<close> plus the
  number of bytes still to be sent, which is an input of a poll; calls of client handlers and
  of the stream are recorded in a log. Foreground code and the poll run on one thread: the poll is
  called from \<open>grbl.on_execute_realtime\<close>, so every definition below is one atomic step. A null or
  wild pointer access, an overrun of the message buffer and waiting for a spin lock that cannot
  be released are None.
\<close>

subsection \<open>Data\<close>

definition MODBUS_MAX_ADU_SIZE :: nat where "MODBUS_MAX_ADU_SIZE = 12"
definition MODBUS_QUEUE_LENGTH :: nat where "MODBUS_QUEUE_LENGTH = 8"

record modbus_message =
  m_context :: u32
  m_crc_check :: bool
  m_tx_length :: u8
  m_rx_length :: u8
  m_adu :: "u8 list"

text \<open>A handler is one of the client or the static function \<open>retry_exception\<close>.\<close>

datatype 'h handler = RetryException | Client 'h

record 'h modbus_callbacks =
  cb_retries :: u8
  cb_retry_delay :: u16
  cb_on_rx_packet :: "'h option"
  cb_on_rx_exception :: "'h handler option"
  cb_on_rx_timeout :: "'h handler option"

record 'h queue_entry =
  q_async :: bool
  q_msg :: modbus_message
  q_callbacks :: "'h modbus_callbacks"

datatype modbus_state =
    ModBus_Idle
  | ModBus_Silent
  | ModBus_TX
  | ModBus_AwaitReply
  | ModBus_TimeoutException
  | ModBus_GotReply
  | ModBus_Exception
  | ModBus_Retry

definition ModBus_NoException :: u8 where "ModBus_NoException = 0"
definition ModBus_UnknownException :: u8 where "ModBus_UnknownException = 252"
definition ModBus_IllegalSize :: u8 where "ModBus_IllegalSize = 253"
definition ModBus_CRCError :: u8 where "ModBus_CRCError = 254"
definition ModBus_Timeout :: u8 where "ModBus_Timeout = 255"

record modbus_stats =
  st_rx_count :: u32
  st_tx_count :: u32
  st_retries :: u32
  st_timeouts :: u32
  st_crc_errors :: u32
  st_rx_exceptions :: u32
  st_latency :: u32
  st_no_rx :: bool

text \<open>\<open>packet\<close> points into the queue or to the static \<open>sync_msg\<close> of \<open>modbus_send_rtu\<close>.\<close>

datatype packet_ref = Entry nat | SyncMsg

datatype 'h mb_event =
    SetDirection bool
  | FlushRx
  | FlushTx
  | SetBaud u32
  | TxWrite "u8 list"
  | OnPacket 'h modbus_message
  | OnException 'h u8 u32
  | OnTimeout 'h u8 u32

record 'h modbus_rtu =
  mb_state :: modbus_state
  mb_rx_timeout :: u32
  mb_silence_until :: u32
  mb_silence_timeout :: u32
  mb_silence :: "u16 list"
  mb_exception_code :: u8
  mb_queue :: "'h queue_entry list"
  mb_sync_msg :: "'h queue_entry"
  mb_cfg_baud_rate :: u32
  mb_cfg_rx_timeout :: u32
  mb_spin_lock :: bool
  mb_is_blocking :: bool
  mb_is_up :: bool
  mb_tail :: nat
  mb_head :: nat
  mb_packet :: "packet_ref option"
  mb_stats :: modbus_stats
  mb_has_direction :: bool \<comment> \<open>\<open>stream.set_direction != NULL\<close>\<close>
  mb_rx :: "u8 list"
  mb_log :: "'h mb_event list"

subsection \<open>Access\<close>

text \<open>The \<open>next\<close> pointers set up by \<open>modbus_rtu_init\<close> close the queue to a ring.\<close>

definition q_next :: "nat \<Rightarrow> nat" where
  "q_next i = (if i = MODBUS_QUEUE_LENGTH - 1 then 0 else i + 1)"

definition mb_entry :: "packet_ref \<Rightarrow> 'h modbus_rtu \<Rightarrow> 'h queue_entry" where
  "mb_entry p mb = (case p of Entry i \<Rightarrow> mb_queue mb ! i | SyncMsg \<Rightarrow> mb_sync_msg mb)"

definition set_entry ::
  "packet_ref \<Rightarrow> 'h queue_entry \<Rightarrow> 'h modbus_rtu \<Rightarrow> 'h modbus_rtu" where
  "set_entry p e mb =
     (case p of Entry i \<Rightarrow> mb\<lparr>mb_queue := (mb_queue mb)[i := e]\<rparr> | SyncMsg \<Rightarrow> mb\<lparr>mb_sync_msg := e\<rparr>)"

definition emit :: "'h mb_event list \<Rightarrow> 'h modbus_rtu \<Rightarrow> 'h modbus_rtu" where
  "emit es mb = mb\<lparr>mb_log := mb_log mb @ es\<rparr>"

text \<open>\<open>stream.read\<close>: the oldest received byte, or \<open>SERIAL_NO_DATA\<close>.\<close>

definition SERIAL_NO_DATA :: int where "SERIAL_NO_DATA = -1"

definition mb_read :: "'h modbus_rtu \<Rightarrow> int \<times> 'h modbus_rtu" where
  "mb_read mb =
     (case mb_rx mb of [] \<Rightarrow> (SERIAL_NO_DATA, mb) | b # bs \<Rightarrow> (uint b, mb\<lparr>mb_rx := bs\<rparr>))"

text \<open>Signed comparison of millisecond counters.\<close>

definition expired :: "u32 \<Rightarrow> u32 \<Rightarrow> bool" where
  "expired until ticks \<longleftrightarrow> sint (until - ticks) \<le> 0"

subsection \<open>Sending a message\<close>

definition no_callbacks :: "'h modbus_callbacks" where
  "no_callbacks = \<lparr>cb_retries = 0, cb_retry_delay = 0, cb_on_rx_packet = None,
     cb_on_rx_exception = None, cb_on_rx_timeout = None\<rparr>"

definition retry_exception :: "u32 \<Rightarrow> 'h modbus_rtu \<Rightarrow> 'h modbus_rtu" where
  "retry_exception ticks mb =
     (case mb_packet mb of None \<Rightarrow> mb
      | Some p \<Rightarrow>
          let cbs = q_callbacks (mb_entry p mb)
          in if cb_retries cbs = 0 then mb
             else mb\<lparr>mb_state := ModBus_Retry,
                     mb_silence_until := ticks + mb_silence_timeout mb + ucast (cb_retry_delay cbs),
                     mb_stats := (mb_stats mb)\<lparr>st_retries := st_retries (mb_stats mb) + 1\<rparr>\<rparr>)"

text \<open>The callbacks \<open>add_message\<close> stores for a message.\<close>

definition message_callbacks ::
  "bool \<Rightarrow> 'h modbus_callbacks option \<Rightarrow> bool \<Rightarrow> 'h modbus_callbacks" where
  "message_callbacks async cbs reset_pending =
     (case cbs of
        Some c \<Rightarrow>
          if reset_pending then no_callbacks
          else
            let c = (if cb_on_rx_timeout c = None
                     then c\<lparr>cb_on_rx_timeout := cb_on_rx_exception c\<rparr> else c)
            in if \<not> async \<and> cb_retries c \<noteq> 0
               then c\<lparr>cb_on_rx_exception := Some RetryException,
                       cb_on_rx_timeout := Some RetryException\<rparr>
               else c
      | None \<Rightarrow> no_callbacks)"

definition add_message ::
  "bool \<Rightarrow> packet_ref \<Rightarrow> modbus_message \<Rightarrow> bool \<Rightarrow> 'h modbus_callbacks option \<Rightarrow>
   'h modbus_rtu \<Rightarrow> 'h modbus_rtu" where
  "add_message reset_pending p msg async cbs mb =
     set_entry p \<lparr>q_async = async, q_msg = msg,
                  q_callbacks = message_callbacks async cbs reset_pending\<rparr>
       (mb\<lparr>mb_stats := (mb_stats mb)\<lparr>st_tx_count := st_tx_count (mb_stats mb) + 1\<rparr>\<rparr>)"

definition tx_message :: "packet_ref \<Rightarrow> 'h modbus_rtu \<Rightarrow> 'h modbus_rtu" where
  "tx_message p mb =
     (let msg = q_msg (mb_entry p mb)
      in emit ((if mb_has_direction mb then [SetDirection True] else []) @
               [FlushRx, TxWrite (take (unat (m_tx_length msg)) (m_adu msg))])
           (mb\<lparr>mb_packet := Some p, mb_state := ModBus_TX,
               mb_rx_timeout := mb_cfg_rx_timeout mb, mb_rx := []\<rparr>))"

subsection \<open>The poll\<close>

definition call_exception :: "'h handler option \<Rightarrow> u8 \<Rightarrow> u32 \<Rightarrow> u32 \<Rightarrow> 'h modbus_rtu \<Rightarrow> 'h modbus_rtu" where
  "call_exception f code ctx ticks mb =
     (case f of None \<Rightarrow> mb
      | Some RetryException \<Rightarrow> retry_exception ticks mb
      | Some (Client h) \<Rightarrow> emit [OnException h code ctx] mb)"

definition call_timeout :: "'h handler option \<Rightarrow> u8 \<Rightarrow> u32 \<Rightarrow> u32 \<Rightarrow> 'h modbus_rtu \<Rightarrow> 'h modbus_rtu" where
  "call_timeout f code ctx ticks mb =
     (case f of None \<Rightarrow> mb
      | Some RetryException \<Rightarrow> retry_exception ticks mb
      | Some (Client h) \<Rightarrow> emit [OnTimeout h code ctx] mb)"

definition start_silence :: "u32 \<Rightarrow> 'h modbus_rtu \<Rightarrow> 'h modbus_rtu" where
  "start_silence ticks mb = mb\<lparr>mb_silence_until := ticks + mb_silence_timeout mb\<rparr>"

text \<open>The reply timed out: an asynchronous message is dropped after telling its owner; otherwise a
  received exception frame (address, function with bit 7 set, code) is told from silence.\<close>

definition poll_timeout :: "u32 \<Rightarrow> packet_ref \<Rightarrow> 'h modbus_rtu \<Rightarrow> 'h modbus_rtu" where
  "poll_timeout ticks p mb =
     (let e = mb_entry p mb;
          mb = mb\<lparr>mb_stats := (mb_stats mb)\<lparr>st_timeouts := st_timeouts (mb_stats mb) + 1\<rparr>\<rparr>
      in start_silence ticks
           (if q_async e
            then (call_timeout (cb_on_rx_timeout (q_callbacks e)) 0 (m_context (q_msg e)) ticks
                    (mb\<lparr>mb_state := ModBus_Silent\<rparr>))\<lparr>mb_packet := None\<rparr>
            else
              let (b0, mb) = mb_read mb
              in if b0 \<noteq> uint (m_adu (q_msg e) ! 0) then mb\<lparr>mb_state := ModBus_TimeoutException\<rparr>
                 else
                   let (b1, mb) = mb_read mb
                   in if b1 AND 0x80 = 0 then mb\<lparr>mb_state := ModBus_TimeoutException\<rparr>
                      else
                        let (code, mb) = mb_read mb
                        in mb\<lparr>mb_exception_code :=
                                (if code = SERIAL_NO_DATA then ModBus_UnknownException else word_of_int code),
                              mb_state := ModBus_Exception,
                              mb_stats := (mb_stats mb)
                                \<lparr>st_rx_exceptions := st_rx_exceptions (mb_stats mb) + 1\<rparr>\<rparr>))"

text \<open>A complete reply: it is copied over the request in the message buffer (an expected length of
  0 or of more than the buffer overruns it), checked and handed on.\<close>

definition poll_reply :: "u32 \<Rightarrow> packet_ref \<Rightarrow> 'h modbus_rtu \<Rightarrow> 'h modbus_rtu option" where
  "poll_reply ticks p mb =
     (let e = mb_entry p mb;
          msg = q_msg e;
          rx_len = unat (m_rx_length msg)
      in if rx_len = 0 \<or> rx_len > MODBUS_MAX_ADU_SIZE \<or> (m_crc_check msg \<and> rx_len < 2) then None
         else
           let adu = take rx_len (mb_rx mb) @ drop rx_len (m_adu msg);
               msg = msg\<lparr>m_adu := adu, m_rx_length := 0\<rparr>;
               mb = (set_entry p (e\<lparr>q_msg := msg\<rparr>) mb)
                 \<lparr>mb_rx := drop rx_len (mb_rx mb),
                  mb_stats := (mb_stats mb)
                    \<lparr>st_rx_count := st_rx_count (mb_stats mb) + 1,
                     st_latency := max (st_latency (mb_stats mb)) (mb_cfg_rx_timeout mb - mb_rx_timeout mb)\<rparr>\<rparr>;
               crc = modbus_crc16x (take (rx_len - 2) adu)
           in Some (start_silence ticks
                (if m_crc_check msg \<and>
                    (adu ! (rx_len - 2) \<noteq> ucast (crc AND 0xFF) \<or> adu ! (rx_len - 1) \<noteq> ucast (drop_bit 8 crc))
                 then
                   let mb = mb\<lparr>mb_stats := (mb_stats mb)
                                \<lparr>st_crc_errors := st_crc_errors (mb_stats mb) + 1\<rparr>\<rparr>
                   in if q_async e
                      then (call_exception (cb_on_rx_exception (q_callbacks e)) ModBus_CRCError (m_context msg)
                              ticks (mb\<lparr>mb_state := ModBus_Silent\<rparr>))\<lparr>mb_packet := None\<rparr>
                      else mb\<lparr>mb_state := ModBus_Exception\<rparr>
                 else if q_async e
                 then
                   let mb = mb\<lparr>mb_state := ModBus_Silent\<rparr>;
                       mb = (case cb_on_rx_packet (q_callbacks e) of
                               Some h \<Rightarrow>
                                 let msg = msg\<lparr>m_rx_length := of_nat rx_len\<rparr>
                                 in emit [OnPacket h msg] (set_entry p (e\<lparr>q_msg := msg\<rparr>) mb)
                             | None \<Rightarrow> mb)
                   in mb\<lparr>mb_packet := None\<rparr>
                 else mb\<lparr>mb_state := ModBus_GotReply\<rparr>)))"

text \<open>One call of \<open>modbus_poll\<close> at millisecond \<open>ticks\<close> with \<open>tx_count\<close> bytes still to be sent.\<close>

definition modbus_poll :: "u32 \<Rightarrow> u16 \<Rightarrow> 'h modbus_rtu \<Rightarrow> 'h modbus_rtu option" where
  "modbus_poll ticks tx_count mb =
     (if mb_spin_lock mb then Some mb
      else case mb_state mb of
        ModBus_Idle \<Rightarrow>
          if mb_tail mb \<noteq> mb_head mb \<and> mb_packet mb = None \<and> \<not> mb_is_blocking mb
          then let mb = tx_message (Entry (mb_tail mb)) mb
               in Some (mb\<lparr>mb_tail := q_next (mb_tail mb)\<rparr>)
          else Some mb
      | ModBus_Silent \<Rightarrow>
          if expired (mb_silence_until mb) ticks
          then Some (mb\<lparr>mb_silence_until := 0, mb_state := ModBus_Idle\<rparr>) else Some mb
      | ModBus_TX \<Rightarrow>
          if tx_count = 0
          then Some (emit ([FlushRx] @ (if mb_has_direction mb then [SetDirection False] else []))
                      (mb\<lparr>mb_rx := [], mb_state := ModBus_AwaitReply\<rparr>))
          else Some mb
      | ModBus_AwaitReply \<Rightarrow>
          let mb' = (if mb_rx_timeout mb \<noteq> 0 then mb\<lparr>mb_rx_timeout := mb_rx_timeout mb - 1\<rparr> else mb)
          in (case mb_packet mb of
                None \<Rightarrow> None
              | Some p \<Rightarrow>
                  if mb_rx_timeout mb \<noteq> 0 \<and> mb_rx_timeout mb' = 0 then Some (poll_timeout ticks p mb')
                  else if length (mb_rx mb) \<ge> unat (m_rx_length (q_msg (mb_entry p mb)))
                  then poll_reply ticks p mb'
                  else Some mb')
      | ModBus_TimeoutException \<Rightarrow>
          (case mb_packet mb of
             None \<Rightarrow> None
           | Some p \<Rightarrow>
               let mb = (if q_async (mb_entry p mb) then mb\<lparr>mb_state := ModBus_Silent\<rparr> else mb)
               in Some (start_silence ticks
                    (mb\<lparr>mb_stats := (mb_stats mb)\<lparr>st_no_rx := mb_rx mb = []\<rparr>\<rparr>)))
      | _ \<Rightarrow> Some mb)"

subsection \<open>Blocking and queued sending\<close>

text \<open>What happens while the foreground waits in \<open>grbl.on_execute_realtime\<close>: polls, each preceded
  by the arrival of some bytes, and the millisecond counter when control returns.\<close>

record poll_input =
  in_ticks :: u32
  in_tx_count :: u16
  in_rx :: "u8 list"

type_synonym mb_env = "(poll_input list \<times> u32) list"

fun mb_polls :: "poll_input list \<Rightarrow> 'h modbus_rtu \<Rightarrow> 'h modbus_rtu option" where
  "mb_polls [] mb = Some mb"
| "mb_polls (i # is) mb =
     Option.bind (modbus_poll (in_ticks i) (in_tx_count i) (mb\<lparr>mb_rx := mb_rx mb @ in_rx i\<rparr>)) (mb_polls is)"

datatype 'a run = Returned 'a | Waiting | Fault

text \<open>The switch in the body of \<open>while(is_blocking)\<close>; the Boolean is the local \<open>block\<close>.\<close>

definition sync_step ::
  "bool \<Rightarrow> modbus_message \<Rightarrow> 'h modbus_callbacks option \<Rightarrow> u32 \<Rightarrow> bool \<times> 'h modbus_rtu \<Rightarrow>
   (bool \<times> 'h modbus_rtu) option" where
  "sync_step reset_pending msg cbs ticks s =
     (let (block, mb) = s
      in case (mb_state mb, mb_packet mb) of
        (ModBus_TimeoutException, Some p) \<Rightarrow>
          let mb = call_timeout (cb_on_rx_timeout (q_callbacks (mb_entry p mb))) ModBus_Timeout
                     (m_context (q_msg (mb_entry p mb))) ticks mb;
              again = cb_retries (q_callbacks (mb_entry p mb)) > 0;
              mb = mb\<lparr>mb_is_blocking := again\<rparr>
          in Some (block, if again then mb
                          else mb\<lparr>mb_stats := (mb_stats mb)\<lparr>st_no_rx := mb_rx mb = []\<rparr>\<rparr>)
      | (ModBus_Exception, Some p) \<Rightarrow>
          let mb = call_exception (cb_on_rx_exception (q_callbacks (mb_entry p mb))) (mb_exception_code mb)
                     (m_context (q_msg (mb_entry p mb))) ticks mb
          in Some (block, mb\<lparr>mb_is_blocking := cb_retries (q_callbacks (mb_entry p mb)) > 0\<rparr>)
      | (ModBus_GotReply, Some p) \<Rightarrow>
          let mb = (case cb_on_rx_packet (q_callbacks (mb_entry p mb)) of
                      Some h \<Rightarrow> emit [OnPacket h (q_msg (mb_entry p mb))] mb | None \<Rightarrow> mb)
          in Some (False, mb\<lparr>mb_is_blocking := False\<rparr>)
      | (ModBus_Retry, Some p) \<Rightarrow>
          if expired (mb_silence_until mb) ticks
          then
            let mb = mb\<lparr>mb_silence_until := 0\<rparr>;
                e = mb_entry p mb;
                c = (q_callbacks e)\<lparr>cb_retries := cb_retries (q_callbacks e) - 1\<rparr>
            in (if cb_retries c = 0
                then case cbs of
                       None \<Rightarrow> None
                     | Some c0 \<Rightarrow>
                         let c = c\<lparr>cb_on_rx_exception := cb_on_rx_exception c0,
                                   cb_on_rx_timeout := (if cb_on_rx_timeout c0 = None then cb_on_rx_exception c0
                                                        else cb_on_rx_timeout c0)\<rparr>
                         in Some (block, tx_message SyncMsg
                              (add_message reset_pending SyncMsg msg False (Some c) mb))
                else Some (block, tx_message SyncMsg
                              (add_message reset_pending SyncMsg msg False (Some c) mb)))
          else Some (block, mb)
      | (ModBus_TimeoutException, None) \<Rightarrow> None
      | (ModBus_Exception, None) \<Rightarrow> None
      | (ModBus_GotReply, None) \<Rightarrow> None
      | (ModBus_Retry, None) \<Rightarrow> if expired (mb_silence_until mb) ticks then None else Some (block, mb)
      | _ \<Rightarrow> Some (block, mb))"

fun sync_loop ::
  "bool \<Rightarrow> modbus_message \<Rightarrow> 'h modbus_callbacks option \<Rightarrow> mb_env \<Rightarrow> bool \<times> 'h modbus_rtu \<Rightarrow>
   (bool \<times> 'h modbus_rtu) run" where
  "sync_loop reset_pending msg cbs [] (block, mb) =
     (if mb_is_blocking mb then Waiting else Returned (block, mb))"
| "sync_loop reset_pending msg cbs ((ps, ticks) # env) (block, mb) =
     (if \<not> mb_is_blocking mb then Returned (block, mb)
      else case Option.bind (mb_polls ps mb) (\<lambda>mb. sync_step reset_pending msg cbs ticks (block, mb)) of
        None \<Rightarrow> Fault
      | Some s \<Rightarrow> sync_loop reset_pending msg cbs env s)"

text \<open>\<open>while(state != ModBus_Idle) grbl.on_execute_realtime(...);\<close>\<close>

fun wait_idle :: "mb_env \<Rightarrow> 'h modbus_rtu \<Rightarrow> (mb_env \<times> 'h modbus_rtu) run" where
  "wait_idle [] mb = (if mb_state mb = ModBus_Idle then Returned ([], mb) else Waiting)"
| "wait_idle ((ps, ticks) # env) mb =
     (if mb_state mb = ModBus_Idle then Returned ((ps, ticks) # env, mb)
      else case mb_polls ps mb of None \<Rightarrow> Fault | Some mb \<Rightarrow> wait_idle env mb)"

definition sync_end :: "'h modbus_rtu \<Rightarrow> 'h modbus_rtu" where
  "sync_end mb =
     (let e = mb_sync_msg mb
      in mb\<lparr>mb_packet := None, mb_is_blocking := False,
            mb_sync_msg := e\<lparr>q_msg := (q_msg e)\<lparr>m_adu := (m_adu (q_msg e))[1 := 0]\<rparr>\<rparr>,
            mb_state := (if mb_silence_until mb > 0 then ModBus_Silent else ModBus_Idle)\<rparr>)"

text \<open>Appending the checksum, low byte first.\<close>

definition seal_message :: "modbus_message \<Rightarrow> modbus_message" where
  "seal_message msg =
     (let n = unat (m_tx_length msg); crc = modbus_crc16x (take (n - 2) (m_adu msg))
      in msg\<lparr>m_adu := (m_adu msg)[n - 1 := ucast (drop_bit 8 crc), n - 2 := ucast (crc AND 0xFF)]\<rparr>)"

definition send_queued ::
  "bool \<Rightarrow> modbus_message \<Rightarrow> 'h modbus_callbacks option \<Rightarrow> 'h modbus_rtu \<Rightarrow> 'h modbus_rtu" where
  "send_queued reset_pending msg cbs mb =
     (if (case mb_packet mb of
            None \<Rightarrow> True
          | Some p \<Rightarrow> m_adu (q_msg (mb_sync_msg mb)) ! 1 = 0 \<or>
                      m_adu (q_msg (mb_entry p mb)) ! 0 \<noteq> m_adu (q_msg (mb_sync_msg mb)) ! 0)
      then if q_next (mb_head mb) \<noteq> mb_tail mb
           then let mb = add_message reset_pending (Entry (mb_head mb)) msg True cbs mb
                in mb\<lparr>mb_head := q_next (mb_head mb)\<rparr>
           else mb
      else mb)"

definition modbus_send_rtu ::
  "bool \<Rightarrow> bool \<Rightarrow> modbus_message \<Rightarrow> 'h modbus_callbacks option \<Rightarrow> bool \<Rightarrow> mb_env \<Rightarrow>
   'h modbus_rtu \<Rightarrow> (bool \<times> 'h modbus_rtu) run" where
  "modbus_send_rtu reset_pending blocking_event msg cbs block env mb =
     (if unat (m_tx_length msg) > MODBUS_MAX_ADU_SIZE \<or> unat (m_rx_length msg) > MODBUS_MAX_ADU_SIZE
      then case cbs of
             None \<Rightarrow> Fault
           | Some c \<Rightarrow>
               Returned (False, call_exception (cb_on_rx_exception c) ModBus_IllegalSize (m_context msg) 0 mb)
      else if unat (m_tx_length msg) < 2 then Fault
      else if mb_spin_lock mb then Waiting
      else
        let msg = seal_message msg;
            block = (block \<and> \<not> blocking_event)
        in if block
           then if mb_is_blocking mb then Returned (False, mb)
                else case wait_idle env (mb\<lparr>mb_is_blocking := True\<rparr>) of
                  Waiting \<Rightarrow> Waiting
                | Fault \<Rightarrow> Fault
                | Returned (env, mb) \<Rightarrow>
                    (case sync_loop reset_pending msg cbs env
                            (block, tx_message SyncMsg (add_message reset_pending SyncMsg msg False cbs mb)) of
                       Waiting \<Rightarrow> Waiting
                     | Fault \<Rightarrow> Fault
                     | Returned (block, mb) \<Rightarrow> Returned (\<not> block, sync_end mb))
           else Returned (True, send_queued reset_pending msg cbs mb))"

subsection \<open>Reset, settings and queue control\<close>

definition modbus_reset :: "bool \<Rightarrow> u32 \<Rightarrow> 'h modbus_rtu \<Rightarrow> 'h modbus_rtu" where
  "modbus_reset sys_abort ticks mb =
     (let mb =
        (if sys_abort
         then
           let mb = (case mb_packet mb of
                       Some p \<Rightarrow> (set_entry p ((mb_entry p mb)\<lparr>q_callbacks := no_callbacks\<rparr>) mb)\<lparr>mb_packet := None\<rparr>
                     | None \<Rightarrow> mb)
           in emit [FlushTx, FlushRx]
                (mb\<lparr>mb_tail := mb_head mb, mb_silence_until := ticks + 500, mb_state := ModBus_Silent,
                    mb_rx := []\<rparr>)
         else mb)
      in if mb_state mb = ModBus_Retry
         then mb\<lparr>mb_silence_until := ticks + 500, mb_state := ModBus_Silent\<rparr> else mb)"

definition mb_baud :: "u32 list" where
  "mb_baud = [2400, 4800, 9600, 19200, 38400, 115200]"

definition dflt_timeout :: "u16 list" where
  "dflt_timeout = [16, 8, 4, 2, 2, 2]"

definition DEFAULT_MODBUS_STREAM_BAUD :: nat where "DEFAULT_MODBUS_STREAM_BAUD = 3"

fun baud_scan :: "nat \<Rightarrow> u32 \<Rightarrow> nat" where
  "baud_scan 0 rate = DEFAULT_MODBUS_STREAM_BAUD"
| "baud_scan (Suc idx) rate = (if mb_baud ! idx = rate then idx else baud_scan idx rate)"

definition get_baudrate :: "u32 \<Rightarrow> nat" where
  "get_baudrate rate = baud_scan (length mb_baud) rate"

definition modbus_set_baud :: "u8 \<Rightarrow> 'h modbus_rtu \<Rightarrow> 'h modbus_rtu option" where
  "modbus_set_baud value mb =
     (if unat value < length mb_baud
      then Some (emit [SetBaud (mb_baud ! unat value)]
             (mb\<lparr>mb_cfg_baud_rate := mb_baud ! unat value,
                 mb_silence_timeout := ucast (mb_silence mb ! unat value)\<rparr>))
      else None)"

definition modbus_get_baud :: "'h modbus_rtu \<Rightarrow> nat" where
  "modbus_get_baud mb = get_baudrate (mb_cfg_baud_rate mb)"

definition modbus_settings_restore :: "'h modbus_rtu \<Rightarrow> 'h modbus_rtu" where
  "modbus_settings_restore mb =
     mb\<lparr>mb_cfg_rx_timeout := 50, mb_cfg_baud_rate := mb_baud ! DEFAULT_MODBUS_STREAM_BAUD\<rparr>"

text \<open>\<open>stored\<close> is what \<open>memcpy_from_nvs\<close> reads (baud rate and timeout), None when its checksum fails.\<close>

definition modbus_settings_load :: "(u32 \<times> u32) option \<Rightarrow> 'h modbus_rtu \<Rightarrow> 'h modbus_rtu" where
  "modbus_settings_load stored mb =
     (let (ok, mb) = (case stored of None \<Rightarrow> (False, mb)
                      | Some (b, t) \<Rightarrow> (True, mb\<lparr>mb_cfg_baud_rate := b, mb_cfg_rx_timeout := t\<rparr>));
          mb = (if \<not> ok \<or> mb_cfg_baud_rate mb \<noteq> mb_baud ! get_baudrate (mb_cfg_baud_rate mb)
                then modbus_settings_restore mb else mb)
      in emit [SetBaud (mb_cfg_baud_rate mb)]
           (mb\<lparr>mb_is_up := True,
               mb_silence_timeout := ucast (mb_silence mb ! get_baudrate (mb_cfg_baud_rate mb))\<rparr>))"

definition modbus_rtu_isup :: "'h modbus_rtu \<Rightarrow> bool" where
  "modbus_rtu_isup mb = mb_is_up mb"

definition modbus_is_busy :: "'h modbus_rtu \<Rightarrow> bool" where
  "modbus_is_busy mb \<longleftrightarrow> mb_state mb \<noteq> ModBus_Idle"

definition modbus_rtu_flush_queue :: "'h modbus_rtu \<Rightarrow> 'h modbus_rtu option" where
  "modbus_rtu_flush_queue mb = (if mb_spin_lock mb then None else Some (mb\<lparr>mb_tail := mb_head mb\<rparr>))"

definition modbus_rtu_set_silence :: "u16 list option \<Rightarrow> 'h modbus_rtu \<Rightarrow> 'h modbus_rtu" where
  "modbus_rtu_set_silence timeout mb =
     (let s = (case timeout of Some t \<Rightarrow> t | None \<Rightarrow> dflt_timeout)
      in mb\<lparr>mb_silence := s,
            mb_silence_timeout := ucast (s ! get_baudrate (mb_cfg_baud_rate mb))\<rparr>)"

text \<open>\<open>report_stats\<close> reads the counters and clears them on request.\<close>

definition report_stats :: "bool \<Rightarrow> 'h modbus_rtu \<Rightarrow> modbus_stats \<times> 'h modbus_rtu" where
  "report_stats reset mb =
     (mb_stats mb,
      if reset
      then mb\<lparr>mb_stats := \<lparr>st_rx_count = 0, st_tx_count = 0, st_retries = 0, st_timeouts = 0,
                st_crc_errors = 0, st_rx_exceptions = 0, st_latency = 0, st_no_rx = False\<rparr>\<rparr>
      else mb)"

subsection \<open>Initialisation\<close>

definition no_stats :: modbus_stats where
  "no_stats = \<lparr>st_rx_count = 0, st_tx_count = 0, st_retries = 0, st_timeouts = 0,
     st_crc_errors = 0, st_rx_exceptions = 0, st_latency = 0, st_no_rx = False\<rparr>"

definition empty_entry :: "'h queue_entry" where
  "empty_entry = \<lparr>q_async = False,
     q_msg = \<lparr>m_context = 0, m_crc_check = False, m_tx_length = 0, m_rx_length = 0,
              m_adu = replicate MODBUS_MAX_ADU_SIZE 0\<rparr>, q_callbacks = no_callbacks\<rparr>"

text \<open>The statics and what \<open>modbus_rtu_init\<close> sets when a stream was claimed.\<close>

definition modbus_rtu_init :: "bool \<Rightarrow> 'h modbus_rtu" where
  "modbus_rtu_init has_direction =
     modbus_rtu_set_silence None
       \<lparr>mb_state = ModBus_Idle, mb_rx_timeout = 0, mb_silence_until = 0, mb_silence_timeout = 0,
        mb_silence = replicate 6 0, mb_exception_code = ModBus_NoException,
        mb_queue = replicate MODBUS_QUEUE_LENGTH empty_entry, mb_sync_msg = empty_entry,
        mb_cfg_baud_rate = 0, mb_cfg_rx_timeout = 0, mb_spin_lock = False, mb_is_blocking = False,
        mb_is_up = False, mb_tail = 0, mb_head = 0, mb_packet = None, mb_stats = no_stats,
        mb_has_direction = has_direction, mb_rx = [], mb_log = []\<rparr>"

end
