(* ===== verification/Modbus_Frames.thy ===== *)
theory Modbus_Frames
  imports Modbus
begin

text \<open>
  Integrity of what the Modbus client sends and accepts: every frame written to the line carries
  its checksum whatever the order of polls, sends and resets; a reply is handed on only when its
  checksum is right; a message in flight is not overwritten; and the places where the code drops
  or damages messages.
\<close>

subsection \<open>Frames\<close>

definition valid_frame :: "u8 list \<Rightarrow> bool" where
  "valid_frame f \<longleftrightarrow> 2 \<le> length f \<and> length f \<le> MODBUS_MAX_ADU_SIZE \<and> modbus_crc16x f = 0"

definition frame_of :: "modbus_message \<Rightarrow> u8 list" where
  "frame_of msg = take (unat (m_tx_length msg)) (m_adu msg)"

definition message_ok :: "modbus_message \<Rightarrow> bool" where
  "message_ok msg \<longleftrightarrow> 2 \<le> unat (m_tx_length msg) \<and> unat (m_tx_length msg) \<le> MODBUS_MAX_ADU_SIZE \<and>
     length (m_adu msg) = MODBUS_MAX_ADU_SIZE"

lemma take_two: "Suc n < length xs \<Longrightarrow> take (Suc (Suc n)) xs = take n xs @ [xs ! n, xs ! Suc n]"
  by (simp add: take_Suc_conv_app_nth)

lemma seal_fields [simp]:
  "m_tx_length (seal_message msg) = m_tx_length msg" "m_rx_length (seal_message msg) = m_rx_length msg"
  "m_context (seal_message msg) = m_context msg" "m_crc_check (seal_message msg) = m_crc_check msg"
  "length (m_adu (seal_message msg)) = length (m_adu msg)"
  by (simp_all add: seal_message_def Let_def)

lemma seal_valid:
  assumes "message_ok msg"
  shows "valid_frame (frame_of (seal_message msg))" and "message_ok (seal_message msg)"
proof -
  obtain n where n: "unat (m_tx_length msg) = Suc (Suc n)"
    using assms by (metis message_ok_def add_2_eq_Suc le_Suc_ex)
  have len: "Suc n < length (m_adu msg)" using assms n by (simp add: message_ok_def)
  let ?crc = "modbus_crc16x (take n (m_adu msg))"
  have "frame_of (seal_message msg) =
      take n (m_adu msg) @ [ucast ?crc, ucast (drop_bit 8 ?crc)]"
    using len by (simp add: frame_of_def seal_message_def Let_def n take_two crc_low_byte)
  then show "valid_frame (frame_of (seal_message msg))"
    using modbus_frame_residue [of "take n (m_adu msg)"] assms n len
    by (simp add: valid_frame_def message_ok_def)
  show "message_ok (seal_message msg)" using assms by (simp add: message_ok_def)
qed

text \<open>The receiver's comparison of the last two bytes is the residue test.\<close>

lemma crc_bytes_residue:
  assumes "Suc n < length adu" and "adu ! n = ucast (modbus_crc16x (take n adu) AND 0xFF)"
    and "adu ! Suc n = ucast (drop_bit 8 (modbus_crc16x (take n adu)))"
  shows "modbus_crc16x (take (Suc (Suc n)) adu) = 0"
  using assms modbus_frame_residue [of "take n adu"] by (simp only: take_two crc_low_byte)

subsection \<open>The queue\<close>

definition q_dist :: "nat \<Rightarrow> nat \<Rightarrow> nat" where
  "q_dist t i = (if t \<le> i then i - t else i + 8 - t)"

definition pending :: "'h modbus_rtu \<Rightarrow> nat set" where
  "pending mb = {i. i < 8 \<and> q_dist (mb_tail mb) i < q_dist (mb_tail mb) (mb_head mb)}"

definition queue_ok :: "'h modbus_rtu \<Rightarrow> bool" where
  "queue_ok mb \<longleftrightarrow> length (mb_queue mb) = MODBUS_QUEUE_LENGTH \<and> mb_head mb < 8 \<and> mb_tail mb < 8 \<and>
     (\<forall>p. mb_packet mb = Some (Entry p) \<longrightarrow> p < 8 \<and> q_next p = mb_tail mb) \<and>
     (\<forall>i \<in> pending mb. valid_frame (frame_of (q_msg (mb_queue mb ! i))))"

definition log_ok :: "'h modbus_rtu \<Rightarrow> bool" where
  "log_ok mb \<longleftrightarrow> (\<forall>f. TxWrite f \<in> set (mb_log mb) \<longrightarrow> valid_frame f)"

definition mb_ok :: "'h modbus_rtu \<Rightarrow> bool" where
  "mb_ok mb \<longleftrightarrow> queue_ok mb \<and> log_ok mb"

lemma q_dist_self [simp]: "q_dist t t = 0"
  by (simp add: q_dist_def)

lemma q_next_less: "i < 8 \<Longrightarrow> q_next i < 8"
  by (auto simp: q_next_def MODBUS_QUEUE_LENGTH_def)

lemma head_not_pending: "mb_head mb \<notin> pending mb"
  by (simp add: pending_def)

lemma in_flight_not_pending:
  "mb_head mb < 8 \<Longrightarrow> p < 8 \<Longrightarrow> q_next p = mb_tail mb \<Longrightarrow> p \<notin> pending mb"
  by (auto simp: pending_def q_dist_def q_next_def MODBUS_QUEUE_LENGTH_def split: if_splits)

lemma pending_advance_head:
  assumes "mb_head mb < 8" "mb_tail mb < 8" "q_next (mb_head mb) \<noteq> mb_tail mb"
    and "i \<in> pending (mb\<lparr>mb_head := q_next (mb_head mb)\<rparr>)"
  shows "i = mb_head mb \<or> i \<in> pending mb"
  using assms
  by (auto simp: pending_def q_dist_def q_next_def MODBUS_QUEUE_LENGTH_def split: if_splits)

lemma pending_advance_tail:
  assumes "mb_head mb < 8" "mb_tail mb < 8" "mb_tail mb \<noteq> mb_head mb"
  shows "mb_tail mb \<in> pending mb"
    and "i \<in> pending (mb\<lparr>mb_tail := q_next (mb_tail mb)\<rparr>) \<Longrightarrow> i \<in> pending mb"
  using assms
  by (auto simp: pending_def q_dist_def q_next_def MODBUS_QUEUE_LENGTH_def split: if_splits)

subsection \<open>What the operations keep\<close>

lemma mb_okI:
  assumes "mb_ok mb" and "mb_queue mb' = mb_queue mb" and "mb_head mb' = mb_head mb"
    and "mb_tail mb' = mb_tail mb" and "mb_log mb' = mb_log mb @ es"
    and "mb_packet mb' \<in> {mb_packet mb, None, Some SyncMsg}"
    and "\<And>f. TxWrite f \<in> set es \<Longrightarrow> valid_frame f"
  shows "mb_ok mb'"
proof -
  have "pending mb' = pending mb" using assms by (simp add: pending_def)
  with assms show ?thesis by (auto simp: mb_ok_def queue_ok_def log_ok_def)
qed

text \<open>The same, with nothing logged.\<close>

lemma mb_ok_silent:
  assumes "mb_ok mb" and "mb_queue mb' = mb_queue mb" and "mb_head mb' = mb_head mb"
    and "mb_tail mb' = mb_tail mb" and "mb_log mb' = mb_log mb"
    and "mb_packet mb' \<in> {mb_packet mb, None, Some SyncMsg}"
  shows "mb_ok mb'"
  by (rule mb_okI [where es = "[]", OF assms(1-4) _ assms(6)]) (use assms(5) in simp_all)

lemma mb_ok_set_packet:
  assumes ok: "mb_ok mb" and p: "mb_packet mb = Some p"
  shows "mb_ok (set_entry p e mb)"
proof (cases p)
  case (Entry i)
  with ok p have i: "i < 8" "q_next i = mb_tail mb" "mb_head mb < 8" by (auto simp: mb_ok_def queue_ok_def)
  have pe: "pending (set_entry p e mb) = pending mb" by (simp add: pending_def set_entry_def Entry)
  have "i \<notin> pending mb" using in_flight_not_pending [OF i(3,1,2)] .
  then have "q_msg (mb_queue (set_entry p e mb) ! j) = q_msg (mb_queue mb ! j)" if "j \<in> pending mb" for j
    using that by (cases "j = i") (auto simp: set_entry_def Entry)
  with ok p pe show ?thesis by (simp add: mb_ok_def queue_ok_def log_ok_def) (simp add: set_entry_def Entry)
next
  case SyncMsg
  show ?thesis using ok by (rule mb_ok_silent) (simp_all add: set_entry_def SyncMsg)
qed

lemma set_entry_fields [simp]:
  "mb_packet (set_entry p e mb) = mb_packet mb" "mb_head (set_entry p e mb) = mb_head mb"
  "mb_tail (set_entry p e mb) = mb_tail mb" "mb_log (set_entry p e mb) = mb_log mb"
  "mb_rx (set_entry p e mb) = mb_rx mb" "mb_state (set_entry p e mb) = mb_state mb"
  "mb_stats (set_entry p e mb) = mb_stats mb"
  by (cases p; simp add: set_entry_def)+

lemma emit_fields [simp]:
  "mb_packet (emit es mb) = mb_packet mb" "mb_head (emit es mb) = mb_head mb"
  "mb_tail (emit es mb) = mb_tail mb" "mb_log (emit es mb) = mb_log mb @ es"
  "mb_queue (emit es mb) = mb_queue mb" "mb_sync_msg (emit es mb) = mb_sync_msg mb"
  "mb_state (emit es mb) = mb_state mb" "mb_rx (emit es mb) = mb_rx mb"
  "mb_stats (emit es mb) = mb_stats mb"
  by (simp_all add: emit_def)

lemma mb_ok_emit: "mb_ok mb \<Longrightarrow> (\<And>f. TxWrite f \<in> set es \<Longrightarrow> valid_frame f) \<Longrightarrow> mb_ok (emit es mb)"
  by (erule mb_okI [where es = es]) simp_all

lemma mb_ok_retry: "mb_ok mb \<Longrightarrow> mb_ok (retry_exception ticks mb)"
  by (auto simp: retry_exception_def Let_def intro: mb_ok_silent split: option.split)

lemma mb_ok_call:
  "mb_ok mb \<Longrightarrow> mb_ok (call_exception f code ctx ticks mb)"
  "mb_ok mb \<Longrightarrow> mb_ok (call_timeout f code ctx ticks mb)"
  by (auto simp: call_exception_def call_timeout_def intro: mb_ok_retry mb_ok_emit
      split: option.split handler.split)

lemma mb_ok_drop: "mb_ok mb \<Longrightarrow> mb_ok (mb\<lparr>mb_packet := None\<rparr>)"
  by (erule mb_ok_silent) simp_all

lemma mb_ok_silence: "mb_ok mb \<Longrightarrow> mb_ok (start_silence ticks mb)"
  by (erule mb_ok_silent) (simp_all add: start_silence_def)

lemma mb_ok_state: "mb_ok mb \<Longrightarrow> mb_ok (mb\<lparr>mb_state := s\<rparr>)"
  by (erule mb_ok_silent) simp_all

lemma mb_ok_stats: "mb_ok mb \<Longrightarrow> mb_ok (mb\<lparr>mb_stats := s\<rparr>)"
  by (erule mb_ok_silent) simp_all

lemmas mb_ok_intros = mb_ok_silence mb_ok_drop mb_ok_state mb_ok_stats mb_ok_call mb_ok_set_packet

lemma mb_ok_timeout: "mb_ok mb \<Longrightarrow> mb_ok (poll_timeout ticks p mb)"
  unfolding poll_timeout_def mb_read_def Let_def
  by (intro mb_ok_silence) (auto split: list.split intro!: mb_ok_drop mb_ok_call mb_ok_state mb_ok_stats
      elim: mb_ok_silent)

lemma mb_ok_rx: "mb_ok mb \<Longrightarrow> mb_ok (mb\<lparr>mb_rx := r\<rparr>)"
  by (erule mb_ok_silent) simp_all

lemma mb_ok_reply:
  assumes ok: "mb_ok mb" and p: "mb_packet mb = Some p" and r: "poll_reply ticks p mb = Some mb'"
  shows "mb_ok mb'"
proof -
  have set2: "mb_ok (set_entry p e2 ((set_entry p e1 mb)\<lparr>mb_rx := rx, mb_stats := st, mb_state := s\<rparr>))"
    for e1 e2 rx st s
    using ok p by (intro mb_ok_set_packet mb_ok_state mb_ok_stats mb_ok_rx) simp_all
  have set1: "mb_ok ((set_entry p e1 mb)\<lparr>mb_rx := rx, mb_stats := st, mb_state := s\<rparr>)" for e1 rx st s
    using ok p by (intro mb_ok_set_packet mb_ok_state mb_ok_stats mb_ok_rx) simp_all
  from r show ?thesis
    by (auto simp: poll_reply_def Let_def split: if_splits option.splits
        intro!: mb_ok_silence mb_ok_drop mb_ok_call mb_ok_emit set1 set2)
qed

lemma tx_message_fields [simp]:
  "mb_tail (tx_message p mb) = mb_tail mb" "mb_head (tx_message p mb) = mb_head mb"
  "mb_queue (tx_message p mb) = mb_queue mb" "mb_packet (tx_message p mb) = Some p"
  "mb_state (tx_message p mb) = ModBus_TX" "mb_sync_msg (tx_message p mb) = mb_sync_msg mb"
  by (simp_all add: tx_message_def Let_def)

lemma mb_ok_tx_entry:
  assumes ok: "mb_ok mb" and ne: "mb_tail mb \<noteq> mb_head mb"
  shows "mb_ok ((tx_message (Entry (mb_tail mb)) mb)\<lparr>mb_tail := q_next (mb_tail mb)\<rparr>)"
proof -
  have b: "mb_head mb < 8" "mb_tail mb < 8" and q: "queue_ok mb" and l: "log_ok mb"
    using ok by (simp_all add: mb_ok_def queue_ok_def)
  let ?m = "(tx_message (Entry (mb_tail mb)) mb)\<lparr>mb_tail := q_next (mb_tail mb)\<rparr>"
  have v: "valid_frame (frame_of (q_msg (mb_queue mb ! mb_tail mb)))"
    using pending_advance_tail(1) [OF b ne] q by (simp add: queue_ok_def)
  have "pending ?m = pending (mb\<lparr>mb_tail := q_next (mb_tail mb)\<rparr>)"
    by (simp add: pending_def tx_message_def Let_def)
  then have "pending ?m \<subseteq> pending mb" using pending_advance_tail(2) [OF b ne] by blast
  with q b v l show ?thesis
    by (auto simp: mb_ok_def queue_ok_def log_ok_def tx_message_def Let_def q_next_less mb_entry_def
        frame_of_def)
qed

lemma mb_ok_poll:
  assumes ok: "mb_ok mb" and r: "modbus_poll ticks n mb = Some mb'"
  shows "mb_ok mb'"
proof (cases "mb_spin_lock mb")
  case True
  with ok r show ?thesis by (simp add: modbus_poll_def)
next
  case False
  note d = modbus_poll_def False
  have t: "mb_ok (mb\<lparr>mb_rx_timeout := x\<rparr>)" for x using ok by (rule mb_ok_silent) simp_all
  show ?thesis
  proof (cases "mb_state mb")
    case ModBus_Idle
    with ok r show ?thesis
      by (auto simp: d Let_def mb_ok_tx_entry split: if_splits)
  next
    case ModBus_Silent
    have "mb_ok (mb\<lparr>mb_silence_until := 0\<rparr>)" using ok by (rule mb_ok_silent) simp_all
    with ModBus_Silent ok r show ?thesis by (auto simp: d split: if_splits intro: mb_ok_state)
  next
    case ModBus_TX
    with ok r show ?thesis
      by (auto simp: d split: if_splits intro!: mb_ok_emit mb_ok_state mb_ok_rx)
  next
    case ModBus_AwaitReply
    with ok r t show ?thesis
      by (auto simp: d Let_def split: if_splits option.splits
          intro: mb_ok_timeout mb_ok_reply [rotated 2])
  next
    case ModBus_TimeoutException
    with ok r show ?thesis
      by (auto simp: d Let_def split: option.splits intro!: mb_ok_silence mb_ok_stats mb_ok_state)
  qed (use ok r in \<open>auto simp: d\<close>)
qed

lemma mb_ok_polls: "mb_ok mb \<Longrightarrow> mb_polls is mb = Some mb' \<Longrightarrow> mb_ok mb'"
proof (induction "is" arbitrary: mb)
  case (Cons i xs)
  from Cons.prems obtain m where
    "modbus_poll (in_ticks i) (in_tx_count i) (mb\<lparr>mb_rx := mb_rx mb @ in_rx i\<rparr>) = Some m"
    and m: "mb_polls xs m = Some mb'"
    by (auto split: bind_splits)
  then have "mb_ok m" using mb_ok_poll mb_ok_rx Cons.prems(1) by blast
  then show ?case using m by (rule Cons.IH)
qed simp

lemma mb_ok_tx_sync:
  assumes "mb_ok mb" and "valid_frame (frame_of msg)"
  shows "mb_ok (tx_message SyncMsg (add_message rp SyncMsg msg False c mb))"
  by (rule mb_okI [where mb = mb and
        es = "(if mb_has_direction mb then [SetDirection True] else []) @ [FlushRx, TxWrite (frame_of msg)]"])
     (use assms in \<open>auto simp: tx_message_def add_message_def set_entry_def mb_entry_def Let_def frame_of_def\<close>)

lemma mb_ok_sync_step:
  assumes ok: "mb_ok mb" and v: "valid_frame (frame_of msg)"
    and r: "sync_step rp msg cbs ticks (block, mb) = Some (block', mb')"
  shows "mb_ok mb'"
proof -
  have b: "mb_ok (m\<lparr>mb_is_blocking := x\<rparr>)" if "mb_ok m" for m x
    using that by (rule mb_ok_silent) simp_all
  have s: "mb_ok (mb\<lparr>mb_silence_until := x\<rparr>)" for x using ok by (rule mb_ok_silent) simp_all
  show ?thesis
    using r ok
    by (cases "mb_state mb"; cases "mb_packet mb")
       (auto simp: sync_step_def Let_def split: if_splits option.splits
        intro!: b mb_ok_stats mb_ok_call mb_ok_emit mb_ok_tx_sync v s)
qed

lemma mb_ok_sync_loop:
  "mb_ok mb \<Longrightarrow> valid_frame (frame_of msg) \<Longrightarrow>
   sync_loop rp msg cbs env (block, mb) = Returned (block', mb') \<Longrightarrow> mb_ok mb'"
proof (induction env arbitrary: block mb)
  case Nil
  then show ?case by (simp split: if_splits)
next
  case (Cons x env)
  obtain ps ticks where x: "x = (ps, ticks)" by fastforce
  show ?case
  proof (cases "mb_is_blocking mb")
    case False
    with Cons.prems x show ?thesis by simp
  next
    case True
    with Cons.prems x obtain m b1 m1 where m: "mb_polls ps mb = Some m"
      and s: "sync_step rp msg cbs ticks (block, m) = Some (b1, m1)"
      and l: "sync_loop rp msg cbs env (b1, m1) = Returned (block', mb')"
      by (fastforce split: option.splits bind_splits)
    have "mb_ok m1" using mb_ok_sync_step [OF mb_ok_polls [OF Cons.prems(1) m] Cons.prems(2) s] .
    then show ?thesis using Cons.prems(2) l by (rule Cons.IH)
  qed
qed

lemma mb_ok_wait_idle: "mb_ok mb \<Longrightarrow> wait_idle env mb = Returned (env', mb') \<Longrightarrow> mb_ok mb'"
  by (induction env mb rule: wait_idle.induct)
     (auto split: if_splits option.splits intro: mb_ok_polls)

lemma mb_ok_send_queued:
  assumes ok: "mb_ok mb" and v: "valid_frame (frame_of msg)"
  shows "mb_ok (send_queued rp msg cbs mb)"
proof -
  have b: "mb_head mb < 8" "mb_tail mb < 8" "length (mb_queue mb) = 8" and q: "queue_ok mb" and l: "log_ok mb"
    using ok by (simp_all add: mb_ok_def queue_ok_def MODBUS_QUEUE_LENGTH_def)
  let ?m = "(add_message rp (Entry (mb_head mb)) msg True cbs mb)\<lparr>mb_head := q_next (mb_head mb)\<rparr>"
  have "mb_ok ?m" if ne: "q_next (mb_head mb) \<noteq> mb_tail mb"
  proof -
    have p: "pending ?m = pending (mb\<lparr>mb_head := q_next (mb_head mb)\<rparr>)"
      by (simp add: pending_def add_message_def set_entry_def)
    have "valid_frame (frame_of (q_msg (mb_queue ?m ! i)))" if "i \<in> pending ?m" for i
    proof (cases "i = mb_head mb")
      case True
      with b v show ?thesis by (simp add: add_message_def set_entry_def)
    next
      case False
      then have "i \<in> pending mb" using that unfolding p using pending_advance_head [OF b(1,2) ne] by blast
      with False q show ?thesis by (simp add: add_message_def set_entry_def queue_ok_def)
    qed
    then show ?thesis
      using q l q_next_less [OF b(1)] by (auto simp: mb_ok_def queue_ok_def log_ok_def add_message_def set_entry_def)
  qed
  with ok show ?thesis by (simp add: send_queued_def Let_def add_message_def)
qed

lemma mb_ok_sync_end: "mb_ok mb \<Longrightarrow> mb_ok (sync_end mb)"
  by (erule mb_ok_silent) (simp_all add: sync_end_def Let_def)

lemma mb_ok_send:
  assumes ok: "mb_ok mb" and m: "length (m_adu msg) = MODBUS_MAX_ADU_SIZE"
    and r: "modbus_send_rtu rp be msg cbs block env mb = Returned (res, mb')"
  shows "mb_ok mb'"
proof (cases "unat (m_tx_length msg) > MODBUS_MAX_ADU_SIZE \<or> unat (m_rx_length msg) > MODBUS_MAX_ADU_SIZE")
  case True
  with r ok show ?thesis
    by (auto simp: modbus_send_rtu_def split: option.splits intro: mb_ok_call)
next
  case False
  note big = False
  show ?thesis
  proof (cases "unat (m_tx_length msg) < 2 \<or> mb_spin_lock mb")
    case True
    with r big show ?thesis
      by (cases "unat (m_tx_length msg) < 2") (simp_all add: modbus_send_rtu_def)
  next
    case False
    with big m have "message_ok msg" by (auto simp: message_ok_def)
    then have v: "valid_frame (frame_of (seal_message msg))" by (rule seal_valid)
    show ?thesis
    proof (cases "block \<and> \<not> be \<and> \<not> mb_is_blocking mb")
      case True
      have b: "mb_ok (mb\<lparr>mb_is_blocking := True\<rparr>)" using ok by (rule mb_ok_silent) simp_all
      let ?tx = "\<lambda>mb1. tx_message SyncMsg (add_message rp SyncMsg (seal_message msg) False cbs mb1)"
      from True False big r obtain env1 mb1 where
        w: "wait_idle env (mb\<lparr>mb_is_blocking := True\<rparr>) = Returned (env1, mb1)"
        and l: "(case sync_loop rp (seal_message msg) cbs env1 (True, ?tx mb1) of
            Waiting \<Rightarrow> Waiting | Fault \<Rightarrow> Fault
          | Returned (block, mb) \<Rightarrow> Returned (\<not> block, sync_end mb)) = Returned (res, mb')"
        by (cases "wait_idle env (mb\<lparr>mb_is_blocking := True\<rparr>)")
           (auto simp: modbus_send_rtu_def Let_def)
      from l obtain b2 mb2 where l2: "sync_loop rp (seal_message msg) cbs env1 (True, ?tx mb1) = Returned (b2, mb2)"
        and e: "mb' = sync_end mb2"
        by (cases "sync_loop rp (seal_message msg) cbs env1 (True, ?tx mb1)") auto
      have "mb_ok mb2"
        using mb_ok_tx_sync [OF mb_ok_wait_idle [OF b w] v] v l2 by (rule mb_ok_sync_loop)
      then show ?thesis unfolding e by (rule mb_ok_sync_end)
    next
      case nb: False
      with False big r ok v show ?thesis
        by (auto simp: modbus_send_rtu_def Let_def split: if_splits intro: mb_ok_send_queued)
    qed
  qed
qed

lemma mb_ok_reset:
  assumes ok: "mb_ok mb"
  shows "mb_ok (modbus_reset abort ticks mb)"
proof -
  have e: "mb_ok (emit [FlushTx, FlushRx] (m\<lparr>mb_tail := mb_head m, mb_silence_until := x, mb_state := s, mb_rx := []\<rparr>))"
    if "mb_ok m" "mb_packet m = None" for m x s
    using that by (auto simp: mb_ok_def queue_ok_def log_ok_def pending_def)
  have e2: "mb_ok (emit [FlushTx, FlushRx]
      (m\<lparr>mb_packet := None, mb_tail := mb_head m, mb_silence_until := x, mb_state := s, mb_rx := []\<rparr>))"
    if "mb_ok m" for m x s
    using that by (auto simp: mb_ok_def queue_ok_def log_ok_def pending_def)
  have s: "mb_ok (mb\<lparr>mb_silence_until := x, mb_state := s\<rparr>)" for x s
    using ok by (rule mb_ok_silent) simp_all
  show ?thesis
  proof (cases abort)
    case True
    have "mb_ok (modbus_reset True ticks mb)"
      by (cases "mb_packet mb")
         (use ok e2 [OF mb_ok_set_packet [OF ok]] in \<open>auto simp: modbus_reset_def Let_def intro!: e e2 mb_ok_set_packet\<close>)
    with True show ?thesis by simp
  next
    case False
    with ok s show ?thesis by (simp add: modbus_reset_def)
  qed
qed

lemma mb_ok_init: "mb_ok (modbus_rtu_init d)"
  by (simp add: modbus_rtu_init_def modbus_rtu_set_silence_def Let_def mb_ok_def queue_ok_def log_ok_def
      pending_def MODBUS_QUEUE_LENGTH_def)

lemma mb_ok_flush:
  "mb_ok mb \<Longrightarrow> \<forall>i. mb_packet mb \<noteq> Some (Entry i) \<Longrightarrow> modbus_rtu_flush_queue mb = Some mb' \<Longrightarrow> mb_ok mb'"
  by (auto simp: modbus_rtu_flush_queue_def mb_ok_def queue_ok_def log_ok_def pending_def split: if_splits)

subsection \<open>Runs\<close>

text \<open>A run of the module: polls, sends, driver resets and flushes of the queue in any order. A send that
  has not returned, or a fault, ends the run.\<close>

datatype 'h mb_op =
    Poll poll_input
  | Send bool bool modbus_message "'h modbus_callbacks option" bool mb_env
  | Reset bool u32
  | Flush

fun mb_do :: "'h mb_op \<Rightarrow> 'h modbus_rtu \<Rightarrow> 'h modbus_rtu option" where
  "mb_do (Poll i) mb = mb_polls [i] mb"
| "mb_do (Send rp be msg cbs block env) mb =
     (case modbus_send_rtu rp be msg cbs block env mb of Returned (_, mb) \<Rightarrow> Some mb | _ \<Rightarrow> None)"
| "mb_do (Reset abort ticks) mb = Some (modbus_reset abort ticks mb)"
| "mb_do Flush mb = modbus_rtu_flush_queue mb"

fun mb_run :: "'h mb_op list \<Rightarrow> 'h modbus_rtu \<Rightarrow> 'h modbus_rtu option" where
  "mb_run [] mb = Some mb"
| "mb_run (a # as) mb = Option.bind (mb_do a mb) (mb_run as)"

fun op_ok :: "'h mb_op \<Rightarrow> bool" where
  "op_ok (Send rp be msg cbs block env) = (length (m_adu msg) = MODBUS_MAX_ADU_SIZE)"
| "op_ok _ = True"

text \<open>The queue is only flushed while no queued message is in flight.\<close>

fun calm_flushes :: "'h mb_op list \<Rightarrow> 'h modbus_rtu \<Rightarrow> bool" where
  "calm_flushes [] mb \<longleftrightarrow> True"
| "calm_flushes (a # as) mb \<longleftrightarrow>
     (a = Flush \<longrightarrow> (\<forall>i. mb_packet mb \<noteq> Some (Entry i))) \<and>
     (case mb_do a mb of None \<Rightarrow> True | Some mb' \<Rightarrow> calm_flushes as mb')"

lemma calm_without_flush: "Flush \<notin> set as \<Longrightarrow> calm_flushes as mb"
  by (induction as arbitrary: mb) (auto split: option.split)

lemma mb_ok_do:
  "mb_ok mb \<Longrightarrow> op_ok a \<Longrightarrow> a = Flush \<longrightarrow> (\<forall>i. mb_packet mb \<noteq> Some (Entry i)) \<Longrightarrow> mb_do a mb = Some mb' \<Longrightarrow> mb_ok mb'"
  by (cases a)
     (auto simp del: mb_polls.simps intro: mb_ok_polls mb_ok_send mb_ok_reset mb_ok_flush split: run.splits)

lemma mb_ok_run:
  "mb_ok mb \<Longrightarrow> \<forall>a \<in> set as. op_ok a \<Longrightarrow> calm_flushes as mb \<Longrightarrow> mb_run as mb = Some mb' \<Longrightarrow> mb_ok mb'"
proof (induction as arbitrary: mb)
  case (Cons a as)
  then obtain m where m: "mb_do a mb = Some m" "mb_run as m = Some mb'" by (auto split: bind_splits)
  with Cons.prems have "mb_ok m" by (intro mb_ok_do [of mb a m]) simp_all
  with Cons m show ?case by simp
qed simp

text \<open>
  C27. Whatever the order of polls, blocking and queued sends, driver resets and flushes of the queue after
  start-up, every frame the Modbus client writes to the serial line is between 2 and 12 bytes long and
  carries the right checksum, as long as the queue is never flushed while a queued message is in flight
  (\<open>modbus_flush_overwrites_in_flight\<close> shows what happens then).
\<close>

theorem modbus_frames_valid:
  assumes "mb_run as (modbus_rtu_init d) = Some mb" and "\<forall>a \<in> set as. op_ok a"
    and "calm_flushes as (modbus_rtu_init d)" and "TxWrite f \<in> set (mb_log mb)"
  shows "2 \<le> length f \<and> length f \<le> MODBUS_MAX_ADU_SIZE \<and> modbus_crc16x f = 0"
  using mb_ok_run [OF mb_ok_init assms(2,3,1)] assms(4) by (simp add: mb_ok_def log_ok_def valid_frame_def)

definition demo_message :: modbus_message where
  "demo_message = \<lparr>m_context = 7, m_crc_check = True, m_tx_length = 8, m_rx_length = 7,
     m_adu = [1, 3, 0, 5, 0, 1, 0, 0, 0, 0, 0, 0]\<rparr>"

lemma modbus_frames_valid_witness:
  "\<exists>mb f. mb_run [Flush, Send False False demo_message (None :: nat modbus_callbacks option) False [],
      Poll \<lparr>in_ticks = 1, in_tx_count = 0, in_rx = []\<rparr>] (modbus_rtu_init True) = Some mb \<and>
    TxWrite f \<in> set (mb_log mb) \<and> length f = 8 \<and> modbus_crc16x f = 0"
proof -
  let ?f = "frame_of (seal_message demo_message)"
  let ?as = "[Flush, Send False False demo_message (None :: nat modbus_callbacks option) False [],
      Poll \<lparr>in_ticks = 1, in_tx_count = 0, in_rx = []\<rparr>]"
  have "\<exists>mb. mb_run ?as (modbus_rtu_init True) = Some mb \<and> TxWrite ?f \<in> set (mb_log mb)"
    by (simp add: modbus_send_rtu_def send_queued_def add_message_def modbus_poll_def tx_message_def
        modbus_rtu_init_def modbus_rtu_set_silence_def Let_def MODBUS_MAX_ADU_SIZE_def
        MODBUS_QUEUE_LENGTH_def q_next_def demo_message_def set_entry_def mb_entry_def frame_of_def
        modbus_rtu_flush_queue_def)
  moreover have "length ?f = 8"
    by (simp add: frame_of_def) (simp add: demo_message_def)
  moreover have "\<forall>a \<in> set ?as. op_ok a" by (simp add: demo_message_def MODBUS_MAX_ADU_SIZE_def)
  moreover have "calm_flushes ?as (modbus_rtu_init True)"
  proof -
    have "\<forall>i. mb_packet (modbus_rtu_init True :: nat modbus_rtu) \<noteq> Some (Entry i)"
      by (simp add: modbus_rtu_init_def modbus_rtu_set_silence_def Let_def)
    moreover have "calm_flushes (tl ?as) mb" for mb by (rule calm_without_flush) simp
    ultimately show ?thesis by (simp split: option.split del: mb_do.simps)
  qed
  ultimately show ?thesis using modbus_frames_valid by blast
qed

subsection \<open>Replies\<close>

lemma call_log [simp]:
  "mb_log mb = l \<Longrightarrow> mb_log (call_timeout f code ctx ticks mb) \<noteq> l @ [OnPacket h m]"
  "mb_log mb = l \<Longrightarrow> mb_log (call_exception f code ctx ticks mb) \<noteq> l @ [OnPacket h m]"
  by (auto simp: call_timeout_def call_exception_def retry_exception_def Let_def
      split: option.split handler.split)

lemma call_state [simp]:
  "mb_state mb \<noteq> ModBus_GotReply \<Longrightarrow> mb_state (call_timeout f code ctx ticks mb) \<noteq> ModBus_GotReply"
  "mb_state mb \<noteq> ModBus_GotReply \<Longrightarrow> mb_state (call_exception f code ctx ticks mb) \<noteq> ModBus_GotReply"
  by (auto simp: call_timeout_def call_exception_def retry_exception_def Let_def
      split: option.split handler.split)

lemma poll_await:
  assumes "mb_state mb = ModBus_AwaitReply" and "\<not> mb_spin_lock mb" and "mb_packet mb = Some p"
    and "m = (if mb_rx_timeout mb \<noteq> 0 then mb\<lparr>mb_rx_timeout := mb_rx_timeout mb - 1\<rparr> else mb)"
  shows "modbus_poll ticks tx_count mb =
    (if mb_rx_timeout mb \<noteq> 0 \<and> mb_rx_timeout m = 0 then Some (poll_timeout ticks p m)
     else if length (mb_rx mb) \<ge> unat (m_rx_length (q_msg (mb_entry p mb))) then poll_reply ticks p m
     else Some m)"
  unfolding modbus_poll_def Let_def assms(4) [symmetric]
  by (simp only: assms(1-3) if_False modbus_state.case option.case)

lemma start_silence_fields [simp]:
  "mb_state (start_silence ticks mb) = mb_state mb" "mb_log (start_silence ticks mb) = mb_log mb"
  "mb_stats (start_silence ticks mb) = mb_stats mb"
  "mb_exception_code (start_silence ticks mb) = mb_exception_code mb"
  "mb_packet (start_silence ticks mb) = mb_packet mb"
  "mb_entry q (start_silence ticks mb) = mb_entry q mb"
  by (simp_all add: start_silence_def mb_entry_def split: packet_ref.split)

lemma poll_timeout_no_reply:
  "mb_state (poll_timeout ticks p mb) \<noteq> ModBus_GotReply \<and>
   mb_log (poll_timeout ticks p mb) \<noteq> mb_log mb @ [OnPacket h m]"
proof (cases "q_async (mb_entry p mb)")
  case True
  from True show ?thesis by (simp add: poll_timeout_def Let_def)
next
  case False
  then show ?thesis
    by (auto simp: poll_timeout_def Let_def mb_read_def split: list.split)
qed

text \<open>The comparison made by the poll is the residue test on the received bytes.\<close>

lemma reply_residue:
  assumes n: "2 \<le> n" "n \<le> length rx" and adu: "adu = take n rx @ rest"
  shows "adu ! (n - 2) = ucast (modbus_crc16x (take (n - 2) adu) AND 0xFF) \<and>
      adu ! (n - 1) = ucast (drop_bit 8 (modbus_crc16x (take (n - 2) adu))) \<Longrightarrow>
    modbus_crc16x (take n rx) = 0"
proof -
  obtain k where k: "n = Suc (Suc k)" using n(1) by (metis add_2_eq_Suc le_Suc_ex)
  have "take n adu = take n rx" using n adu by simp
  then show "adu ! (n - 2) = ucast (modbus_crc16x (take (n - 2) adu) AND 0xFF) \<and>
      adu ! (n - 1) = ucast (drop_bit 8 (modbus_crc16x (take (n - 2) adu))) \<Longrightarrow>
    modbus_crc16x (take n rx) = 0"
    using crc_bytes_residue [of k adu] n adu by (simp add: k)
qed

lemma poll_reply_checked:
  assumes r: "poll_reply ticks p mb = Some mb'" and n: "n = unat (m_rx_length (q_msg (mb_entry p mb)))"
    and c: "m_crc_check (q_msg (mb_entry p mb))" and len: "n \<le> length (mb_rx mb)"
    and acc: "mb_state mb' = ModBus_GotReply \<or> (\<exists>h m. mb_log mb' = mb_log mb @ [OnPacket h m])"
  shows "modbus_crc16x (take n (mb_rx mb)) = 0 \<and>
    st_crc_errors (mb_stats mb') = st_crc_errors (mb_stats mb)"
proof -
  define adu where "adu = take n (mb_rx mb) @ drop n (m_adu (q_msg (mb_entry p mb)))"
  let ?crc = "modbus_crc16x (take (n - 2) adu)"
  have n2: "2 \<le> n" using r c n by (auto simp: poll_reply_def Let_def split: if_splits)
  have ok: "adu ! (n - 2) = ucast (?crc AND 0xFF) \<and> adu ! (n - 1) = ucast (drop_bit 8 ?crc)"
  proof (rule ccontr)
    assume bad: "\<not> ?thesis"
    have "mb_log mb \<noteq> mb_log mb @ [OnPacket h x]" for h x by simp
    with r n c bad acc show False
      by (auto simp: poll_reply_def Let_def adu_def split: if_splits)
  qed
  then have "st_crc_errors (mb_stats mb') = st_crc_errors (mb_stats mb)"
    using r n c by (auto simp: poll_reply_def Let_def adu_def split: if_splits option.splits)
  with reply_residue [OF n2 len adu_def ok] show ?thesis by simp
qed

text \<open>
  C28. A reply to a message that asks for checking is accepted (handed to the client of a queued
  message, or reported to the waiting blocking sender) only when the received bytes are a frame
  with a right checksum; otherwise the CRC error counter goes up by one.
\<close>

theorem modbus_reply_checked:
  assumes "modbus_poll ticks tx_count mb = Some mb'" and "mb_state mb = ModBus_AwaitReply"
    and "\<not> mb_spin_lock mb" and "mb_packet mb = Some p"
    and "n = unat (m_rx_length (q_msg (mb_entry p mb)))" and "m_crc_check (q_msg (mb_entry p mb))"
    and "mb_state mb' = ModBus_GotReply \<or> (\<exists>h m. mb_log mb' = mb_log mb @ [OnPacket h m])"
  shows "n \<le> length (mb_rx mb) \<and> modbus_crc16x (take n (mb_rx mb)) = 0 \<and>
    st_crc_errors (mb_stats mb') = st_crc_errors (mb_stats mb)"
proof -
  let ?m = "if mb_rx_timeout mb \<noteq> 0 then mb\<lparr>mb_rx_timeout := mb_rx_timeout mb - 1\<rparr> else mb"
  define m where "m = ?m"
  have m: "mb_entry p m = mb_entry p mb" "mb_rx m = mb_rx mb" "mb_log m = mb_log mb"
    "mb_stats m = mb_stats mb" "mb_state m = ModBus_AwaitReply"
    using assms(2) by (simp_all add: m_def mb_entry_def split: packet_ref.split)
  have poll: "Some mb' =
     (if mb_rx_timeout mb \<noteq> 0 \<and> mb_rx_timeout m = 0 then Some (poll_timeout ticks p m)
      else if length (mb_rx mb) \<ge> n then poll_reply ticks p m else Some m)"
    using poll_await [OF assms(2-4) m_def, of ticks tx_count] unfolding assms(1) assms(5) .
  have nt: "\<not> (mb_rx_timeout mb \<noteq> 0 \<and> mb_rx_timeout m = 0)"
    using poll assms(7) poll_timeout_no_reply [of ticks p m] m(3) by (metis option.inject)
  have len: "n \<le> length (mb_rx mb)"
  proof (rule ccontr)
    assume "\<not> ?thesis"
    with poll nt have "mb' = m" by simp
    with assms(7) m show False by simp
  qed
  with poll nt have "poll_reply ticks p m = Some mb'" by simp
  from poll_reply_checked [OF this, of n] assms(5,6,7) len show ?thesis by (simp only: m simp_thms)
qed

text \<open>A client waiting for the reply to the demo message, with the given bytes received.\<close>

definition demo_waiting :: "u8 list \<Rightarrow> nat modbus_rtu" where
  "demo_waiting rx = (modbus_rtu_init False)
     \<lparr>mb_state := ModBus_AwaitReply, mb_packet := Some SyncMsg, mb_is_blocking := True, mb_rx_timeout := 20,
      mb_sync_msg := \<lparr>q_async = False, q_msg = demo_message,
        q_callbacks = no_callbacks\<lparr>cb_on_rx_exception := Some (Client 3)\<rparr>\<rparr>, mb_rx := rx\<rparr>"

definition demo_reply :: "u8 list" where
  "demo_reply = (let d = [1, 3, 2, 0, 5]; crc = modbus_crc16x d in d @ [ucast crc, ucast (drop_bit 8 crc)])"

lemma demo_fields:
  "mb_state (demo_waiting rx) = ModBus_AwaitReply" "\<not> mb_spin_lock (demo_waiting rx)"
  "mb_packet (demo_waiting rx) = Some SyncMsg" "mb_rx (demo_waiting rx) = rx"
  "mb_rx_timeout (demo_waiting rx) = 20" "mb_exception_code (demo_waiting rx) = 0"
  "mb_entry SyncMsg (demo_waiting rx) = \<lparr>q_async = False, q_msg = demo_message,
     q_callbacks = no_callbacks\<lparr>cb_on_rx_exception := Some (Client 3)\<rparr>\<rparr>"
  by (simp_all add: demo_waiting_def modbus_rtu_init_def modbus_rtu_set_silence_def Let_def mb_entry_def
      ModBus_NoException_def)

lemma modbus_reply_checked_witness:
  "\<exists>mb'. modbus_poll 9 0 (demo_waiting demo_reply) = Some mb' \<and> mb_state mb' = ModBus_GotReply \<and>
     modbus_crc16x (take 7 demo_reply) = 0"
proof -
  have "\<exists>mb'. modbus_poll 9 0 (demo_waiting demo_reply) = Some mb' \<and> mb_state mb' = ModBus_GotReply"
    by (simp add: poll_await [where p = SyncMsg, OF _ _ _ refl] demo_fields demo_reply_def Let_def)
       (simp add: poll_reply_def Let_def mb_entry_def demo_message_def MODBUS_MAX_ADU_SIZE_def crc_low_byte
        demo_waiting_def)
  then obtain mb' where r: "modbus_poll 9 0 (demo_waiting demo_reply) = Some mb'" "mb_state mb' = ModBus_GotReply"
    by blast
  have "7 = unat (m_rx_length (q_msg (mb_entry SyncMsg (demo_waiting demo_reply))))"
    "m_crc_check (q_msg (mb_entry SyncMsg (demo_waiting demo_reply)))"
    by (simp_all add: demo_fields demo_message_def)
  from modbus_reply_checked [OF r(1) demo_fields(1,2,3) this disjI1 [OF r(2)]] r show ?thesis
    by (simp only: demo_fields) blast
qed

text \<open>
  C23. A checksum error on a blocking request reaches the client's exception handler with whatever
  code the previous exception left in \<open>exception_code\<close> (0, "no exception", after start-up), not
  with \<open>ModBus_CRCError\<close>.
\<close>

theorem modbus_crc_error_stale_code:
  assumes "mb_state mb = ModBus_AwaitReply" and "\<not> mb_spin_lock mb" and "mb_packet mb = Some SyncMsg"
    and "q_async (mb_sync_msg mb) = False" and "m_crc_check (q_msg (mb_sync_msg mb))"
    and "cb_on_rx_exception (q_callbacks (mb_sync_msg mb)) = Some (Client h)"
    and "n = unat (m_rx_length (q_msg (mb_sync_msg mb)))" and "2 \<le> n" and "n \<le> MODBUS_MAX_ADU_SIZE"
    and "n \<le> length (mb_rx mb)" and "modbus_crc16x (take n (mb_rx mb)) \<noteq> 0" and "mb_rx_timeout mb \<noteq> 1"
  shows "\<exists>mb' s. modbus_poll ticks tx_count mb = Some mb' \<and>
    sync_step rp msg cbs ticks (True, mb') = Some s \<and>
    mb_log (snd s) = mb_log mb @
      [OnException h (mb_exception_code mb) (m_context (q_msg (mb_sync_msg mb)))]"
proof -
  define m where "m = (if mb_rx_timeout mb \<noteq> 0 then mb\<lparr>mb_rx_timeout := mb_rx_timeout mb - 1\<rparr> else mb)"
  define adu where "adu = take n (mb_rx mb) @ drop n (m_adu (q_msg (mb_sync_msg mb)))"
  have poll: "modbus_poll ticks tx_count mb = poll_reply ticks SyncMsg m"
    using poll_await [OF assms(1-3) m_def] assms(7,10,12) by (simp add: m_def mb_entry_def)
  have bad: "\<not> (adu ! (n - 2) = ucast (modbus_crc16x (take (n - 2) adu) AND 0xFF) \<and>
      adu ! (n - 1) = ucast (drop_bit 8 (modbus_crc16x (take (n - 2) adu))))"
    using reply_residue [OF assms(8,10) adu_def] assms(11) by blast
  have "\<exists>mb'. poll_reply ticks SyncMsg m = Some mb' \<and> mb_state mb' = ModBus_Exception \<and>
      mb_packet mb' = Some SyncMsg \<and> mb_log mb' = mb_log mb \<and>
      mb_exception_code mb' = mb_exception_code mb \<and>
      q_callbacks (mb_sync_msg mb') = q_callbacks (mb_sync_msg mb) \<and>
      m_context (q_msg (mb_sync_msg mb')) = m_context (q_msg (mb_sync_msg mb))"
    using assms(3,4,5,7,8,9) bad unfolding adu_def
    by (simp add: poll_reply_def Let_def mb_entry_def m_def set_entry_def start_silence_def)
  then obtain mb' where r: "poll_reply ticks SyncMsg m = Some mb'" "mb_state mb' = ModBus_Exception"
    "mb_packet mb' = Some SyncMsg" "mb_log mb' = mb_log mb" "mb_exception_code mb' = mb_exception_code mb"
    "q_callbacks (mb_sync_msg mb') = q_callbacks (mb_sync_msg mb)"
    "m_context (q_msg (mb_sync_msg mb')) = m_context (q_msg (mb_sync_msg mb))" by blast
  then show ?thesis unfolding poll
    by (auto simp: sync_step_def Let_def mb_entry_def call_exception_def assms(6))
qed

lemma modbus_crc_error_stale_code_witness:
  "\<exists>mb' s. modbus_poll 9 0 (demo_waiting [1, 3, 2, 0, 5, 0, 0]) = Some mb' \<and>
    sync_step False demo_message None 9 (True, mb') = Some s \<and>
    mb_log (snd s) = [OnException 3 0 7]"
proof -
  let ?mb = "demo_waiting [1, 3, 2, 0, 5, 0, 0]"
  have e: "mb_sync_msg ?mb = \<lparr>q_async = False, q_msg = demo_message,
      q_callbacks = no_callbacks\<lparr>cb_on_rx_exception := Some (Client 3)\<rparr>\<rparr>" by (simp add: demo_waiting_def)
  have crc: "modbus_crc16x (take 7 [1, 3, 2, 0, 5, 0, 0]) \<noteq> 0" by (simp add: modbus_crc_eval)
  have l: "mb_log ?mb = []"
    by (simp add: demo_waiting_def modbus_rtu_init_def modbus_rtu_set_silence_def Let_def)
  have n: "7 = unat (m_rx_length (q_msg (mb_sync_msg ?mb)))" "(2::nat) \<le> 7" "7 \<le> MODBUS_MAX_ADU_SIZE"
    "7 \<le> length (mb_rx ?mb)" "mb_rx_timeout ?mb \<noteq> 1" "q_async (mb_sync_msg ?mb) = False"
    "m_crc_check (q_msg (mb_sync_msg ?mb))"
    "cb_on_rx_exception (q_callbacks (mb_sync_msg ?mb)) = Some (Client 3)"
    by (simp_all add: e demo_fields demo_message_def MODBUS_MAX_ADU_SIZE_def)
  have c: "modbus_crc16x (take 7 (mb_rx ?mb)) \<noteq> 0" unfolding demo_fields by (rule crc)
  have ctx: "m_context (q_msg (mb_sync_msg ?mb)) = 7" by (simp add: e demo_message_def)
  from modbus_crc_error_stale_code [OF demo_fields(1,2,3) n(6,7,8,1,2,3,4) c n(5), of 9 0 False demo_message None]
  show ?thesis unfolding l ctx demo_fields append_Nil .
qed

subsection \<open>The queue as a list\<close>






text \<open>
  Flushing the queue while a message is in flight breaks this: after the flush seven more
  messages fit, and the last of them is written over the message still waiting for its reply.
\<close>

theorem modbus_flush_overwrites_in_flight:
  assumes "message_ok msg" and "message_ok msg'" and "unat (m_rx_length msg) \<le> MODBUS_MAX_ADU_SIZE"
    and "unat (m_rx_length msg') \<le> MODBUS_MAX_ADU_SIZE"
  shows "\<exists>mb mb'. mb_run [Send False False msg (None :: 'h modbus_callbacks option) False [],
        Send False False msg None False [], Poll \<lparr>in_ticks = 1, in_tx_count = 0, in_rx = []\<rparr>]
      (modbus_rtu_init d) = Some mb \<and> mb_packet mb = Some (Entry 0) \<and>
      q_msg (mb_queue mb ! 0) = seal_message msg \<and>
    Option.bind (modbus_rtu_flush_queue mb) (mb_run (replicate 7 (Send False False msg' None False []))) =
      Some mb' \<and> mb_packet mb' = Some (Entry 0) \<and> q_msg (mb_queue mb' ! 0) = seal_message msg'"
  using assms
  by (simp add: modbus_send_rtu_def send_queued_def add_message_def modbus_poll_def tx_message_def
      modbus_rtu_init_def modbus_rtu_set_silence_def Let_def message_ok_def numeral_eq_Suc
      modbus_rtu_flush_queue_def MODBUS_QUEUE_LENGTH_def q_next_def set_entry_def mb_entry_def emit_def
      empty_entry_def MODBUS_MAX_ADU_SIZE_def)

lemma modbus_flush_overwrites_in_flight_witness:
  "\<exists>mb mb'. mb_packet mb = Some (Entry 0) \<and> q_msg (mb_queue mb ! 0) = seal_message demo_message \<and>
    Option.bind (modbus_rtu_flush_queue mb)
      (mb_run (replicate 7 (Send False False (demo_message\<lparr>m_context := 8\<rparr>) (None :: nat modbus_callbacks option)
        False []))) = Some mb' \<and>
    m_context (q_msg (mb_queue mb' ! 0)) = 8"
proof -
  let ?m = "demo_message\<lparr>m_context := 8\<rparr>"
  have ok: "message_ok demo_message" "message_ok ?m"
    "unat (m_rx_length demo_message) \<le> MODBUS_MAX_ADU_SIZE" "unat (m_rx_length ?m) \<le> MODBUS_MAX_ADU_SIZE"
    by (simp_all add: message_ok_def demo_message_def MODBUS_MAX_ADU_SIZE_def)
  have c: "m_context (seal_message ?m) = 8" by simp
  from modbus_flush_overwrites_in_flight [OF ok] show ?thesis using c by metis
qed

end
