(* ===== verification/Modbus_Retry.thy ===== *)
theory Modbus_Retry
  imports Modbus_Frames
begin

text \<open>
  A blocking Modbus request to a device that never answers: the sender transmits the frame once
  and then once more per retry, tells its client about the timeout exactly once and returns.
\<close>

subsection \<open>What the line and the client see\<close>

definition txs :: "'h mb_event list \<Rightarrow> 'h mb_event list" where
  "txs l = filter (\<lambda>e. case e of TxWrite f \<Rightarrow> True | _ \<Rightarrow> False) l"

definition calls :: "'h mb_event list \<Rightarrow> 'h mb_event list" where
  "calls l = filter (\<lambda>e. case e of OnPacket h m \<Rightarrow> True | OnException h c x \<Rightarrow> True
                                  | OnTimeout h c x \<Rightarrow> True | _ \<Rightarrow> False) l"

lemma txs_append [simp]: "txs (a @ b) = txs a @ txs b" by (simp add: txs_def)
lemma calls_append [simp]: "calls (a @ b) = calls a @ calls b" by (simp add: calls_def)

text \<open>One poll per millisecond, nothing received, nothing left to send.\<close>

definition dead_input :: "u32 \<Rightarrow> poll_input" where
  "dead_input t = \<lparr>in_ticks = t, in_tx_count = 0, in_rx = []\<rparr>"

fun dead_env :: "u32 \<Rightarrow> nat \<Rightarrow> mb_env" where
  "dead_env t 0 = []"
| "dead_env t (Suc k) = ([dead_input t], t) # dead_env (t + 1) k"

definition trying :: "modbus_message \<Rightarrow> 'h modbus_callbacks \<Rightarrow> u8 \<Rightarrow> 'h modbus_rtu \<Rightarrow> bool" where
  "trying msg c r mb \<longleftrightarrow> \<not> mb_spin_lock mb \<and> mb_is_blocking mb \<and> mb_packet mb = Some SyncMsg \<and>
     mb_rx mb = [] \<and>
     mb_sync_msg mb = \<lparr>q_async = False, q_msg = msg,
                       q_callbacks = message_callbacks False (Some (c\<lparr>cb_retries := r\<rparr>)) False\<rparr>"

lemma dead_loop_step:
  assumes "trying msg c r mb"
  shows "sync_loop False msg (Some c) (dead_env t (Suc k)) (b, mb) =
    (case Option.bind (modbus_poll t 0 mb) (\<lambda>mb. sync_step False msg (Some c) t (b, mb)) of
       None \<Rightarrow> Fault | Some s \<Rightarrow> sync_loop False msg (Some c) (dead_env (t + 1) k) s)"
proof -
  have e: "mb\<lparr>mb_rx := []\<rparr> = mb" using assms by (cases mb) (simp add: trying_def)
  show ?thesis using assms by (simp add: trying_def dead_input_def, simp only: e)
qed

text \<open>What stays the same between two transmissions.\<close>

definition same_try :: "'h modbus_rtu \<Rightarrow> 'h modbus_rtu \<Rightarrow> bool" where
  "same_try mb mb' \<longleftrightarrow> txs (mb_log mb') = txs (mb_log mb) \<and> calls (mb_log mb') = calls (mb_log mb) \<and>
     mb_cfg_rx_timeout mb' = mb_cfg_rx_timeout mb \<and> mb_silence_timeout mb' = mb_silence_timeout mb"

lemma same_try_trans: "same_try a b \<Longrightarrow> same_try b c \<Longrightarrow> same_try a c"
  by (simp add: same_try_def)

lemma dead_tx:
  assumes "trying msg c r mb" and "mb_state mb = ModBus_TX"
  shows "\<exists>mb'. sync_loop False msg (Some c) (dead_env t (Suc k)) (b, mb) =
      sync_loop False msg (Some c) (dead_env (t + 1) k) (b, mb') \<and>
    trying msg c r mb' \<and> mb_state mb' = ModBus_AwaitReply \<and> same_try mb mb' \<and>
    mb_rx_timeout mb' = mb_rx_timeout mb"
  unfolding dead_loop_step [OF assms(1)]
  using assms by (auto simp: modbus_poll_def sync_step_def emit_def trying_def same_try_def txs_def calls_def)

lemma dead_await:
  assumes "trying msg c r mb" and "mb_state mb = ModBus_AwaitReply"
    and "unat (mb_rx_timeout mb) = Suc (Suc n)" and "m_rx_length msg \<noteq> 0"
  shows "\<exists>mb'. sync_loop False msg (Some c) (dead_env t (Suc k)) (b, mb) =
      sync_loop False msg (Some c) (dead_env (t + 1) k) (b, mb') \<and>
    trying msg c r mb' \<and> mb_state mb' = ModBus_AwaitReply \<and> same_try mb mb' \<and>
    unat (mb_rx_timeout mb') = Suc n"
proof -
  define mb' where "mb' = mb\<lparr>mb_rx_timeout := mb_rx_timeout mb - 1\<rparr>"
  have nz: "mb_rx_timeout mb \<noteq> 0" using assms(3) by auto
  then have u: "unat (mb_rx_timeout mb - 1) = Suc n" using assms(3) by (simp add: unat_minus_one)
  then have nz': "mb_rx_timeout mb - 1 \<noteq> 0" by auto
  have "0 < unat (m_rx_length msg)" using assms(4) by (simp add: unat_gt_0)
  then have "modbus_poll t 0 mb = Some mb'"
    using assms(1,2) nz nz' by (simp add: modbus_poll_def trying_def mb_entry_def mb'_def Let_def)
  then show ?thesis
    unfolding dead_loop_step [OF assms(1)]
    using assms(1,2) u by (auto simp: sync_step_def mb'_def trying_def same_try_def)
qed

lemma dead_await_all:
  assumes "trying msg c r mb" and "mb_state mb = ModBus_AwaitReply"
    and "unat (mb_rx_timeout mb) = Suc n" and "m_rx_length msg \<noteq> 0"
  shows "\<exists>mb'. sync_loop False msg (Some c) (dead_env t (n + k)) (b, mb) =
      sync_loop False msg (Some c) (dead_env (t + of_nat n) k) (b, mb') \<and>
    trying msg c r mb' \<and> mb_state mb' = ModBus_AwaitReply \<and> same_try mb mb' \<and> mb_rx_timeout mb' = 1"
  using assms
proof (induction n arbitrary: mb t)
  case 0
  then have "mb_rx_timeout mb = 1" by (simp add: word_unat_eq_iff)
  with 0 show ?case by (intro exI [of _ mb]) (auto simp: same_try_def)
next
  case (Suc n)
  from dead_await [OF Suc.prems, of t "n + k" b] obtain m where
    m: "sync_loop False msg (Some c) (dead_env t (Suc (n + k))) (b, mb) =
        sync_loop False msg (Some c) (dead_env (t + 1) (n + k)) (b, m)"
      "trying msg c r m" "mb_state m = ModBus_AwaitReply" "same_try mb m" "unat (mb_rx_timeout m) = Suc n"
    by blast
  from Suc.IH [OF m(2,3,5) Suc.prems(4), of "t + 1"] m(1,4) show ?case
    by (auto simp: add.assoc intro: same_try_trans)
qed

text \<open>The reply timer runs out with retries left: the module waits before it tries again.\<close>

definition retry_wait :: "'h modbus_rtu \<Rightarrow> 'h modbus_callbacks \<Rightarrow> u32" where
  "retry_wait mb c = mb_silence_timeout mb + ucast (cb_retry_delay c)"

lemma message_callbacks_retry:
  "r \<noteq> 0 \<Longrightarrow> message_callbacks False (Some (c\<lparr>cb_retries := r\<rparr>)) False =
     c\<lparr>cb_retries := r, cb_on_rx_exception := Some RetryException, cb_on_rx_timeout := Some RetryException\<rparr>"
  "cb_on_rx_timeout c \<noteq> None \<Longrightarrow> message_callbacks False (Some (c\<lparr>cb_retries := 0\<rparr>)) False = c\<lparr>cb_retries := 0\<rparr>"
  by (auto simp: message_callbacks_def Let_def)

lemma minus_one_byte: "(-1 :: int) \<noteq> uint (b :: u8)"
  using uint_ge_0 [of b] by linarith

lemma dead_poll_timeout:
  assumes "trying msg c r mb" and "mb_state mb = ModBus_AwaitReply" and "mb_rx_timeout mb = 1"
  shows "\<exists>m. modbus_poll t 0 mb = Some m \<and> trying msg c r m \<and> mb_state m = ModBus_TimeoutException \<and>
    same_try mb m"
  using assms minus_one_byte [of "m_adu msg ! 0"]
  by (simp add: modbus_poll_def trying_def mb_entry_def poll_timeout_def Let_def mb_read_def
      SERIAL_NO_DATA_def start_silence_def same_try_def)

lemma dead_retry:
  assumes "trying msg c r mb" and "mb_state mb = ModBus_AwaitReply" and "mb_rx_timeout mb = 1" and "r \<noteq> 0"
  shows "\<exists>mb'. sync_loop False msg (Some c) (dead_env t (Suc k)) (b, mb) =
      sync_loop False msg (Some c) (dead_env (t + 1) k) (b, mb') \<and>
    trying msg c r mb' \<and> mb_state mb' = ModBus_Retry \<and> same_try mb mb' \<and>
    mb_silence_until mb' = t + retry_wait mb c"
proof -
  obtain m where m: "modbus_poll t 0 mb = Some m" "trying msg c r m" "mb_state m = ModBus_TimeoutException"
    "same_try mb m" using dead_poll_timeout [OF assms(1-3)] by blast
  have "0 < r" using assms(4) by (simp add: word_gt_0)
  with m assms(4) show ?thesis
    unfolding dead_loop_step [OF assms(1)] m(1)
    by (auto simp: sync_step_def Let_def mb_entry_def trying_def message_callbacks_retry call_timeout_def
        retry_exception_def same_try_def retry_wait_def add.assoc)
qed

lemma dead_give_up:
  assumes "trying msg c 0 mb" and "mb_state mb = ModBus_AwaitReply" and "mb_rx_timeout mb = 1"
    and "cb_on_rx_timeout c = Some (Client h)"
  shows "\<exists>mb'. sync_loop False msg (Some c) (dead_env t (Suc k)) (b, mb) = Returned (b, mb') \<and>
    txs (mb_log mb') = txs (mb_log mb) \<and>
    calls (mb_log mb') = calls (mb_log mb) @ [OnTimeout h ModBus_Timeout (m_context msg)]"
proof -
  obtain m where m: "modbus_poll t 0 mb = Some m" "trying msg c 0 m" "mb_state m = ModBus_TimeoutException"
    "same_try mb m" using dead_poll_timeout [OF assms(1-3)] by blast
  have stop: "sync_loop False msg (Some c) env (b, m') = Returned (b, m')" if "\<not> mb_is_blocking m'" for env m'
    using that by (cases env) auto
  from m assms(4) show ?thesis
    unfolding dead_loop_step [OF assms(1)] m(1)
    by (auto simp: sync_step_def Let_def mb_entry_def trying_def message_callbacks_retry call_timeout_def
        same_try_def stop txs_def calls_def)
qed

lemma dead_retry_step:
  assumes "trying msg c r mb" and "mb_state mb = ModBus_Retry" and "expired (mb_silence_until mb) t"
    and "r \<noteq> 0" and "cb_on_rx_timeout c \<noteq> None"
  shows "\<exists>c'. sync_step False msg (Some c) t (b, mb) =
      Some (b, tx_message SyncMsg (add_message False SyncMsg msg False (Some c') (mb\<lparr>mb_silence_until := 0\<rparr>))) \<and>
    message_callbacks False (Some c') False = message_callbacks False (Some (c\<lparr>cb_retries := r - 1\<rparr>)) False"
proof (cases "r = 1")
  case True
  with assms show ?thesis
    by (auto simp: sync_step_def Let_def mb_entry_def trying_def message_callbacks_retry message_callbacks_def)
next
  case False
  then have "r - 1 \<noteq> 0" by simp
  with assms False show ?thesis
    by (auto simp: sync_step_def Let_def mb_entry_def trying_def message_callbacks_retry)
qed

lemma dead_retry_tx:
  assumes "trying msg c r mb" and "mb_state mb = ModBus_Retry" and "expired (mb_silence_until mb) t"
    and "r \<noteq> 0" and "cb_on_rx_timeout c \<noteq> None"
  shows "\<exists>mb'. sync_loop False msg (Some c) (dead_env t (Suc k)) (b, mb) =
      sync_loop False msg (Some c) (dead_env (t + 1) k) (b, mb') \<and>
    trying msg c (r - 1) mb' \<and> mb_state mb' = ModBus_TX \<and> mb_rx_timeout mb' = mb_cfg_rx_timeout mb \<and>
    txs (mb_log mb') = txs (mb_log mb) @ [TxWrite (frame_of msg)] \<and>
    calls (mb_log mb') = calls (mb_log mb) \<and>
    mb_cfg_rx_timeout mb' = mb_cfg_rx_timeout mb \<and> mb_silence_timeout mb' = mb_silence_timeout mb"
proof -
  obtain c' where st: "sync_step False msg (Some c) t (b, mb) =
      Some (b, tx_message SyncMsg (add_message False SyncMsg msg False (Some c') (mb\<lparr>mb_silence_until := 0\<rparr>)))"
    and c': "message_callbacks False (Some c') False = message_callbacks False (Some (c\<lparr>cb_retries := r - 1\<rparr>)) False"
    using dead_retry_step [OF assms] by blast
  define mb' where
    "mb' = tx_message SyncMsg (add_message False SyncMsg msg False (Some c') (mb\<lparr>mb_silence_until := 0\<rparr>))"
  have "modbus_poll t 0 mb = Some mb" using assms(1,2) by (simp add: modbus_poll_def)
  then have "sync_loop False msg (Some c) (dead_env t (Suc k)) (b, mb) =
      sync_loop False msg (Some c) (dead_env (t + 1) k) (b, mb')"
    unfolding dead_loop_step [OF assms(1)] by (simp add: st mb'_def)
  moreover have "trying msg c (r - 1) mb'" using assms(1) c'
    by (simp add: mb'_def trying_def tx_message_def add_message_def set_entry_def Let_def emit_def)
  moreover have "mb_state mb' = ModBus_TX \<and> mb_rx_timeout mb' = mb_cfg_rx_timeout mb \<and>
    mb_cfg_rx_timeout mb' = mb_cfg_rx_timeout mb \<and> mb_silence_timeout mb' = mb_silence_timeout mb \<and>
    mb_log mb' = mb_log mb @ (if mb_has_direction mb then [SetDirection True] else []) @
      [FlushRx, TxWrite (frame_of msg)]"
    by (simp add: mb'_def tx_message_def add_message_def set_entry_def Let_def emit_def mb_entry_def frame_of_def)
  ultimately show ?thesis
    by (intro exI [of _ mb']) (simp add: txs_def calls_def)
qed

text \<open>Waiting for the end of the silence.\<close>

lemma sint_of_nat_small: "n < 2 ^ 31 \<Longrightarrow> sint (of_nat n :: u32) = int n"
  by (simp add: signed_of_nat signed_take_bit_int_eq_self)

lemma dead_retry_wait:
  assumes "trying msg c r mb" and "mb_state mb = ModBus_Retry"
    and "mb_silence_until mb = t + of_nat n" and "n < 2 ^ 31"
    and "r \<noteq> 0" and "cb_on_rx_timeout c \<noteq> None"
  shows "\<exists>mb'. sync_loop False msg (Some c) (dead_env t (n + Suc k)) (b, mb) =
      sync_loop False msg (Some c) (dead_env (t + of_nat n + 1) k) (b, mb') \<and>
    trying msg c (r - 1) mb' \<and> mb_state mb' = ModBus_TX \<and> mb_rx_timeout mb' = mb_cfg_rx_timeout mb \<and>
    txs (mb_log mb') = txs (mb_log mb) @ [TxWrite (frame_of msg)] \<and>
    calls (mb_log mb') = calls (mb_log mb) \<and>
    mb_cfg_rx_timeout mb' = mb_cfg_rx_timeout mb \<and> mb_silence_timeout mb' = mb_silence_timeout mb"
  using assms(3,4)
proof (induction n arbitrary: t)
  case 0
  have "expired (mb_silence_until mb) t" using 0 by (simp add: expired_def)
  from dead_retry_tx [OF assms(1,2) this assms(5,6)] show ?case by simp
next
  case (Suc n)
  have "sint (of_nat (Suc n) :: u32) = int (Suc n)"
    by (rule sint_of_nat_small [OF Suc.prems(2)])
  then have "\<not> expired (mb_silence_until mb) t" using Suc.prems(1) by (simp add: expired_def)
  moreover have "modbus_poll t 0 mb = Some mb" using assms(1,2) by (simp add: modbus_poll_def)
  ultimately have "sync_loop False msg (Some c) (dead_env t (Suc (n + Suc k))) (b, mb) =
      sync_loop False msg (Some c) (dead_env (t + 1) (n + Suc k)) (b, mb)"
    unfolding dead_loop_step [OF assms(1)] using assms(1,2)
    by (simp add: sync_step_def trying_def)
  moreover have "mb_silence_until mb = (t + 1) + of_nat n" using Suc.prems(1) by simp
  ultimately show ?case using Suc.IH [of "t + 1"] Suc.prems(2) by (simp add: add.assoc)
qed

subsection \<open>All tries\<close>

text \<open>Polls needed: the transmit poll and the reply time per try, and the silence (at least one poll)
  per retry.\<close>

fun tries_len :: "nat \<Rightarrow> nat \<Rightarrow> nat \<Rightarrow> nat" where
  "tries_len T W 0 = Suc T"
| "tries_len T W (Suc r) = Suc (T + (W - 1 + Suc (tries_len T W r)))"

lemma dead_reply_time:
  assumes "trying msg c r mb" and "mb_state mb = ModBus_TX" and "unat (mb_rx_timeout mb) = Suc n"
    and "m_rx_length msg \<noteq> 0"
  shows "\<exists>mb'. sync_loop False msg (Some c) (dead_env t (Suc (n + k))) (b, mb) =
      sync_loop False msg (Some c) (dead_env (t + 1 + of_nat n) k) (b, mb') \<and>
    trying msg c r mb' \<and> mb_state mb' = ModBus_AwaitReply \<and> same_try mb mb' \<and> mb_rx_timeout mb' = 1"
proof -
  obtain m where m: "sync_loop False msg (Some c) (dead_env t (Suc (n + k))) (b, mb) =
      sync_loop False msg (Some c) (dead_env (t + 1) (n + k)) (b, m)" "trying msg c r m"
    "mb_state m = ModBus_AwaitReply" "same_try mb m" "mb_rx_timeout m = mb_rx_timeout mb"
    using dead_tx [OF assms(1,2)] by blast
  have "unat (mb_rx_timeout m) = Suc n" using m(5) assms(3) by simp
  from dead_await_all [OF m(2,3) this assms(4), of "t + 1" k b] obtain mb' where
    a: "sync_loop False msg (Some c) (dead_env (t + 1) (n + k)) (b, m) =
        sync_loop False msg (Some c) (dead_env (t + 1 + of_nat n) k) (b, mb')"
      "trying msg c r mb'" "mb_state mb' = ModBus_AwaitReply" "same_try m mb'" "mb_rx_timeout mb' = 1"
    by blast
  show ?thesis
    by (intro exI [of _ mb'] conjI trans [OF m(1) a(1)] a(2,3,5) same_try_trans [OF m(4) a(4)])
qed

lemma dead_silence:
  assumes "trying msg c r mb" and "mb_state mb = ModBus_Retry"
    and "mb_silence_until mb = t + of_nat W" and "W < 2 ^ 31"
    and "r \<noteq> 0" and "cb_on_rx_timeout c \<noteq> None"
  shows "\<exists>mb' t'. sync_loop False msg (Some c) (dead_env (t + 1) (W - 1 + Suc k)) (b, mb) =
      sync_loop False msg (Some c) (dead_env t' k) (b, mb') \<and>
    trying msg c (r - 1) mb' \<and> mb_state mb' = ModBus_TX \<and> mb_rx_timeout mb' = mb_cfg_rx_timeout mb \<and>
    txs (mb_log mb') = txs (mb_log mb) @ [TxWrite (frame_of msg)] \<and>
    calls (mb_log mb') = calls (mb_log mb) \<and>
    mb_cfg_rx_timeout mb' = mb_cfg_rx_timeout mb \<and> mb_silence_timeout mb' = mb_silence_timeout mb"
proof (cases W)
  case 0
  have "expired (mb_silence_until mb) (t + 1)" using assms(3) 0 by (simp add: expired_def)
  from dead_retry_tx [OF assms(1,2) this assms(5,6), of k b]
  show ?thesis unfolding 0 diff_0_eq_0 add_0 by blast
next
  case (Suc w)
  then have "mb_silence_until mb = (t + 1) + of_nat w" "w < 2 ^ 31" using assms(3,4) by simp_all
  from dead_retry_wait [OF assms(1,2) this assms(5,6), of k b]
  show ?thesis unfolding Suc diff_Suc_1 by blast
qed

lemma of_nat_byte_nonzero: "0 < r \<Longrightarrow> r < 256 \<Longrightarrow> (of_nat r :: u8) \<noteq> 0"
  using of_nat_inverse [of r "of_nat r :: u8"] by (auto simp: word_unat_eq_iff unat_of_nat)

lemma dead_tries:
  assumes "trying msg c (of_nat r) mb" and "mb_state mb = ModBus_TX" and "mb_rx_timeout mb = mb_cfg_rx_timeout mb"
    and "unat (mb_cfg_rx_timeout mb) = Suc n" and "retry_wait mb c = of_nat W" and "W < 2 ^ 31"
    and "m_rx_length msg \<noteq> 0" and "cb_on_rx_timeout c = Some (Client h)" and "r < 256"
  shows "\<exists>mb'. sync_loop False msg (Some c) (dead_env t (tries_len (Suc n) W r + k)) (b, mb) = Returned (b, mb') \<and>
    txs (mb_log mb') = txs (mb_log mb) @ replicate r (TxWrite (frame_of msg)) \<and>
    calls (mb_log mb') = calls (mb_log mb) @ [OnTimeout h ModBus_Timeout (m_context msg)]"
  using assms(1-5,9)
proof (induction r arbitrary: mb t)
  case 0
  have n: "unat (mb_rx_timeout mb) = Suc n" using 0 by simp
  obtain m where m: "sync_loop False msg (Some c) (dead_env t (Suc (n + Suc k))) (b, mb) =
      sync_loop False msg (Some c) (dead_env (t + 1 + of_nat n) (Suc k)) (b, m)"
    "trying msg c (of_nat 0) m" "mb_state m = ModBus_AwaitReply" "same_try mb m" "mb_rx_timeout m = 1"
    using dead_reply_time [OF 0(1,2) n assms(7)] by blast
  have m0: "trying msg c 0 m" using m(2) by simp
  have len: "tries_len (Suc n) W 0 + k = Suc (n + Suc k)" by simp
  from dead_give_up [OF m0 m(3,5) assms(8), of "t + 1 + of_nat n" k b] m(4) show ?case
    unfolding len m(1) by (simp add: same_try_def)
next
  case (Suc r)
  let ?k = "W - 1 + Suc (tries_len (Suc n) W r + k)"
  have n: "unat (mb_rx_timeout mb) = Suc n" using Suc.prems by simp
  have rn: "(of_nat (Suc r) :: u8) \<noteq> 0"
    by (rule of_nat_byte_nonzero) (use Suc.prems(6) in simp_all)
  obtain m where m: "sync_loop False msg (Some c) (dead_env t (Suc (n + Suc ?k))) (b, mb) =
      sync_loop False msg (Some c) (dead_env (t + 1 + of_nat n) (Suc ?k)) (b, m)"
    "trying msg c (of_nat (Suc r)) m" "mb_state m = ModBus_AwaitReply" "same_try mb m" "mb_rx_timeout m = 1"
    using dead_reply_time [OF Suc.prems(1,2) n assms(7)] by blast
  obtain m2 where m2: "sync_loop False msg (Some c) (dead_env (t + 1 + of_nat n) (Suc ?k)) (b, m) =
      sync_loop False msg (Some c) (dead_env (t + 1 + of_nat n + 1) ?k) (b, m2)"
    "trying msg c (of_nat (Suc r)) m2" "mb_state m2 = ModBus_Retry" "same_try m m2"
    "mb_silence_until m2 = t + 1 + of_nat n + retry_wait m c"
    using dead_retry [OF m(2,3,5) rn] by blast
  have w: "mb_silence_until m2 = t + 1 + of_nat n + of_nat W"
    using m2(5) m(4) Suc.prems(5) by (simp add: same_try_def retry_wait_def)
  have c: "cb_on_rx_timeout c \<noteq> None" using assms(8) by simp
  obtain m3 t3 where m3: "sync_loop False msg (Some c) (dead_env (t + 1 + of_nat n + 1) ?k) (b, m2) =
      sync_loop False msg (Some c) (dead_env t3 (tries_len (Suc n) W r + k)) (b, m3)"
    "trying msg c (of_nat (Suc r) - 1) m3" "mb_state m3 = ModBus_TX" "mb_rx_timeout m3 = mb_cfg_rx_timeout m2"
    "txs (mb_log m3) = txs (mb_log m2) @ [TxWrite (frame_of msg)]" "calls (mb_log m3) = calls (mb_log m2)"
    "mb_cfg_rx_timeout m3 = mb_cfg_rx_timeout m2" "mb_silence_timeout m3 = mb_silence_timeout m2"
    using dead_silence [OF m2(2,3) w assms(6) rn c] by blast
  have same: "txs (mb_log m2) = txs (mb_log mb)" "calls (mb_log m2) = calls (mb_log mb)"
    "mb_cfg_rx_timeout m2 = mb_cfg_rx_timeout mb" "mb_silence_timeout m2 = mb_silence_timeout mb"
    using m(4) m2(4) by (simp_all add: same_try_def)
  have t3: "trying msg c (of_nat r) m3" using m3(2) by simp
  have r3: "mb_rx_timeout m3 = mb_cfg_rx_timeout m3" "unat (mb_cfg_rx_timeout m3) = Suc n" "retry_wait m3 c = of_nat W"
    "r < 256" using m3(4,7,8) same(3,4) Suc.prems(4-6) by (simp_all add: retry_wait_def)
  from Suc.IH [OF t3 m3(3) r3, of t3] obtain mb' where
    f: "sync_loop False msg (Some c) (dead_env t3 (tries_len (Suc n) W r + k)) (b, m3) = Returned (b, mb')"
      "txs (mb_log mb') = txs (mb_log m3) @ replicate r (TxWrite (frame_of msg))"
      "calls (mb_log mb') = calls (mb_log m3) @ [OnTimeout h ModBus_Timeout (m_context msg)]"
    by blast
  have len: "tries_len (Suc n) W (Suc r) + k = Suc (n + Suc ?k)" by simp
  have "sync_loop False msg (Some c) (dead_env t (tries_len (Suc n) W (Suc r) + k)) (b, mb) = Returned (b, mb')"
    unfolding len m(1) m2(1) m3(1) by (rule f(1))
  then show ?case using f(2,3) m3(5,6) same(1,2) by (intro exI [of _ mb']) simp
qed

lemma sync_end_log [simp]: "mb_log (sync_end mb) = mb_log mb"
  by (simp add: sync_end_def Let_def)

lemma start_trying:
  assumes "\<not> mb_spin_lock mb" and "mb_is_blocking mb" and "r = cb_retries c"
  shows "\<exists>m. tx_message SyncMsg (add_message False SyncMsg msg False (Some c) mb) = m \<and>
    trying msg c r m \<and> mb_state m = ModBus_TX \<and> mb_rx_timeout m = mb_cfg_rx_timeout mb \<and>
    mb_cfg_rx_timeout m = mb_cfg_rx_timeout mb \<and> mb_silence_timeout m = mb_silence_timeout mb \<and>
    txs (mb_log m) = txs (mb_log mb) @ [TxWrite (frame_of msg)] \<and> calls (mb_log m) = calls (mb_log mb)"
proof -
  have "c\<lparr>cb_retries := r\<rparr> = c" using assms(3) by simp
  with assms show ?thesis
    by (simp add: trying_def tx_message_def add_message_def set_entry_def Let_def emit_def mb_entry_def
        frame_of_def txs_def calls_def)
qed

text \<open>
  C29. A blocking Modbus request to a device that stays silent ends, within the time of its tries
  and pauses: the frame is transmitted once plus once per retry, the client's timeout handler is
  called exactly once, with \<open>ModBus_Timeout\<close>, and \<open>modbus_send_rtu\<close> returns false.
\<close>

theorem modbus_silent_device:
  assumes "mb_state mb = ModBus_Idle" and "\<not> mb_spin_lock mb" and "\<not> mb_is_blocking mb"
    and "message_ok msg" and "0 < unat (m_rx_length msg)" and "unat (m_rx_length msg) \<le> MODBUS_MAX_ADU_SIZE"
    and "cb_on_rx_timeout c = Some (Client h)" and "0 < mb_cfg_rx_timeout mb"
    and "unat (retry_wait mb c) < 2 ^ 31"
    and "tries_len (unat (mb_cfg_rx_timeout mb)) (unat (retry_wait mb c)) (unat (cb_retries c)) \<le> k"
  shows "\<exists>mb'. modbus_send_rtu False False msg (Some c) True (dead_env t k) mb = Returned (False, mb') \<and>
    txs (mb_log mb') = txs (mb_log mb) @
      replicate (unat (cb_retries c) + 1) (TxWrite (frame_of (seal_message msg))) \<and>
    calls (mb_log mb') = calls (mb_log mb) @ [OnTimeout h ModBus_Timeout (m_context msg)]"
proof -
  let ?msg = "seal_message msg" and ?mb = "mb\<lparr>mb_is_blocking := True\<rparr>"
  let ?T = "unat (mb_cfg_rx_timeout mb)" and ?W = "unat (retry_wait mb c)" and ?r = "unat (cb_retries c)"
  obtain n where n: "?T = Suc n" using assms(8) by (metis gr0_implies_Suc unat_gt_0 word_gt_0)
  obtain j where j: "k = tries_len (Suc n) ?W ?r + j" using assms(10) n by (metis le_Suc_ex)
  obtain m where m: "tx_message SyncMsg (add_message False SyncMsg ?msg False (Some c) ?mb) = m"
    "trying ?msg c (of_nat ?r) m" "mb_state m = ModBus_TX" "mb_rx_timeout m = mb_cfg_rx_timeout mb"
    "mb_cfg_rx_timeout m = mb_cfg_rx_timeout mb" "mb_silence_timeout m = mb_silence_timeout mb"
    "txs (mb_log m) = txs (mb_log mb) @ [TxWrite (frame_of ?msg)]" "calls (mb_log m) = calls (mb_log mb)"
    using start_trying [of ?mb "of_nat ?r" c ?msg] assms(2) by auto
  have w: "mb_rx_timeout m = mb_cfg_rx_timeout m" "unat (mb_cfg_rx_timeout m) = Suc n"
    "retry_wait m c = of_nat ?W" "m_rx_length ?msg \<noteq> 0" "?r < 256"
    using m(4-6) n assms(5) unsigned_less [of "cb_retries c"] by (auto simp: retry_wait_def)
  from dead_tries [OF m(2,3) w(1,2,3) assms(9) w(4) assms(7) w(5), of t j True] obtain mb' where
    f: "sync_loop False ?msg (Some c) (dead_env t k) (True, m) = Returned (True, mb')"
      "txs (mb_log mb') = txs (mb_log m) @ replicate ?r (TxWrite (frame_of ?msg))"
      "calls (mb_log mb') = calls (mb_log m) @ [OnTimeout h ModBus_Timeout (m_context ?msg)]"
    unfolding j by blast
  have wi: "wait_idle (dead_env t k) ?mb = Returned (dead_env t k, ?mb)"
    using assms(1) by (cases k) auto
  have "modbus_send_rtu False False msg (Some c) True (dead_env t k) mb = Returned (False, sync_end mb')"
    using assms(2,3,4,6) wi f(1) m(1) by (simp add: modbus_send_rtu_def message_ok_def Let_def)
  then show ?thesis using f(2,3) m(7,8) by (intro exI [of _ "sync_end mb'"]) simp
qed

lemma modbus_silent_device_witness:
  "\<exists>mb'. modbus_send_rtu False False demo_message
       (Some \<lparr>cb_retries = 2, cb_retry_delay = 10, cb_on_rx_packet = None, cb_on_rx_exception = None,
              cb_on_rx_timeout = Some (Client (4::nat))\<rparr>) True (dead_env 100 200)
       (modbus_settings_restore (modbus_rtu_init False)) = Returned (False, mb') \<and>
     length (txs (mb_log mb')) = 3 \<and> calls (mb_log mb') = [OnTimeout 4 ModBus_Timeout 7]"
proof -
  let ?c = "\<lparr>cb_retries = 2, cb_retry_delay = 10, cb_on_rx_packet = None, cb_on_rx_exception = None,
              cb_on_rx_timeout = Some (Client (4::nat))\<rparr>"
  let ?mb = "modbus_settings_restore (modbus_rtu_init False) :: nat modbus_rtu"
  note d = modbus_settings_restore_def modbus_rtu_init_def modbus_rtu_set_silence_def Let_def
  have b: "get_baudrate 0 = 3" by code_simp
  have s: "mb_silence_timeout ?mb = 2"
    by (simp add: d b dflt_timeout_def)
  have T: "mb_cfg_rx_timeout ?mb = 50" by (simp add: d)
  have p: "mb_state ?mb = ModBus_Idle" "\<not> mb_spin_lock ?mb" "\<not> mb_is_blocking ?mb" "mb_log ?mb = []"
    by (simp_all add: d)
  have W: "retry_wait ?mb ?c = 12" by (simp add: retry_wait_def s)
  have m: "message_ok demo_message" "0 < unat (m_rx_length demo_message)"
    "unat (m_rx_length demo_message) \<le> MODBUS_MAX_ADU_SIZE" "cb_on_rx_timeout ?c = Some (Client 4)"
    by (simp_all add: message_ok_def demo_message_def MODBUS_MAX_ADU_SIZE_def)
  have two: "tries_len x y (Suc (Suc 0)) = 3 * x + 2 * (y - 1) + 5" for x y by simp
  have r: "unat (cb_retries ?c) = Suc (Suc 0)" by simp
  have k: "tries_len (unat (mb_cfg_rx_timeout ?mb)) (unat (retry_wait ?mb ?c)) (unat (cb_retries ?c)) \<le> 200"
    unfolding T W r two by simp
  have z: "0 < mb_cfg_rx_timeout ?mb" "unat (retry_wait ?mb ?c) < 2 ^ 31" unfolding T W by simp_all
  from modbus_silent_device [OF p(1-3) m z k, of 100] show ?thesis
    unfolding p(4) by (auto simp: txs_def calls_def demo_message_def)
qed

end
