(* ===== verification/Errors.thy ===== *)
theory Errors
  imports Prelude
begin

text \<open>
  Status and alarm codes (\<open>grbl/errors.h\<close>, \<open>grbl/alarms.h\<close>) and the description registries
  (\<open>grbl/errors.c\<close>, \<open>grbl/alarms.c\<close>). A code is the number the packed C enumeration gives it, since
  the code converts freely between the two. The tables are those of a build with expressions enabled
  and compatibility level 0 or 1. A registry is a list of tables: the core's own table first, then the
  registered ones in the order of registration; \<open>grbl.on_get_errors\<close> and \<open>grbl.on_get_alarms\<close> are
  the core's getters.
\<close>

subsection \<open>Status codes\<close>

type_synonym status_code = u8

definition Status_OK :: status_code where "Status_OK = 0"
definition Status_ExpectedCommandLetter :: status_code where "Status_ExpectedCommandLetter = 1"
definition Status_BadNumberFormat :: status_code where "Status_BadNumberFormat = 2"
definition Status_InvalidStatement :: status_code where "Status_InvalidStatement = 3"
definition Status_NegativeValue :: status_code where "Status_NegativeValue = 4"
definition Status_HomingDisabled :: status_code where "Status_HomingDisabled = 5"
definition Status_SettingStepPulseMin :: status_code where "Status_SettingStepPulseMin = 6"
definition Status_SettingReadFail :: status_code where "Status_SettingReadFail = 7"
definition Status_IdleError :: status_code where "Status_IdleError = 8"
definition Status_SystemGClock :: status_code where "Status_SystemGClock = 9"
definition Status_SoftLimitError :: status_code where "Status_SoftLimitError = 10"
definition Status_Overflow :: status_code where "Status_Overflow = 11"
definition Status_MaxStepRateExceeded :: status_code where "Status_MaxStepRateExceeded = 12"
definition Status_CheckDoor :: status_code where "Status_CheckDoor = 13"
definition Status_LineLengthExceeded :: status_code where "Status_LineLengthExceeded = 14"
definition Status_TravelExceeded :: status_code where "Status_TravelExceeded = 15"
definition Status_InvalidJogCommand :: status_code where "Status_InvalidJogCommand = 16"
definition Status_SettingDisabledLaser :: status_code where "Status_SettingDisabledLaser = 17"
definition Status_Reset :: status_code where "Status_Reset = 18"
definition Status_NonPositiveValue :: status_code where "Status_NonPositiveValue = 19"
definition Status_GcodeUnsupportedCommand :: status_code where "Status_GcodeUnsupportedCommand = 20"
definition Status_GcodeModalGroupViolation :: status_code where "Status_GcodeModalGroupViolation = 21"
definition Status_GcodeUndefinedFeedRate :: status_code where "Status_GcodeUndefinedFeedRate = 22"
definition Status_GcodeCommandValueNotInteger :: status_code where "Status_GcodeCommandValueNotInteger = 23"
definition Status_GcodeAxisCommandConflict :: status_code where "Status_GcodeAxisCommandConflict = 24"
definition Status_GcodeWordRepeated :: status_code where "Status_GcodeWordRepeated = 25"
definition Status_GcodeNoAxisWords :: status_code where "Status_GcodeNoAxisWords = 26"
definition Status_GcodeInvalidLineNumber :: status_code where "Status_GcodeInvalidLineNumber = 27"
definition Status_GcodeValueWordMissing :: status_code where "Status_GcodeValueWordMissing = 28"
definition Status_GcodeUnsupportedCoordSys :: status_code where "Status_GcodeUnsupportedCoordSys = 29"
definition Status_GcodeG53InvalidMotionMode :: status_code where "Status_GcodeG53InvalidMotionMode = 30"
definition Status_GcodeAxisWordsExist :: status_code where "Status_GcodeAxisWordsExist = 31"
definition Status_GcodeNoAxisWordsInPlane :: status_code where "Status_GcodeNoAxisWordsInPlane = 32"
definition Status_GcodeInvalidTarget :: status_code where "Status_GcodeInvalidTarget = 33"
definition Status_GcodeArcRadiusError :: status_code where "Status_GcodeArcRadiusError = 34"
definition Status_GcodeNoOffsetsInPlane :: status_code where "Status_GcodeNoOffsetsInPlane = 35"
definition Status_GcodeUnusedWords :: status_code where "Status_GcodeUnusedWords = 36"
definition Status_GcodeG43DynamicAxisError :: status_code where "Status_GcodeG43DynamicAxisError = 37"
definition Status_GcodeIllegalToolTableEntry :: status_code where "Status_GcodeIllegalToolTableEntry = 38"
definition Status_GcodeValueOutOfRange :: status_code where "Status_GcodeValueOutOfRange = 39"
definition Status_GcodeToolChangePending :: status_code where "Status_GcodeToolChangePending = 40"
definition Status_GcodeSpindleNotRunning :: status_code where "Status_GcodeSpindleNotRunning = 41"
definition Status_GcodeIllegalPlane :: status_code where "Status_GcodeIllegalPlane = 42"
definition Status_GcodeMaxFeedRateExceeded :: status_code where "Status_GcodeMaxFeedRateExceeded = 43"
definition Status_GcodeRPMOutOfRange :: status_code where "Status_GcodeRPMOutOfRange = 44"
definition Status_LimitsEngaged :: status_code where "Status_LimitsEngaged = 45"
definition Status_HomingRequired :: status_code where "Status_HomingRequired = 46"
definition Status_GCodeToolError :: status_code where "Status_GCodeToolError = 47"
definition Status_ValueWordConflict :: status_code where "Status_ValueWordConflict = 48"
definition Status_SelfTestFailed :: status_code where "Status_SelfTestFailed = 49"
definition Status_EStop :: status_code where "Status_EStop = 50"
definition Status_MotorFault :: status_code where "Status_MotorFault = 51"
definition Status_SettingValueOutOfRange :: status_code where "Status_SettingValueOutOfRange = 52"
definition Status_SettingDisabled :: status_code where "Status_SettingDisabled = 53"
definition Status_GcodeInvalidRetractPosition :: status_code where "Status_GcodeInvalidRetractPosition = 54"
definition Status_IllegalHomingConfiguration :: status_code where "Status_IllegalHomingConfiguration = 55"
definition Status_GCodeCoordSystemLocked :: status_code where "Status_GCodeCoordSystemLocked = 56"
definition Status_UnexpectedDemarcation :: status_code where "Status_UnexpectedDemarcation = 57"
definition Status_AuxiliaryPortUnavailable :: status_code where "Status_AuxiliaryPortUnavailable = 58"
definition Status_SDMountError :: status_code where "Status_SDMountError = 60"
definition Status_FileReadError :: status_code where "Status_FileReadError = 61"
definition Status_FsFailedOpenDir :: status_code where "Status_FsFailedOpenDir = 62"
definition Status_FSDirNotFound :: status_code where "Status_FSDirNotFound = 63"
definition Status_SDNotMounted :: status_code where "Status_SDNotMounted = 64"
definition Status_FsNotMounted :: status_code where "Status_FsNotMounted = 65"
definition Status_FsReadOnly :: status_code where "Status_FsReadOnly = 66"
definition Status_BTInitError :: status_code where "Status_BTInitError = 70"
definition Status_ExpressionUknownOp :: status_code where "Status_ExpressionUknownOp = 71"
definition Status_ExpressionDivideByZero :: status_code where "Status_ExpressionDivideByZero = 72"
definition Status_ExpressionArgumentOutOfRange :: status_code where "Status_ExpressionArgumentOutOfRange = 73"
definition Status_ExpressionInvalidArgument :: status_code where "Status_ExpressionInvalidArgument = 74"
definition Status_ExpressionSyntaxError :: status_code where "Status_ExpressionSyntaxError = 75"
definition Status_ExpressionInvalidResult :: status_code where "Status_ExpressionInvalidResult = 76"
definition Status_AuthenticationRequired :: status_code where "Status_AuthenticationRequired = 77"
definition Status_AccessDenied :: status_code where "Status_AccessDenied = 78"
definition Status_NotAllowedCriticalEvent :: status_code where "Status_NotAllowedCriticalEvent = 79"
definition Status_FlowControlNotExecutingMacro :: status_code where "Status_FlowControlNotExecutingMacro = 80"
definition Status_FlowControlSyntaxError :: status_code where "Status_FlowControlSyntaxError = 81"
definition Status_FlowControlStackOverflow :: status_code where "Status_FlowControlStackOverflow = 82"
definition Status_FlowControlOutOfMemory :: status_code where "Status_FlowControlOutOfMemory = 83"
definition Status_FileOpenFailed :: status_code where "Status_FileOpenFailed = 84"
definition Status_FsFormatFailed :: status_code where "Status_FsFormatFailed = 85"
definition Status_AuxiliaryPortUnusable :: status_code where "Status_AuxiliaryPortUnusable = 86"
definition Status_ToolInSPindle :: status_code where "Status_ToolInSPindle = 87"
definition Status_NoToolInSPindle :: status_code where "Status_NoToolInSPindle = 88"
definition Status_FileDeleteFailed :: status_code where "Status_FileDeleteFailed = 89"
definition Status_StatusMax :: status_code where "Status_StatusMax = 89"
definition Status_UserException :: status_code where "Status_UserException = 253"
definition Status_Handled :: status_code where "Status_Handled = 254"
definition Status_Unhandled :: status_code where "Status_Unhandled = 255"

lemmas status_defs =
  Status_OK_def Status_ExpectedCommandLetter_def Status_BadNumberFormat_def Status_InvalidStatement_def
  Status_NegativeValue_def Status_HomingDisabled_def Status_SettingStepPulseMin_def Status_SettingReadFail_def
  Status_IdleError_def Status_SystemGClock_def Status_SoftLimitError_def Status_Overflow_def
  Status_MaxStepRateExceeded_def Status_CheckDoor_def Status_LineLengthExceeded_def Status_TravelExceeded_def
  Status_InvalidJogCommand_def Status_SettingDisabledLaser_def Status_Reset_def Status_NonPositiveValue_def
  Status_GcodeUnsupportedCommand_def Status_GcodeModalGroupViolation_def Status_GcodeUndefinedFeedRate_def Status_GcodeCommandValueNotInteger_def
  Status_GcodeAxisCommandConflict_def Status_GcodeWordRepeated_def Status_GcodeNoAxisWords_def Status_GcodeInvalidLineNumber_def
  Status_GcodeValueWordMissing_def Status_GcodeUnsupportedCoordSys_def Status_GcodeG53InvalidMotionMode_def Status_GcodeAxisWordsExist_def
  Status_GcodeNoAxisWordsInPlane_def Status_GcodeInvalidTarget_def Status_GcodeArcRadiusError_def Status_GcodeNoOffsetsInPlane_def
  Status_GcodeUnusedWords_def Status_GcodeG43DynamicAxisError_def Status_GcodeIllegalToolTableEntry_def Status_GcodeValueOutOfRange_def
  Status_GcodeToolChangePending_def Status_GcodeSpindleNotRunning_def Status_GcodeIllegalPlane_def Status_GcodeMaxFeedRateExceeded_def
  Status_GcodeRPMOutOfRange_def Status_LimitsEngaged_def Status_HomingRequired_def Status_GCodeToolError_def
  Status_ValueWordConflict_def Status_SelfTestFailed_def Status_EStop_def Status_MotorFault_def
  Status_SettingValueOutOfRange_def Status_SettingDisabled_def Status_GcodeInvalidRetractPosition_def Status_IllegalHomingConfiguration_def
  Status_GCodeCoordSystemLocked_def Status_UnexpectedDemarcation_def Status_AuxiliaryPortUnavailable_def Status_SDMountError_def
  Status_FileReadError_def Status_FsFailedOpenDir_def Status_FSDirNotFound_def Status_SDNotMounted_def
  Status_FsNotMounted_def Status_FsReadOnly_def Status_BTInitError_def Status_ExpressionUknownOp_def
  Status_ExpressionDivideByZero_def Status_ExpressionArgumentOutOfRange_def Status_ExpressionInvalidArgument_def Status_ExpressionSyntaxError_def
  Status_ExpressionInvalidResult_def Status_AuthenticationRequired_def Status_AccessDenied_def Status_NotAllowedCriticalEvent_def
  Status_FlowControlNotExecutingMacro_def Status_FlowControlSyntaxError_def Status_FlowControlStackOverflow_def Status_FlowControlOutOfMemory_def
  Status_FileOpenFailed_def Status_FsFormatFailed_def Status_AuxiliaryPortUnusable_def Status_ToolInSPindle_def
  Status_NoToolInSPindle_def Status_FileDeleteFailed_def Status_StatusMax_def Status_UserException_def
  Status_Handled_def Status_Unhandled_def

subsection \<open>Alarm codes\<close>

type_synonym alarm_code = u8

definition Alarm_None :: alarm_code where "Alarm_None = 0"
definition Alarm_HardLimit :: alarm_code where "Alarm_HardLimit = 1"
definition Alarm_SoftLimit :: alarm_code where "Alarm_SoftLimit = 2"
definition Alarm_AbortCycle :: alarm_code where "Alarm_AbortCycle = 3"
definition Alarm_ProbeFailInitial :: alarm_code where "Alarm_ProbeFailInitial = 4"
definition Alarm_ProbeFailContact :: alarm_code where "Alarm_ProbeFailContact = 5"
definition Alarm_HomingFailReset :: alarm_code where "Alarm_HomingFailReset = 6"
definition Alarm_HomingFailDoor :: alarm_code where "Alarm_HomingFailDoor = 7"
definition Alarm_FailPulloff :: alarm_code where "Alarm_FailPulloff = 8"
definition Alarm_HomingFailApproach :: alarm_code where "Alarm_HomingFailApproach = 9"
definition Alarm_EStop :: alarm_code where "Alarm_EStop = 10"
definition Alarm_HomingRequired :: alarm_code where "Alarm_HomingRequired = 11"
definition Alarm_LimitsEngaged :: alarm_code where "Alarm_LimitsEngaged = 12"
definition Alarm_ProbeProtect :: alarm_code where "Alarm_ProbeProtect = 13"
definition Alarm_Spindle :: alarm_code where "Alarm_Spindle = 14"
definition Alarm_HomingFailAutoSquaringApproach :: alarm_code where "Alarm_HomingFailAutoSquaringApproach = 15"
definition Alarm_SelftestFailed :: alarm_code where "Alarm_SelftestFailed = 16"
definition Alarm_MotorFault :: alarm_code where "Alarm_MotorFault = 17"
definition Alarm_HomingFail :: alarm_code where "Alarm_HomingFail = 18"
definition Alarm_ModbusException :: alarm_code where "Alarm_ModbusException = 19"
definition Alarm_ExpanderException :: alarm_code where "Alarm_ExpanderException = 20"
definition Alarm_NVS_Failed :: alarm_code where "Alarm_NVS_Failed = 21"
definition Alarm_AlarmMax :: alarm_code where "Alarm_AlarmMax = 21"

lemmas alarm_defs =
  Alarm_None_def Alarm_HardLimit_def Alarm_SoftLimit_def Alarm_AbortCycle_def
  Alarm_ProbeFailInitial_def Alarm_ProbeFailContact_def Alarm_HomingFailReset_def Alarm_HomingFailDoor_def
  Alarm_FailPulloff_def Alarm_HomingFailApproach_def Alarm_EStop_def Alarm_HomingRequired_def
  Alarm_LimitsEngaged_def Alarm_ProbeProtect_def Alarm_Spindle_def Alarm_HomingFailAutoSquaringApproach_def
  Alarm_SelftestFailed_def Alarm_MotorFault_def Alarm_HomingFail_def Alarm_ModbusException_def
  Alarm_ExpanderException_def Alarm_NVS_Failed_def Alarm_AlarmMax_def

definition alarm_is_critical :: "alarm_code \<Rightarrow> bool" where
  "alarm_is_critical alarm \<longleftrightarrow>
     alarm = Alarm_HardLimit \<or> alarm = Alarm_SoftLimit \<or> alarm = Alarm_EStop \<or>
     alarm = Alarm_MotorFault \<or> alarm = Alarm_ExpanderException"

subsection \<open>Descriptions\<close>

type_synonym detail_table = "(u8 \<times> String.literal option) list"

definition status_detail :: detail_table where
  "status_detail = [
     (Status_OK, None),
     (Status_ExpectedCommandLetter, Some (STR ''G-code words consist of a letter and a value. Letter was not found.'')),
     (Status_BadNumberFormat, Some (STR ''Missing the expected G-code word value or numeric value format is not valid.'')),
     (Status_InvalidStatement, Some (STR ''\\'$\\' system command was not recognized or supported.'')),
     (Status_NegativeValue, Some (STR ''Negative value received for an expected positive value.'')),
     (Status_HomingDisabled, Some (STR ''Homing cycle failure. Homing is not configured via settings.'')),
     (Status_SettingStepPulseMin, Some (STR ''Step pulse time must be greater or equal to 2 microseconds.'')),
     (Status_SettingReadFail, Some (STR ''A settings read failed. Auto-restoring affected settings to default values.'')),
     (Status_IdleError, Some (STR ''\\'$\\' command cannot be used unless controller state is IDLE. Ensures smooth operation during a job.'')),
     (Status_SystemGClock, Some (STR ''G-code commands are locked out during alarm or jog state.'')),
     (Status_SoftLimitError, Some (STR ''Soft limits cannot be enabled without homing also enabled.'')),
     (Status_Overflow, Some (STR ''Max characters per line exceeded. Received command line was not executed.'')),
     (Status_MaxStepRateExceeded, Some (STR ''\\'$\\' setting value cause the step rate to exceed the maximum supported.'')),
     (Status_CheckDoor, Some (STR ''Safety door detected as opened and door state initiated.'')),
     (Status_LineLengthExceeded, Some (STR ''Build info or startup line exceeded line length limit. Line not stored.'')),
     (Status_TravelExceeded, Some (STR ''Jog target exceeds machine travel. Jog command has been ignored.'')),
     (Status_InvalidJogCommand, Some (STR ''Jog command has no \\'=\\' or contains prohibited g-code.'')),
     (Status_SettingDisabledLaser, Some (STR ''Laser mode requires PWM output.'')),
     (Status_Reset, Some (STR ''Reset asserted'')),
     (Status_NonPositiveValue, Some (STR ''Non positive value'')),
     (Status_GcodeUnsupportedCommand, Some (STR ''Unsupported or invalid g-code command found in block.'')),
     (Status_GcodeModalGroupViolation, Some (STR ''More than one g-code command from same modal group found in block.'')),
     (Status_GcodeUndefinedFeedRate, Some (STR ''Feed rate has not yet been set or is undefined.'')),
     (Status_GcodeCommandValueNotInteger, Some (STR ''G-code command in block requires an integer value.'')),
     (Status_GcodeAxisCommandConflict, Some (STR ''More than one g-code command that requires axis words found in block.'')),
     (Status_GcodeWordRepeated, Some (STR ''Repeated g-code word found in block.'')),
     (Status_GcodeNoAxisWords, Some (STR ''No axis words found in block for g-code command or current modal state which requires them.'')),
     (Status_GcodeInvalidLineNumber, Some (STR ''Line number value is invalid.'')),
     (Status_GcodeValueWordMissing, Some (STR ''G-code command is missing a required value word.'')),
     (Status_GcodeUnsupportedCoordSys, Some (STR ''G59.x work coordinate systems are not supported.'')),
     (Status_GcodeG53InvalidMotionMode, Some (STR ''G53 only allowed with G0 and G1 motion modes.'')),
     (Status_GcodeAxisWordsExist, Some (STR ''Axis words found in block when no command or current modal state uses them.'')),
     (Status_GcodeNoAxisWordsInPlane, Some (STR ''G2 and G3 arcs require at least one in-plane axis word.'')),
     (Status_GcodeInvalidTarget, Some (STR ''Motion command target is invalid.'')),
     (Status_GcodeArcRadiusError, Some (STR ''Arc radius value is invalid.'')),
     (Status_GcodeNoOffsetsInPlane, Some (STR ''G2 and G3 arcs require at least one in-plane offset word.'')),
     (Status_GcodeUnusedWords, Some (STR ''Unused value words found in block.'')),
     (Status_GcodeG43DynamicAxisError, Some (STR ''G43.1 dynamic tool length offset is not assigned to configured tool length axis.'')),
     (Status_GcodeIllegalToolTableEntry, Some (STR ''Tool number greater than max supported value or undefined tool selected.'')),
     (Status_GcodeValueOutOfRange, Some (STR ''Value out of range.'')),
     (Status_GcodeToolChangePending, Some (STR ''G-code command not allowed when tool change is pending.'')),
     (Status_GcodeSpindleNotRunning, Some (STR ''Spindle not running when motion commanded in CSS or spindle sync mode.'')),
     (Status_GcodeIllegalPlane, Some (STR ''Plane must be ZX for threading.'')),
     (Status_GcodeMaxFeedRateExceeded, Some (STR ''Max. feed rate exceeded.'')),
     (Status_GcodeRPMOutOfRange, Some (STR ''RPM out of range.'')),
     (Status_LimitsEngaged, Some (STR ''Only homing is allowed when a limit switch is engaged.'')),
     (Status_HomingRequired, Some (STR ''Home machine to continue.'')),
     (Status_GCodeToolError, Some (STR ''ATC: current tool is not set. Set current tool with M61.'')),
     (Status_ValueWordConflict, Some (STR ''Value word conflict.'')),
     (Status_SelfTestFailed, Some (STR ''Power on self test failed. A hard reset is required.'')),
     (Status_EStop, Some (STR ''Emergency stop active.'')),
     (Status_MotorFault, Some (STR ''Motor fault.'')),
     (Status_SettingValueOutOfRange, Some (STR ''Setting value is out of range.'')),
     (Status_SettingDisabled, Some (STR ''Setting is not available, possibly due to limited driver support.'')),
     (Status_GcodeInvalidRetractPosition, Some (STR ''Retract position is less than drill depth.'')),
     (Status_IllegalHomingConfiguration, Some (STR ''Attempt to home two auto squared axes at the same time.'')),
     (Status_GCodeCoordSystemLocked, Some (STR ''Coordinate system is locked.'')),
     (Status_UnexpectedDemarcation, Some (STR ''Unexpected file demarcation.'')),
     (Status_AuxiliaryPortUnavailable, Some (STR ''Port is not available'')),
     (Status_ExpressionUknownOp, Some (STR ''Unknown operation found in expression.'')),
     (Status_ExpressionDivideByZero, Some (STR ''Divide by zero in expression attempted.'')),
     (Status_ExpressionArgumentOutOfRange, Some (STR ''Too large or too small argrument provided.'')),
     (Status_ExpressionInvalidArgument, Some (STR ''Argument is not valid for the operation'')),
     (Status_ExpressionSyntaxError, Some (STR ''Expression is not valid.'')),
     (Status_ExpressionInvalidResult, Some (STR ''Either NAN (not a number) or infinity was returned from expression.'')),
     (Status_AuthenticationRequired, Some (STR ''Authentication required.'')),
     (Status_AccessDenied, Some (STR ''Access denied.'')),
     (Status_NotAllowedCriticalEvent, Some (STR ''Not allowed while critical event is active.'')),
     (Status_FlowControlNotExecutingMacro, Some (STR ''Flow statement only allowed in filesystem macro.'')),
     (Status_FlowControlSyntaxError, Some (STR ''Unknown flow statement.'')),
     (Status_FlowControlStackOverflow, Some (STR ''Stack overflow while executing flow statement.'')),
     (Status_FlowControlOutOfMemory, Some (STR ''Out of memory while executing flow statement.'')),
     (Status_FileOpenFailed, Some (STR ''Could not open file.'')),
     (Status_UserException, Some (STR ''User defined error occured.'')),
     (Status_AuxiliaryPortUnusable, Some (STR ''Port is not usable.'')),
     (Status_ToolInSPindle, Some (STR ''Tool in spindle.'')),
     (Status_NoToolInSPindle, Some (STR ''No tool in spindle.''))]"

definition alarm_detail :: detail_table where
  "alarm_detail = [
     (Alarm_HardLimit, Some (STR ''Hard limit has been triggered. Machine position is likely lost due to sudden halt. Re-homing is highly recommended.'')),
     (Alarm_SoftLimit, Some (STR ''Soft limit alarm. G-code motion target exceeds machine travel. Machine position retained. Alarm may be safely unlocked.'')),
     (Alarm_AbortCycle, Some (STR ''Reset/E-stop while in motion. Machine position is likely lost due to sudden halt. Re-homing is highly recommended.'')),
     (Alarm_ProbeFailInitial, Some (STR ''Probe fail. Probe is not in the expected initial state before starting probe cycle when G38.2 and G38.3 is not triggered and G38.4 and G38.5 is triggered.'')),
     (Alarm_ProbeFailContact, Some (STR ''Probe fail. Probe did not contact the workpiece within the programmed travel for G38.2 and G38.4.'')),
     (Alarm_HomingFailReset, Some (STR ''Homing fail. The active homing cycle was reset.'')),
     (Alarm_HomingFailDoor, Some (STR ''Homing fail. Safety door was opened during homing cycle.'')),
     (Alarm_FailPulloff, Some (STR ''Homing fail. Pull off travel failed to clear limit switch. Try increasing pull-off setting or check wiring.'')),
     (Alarm_HomingFailApproach, Some (STR ''Homing fail. Could not find limit switch within search distances. Try increasing max travel, decreasing pull-off distance, or check wiring.'')),
     (Alarm_EStop, Some (STR ''EStop asserted. Clear and reset'')),
     (Alarm_HomingRequired, Some (STR ''Homing required. Execute homing command ($H) to continue.'')),
     (Alarm_LimitsEngaged, Some (STR ''Limit switch engaged. Clear before continuing.'')),
     (Alarm_ProbeProtect, Some (STR ''Probe protection triggered. Clear before continuing.'')),
     (Alarm_Spindle, Some (STR ''Spindle at speed timeout. Clear before continuing.'')),
     (Alarm_HomingFailAutoSquaringApproach, Some (STR ''Homing fail. Could not find second limit switch for auto squared axis within search distances. Try increasing max travel, decreasing pull-off distance, or check wiring.'')),
     (Alarm_SelftestFailed, Some (STR ''Power on selftest (POS) failed.'')),
     (Alarm_MotorFault, Some (STR ''Motor fault.'')),
     (Alarm_HomingFail, Some (STR ''Homing fail. Bad configuration.'')),
     (Alarm_ModbusException, Some (STR ''Modbus exception. Timeout or message error.'')),
     (Alarm_ExpanderException, Some (STR ''I/O expander communication failed.'')),
     (Alarm_NVS_Failed, Some (STR ''Non Volatile Storage (EEPROM) failure.''))]"


text \<open>The search of one table, from its last entry down, and of the tables in turn. An entry
  without a description does not end the search.\<close>

fun detail_scan :: "detail_table \<Rightarrow> nat \<Rightarrow> u8 \<Rightarrow> String.literal option" where
  "detail_scan t 0 code = None"
| "detail_scan t (Suc n) code =
     (case (if fst (t ! n) = code then snd (t ! n) else None) of
        Some d \<Rightarrow> Some d
      | None \<Rightarrow> detail_scan t n code)"

fun registry_scan :: "detail_table list \<Rightarrow> u8 \<Rightarrow> String.literal option" where
  "registry_scan [] code = None"
| "registry_scan (t # ts) code =
     (case detail_scan t (length t) code of Some d \<Rightarrow> Some d | None \<Rightarrow> registry_scan ts code)"

definition errors_register :: "detail_table \<Rightarrow> detail_table list \<Rightarrow> detail_table list" where
  "errors_register details errors = errors @ [details]"

definition errors_get_description :: "detail_table list \<Rightarrow> status_code \<Rightarrow> String.literal option" where
  "errors_get_description errors code = registry_scan errors code"

definition alarms_register :: "detail_table \<Rightarrow> detail_table list \<Rightarrow> detail_table list" where
  "alarms_register details alarms = alarms @ [details]"

definition alarms_get_description :: "detail_table list \<Rightarrow> alarm_code \<Rightarrow> String.literal option" where
  "alarms_get_description alarms code = registry_scan alarms code"

subsection \<open>Properties\<close>

lemma detail_scan_in:
  assumes "distinct (map fst t)" and "n \<le> length t" and "i < n" and "t ! i = (code, Some d)"
  shows "detail_scan t n code = Some d"
  using assms
proof (induction n)
  case (Suc n)
  show ?case
  proof (cases "i = n")
    case True
    with Suc.prems show ?thesis by simp
  next
    case False
    have "fst (t ! n) \<noteq> code"
      using False Suc.prems nth_eq_iff_index_eq [OF Suc.prems(1), of n i] by auto
    with False Suc show ?thesis by (simp add: less_Suc_eq)
  qed
qed simp

lemma detail_scan_mem:
  "distinct (map fst t) \<Longrightarrow> (code, Some d) \<in> set t \<Longrightarrow> detail_scan t (length t) code = Some d"
  by (auto simp: in_set_conv_nth intro: detail_scan_in)

lemma distinct_status_detail: "distinct (map fst status_detail)"
  by (simp add: status_detail_def status_defs)

lemma distinct_alarm_detail: "distinct (map fst alarm_detail)"
  by (simp add: alarm_detail_def alarm_defs)

text \<open>
  Registering further tables never changes the description of a status or alarm code that the
  core's tables describe.
\<close>

theorem core_descriptions_kept:
  "(\<forall>(code, d) \<in> set status_detail. d \<noteq> None \<longrightarrow>
      errors_get_description (foldl (\<lambda>r t. errors_register t r) [status_detail] ts) code = d) \<and>
   (\<forall>(code, d) \<in> set alarm_detail.
      alarms_get_description (foldl (\<lambda>r t. alarms_register t r) [alarm_detail] ts) code = d)"
proof -
  have e: "foldl (\<lambda>r t. errors_register t r) [x] ts = x # ts" for x ts
    by (induction ts rule: rev_induct) (simp_all add: errors_register_def)
  have a: "foldl (\<lambda>r t. alarms_register t r) [x] ts = x # ts" for x ts
    by (induction ts rule: rev_induct) (simp_all add: alarms_register_def)
  have alarm: "alarms_get_description (alarm_detail # ts) code = d" if "(code, d) \<in> set alarm_detail" for code d
  proof -
    obtain t where "d = Some t" using \<open>(code, d) \<in> set alarm_detail\<close> by (auto simp: alarm_detail_def)
    with that show ?thesis
      by (simp add: alarms_get_description_def detail_scan_mem distinct_alarm_detail)
  qed
  have status: "errors_get_description (status_detail # ts) code = d"
    if "(code, d) \<in> set status_detail" "d \<noteq> None" for code d
    using that by (auto simp: errors_get_description_def detail_scan_mem distinct_status_detail)
  show ?thesis
    unfolding e a using alarm status by blast
qed

lemma core_descriptions_kept_witness:
  "errors_get_description [status_detail, [(Status_Overflow, Some (STR ''other''))]] Status_Reset =
     Some (STR ''Reset asserted'')"
proof -
  have "(Status_Reset, Some (STR ''Reset asserted'')) \<in> set status_detail"
    by (simp add: status_detail_def)
  with core_descriptions_kept [of "[[(Status_Overflow, Some (STR ''other''))]]"] show ?thesis
    by (auto simp: errors_register_def)
qed

end
