(* ===== verification/Modbus_Api.thy ===== *)
theory Modbus_Api
  imports Modbus Errors
begin

text \<open>
  The Modbus front end of \<open>grbl/modbus.c\<close>: the registry of up to two interfaces with its
  dispatching functions, and the high level API that builds a request from a function code and
  register values (\<open>modbus_message\<close>) and takes a reply apart (\<open>rx_packet\<close>).
\<close>

subsection \<open>The registry\<close>

definition N_MODBUS_API :: nat where "N_MODBUS_API = 2"

datatype modbus_if = Modbus_InterfaceRTU | Modbus_InterfaceASCII | Modbus_InterfaceTCP

text \<open>An interface's functions act on the state of the world behind it.\<close>

record 'w modbus_api =
  api_interface :: modbus_if
  api_is_up :: "'w \<Rightarrow> bool"
  api_flush_queue :: "'w \<Rightarrow> 'w"
  api_set_silence :: "u16 list option \<Rightarrow> 'w \<Rightarrow> 'w"
  api_send :: "modbus_message \<Rightarrow> bool \<Rightarrow> 'w \<Rightarrow> bool \<times> 'w"
  api_is_busy :: "('w \<Rightarrow> bool) option"

record 'w modbus_registry =
  n_api :: nat
  tcp_api :: nat
  rtu_api :: nat
  apis :: "'w modbus_api list"

record modbus_cap =
  cap_rtu :: bool
  cap_ascii :: bool
  cap_tcp :: bool

definition registry_init :: "'w modbus_api \<Rightarrow> 'w modbus_registry" where
  "registry_init zero = \<lparr>n_api = 0, tcp_api = N_MODBUS_API, rtu_api = N_MODBUS_API,
     apis = replicate N_MODBUS_API zero\<rparr>"

definition modbus_register_api :: "'w modbus_api \<Rightarrow> 'w modbus_registry \<Rightarrow> bool \<times> 'w modbus_registry" where
  "modbus_register_api api r =
     (if n_api r < N_MODBUS_API
      then let r' = r\<lparr>apis := (apis r)[n_api r := api]\<rparr>;
               r' = (if api_interface api = Modbus_InterfaceTCP then r'\<lparr>tcp_api := n_api r\<rparr>
                     else if api_interface api = Modbus_InterfaceRTU then r'\<lparr>rtu_api := n_api r\<rparr>
                     else r')
           in (True, r'\<lparr>n_api := n_api r + 1\<rparr>)
      else (False, r))"

fun isup_loop :: "'w modbus_api list \<Rightarrow> 'w \<Rightarrow> nat \<Rightarrow> modbus_cap \<Rightarrow> modbus_cap" where
  "isup_loop as w 0 cap = cap"
| "isup_loop as w (Suc idx) cap =
     isup_loop as w idx
       (if api_is_up (as ! idx) w
        then case api_interface (as ! idx) of
               Modbus_InterfaceRTU \<Rightarrow> cap\<lparr>cap_rtu := True\<rparr>
             | Modbus_InterfaceASCII \<Rightarrow> cap\<lparr>cap_ascii := True\<rparr>
             | Modbus_InterfaceTCP \<Rightarrow> cap\<lparr>cap_tcp := True\<rparr>
        else cap)"

definition modbus_isup :: "'w modbus_registry \<Rightarrow> 'w \<Rightarrow> modbus_cap" where
  "modbus_isup r w =
     isup_loop (apis r) w (n_api r) \<lparr>cap_rtu = False, cap_ascii = False, cap_tcp = False\<rparr>"

fun isbusy_loop :: "'w modbus_api list \<Rightarrow> 'w \<Rightarrow> nat \<Rightarrow> bool" where
  "isbusy_loop as w 0 = False"
| "isbusy_loop as w (Suc idx) =
     (let busy = (case api_is_busy (as ! idx) of None \<Rightarrow> False | Some f \<Rightarrow> f w)
      in if busy then True else isbusy_loop as w idx)"

definition modbus_isbusy :: "'w modbus_registry \<Rightarrow> 'w \<Rightarrow> bool" where
  "modbus_isbusy r w = isbusy_loop (apis r) w (n_api r)"

definition modbus_enabled :: "'w modbus_registry \<Rightarrow> bool" where
  "modbus_enabled r \<longleftrightarrow> n_api r > 0"

fun flush_loop :: "'w modbus_api list \<Rightarrow> nat \<Rightarrow> 'w \<Rightarrow> 'w" where
  "flush_loop as 0 w = w"
| "flush_loop as (Suc idx) w = flush_loop as idx (api_flush_queue (as ! idx) w)"

definition modbus_flush_queue :: "'w modbus_registry \<Rightarrow> 'w \<Rightarrow> 'w" where
  "modbus_flush_queue r w = flush_loop (apis r) (n_api r) w"

definition modbus_set_silence :: "'w modbus_registry \<Rightarrow> u16 list option \<Rightarrow> 'w \<Rightarrow> 'w" where
  "modbus_set_silence r timeout w =
     (if rtu_api r \<noteq> N_MODBUS_API then api_set_silence (apis r ! rtu_api r) timeout w else w)"

definition modbus_send :: "'w modbus_registry \<Rightarrow> modbus_message \<Rightarrow> bool \<Rightarrow> 'w \<Rightarrow> bool \<times> 'w" where
  "modbus_send r msg block w =
     (let (ok, w) = (if tcp_api r \<noteq> N_MODBUS_API then api_send (apis r ! tcp_api r) msg block w
                     else (False, w))
      in if ok then (True, w)
         else if rtu_api r \<noteq> N_MODBUS_API then api_send (apis r ! rtu_api r) msg block w
         else (False, w))"

subsection \<open>Byte order\<close>

definition modbus_read_u16 :: "u8 list \<Rightarrow> nat \<Rightarrow> u16" where
  "modbus_read_u16 p i = push_bit 8 (ucast (p ! i)) OR ucast (p ! (i + 1))"

definition modbus_write_u16 :: "u8 list \<Rightarrow> nat \<Rightarrow> u16 \<Rightarrow> u8 list" where
  "modbus_write_u16 p i value = p[i := ucast (drop_bit 8 value), i + 1 := ucast (value AND 0x00FF)]"

subsection \<open>Requests\<close>

definition MODBUS_MAX_REGISTERS :: nat where
  "MODBUS_MAX_REGISTERS = (MODBUS_MAX_ADU_SIZE - 6) div 2"

record modbus_function_properties =
  fp_function :: nat
  fp_is_write :: bool
  fp_single_register :: bool

definition fprop :: "nat \<Rightarrow> bool \<Rightarrow> bool \<Rightarrow> modbus_function_properties" where
  "fprop f w s = \<lparr>fp_function = f, fp_is_write = w, fp_single_register = s\<rparr>"

definition ModBus_ReadCoils :: nat where "ModBus_ReadCoils = 1"
definition ModBus_ReadDiscreteInputs :: nat where "ModBus_ReadDiscreteInputs = 2"
definition ModBus_ReadHoldingRegisters :: nat where "ModBus_ReadHoldingRegisters = 3"
definition ModBus_ReadInputRegisters :: nat where "ModBus_ReadInputRegisters = 4"
definition ModBus_WriteCoil :: nat where "ModBus_WriteCoil = 5"
definition ModBus_WriteRegister :: nat where "ModBus_WriteRegister = 6"
definition ModBus_ReadExceptionStatus :: nat where "ModBus_ReadExceptionStatus = 7"
definition ModBus_Diagnostics :: nat where "ModBus_Diagnostics = 8"
definition ModBus_WriteCoils :: nat where "ModBus_WriteCoils = 15"
definition ModBus_WriteRegisters :: nat where "ModBus_WriteRegisters = 16"

lemmas function_codes = ModBus_ReadCoils_def ModBus_ReadDiscreteInputs_def
  ModBus_ReadHoldingRegisters_def ModBus_ReadInputRegisters_def ModBus_WriteCoil_def
  ModBus_WriteRegister_def ModBus_ReadExceptionStatus_def ModBus_Diagnostics_def
  ModBus_WriteCoils_def ModBus_WriteRegisters_def

definition cmds :: "modbus_function_properties list" where
  "cmds = [fprop 0 False False,
     fprop ModBus_ReadCoils False False, fprop ModBus_ReadDiscreteInputs False False,
     fprop ModBus_ReadHoldingRegisters False False, fprop ModBus_ReadInputRegisters False False,
     fprop ModBus_WriteCoil True True, fprop ModBus_WriteRegister True True,
     fprop ModBus_ReadExceptionStatus False True, fprop 0 True False,
     fprop 0 False False, fprop 0 False False, fprop 0 False False, fprop 0 False False,
     fprop 0 False False, fprop 0 False False,
     fprop ModBus_WriteCoils True False, fprop ModBus_WriteRegisters True False]"

definition max_function :: nat where "max_function = length cmds - 1"

definition modbus_get_function_properties :: "nat \<Rightarrow> modbus_function_properties option" where
  "modbus_get_function_properties f =
     (if f \<le> max_function \<and> fp_function (cmds ! f) \<noteq> 0 then Some (cmds ! f) else None)"

text \<open>Writing the register values, high byte first, from position \<open>pos\<close> on.\<close>

fun put_values :: "u8 list \<Rightarrow> nat \<Rightarrow> u16 list \<Rightarrow> u8 list" where
  "put_values adu pos [] = adu"
| "put_values adu pos (v # vs) =
     put_values (adu[pos := ucast (drop_bit 8 v), pos + 1 := ucast (v AND 0xFF)]) (pos + 2) vs"

datatype build_result = InvalidStatement | Request modbus_message | BuildFault

text \<open>The request \<open>modbus_message\<close> builds; reading register values the caller did not supply is a
  fault.\<close>

definition build_message :: "u32 \<Rightarrow> u8 \<Rightarrow> nat \<Rightarrow> u16 \<Rightarrow> u16 list \<Rightarrow> u8 \<Rightarrow> build_result" where
  "build_message tx_id server function address values registers =
     (let r = unat registers
      in if function > max_function \<or> fp_function (cmds ! function) = 0 \<or> r > MODBUS_MAX_REGISTERS
         then InvalidStatement
         else
           let adu = [server, of_nat function, ucast (drop_bit 8 address), ucast (address AND 0xFF)] @
                     replicate (MODBUS_MAX_ADU_SIZE - 4) 0;
               msg = (\<lambda>tx rx adu. \<lparr>m_context = tx_id, m_crc_check = True, m_tx_length = tx,
                                  m_rx_length = rx, m_adu = adu\<rparr>)
           in if function = ModBus_ReadExceptionStatus then Request (msg 4 5 adu)
              else
                let tx = 6 + 2 * registers; rx = tx - 1
                in if fp_is_write (cmds ! function)
                   then if length values < r then BuildFault
                        else if fp_single_register (cmds ! function)
                        then Request (msg 8 8 (put_values adu 4 (take r values)))
                        else if unat (tx + 3) > MODBUS_MAX_ADU_SIZE then InvalidStatement
                        else Request (msg (tx + 3) 8
                               (put_values (adu[4 := 0, 5 := registers, 6 := push_bit 1 registers]) 7
                                 (take r values)))
                   else
                     let adu = adu[4 := 0, 5 := registers]
                     in Request (msg tx
                          (if function = ModBus_ReadCoils \<or> function = ModBus_ReadDiscreteInputs
                           then 5 + (registers + 7) div 8 else 5 + push_bit 1 registers) adu))"

subsection \<open>Replies\<close>

record modbus_response =
  r_function :: u8
  r_exception :: u8
  r_num_values :: nat
  r_values :: "u16 list"

text \<open>The statics of the high level API: the request counter, the client's callback and the
  response; a call of the callback is the True returned by the handlers.\<close>

record 'cb modbus_client =
  c_tx_id :: u8
  c_xcallback :: "'cb option"
  c_response :: modbus_response

definition empty_response :: modbus_response where
  "empty_response = \<lparr>r_function = 0, r_exception = 0, r_num_values = 0,
     r_values = replicate MODBUS_MAX_REGISTERS 0\<rparr>"

definition rx_exception :: "u8 \<Rightarrow> 'cb modbus_client \<Rightarrow> bool \<times> 'cb modbus_client" where
  "rx_exception code c =
     (c_xcallback c \<noteq> None, c\<lparr>c_response := (c_response c)\<lparr>r_exception := code\<rparr>\<rparr>)"

definition rx_timeout :: "'cb modbus_client \<Rightarrow> bool \<times> 'cb modbus_client" where
  "rx_timeout c =
     (c_xcallback c \<noteq> None, c\<lparr>c_response := (c_response c)\<lparr>r_exception := ModBus_Timeout\<rparr>\<rparr>)"

fun store_values :: "(nat \<Rightarrow> u16) \<Rightarrow> nat \<Rightarrow> u16 list \<Rightarrow> u16 list" where
  "store_values f 0 vs = vs"
| "store_values f (Suc n) vs = (store_values f n vs)[n := f n]"

definition parse_reply :: "u8 list \<Rightarrow> modbus_response \<Rightarrow> modbus_response" where
  "parse_reply adu resp =
     (let f = adu ! 1; resp = resp\<lparr>r_function := f\<rparr>; fn = unat f
      in if fn \<le> max_function \<and> fp_function (cmds ! fn) \<noteq> 0
         then
           if fn = ModBus_ReadExceptionStatus
           then resp\<lparr>r_num_values := 1, r_values := (r_values resp)[0 := ucast (adu ! 2)]\<rparr>
           else if fn = ModBus_Diagnostics then resp\<lparr>r_num_values := 0\<rparr>
           else if fn = ModBus_ReadCoils \<or> fn = ModBus_ReadDiscreteInputs
           then let n = min (unat (adu ! 2)) MODBUS_MAX_REGISTERS
                in resp\<lparr>r_num_values := n,
                        r_values := store_values (\<lambda>i. ucast (adu ! (3 + i))) n (r_values resp)\<rparr>
           else
             let two = (fp_single_register (cmds ! fn) \<or> fp_is_write (cmds ! fn));
                 n = min (if two then 2 else unat (adu ! 2) div 2) MODBUS_MAX_REGISTERS;
                 pos = (if two then 2 else 3)
             in resp\<lparr>r_num_values := n,
                     r_values := store_values (\<lambda>i. modbus_read_u16 adu (pos + 2 * i)) n (r_values resp)\<rparr>
         else resp\<lparr>r_exception := 255\<rparr>)"

definition rx_packet :: "modbus_message \<Rightarrow> 'cb modbus_client \<Rightarrow> bool \<times> 'cb modbus_client" where
  "rx_packet msg c =
     (if m_adu msg ! 0 AND 0x80 = 0
      then (c_xcallback c \<noteq> None, c\<lparr>c_response := parse_reply (m_adu msg) (c_response c)\<rparr>)
      else (False, c))"

text \<open>The whole of \<open>modbus_message\<close>; \<open>send\<close> is the registry's send, which may run the handlers above.\<close>

definition modbus_message_send ::
  "(modbus_message \<Rightarrow> 'cb modbus_client \<Rightarrow> bool \<times> 'cb modbus_client) \<Rightarrow> u8 \<Rightarrow> nat \<Rightarrow> u16 \<Rightarrow> u16 list \<Rightarrow> u8 \<Rightarrow>
   'cb option \<Rightarrow> 'cb modbus_client \<Rightarrow> (status_code \<times> 'cb modbus_client) option" where
  "modbus_message_send send server function address values registers callback c =
     (if function > max_function \<or> fp_function (cmds ! function) = 0 \<or>
         unat registers > MODBUS_MAX_REGISTERS
      then Some (Status_InvalidStatement, c)
      else
        let id = c_tx_id c;
            c = c\<lparr>c_tx_id := id + 1, c_xcallback := callback, c_response := empty_response\<rparr>
        in case build_message (ucast id) server function address values registers of
             InvalidStatement \<Rightarrow> Some (Status_InvalidStatement, c)
           | BuildFault \<Rightarrow> None
           | Request msg \<Rightarrow>
               (let (ok, c) = send msg c
                in Some (if ok then Status_OK else Status_AccessDenied, c)))"

subsection \<open>Properties\<close>

lemma u16_bytes: "push_bit 8 (ucast (ucast (drop_bit 8 v :: u16) :: u8)) OR ucast (ucast (v AND 0xFF) :: u8) = (v :: u16)"
  unfolding crc_low_byte
proof (rule bit_word_eqI)
  fix n
  assume "n < LENGTH(16)"
  then show "bit (push_bit 8 (ucast (ucast (drop_bit 8 v :: u16) :: u8)) OR ucast (ucast v :: u8) :: u16) n = bit v n"
    by (auto simp: bit_simps not_less less_diff_conv2)
qed

lemma read_write_u16:
  assumes "Suc i < length p"
  shows "modbus_read_u16 (modbus_write_u16 p i v) i = v"
  using assms u16_bytes [of v] by (simp add: modbus_read_u16_def modbus_write_u16_def)

lemma small_registers: "unat (r :: u8) \<le> 3 \<Longrightarrow> r = 0 \<or> r = 1 \<or> r = 2 \<or> r = 3"
  by (simp add: word_unat_eq_iff) linarith

lemma max_registers: "MODBUS_MAX_REGISTERS = 3"
  by (simp add: MODBUS_MAX_REGISTERS_def MODBUS_MAX_ADU_SIZE_def)

lemma replicate_8: "replicate 8 x = [x, x, x, x, x, x, x, x]"
  by (simp add: numeral_eq_Suc)

lemma max_function_16: "max_function = 16"
  by (simp add: max_function_def cmds_def)

text \<open>
  The length of a read request depends on the number of registers asked for: the frame sent is
  the 8 bytes of the Modbus protocol only for one register. For 0 it is cut short, for 2 or 3 it
  carries 2 or 4 surplus zero bytes before its checksum.
\<close>

theorem modbus_read_request_length:
  assumes "function \<in> {ModBus_ReadCoils, ModBus_ReadDiscreteInputs, ModBus_ReadHoldingRegisters,
      ModBus_ReadInputRegisters}" and "unat registers \<le> MODBUS_MAX_REGISTERS"
  shows "\<exists>msg. build_message tx_id server function address values registers = Request msg \<and>
    unat (m_tx_length msg) = 6 + 2 * unat registers \<and> (m_tx_length msg = 8 \<longleftrightarrow> registers = 1) \<and>
    take 6 (m_adu msg) = [server, of_nat function, ucast (drop_bit 8 address), ucast (address AND 0xFF),
      0, registers]"
proof -
  have "function = 1 \<or> function = 2 \<or> function = 3 \<or> function = 4"
    using assms(1) by (simp add: function_codes)
  moreover have "registers = 0 \<or> registers = 1 \<or> registers = 2 \<or> registers = 3"
    using small_registers assms(2) by (simp add: max_registers)
  ultimately show ?thesis
    by (elim disjE) (simp_all add: build_message_def function_codes cmds_def fprop_def max_function_16
        max_registers MODBUS_MAX_ADU_SIZE_def Let_def replicate_8)
qed

lemma modbus_read_request_length_witness:
  "\<exists>msg. build_message 0 1 ModBus_ReadHoldingRegisters 5 [] 2 = Request msg \<and> unat (m_tx_length msg) = 10"
  using modbus_read_request_length [of ModBus_ReadHoldingRegisters 2 0 1 5 "[]"]
  by (auto simp: max_registers)

text \<open>
  Writing one register or coil: the request carries the address, and the value at the place the
  protocol gives it (after the count and byte count for the multiple-write functions), high byte
  first, so that reading it there gives the value back.
\<close>

theorem modbus_write_request_roundtrip:
  "(\<exists>msg. build_message tx_id server ModBus_WriteRegister address [v] 1 = Request msg \<and>
     m_tx_length msg = 8 \<and> modbus_read_u16 (m_adu msg) 2 = address \<and> modbus_read_u16 (m_adu msg) 4 = v) \<and>
   (\<exists>msg. build_message tx_id server ModBus_WriteRegisters address [v] 1 = Request msg \<and>
     m_tx_length msg = 11 \<and> modbus_read_u16 (m_adu msg) 2 = address \<and>
     modbus_read_u16 (m_adu msg) 4 = 1 \<and> m_adu msg ! 6 = 2 \<and> modbus_read_u16 (m_adu msg) 7 = v)"
  using u16_bytes [of address] u16_bytes [of v]
  by (simp_all add: build_message_def function_codes cmds_def fprop_def max_function_16 max_registers
      MODBUS_MAX_ADU_SIZE_def Let_def replicate_8 modbus_read_u16_def)

text \<open>A register value on the line.\<close>

definition be16 :: "u16 \<Rightarrow> u8 list" where
  "be16 v = [ucast (drop_bit 8 v), ucast (v AND 0xFF)]"

lemma be16_read: "modbus_read_u16 (xs @ be16 v @ ys) (length xs) = v"
  using u16_bytes [of v] by (simp add: modbus_read_u16_def be16_def nth_append)

lemma read_nth_value:
  assumes "i < length vals"
  shows "modbus_read_u16 (hdr @ concat (map be16 vals) @ rest) (length hdr + 2 * i) = vals ! i"
proof -
  have v: "vals = take i vals @ vals ! i # drop (Suc i) vals" by (rule id_take_nth_drop [OF assms])
  have c: "concat (map be16 vals) =
      concat (map be16 (take i vals)) @ be16 (vals ! i) @ concat (map be16 (drop (Suc i) vals))"
    by (subst v) simp
  have len: "length (concat (map be16 vs)) = 2 * length vs" for vs
    by (induction vs) (auto simp: be16_def)
  show ?thesis
    using be16_read [of "hdr @ concat (map be16 (take i vals))" "vals ! i"] assms
    unfolding c by (simp add: len)
qed

lemma length_store_values: "length (store_values f n vs) = length vs"
  by (induction n) auto

lemma take_store_values: "n \<le> length vs \<Longrightarrow> take n (store_values f n vs) = map f [0..<n]"
  by (induction n) (auto simp: take_Suc_conv_app_nth length_store_values)

lemma parse_read:
  assumes "function = 3 \<or> function = 4" and "adu ! 1 = of_nat function"
  shows "parse_reply adu resp = (let n = min (unat (adu ! 2) div 2) 3 in
     resp\<lparr>r_function := of_nat function, r_num_values := n,
       r_values := store_values (\<lambda>i. modbus_read_u16 adu (3 + 2 * i)) n (r_values resp)\<rparr>)"
  using assms
  by (auto simp: parse_reply_def Let_def cmds_def fprop_def function_codes max_function_16 max_registers)

text \<open>
  A reply to a register read with at most three values is taken apart into exactly those
  values.
\<close>

theorem modbus_read_reply_roundtrip:
  assumes "function \<in> {ModBus_ReadHoldingRegisters, ModBus_ReadInputRegisters}" and "length vals \<le> 3"
    and "length (r_values resp) = MODBUS_MAX_REGISTERS"
    and "adu = [server, of_nat function, of_nat (2 * length vals)] @ concat (map be16 vals) @ rest"
  shows "r_num_values (parse_reply adu resp) = length vals \<and>
    take (length vals) (r_values (parse_reply adu resp)) = vals \<and>
    r_exception (parse_reply adu resp) = r_exception resp"
proof -
  have f: "function = 3 \<or> function = 4" using assms(1) by (simp add: function_codes)
  have "unat (of_nat (2 * length vals) :: u8) = 2 * length vals"
    using assms(2) by (subst unat_of_nat) simp
  then have n: "min (unat (adu ! 2) div 2) 3 = length vals" using assms(2,4) by simp
  have "adu ! 1 = of_nat function" using assms(4) by simp
  from parse_read [OF f this, of resp]
  have p: "parse_reply adu resp = resp\<lparr>r_function := of_nat function, r_num_values := length vals,
      r_values := store_values (\<lambda>i. modbus_read_u16 adu (3 + 2 * i)) (length vals) (r_values resp)\<rparr>"
    by (simp add: n Let_def)
  have "modbus_read_u16 adu (3 + 2 * i) = vals ! i" if "i < length vals" for i
    using read_nth_value [OF that, of "[server, of_nat function, of_nat (2 * length vals)]" rest]
    by (simp add: assms(4) numeral_3_eq_3)
  then have "map (\<lambda>i. modbus_read_u16 adu (3 + 2 * i)) [0..<length vals] = vals"
    by (intro nth_equalityI) auto
  then show ?thesis using assms(2,3) by (simp add: p take_store_values max_registers)
qed

lemma modbus_read_reply_roundtrip_witness:
  "r_num_values (parse_reply [1, 3, 4, 0x12, 0x34, 0, 5, 0, 0] empty_response) = 2 \<and>
   take 2 (r_values (parse_reply [1, 3, 4, 0x12, 0x34, 0, 5, 0, 0] empty_response)) = [0x1234, 5]"
proof -
  have a: "ModBus_ReadHoldingRegisters \<in> {ModBus_ReadHoldingRegisters, ModBus_ReadInputRegisters}" by simp
  have l: "length [0x1234, 5 :: u16] \<le> 3" by simp
  have e: "length (r_values empty_response) = MODBUS_MAX_REGISTERS" by (simp add: empty_response_def)
  have b: "[1, 3, 4, 0x12, 0x34, 0, 5, 0, 0] = [1, of_nat ModBus_ReadHoldingRegisters,
      of_nat (2 * length [0x1234, 5 :: u16])] @ concat (map be16 [0x1234, 5]) @ [0, 0]"
    by (simp add: function_codes be16_def drop_bit_eq_div)
  from modbus_read_reply_roundtrip [OF a l e b] show ?thesis by (simp add: numeral_2_eq_2)
qed

text \<open>
  A reply from a server whose address is 128 or more is ignored: the test for an error reply
  looks at the address byte instead of the function byte, so the client's callback is not called.
\<close>

theorem modbus_high_server_ignored:
  assumes "bit (m_adu msg ! 0) 7"
  shows "rx_packet msg c = (False, c)"
proof -
  have "bit (m_adu msg ! 0 AND 0x80) 7" using assms by (simp add: bit_simps)
  then have "m_adu msg ! 0 AND 0x80 \<noteq> 0" by force
  then show ?thesis by (simp add: rx_packet_def)
qed

lemma modbus_high_server_ignored_witness:
  "rx_packet \<lparr>m_context = 0, m_crc_check = True, m_tx_length = 8, m_rx_length = 7,
      m_adu = [200, 3, 2, 0, 5, 0, 0, 0, 0, 0, 0, 0]\<rparr>
      \<lparr>c_tx_id = 0, c_xcallback = Some (1::nat), c_response = empty_response\<rparr> =
    (False, \<lparr>c_tx_id = 0, c_xcallback = Some 1, c_response = empty_response\<rparr>)"
  by (rule modbus_high_server_ignored) simp

end
