(* ===== verification/StateMachine.thy ===== *)
theory StateMachine
  imports Complex_Main Errors
begin

text \<open>
  The machine state machine of \<open>grbl/state_machine.c\<close>: the system state, the current state handler
  (the function pointer \<open>stateHandler\<close>), feed hold, safety door with parking, tool change, sleep and
  jog. One spindle (\<open>N_SYS_SPINDLE\<close> is 1 in the default configuration), whose driver is always
  set. What the module reads from other modules (signals, the planner's current block, whether a
  parking motion could be planned) is the environment \<open>sm_env\<close>; what nested real-time processing
  does while a spindle or coolant delay runs is its function \<open>during_delay\<close>, which may change the state
  and the handler in any way. Positions are real numbers: the single rounded addition of the module is
  the environment's \<open>fadd\<close>. A handler returns \<open>None\<close> when it does not return: \<open>state_restore\<close> calls
  whatever handler the nested processing has left, itself included.
\<close>

subsection \<open>Flags\<close>

definition EXEC_STATUS_REPORT :: u32 where "EXEC_STATUS_REPORT = 0x1"
definition EXEC_CYCLE_START :: u32 where "EXEC_CYCLE_START = 0x2"
definition EXEC_CYCLE_COMPLETE :: u32 where "EXEC_CYCLE_COMPLETE = 0x4"
definition EXEC_FEED_HOLD :: u32 where "EXEC_FEED_HOLD = 0x8"
definition EXEC_STOP :: u32 where "EXEC_STOP = 0x10"
definition EXEC_RESET :: u32 where "EXEC_RESET = 0x20"
definition EXEC_SAFETY_DOOR :: u32 where "EXEC_SAFETY_DOOR = 0x40"
definition EXEC_MOTION_CANCEL :: u32 where "EXEC_MOTION_CANCEL = 0x80"
definition EXEC_MOTION_CANCEL_FAST :: u32 where "EXEC_MOTION_CANCEL_FAST = 0x80"
definition EXEC_SLEEP :: u32 where "EXEC_SLEEP = 0x200"
definition EXEC_TOOL_CHANGE :: u32 where "EXEC_TOOL_CHANGE = 0x400"
definition EXEC_DOOR_CLOSED :: u32 where "EXEC_DOOR_CLOSED = 0x8000"

lemmas exec_flags = EXEC_STATUS_REPORT_def EXEC_CYCLE_START_def EXEC_CYCLE_COMPLETE_def EXEC_FEED_HOLD_def
  EXEC_STOP_def EXEC_RESET_def EXEC_SAFETY_DOOR_def EXEC_MOTION_CANCEL_def EXEC_MOTION_CANCEL_FAST_def
  EXEC_SLEEP_def EXEC_TOOL_CHANGE_def EXEC_DOOR_CLOSED_def

definition has :: "u32 \<Rightarrow> u32 \<Rightarrow> bool" where
  "has rt_exec flag \<longleftrightarrow> rt_exec AND flag \<noteq> 0"

text \<open>The state bits are mutually exclusive.\<close>

datatype sys_state = STATE_IDLE | STATE_ALARM | STATE_CHECK_MODE | STATE_HOMING | STATE_CYCLE |
  STATE_HOLD | STATE_JOG | STATE_SAFETY_DOOR | STATE_SLEEP | STATE_ESTOP | STATE_TOOL_CHANGE

datatype parking_state = Parking_DoorClosed | Parking_DoorAjar | Parking_Retracting | Parking_Cancel |
  Parking_Resuming

datatype hold_state = Hold_NotHolding | Hold_Complete | Hold_Pending

datatype state_handler = state_noop | state_idle | state_cycle | state_await_toolchanged |
  state_await_motion_cancel | state_await_hold | state_await_resume | state_await_restart_retract |
  state_await_waypoint_retract | state_restore | state_await_resumed

subsection \<open>State\<close>

record step_control =
  end_motion :: bool
  execute_hold :: bool
  execute_sys_motion :: bool
  update_spindle_rpm :: bool

definition no_step_control :: step_control where
  "no_step_control = \<lparr>end_motion = False, execute_hold = False, execute_sys_motion = False,
     update_spindle_rpm = False\<rparr>"

record spindle_stop =
  stop_enabled :: bool
  stop_initiate :: bool
  stop_restore :: bool
  stop_restore_cycle :: bool

definition no_spindle_stop :: spindle_stop where
  "no_spindle_stop = \<lparr>stop_enabled = False, stop_initiate = False, stop_restore = False,
     stop_restore_cycle = False\<rparr>"

record spindle =
  sp_hal :: nat
  sp_on :: bool
  sp_rpm :: real

record parking =
  pk_active :: bool
  pk_motion :: bool
  pk_restart :: bool
  pk_restoring :: bool
  pk_target :: "nat \<Rightarrow> real"
  pk_restore_target :: "nat \<Rightarrow> real"
  pk_retract_waypoint :: real
  pd_feed_rate :: real
  pd_coolant :: u8
  pd_spindle :: spindle

datatype sm_event =
    Feedback string
  | SuspendRead bool
  | ReportState sys_state
  | StPrepBuffer | StWakeUp | StGoIdle | StReset | PlanReset | PlanReinit | SyncPosition
  | StUpdatePlanBlock bool
  | StParkingRestore
  | ParkingMotion "nat \<Rightarrow> real"
  | SpindleOverrideStop
  | SpindleAllOff
  | SpindleRestore spindle
  | SpindleSet bool
  | CoolantSet u8
  | GcSpindleOff
  | GcToolChanged
  | ResetSpindleData

record sm =
  s_state :: sys_state
  s_pending :: sys_state
  s_handler :: state_handler
  s_suspend :: bool
  s_soft_limit :: bool
  s_feed_hold_pending :: bool
  s_is_homing :: bool
  s_is_parking :: bool
  s_step_control :: step_control
  s_spindle_stop :: spindle_stop
  s_feed_hold_disable :: bool
  s_sync :: bool
  s_parking_disable :: bool
  s_parking_state :: parking_state
  s_holding_state :: hold_state
  s_alarm :: alarm_code
  s_alarm_pending :: alarm_code
  s_blocking_event :: bool
  s_steppers_deenergize :: bool
  s_rt_exec_state :: u32
  s_rt_exec_alarm :: alarm_code
  s_tool_change :: bool \<comment> \<open>\<open>gc_state.tool_change\<close>\<close>
  s_gc_coolant :: u8 \<comment> \<open>\<open>gc_state.modal.coolant\<close>\<close>
  s_gc_spindle :: spindle \<comment> \<open>\<open>gc_state.modal.spindle[0]\<close>\<close>
  s_rc_coolant :: u8 \<comment> \<open>\<open>restore_condition\<close>\<close>
  s_rc_spindle :: spindle
  s_park :: parking
  s_hal_coolant :: u8 \<comment> \<open>what the coolant outputs are set to\<close>
  s_hal_spindle_on :: bool \<comment> \<open>what the spindle output is set to\<close>
  s_log :: "sm_event list"

record sm_settings =
  parking_enabled :: bool
  parking_axis :: nat
  parking_target :: real
  pullout_increment :: real
  pullout_rate :: real
  parking_rate :: real
  keep_coolant_on :: bool
  disable_laser_during_hold :: bool
  restore_after_feed_hold :: bool

text \<open>What \<open>plan_get_current_block\<close> returns.\<close>

record plan_block =
  pb_spindle :: spindle
  pb_synchronized :: bool
  pb_units_per_rev :: bool
  pb_coolant :: u8

text \<open>How the wait for the spindle index before a synchronized motion ends.\<close>

datatype index_wait = IndexReached | IndexTimeout | IndexReset

record sm_env =
  settings_of :: sm_settings
  cap_laser :: "nat \<Rightarrow> bool"
  door_ajar :: bool
  cur_block :: "plan_block option"
  index_wait :: index_wait
  data_rpm :: real
  motion_ok :: "(nat \<Rightarrow> real) \<Rightarrow> bool" \<comment> \<open>not aborting and \<open>plan_buffer_line\<close> succeeds\<close>
  mpos :: "nat \<Rightarrow> real"
  axis_homed :: "nat \<Rightarrow> bool"
  fadd :: "real \<Rightarrow> real \<Rightarrow> real"
  is_aborted :: bool
  spindle_as_set :: "spindle \<Rightarrow> bool" \<comment> \<open>it has that direction and that programmed speed\<close>
  during_delay :: "sm \<Rightarrow> sm"

definition sm_log :: "sm_event list \<Rightarrow> sm \<Rightarrow> sm" where
  "sm_log es s = s\<lparr>s_log := s_log s @ es\<rparr>"

definition set_exec_state_flag :: "u32 \<Rightarrow> sm \<Rightarrow> sm" where
  "set_exec_state_flag flag s = s\<lparr>s_rt_exec_state := s_rt_exec_state s OR flag\<rparr>"

definition set_coolant :: "u8 \<Rightarrow> sm \<Rightarrow> sm" where
  "set_coolant c s = sm_log [CoolantSet c] (s\<lparr>s_hal_coolant := c\<rparr>)"

definition spindle_all_off :: "sm \<Rightarrow> sm" where
  "spindle_all_off s = sm_log [SpindleAllOff] (s\<lparr>s_hal_spindle_on := False\<rparr>)"

subsection \<open>Helpers of the state changes\<close>

text \<open>\<open>spindle_restore\<close> of \<open>grbl/spindle_control.c\<close>: a laser is set, at speed zero, only when it is
  disabled during holds; another spindle is set, with its delay, unless it already runs as it should.\<close>

definition set_spindle :: "bool \<Rightarrow> sm \<Rightarrow> sm" where
  "set_spindle on s = sm_log [SpindleSet on] (s\<lparr>s_hal_spindle_on := on\<rparr>)"

definition spindle_restore :: "sm_env \<Rightarrow> spindle \<Rightarrow> sm \<Rightarrow> sm" where
  "spindle_restore env sp s =
     (if cap_laser env (sp_hal sp)
      then if disable_laser_during_hold (settings_of env)
           then (if is_aborted env then s else set_spindle (sp_on sp) s)
                  \<lparr>s_step_control := (s_step_control s)\<lparr>update_spindle_rpm := \<not> is_aborted env\<rparr>\<rparr>
           else s
      else if s_hal_spindle_on s = sp_on sp \<and> spindle_as_set env sp then s
      else if s_state s = STATE_CHECK_MODE \<or> is_aborted env then s
      else during_delay env (set_spindle (sp_on sp) s))"

definition state_spindle_restore :: "sm_env \<Rightarrow> spindle \<Rightarrow> sm \<Rightarrow> sm" where
  "state_spindle_restore env sp s = spindle_restore env sp (sm_log [SpindleRestore sp] s)"

definition coolant_restore :: "sm_env \<Rightarrow> sm \<Rightarrow> sm" where
  "coolant_restore env s =
     (let c = s_rc_coolant s;
          s = (if c = s_hal_coolant s then s
               else if c = 0 then set_coolant c s
               else during_delay env (set_coolant c s))
      in s\<lparr>s_gc_coolant := s_rc_coolant s\<rparr>)"

definition state_restore_conditions :: "sm_env \<Rightarrow> sm \<Rightarrow> sm" where
  "state_restore_conditions env s =
     (if \<not> parking_enabled (settings_of env) \<or> \<not> pk_restart (s_park s)
      then
        let s = s\<lparr>s_park := (s_park s)\<lparr>pk_restoring := True\<rparr>\<rparr>;
            s = state_spindle_restore env (s_rc_spindle s) s;
            s = (if s_gc_coolant s \<noteq> s_hal_coolant s then coolant_restore env s else s)
        in s\<lparr>s_park := (s_park s)\<lparr>pk_restoring := False\<rparr>, s_spindle_stop := no_spindle_stop\<rparr>
      else s)"

definition enter_sleep :: "sm \<Rightarrow> sm" where
  "enter_sleep s =
     (sm_log [Feedback ''Sleep''] (set_coolant 0 (spindle_all_off (sm_log [StGoIdle] s))))\<lparr>s_handler := state_noop\<rparr>"

text \<open>The steps of \<open>initiate_hold\<close>: reset the plan data of the parking motions, remember what to restore,
  stop a laser, start decelerating, and mark the hold.\<close>

definition hold_plan_data :: "sm_env \<Rightarrow> sm \<Rightarrow> sm" where
  "hold_plan_data env s =
     (if parking_enabled (settings_of env)
      then s\<lparr>s_park := (s_park s)\<lparr>pd_feed_rate := 0, pd_coolant := 0,
               pd_spindle := \<lparr>sp_hal = sp_hal (s_gc_spindle s), sp_on = False, sp_rpm = 0\<rparr>\<rparr>\<rparr>
      else s)"

definition hold_conditions :: "sm_env \<Rightarrow> sm \<Rightarrow> sm" where
  "hold_conditions env s =
     (case cur_block env of
        Some b \<Rightarrow> s\<lparr>s_rc_spindle := (if sp_hal (pb_spindle b) = sp_hal (s_gc_spindle s) then pb_spindle b
                                     else s_gc_spindle s),
                   s_rc_coolant := pb_coolant b\<rparr>
      | None \<Rightarrow> s\<lparr>s_rc_spindle := s_gc_spindle s, s_rc_coolant := s_gc_coolant s OR s_hal_coolant s\<rparr>)"

definition hold_laser :: "sm_env \<Rightarrow> sm \<Rightarrow> sm" where
  "hold_laser env s =
     (if cap_laser env (sp_hal (s_rc_spindle s)) \<and> disable_laser_during_hold (settings_of env)
      then sm_log [SpindleOverrideStop] s else s)"

definition hold_decelerate :: "sm \<Rightarrow> sm" where
  "hold_decelerate s =
     (if s_state s \<in> {STATE_CYCLE, STATE_JOG}
      then (sm_log [StUpdatePlanBlock False] s)
        \<lparr>s_step_control := (s_step_control s)\<lparr>execute_hold := True\<rparr>, s_handler := state_await_hold\<rparr>
      else s)"

definition hold_mark :: "sys_state \<Rightarrow> sm \<Rightarrow> sm" where
  "hold_mark new_state s =
     (if new_state = STATE_HOLD then s\<lparr>s_holding_state := Hold_Pending\<rparr>
      else s\<lparr>s_parking_state := Parking_Retracting,
             s_park := (s_park s)\<lparr>pk_active := False, pk_motion := False, pk_restart := False,
                                  pk_restoring := False\<rparr>\<rparr>)"

definition initiate_hold :: "sm_env \<Rightarrow> sys_state \<Rightarrow> sm \<Rightarrow> bool \<times> sm" where
  "initiate_hold env new_state s =
     (let s = hold_mark new_state (hold_decelerate (hold_laser env (hold_conditions env (hold_plan_data env s))));
          s = s\<lparr>s_suspend := \<not> s_soft_limit s,
                s_pending := (if s_state s = STATE_JOG then new_state else STATE_IDLE)\<rparr>
      in (s_state s = STATE_CYCLE, s))"

definition state_door_reopened :: "sm_env \<Rightarrow> sm \<Rightarrow> bool" where
  "state_door_reopened env s \<longleftrightarrow> parking_enabled (settings_of env) \<and> pk_restart (s_park s)"

definition state_get_substate :: "sm_env \<Rightarrow> bool \<Rightarrow> bool \<Rightarrow> sm \<Rightarrow> int" where
  "state_get_substate env probing_active probe_triggered s =
     (case s_state s of
        STATE_CYCLE \<Rightarrow> if s_feed_hold_pending s then 1
                       else if probing_active \<or> probe_triggered then 2 else 0
      | STATE_HOLD \<Rightarrow> (case s_holding_state s of Hold_NotHolding \<Rightarrow> 255 | Hold_Complete \<Rightarrow> 0 | Hold_Pending \<Rightarrow> 1)
      | STATE_ESTOP \<Rightarrow> uint (s_alarm s)
      | STATE_ALARM \<Rightarrow> uint (s_alarm s)
      | STATE_SAFETY_DOOR \<Rightarrow>
          (case s_parking_state s of Parking_DoorClosed \<Rightarrow> 0 | Parking_DoorAjar \<Rightarrow> 1 | Parking_Retracting \<Rightarrow> 2
           | Parking_Cancel \<Rightarrow> 3 | Parking_Resuming \<Rightarrow> 4)
      | _ \<Rightarrow> 0)"

text \<open>\<open>mc_parking_motion\<close> of \<open>grbl/motion_control.c\<close>.\<close>

definition mc_parking_motion :: "sm_env \<Rightarrow> (nat \<Rightarrow> real) \<Rightarrow> sm \<Rightarrow> bool \<times> sm" where
  "mc_parking_motion env target s =
     (if motion_ok env target
      then (True, sm_log [ParkingMotion target, StPrepBuffer, StWakeUp]
              (s\<lparr>s_step_control := (s_step_control s)\<lparr>execute_sys_motion := True, end_motion := False\<rparr>\<rparr>))
      else (False, s))"

text \<open>Common to the handlers that wait for the end of a parking motion.\<close>

definition end_sys_motion :: "sm \<Rightarrow> sm" where
  "end_sys_motion s =
     (if execute_sys_motion (s_step_control s)
      then sm_log [StParkingRestore] (s\<lparr>s_step_control := (s_step_control s)\<lparr>execute_sys_motion := False\<rparr>\<rparr>)
      else s)"

definition door_signal :: "sm_env \<Rightarrow> sm \<Rightarrow> sm" where
  "door_signal env s =
     s\<lparr>s_parking_state := (if door_ajar env then Parking_DoorAjar else Parking_DoorClosed)\<rparr>"

subsection \<open>Changing state\<close>

text \<open>The end of \<open>state_set\<close>, run for every change of state that does not return early.\<close>

definition state_set_done :: "sys_state \<Rightarrow> sm \<Rightarrow> sm" where
  "state_set_done org s =
     (let s = s\<lparr>s_is_homing := s_state s = STATE_HOMING\<rparr>;
          s = (if s_state s \<in> {STATE_ALARM, STATE_ESTOP} then s else s\<lparr>s_alarm := Alarm_None\<rparr>)
      in if s_state s \<noteq> org then sm_log [ReportState (s_state s)] s else s)"

definition enter_idle :: "sm \<Rightarrow> sm" where
  "enter_idle s =
     (let s = s\<lparr>s_suspend := False, s_step_control := no_step_control, s_parking_state := Parking_DoorClosed,
                s_holding_state := Hold_NotHolding, s_state := STATE_IDLE, s_pending := STATE_IDLE,
                s_park := (s_park s)\<lparr>pk_active := False, pk_motion := False, pk_restart := False,
                                     pk_restoring := False\<rparr>,
                s_handler := state_idle\<rparr>
      in if s_feed_hold_pending s then set_exec_state_flag EXEC_FEED_HOLD (s\<lparr>s_pending := STATE_HOLD\<rparr>) else s)"

definition set_idle :: "sm \<Rightarrow> sm" where
  "set_idle s = (if s_state s = STATE_IDLE then s else state_set_done (s_state s) (enter_idle s))"

definition enter_halt :: "sys_state \<Rightarrow> sm \<Rightarrow> sm" where
  "enter_halt new_state s = s\<lparr>s_state := new_state, s_suspend := False, s_handler := state_noop\<rparr>"

definition set_halt :: "sys_state \<Rightarrow> sm \<Rightarrow> sm" where
  "set_halt new_state s =
     (if s_state s = new_state then s else state_set_done (s_state s) (enter_halt new_state s))"

text \<open>\<open>system_raise_alarm\<close> of \<open>grbl/system.c\<close>.\<close>

definition system_raise_alarm :: "sm_env \<Rightarrow> alarm_code \<Rightarrow> sm \<Rightarrow> sm" where
  "system_raise_alarm env alarm s =
     (if s_state s = STATE_HOMING \<and> \<not> has (s_rt_exec_state s) EXEC_RESET then s\<lparr>s_rt_exec_alarm := alarm\<rparr>
      else if s_alarm s \<noteq> alarm
      then
        if \<not> (s_state s = STATE_ESTOP \<or> s_blocking_event s)
        then
          let s = s\<lparr>s_alarm := alarm\<rparr>;
              s = (if alarm = s_alarm_pending s then s\<lparr>s_alarm_pending := Alarm_None\<rparr> else s);
              s = s\<lparr>s_blocking_event := alarm_is_critical alarm\<rparr>
          in set_halt (if alarm = Alarm_EStop then STATE_ESTOP else STATE_ALARM) s
        else s\<lparr>s_alarm_pending := alarm\<rparr>
      else s)"

text \<open>Starting a cycle: True when \<open>state_set\<close> returns early.\<close>

definition enter_cycle :: "sm_env \<Rightarrow> sm \<Rightarrow> bool \<times> sm" where
  "enter_cycle env s =
     (if s_state s = STATE_IDLE
      then case cur_block env of
             None \<Rightarrow> (False, s)
           | Some b \<Rightarrow>
               let s = sm_log [StPrepBuffer] (s\<lparr>s_state := STATE_CYCLE, s_steppers_deenergize := False\<rparr>);
                   go = (\<lambda>s. (False, (sm_log [StWakeUp] s)\<lparr>s_handler := state_cycle\<rparr>))
               in if pb_synchronized b
                  then if \<not> pb_units_per_rev b
                       then case index_wait env of
                              IndexReached \<Rightarrow> go (sm_log [ResetSpindleData] s)
                            | IndexTimeout \<Rightarrow> (True, system_raise_alarm env Alarm_Spindle (sm_log [ResetSpindleData] s))
                            | IndexReset \<Rightarrow> (True, set_exec_state_flag EXEC_RESET (sm_log [ResetSpindleData] s))
                       else if data_rpm env = 0 then (True, system_raise_alarm env Alarm_Spindle s)
                       else go s
                  else go s
      else (False, s))"

subsection \<open>Holds and the safety door\<close>

text \<open>\<open>state_await_resume\<close> and \<open>state_await_waypoint_retract\<close> when called with the single event
  \<open>EXEC_CYCLE_COMPLETE\<close>, as the handlers below call them through \<open>stateHandler\<close>.\<close>

definition await_resume_complete :: "sm_env \<Rightarrow> sm \<Rightarrow> sm" where
  "await_resume_complete env s =
     (if parking_enabled (settings_of env)
      then let s = door_signal env (end_sys_motion s)
           in if s_state s = STATE_SLEEP then enter_sleep s else s
      else s)"

definition waypoint_retract :: "sm_env \<Rightarrow> sm \<Rightarrow> sm" where
  "waypoint_retract env s =
     (let st = settings_of env;
          s = end_sys_motion s;
          s = s\<lparr>s_park := (s_park s)\<lparr>pd_spindle := (pd_spindle (s_park s))\<lparr>sp_on := False, sp_rpm := 0\<rparr>\<rparr>,
                s_hal_spindle_on := False\<rparr>;
          s = sm_log [SpindleSet False] s;
          s = (if \<not> keep_coolant_on st
               then set_coolant 0 (s\<lparr>s_park := (s_park s)\<lparr>pd_coolant := 0\<rparr>\<rparr>) else s);
          s = s\<lparr>s_handler := state_await_resume\<rparr>;
          (await_motion, s) =
            (if pk_motion (s_park s) \<and> pk_target (s_park s) (parking_axis st) < parking_target st
             then mc_parking_motion env ((pk_target (s_park s))(parking_axis st := parking_target st))
                    (s\<lparr>s_park := (s_park s)\<lparr>pd_feed_rate := parking_rate st\<rparr>\<rparr>)
             else (False, s))
      in if await_motion then s else await_resume_complete env s)"

text \<open>The de-energizing branches of the parking manager.\<close>

definition door_power_off :: "sm_env \<Rightarrow> sm \<Rightarrow> sm" where
  "door_power_off env s =
     (let s = spindle_all_off s;
          s = (if s_is_parking s \<or> s_state s = STATE_SLEEP \<or> \<not> keep_coolant_on (settings_of env)
               then set_coolant 0 s else s)
      in door_signal env s)"

text \<open>The retract branch: whether the handler changed, and the new state.\<close>

definition parking_retract :: "sm_env \<Rightarrow> sm \<Rightarrow> bool \<times> sm" where
  "parking_retract env s =
     (let st = settings_of env; ax = parking_axis st;
          s = (if pk_active (s_park s) then s
               else s\<lparr>s_park := (s_park s)\<lparr>pk_active := True, pk_restore_target := mpos env\<rparr>\<rparr>)
      in if axis_homed env ax \<and> pk_restore_target (s_park s) ax < parking_target st
         then
           let s = s\<lparr>s_handler := state_await_waypoint_retract\<rparr>;
               s = (if pk_restart (s_park s) then s\<lparr>s_park := (s_park s)\<lparr>pk_target := mpos env\<rparr>\<rparr>
                    else s\<lparr>s_park := (s_park s)
                             \<lparr>pk_target := pk_restore_target (s_park s),
                              pk_retract_waypoint :=
                                min (fadd env (pullout_increment st) (pk_restore_target (s_park s) ax))
                                    (parking_target st)\<rparr>\<rparr>);
               (await_motion, s) =
                 (if pk_target (s_park s) ax < pk_retract_waypoint (s_park s)
                  then
                    let s = s\<lparr>s_park := (s_park s)
                              \<lparr>pk_target := (pk_target (s_park s))(ax := pk_retract_waypoint (s_park s)),
                               pd_feed_rate := pullout_rate st, pd_coolant := s_rc_coolant s,
                               pd_spindle := s_rc_spindle s\<rparr>\<rparr>
                    in mc_parking_motion env (pk_target (s_park s)) s
                  else (False, s));
               s = (if pk_restart (s_park s) then s
                    else s\<lparr>s_park := (s_park s)\<lparr>pk_motion := await_motion\<rparr>\<rparr>)
           in (True, if await_motion then s else waypoint_retract env s)
         else (False, door_power_off env s))"

text \<open>The parking manager: the branch for the states sleep and safety door.\<close>

definition parking_manager :: "sm_env \<Rightarrow> sm \<Rightarrow> bool \<times> sm" where
  "parking_manager env s =
     (let s = s\<lparr>s_spindle_stop := no_spindle_stop\<rparr>;
          (changed, s) = (if parking_enabled (settings_of env) \<and> \<not> s_parking_disable s \<and>
                             cap_laser env (sp_hal (s_gc_spindle s))
                          then parking_retract env s else (False, door_power_off env s))
      in (changed, s\<lparr>s_is_parking := False\<rparr>))"

definition handle_await_hold :: "sm_env \<Rightarrow> u32 \<Rightarrow> sm \<Rightarrow> sm" where
  "handle_await_hold env rt s =
     (if has rt EXEC_CYCLE_COMPLETE
      then
        let s = (sm_log [PlanReinit] s)\<lparr>s_step_control := no_step_control\<rparr>;
            s = (if s_alarm_pending s \<noteq> Alarm_None then s\<lparr>s_rt_exec_alarm := s_alarm_pending s\<rparr> else s);
            (handler_changed, s) =
              (case s_state s of
                 STATE_TOOL_CHANGE \<Rightarrow> (False, set_coolant 0 (spindle_all_off s))
               | STATE_SLEEP \<Rightarrow> parking_manager env s
               | STATE_SAFETY_DOOR \<Rightarrow> parking_manager env s
               | _ \<Rightarrow> (False, s))
        in if handler_changed then s
           else if s_soft_limit s then set_idle s
           else s\<lparr>s_holding_state := Hold_Complete, s_handler := state_await_resume\<rparr>
      else s)"

text \<open>\<open>state_set\<close>; changing to the current state does nothing.\<close>

definition state_set :: "sm_env \<Rightarrow> sys_state \<Rightarrow> sm \<Rightarrow> sm" where
  "state_set env new_state s =
     (if new_state = s_state s then s
      else
        let org = s_state s;
            door = (\<lambda>s.
              let (cycle, s) = initiate_hold env new_state (s\<lparr>s_parking_state := Parking_Retracting\<rparr>);
                  s = (if \<not> cycle
                       then if s_pending s \<noteq> new_state
                            then handle_await_hold env EXEC_CYCLE_COMPLETE (s\<lparr>s_state := new_state\<rparr>)
                            else s
                       else s\<lparr>s_state := new_state\<rparr>)
              in if s_state s = STATE_SLEEP \<and> s_handler s \<noteq> state_await_waypoint_retract
                 then enter_sleep s else s)
        in case new_state of
             STATE_IDLE \<Rightarrow> state_set_done org (enter_idle s)
           | STATE_CYCLE \<Rightarrow>
               (let (early, s) = enter_cycle env s in if early then s else state_set_done org s)
           | STATE_JOG \<Rightarrow>
               state_set_done org
                 ((if s_state s = STATE_TOOL_CHANGE then s\<lparr>s_pending := STATE_TOOL_CHANGE\<rparr> else s)
                    \<lparr>s_state := STATE_JOG, s_handler := state_cycle\<rparr>)
           | STATE_TOOL_CHANGE \<Rightarrow>
               state_set_done org (s\<lparr>s_state := STATE_TOOL_CHANGE, s_handler := state_await_toolchanged\<rparr>)
           | STATE_HOLD \<Rightarrow>
               state_set_done org
                 (if \<not> (s_state s = STATE_JOG \<or> s_feed_hold_disable s) \<or>
                     (s_pending s = STATE_HOLD \<and> s_feed_hold_pending s)
                  then
                    let (cycle, s) = initiate_hold env STATE_HOLD s;
                        s = (if cycle then s
                             else s\<lparr>s_holding_state := Hold_Complete, s_handler := state_await_resume\<rparr>)
                    in s\<lparr>s_state := STATE_HOLD, s_feed_hold_pending := False\<rparr>
                  else if s_sync s \<and> s_feed_hold_disable s then s\<lparr>s_feed_hold_pending := True\<rparr>
                  else s)
           | STATE_SAFETY_DOOR \<Rightarrow>
               if s_state s \<in> {STATE_ALARM, STATE_ESTOP, STATE_SLEEP, STATE_CHECK_MODE} then s
               else state_set_done org (door (sm_log [Feedback ''SafetyDoorAjar''] s))
           | STATE_SLEEP \<Rightarrow> state_set_done org (door s)
           | _ \<Rightarrow> state_set_done org (enter_halt new_state s))"

subsection \<open>The other handlers\<close>

definition handle_idle :: "sm_env \<Rightarrow> u32 \<Rightarrow> sm \<Rightarrow> sm" where
  "handle_idle env rt s =
     (let s = (if has rt EXEC_CYCLE_START then state_set env STATE_CYCLE s else s);
          s = (if has rt EXEC_FEED_HOLD then state_set env STATE_HOLD s else s);
          s = (if has rt EXEC_TOOL_CHANGE then state_set env STATE_TOOL_CHANGE (sm_log [SuspendRead True] s) else s)
      in if has rt EXEC_SLEEP then state_set env STATE_SLEEP s else s)"

definition handle_cycle :: "sm_env \<Rightarrow> u32 \<Rightarrow> sm \<Rightarrow> sm" where
  "handle_cycle env rt s =
     (if rt = EXEC_CYCLE_START then s
      else
        let s = (if has rt EXEC_TOOL_CHANGE then sm_log [SuspendRead True] s else s);
            s = (if has rt EXEC_CYCLE_COMPLETE
                 then state_set env (if s_tool_change s then STATE_TOOL_CHANGE else STATE_IDLE) s else s);
            s = (if has rt (EXEC_MOTION_CANCEL OR EXEC_MOTION_CANCEL_FAST)
                 then (sm_log [StUpdatePlanBlock (has rt EXEC_MOTION_CANCEL_FAST)] s)
                   \<lparr>s_suspend := True, s_step_control := (s_step_control s)\<lparr>execute_hold := True\<rparr>,
                    s_handler := state_await_motion_cancel\<rparr>
                 else s)
        in if has rt EXEC_FEED_HOLD then state_set env STATE_HOLD s else s)"

definition handle_await_toolchanged :: "sm_env \<Rightarrow> u32 \<Rightarrow> sm \<Rightarrow> sm" where
  "handle_await_toolchanged env rt s =
     (if has rt EXEC_CYCLE_START
      then
        let s = (if s_tool_change s then s else sm_log [SuspendRead False, GcToolChanged] s);
            s = s\<lparr>s_pending := (if s_tool_change s then STATE_TOOL_CHANGE else STATE_IDLE)\<rparr>;
            s = state_set env STATE_CYCLE (state_set env STATE_IDLE s)
        in set_exec_state_flag EXEC_STATUS_REPORT s
      else s)"

definition handle_await_motion_cancel :: "sm_env \<Rightarrow> u32 \<Rightarrow> sm \<Rightarrow> sm" where
  "handle_await_motion_cancel env rt s =
     (if has rt EXEC_CYCLE_COMPLETE
      then
        let s = (if s_state s = STATE_JOG
                 then (sm_log [PlanReset, StReset, SyncPosition] s)
                   \<lparr>s_step_control := no_step_control, s_suspend := False\<rparr>
                 else s);
            s = state_set env (s_pending s) s
        in if s_alarm_pending s \<noteq> Alarm_None then s\<lparr>s_rt_exec_alarm := s_alarm_pending s\<rparr>
           else if s_tool_change s then state_set env STATE_TOOL_CHANGE s
           else s
      else s)"

text \<open>The sequence \<open>restart_retract\<close>, \<open>state_await_restart_retract\<close> for the event cycle complete.\<close>

definition handle_await_restart_retract :: "sm_env \<Rightarrow> u32 \<Rightarrow> sm \<Rightarrow> sm" where
  "handle_await_restart_retract env rt s =
     (if has rt EXEC_CYCLE_COMPLETE
      then handle_await_hold env EXEC_CYCLE_COMPLETE ((end_sys_motion s)\<lparr>s_handler := state_await_hold\<rparr>)
      else s)"

definition restart_retract :: "sm_env \<Rightarrow> sm \<Rightarrow> sm" where
  "restart_retract env s =
     (let s = (sm_log [Feedback ''SafetyDoorAjar''] s)
                \<lparr>s_handler := state_await_restart_retract, s_park := (s_park s)\<lparr>pk_restart := True\<rparr>,
                 s_parking_state := Parking_Retracting\<rparr>
      in if execute_sys_motion (s_step_control s)
         then (sm_log [StUpdatePlanBlock False] s)
           \<lparr>s_step_control := (s_step_control s)\<lparr>execute_hold := True, execute_sys_motion := True\<rparr>\<rparr>
         else handle_await_restart_retract env EXEC_CYCLE_COMPLETE s)"

definition handle_await_resumed :: "sm_env \<Rightarrow> u32 \<Rightarrow> sm \<Rightarrow> sm" where
  "handle_await_resumed env rt s =
     (if has rt EXEC_SAFETY_DOOR then restart_retract env s
      else if has rt EXEC_CYCLE_COMPLETE
      then
        let s = s\<lparr>s_parking_state := Parking_DoorClosed,
                  s_park := (s_park s)\<lparr>pk_active := False, pk_motion := False, pk_restart := False,
                                       pk_restoring := False\<rparr>\<rparr>;
            s = (if execute_sys_motion (s_step_control s)
                 then sm_log [StParkingRestore] (s\<lparr>s_step_control := no_step_control\<rparr>) else s)
        in state_set env STATE_CYCLE (state_set env STATE_IDLE s)
      else s)"

definition handle_await_waypoint_retract :: "sm_env \<Rightarrow> u32 \<Rightarrow> sm \<Rightarrow> sm" where
  "handle_await_waypoint_retract env rt s =
     (if has rt EXEC_CYCLE_COMPLETE then waypoint_retract env s else s)"

text \<open>Calling \<open>stateHandler\<close> when it is neither \<open>state_await_resume\<close> nor \<open>state_restore\<close>, and for the
  single event \<open>EXEC_CYCLE_COMPLETE\<close> when it is not \<open>state_restore\<close>.\<close>

definition run_simple :: "sm_env \<Rightarrow> u32 \<Rightarrow> sm \<Rightarrow> sm" where
  "run_simple env rt s =
     (case s_handler s of
        state_idle \<Rightarrow> handle_idle env rt s
      | state_cycle \<Rightarrow> handle_cycle env rt s
      | state_await_toolchanged \<Rightarrow> handle_await_toolchanged env rt s
      | state_await_motion_cancel \<Rightarrow> handle_await_motion_cancel env rt s
      | state_await_hold \<Rightarrow> handle_await_hold env rt s
      | state_await_restart_retract \<Rightarrow> handle_await_restart_retract env rt s
      | state_await_waypoint_retract \<Rightarrow> handle_await_waypoint_retract env rt s
      | state_await_resumed \<Rightarrow> handle_await_resumed env rt s
      | _ \<Rightarrow> s)"

definition run_complete :: "sm_env \<Rightarrow> sm \<Rightarrow> sm" where
  "run_complete env s =
     (if s_handler s = state_await_resume then await_resume_complete env s
      else run_simple env EXEC_CYCLE_COMPLETE s)"

text \<open>\<open>state_restore\<close> for the end of a motion. Nested real-time processing during the delays may change
  state and handler; the handler called at the end is the one it has left.\<close>

definition restore_accessories :: "sm_env \<Rightarrow> sm \<Rightarrow> sm" where
  "restore_accessories env s =
     (let s = end_sys_motion s;
          s = s\<lparr>s_park := (s_park s)\<lparr>pk_restart := False\<rparr>, s_handler := state_await_resumed\<rparr>
      in state_restore_conditions env s)"

definition restore_plunge :: "sm_env \<Rightarrow> sm \<Rightarrow> bool \<times> sm" where
  "restore_plunge env s =
     (if pk_motion (s_park s)
      then mc_parking_motion env (pk_restore_target (s_park s))
             (s\<lparr>s_parking_state := Parking_Resuming,
                s_park := (s_park s)\<lparr>pd_feed_rate := pullout_rate (settings_of env),
                                     pd_coolant := s_rc_coolant s,
                                     pd_spindle := (pd_spindle (s_park s))
                                       \<lparr>sp_on := sp_on (s_rc_spindle s), sp_rpm := sp_rpm (s_rc_spindle s)\<rparr>\<rparr>\<rparr>)
      else (False, s))"

partial_function (option) restore_complete :: "sm_env \<Rightarrow> sm \<Rightarrow> sm option" where
  "restore_complete env s =
     (let s = restore_accessories env s
      in if pk_restart (s_park s) then Some (restart_retract env s)
         else
           let (await_motion, s) = restore_plunge env s
           in if await_motion then Some s
              else if s_handler s = state_restore then restore_complete env s
              else Some (run_complete env s))"

definition handle_restore :: "sm_env \<Rightarrow> u32 \<Rightarrow> sm \<Rightarrow> sm option" where
  "handle_restore env rt s =
     (if has rt EXEC_SAFETY_DOOR
      then Some (if pk_restoring (s_park s) then s\<lparr>s_park := (s_park s)\<lparr>pk_restart := True\<rparr>\<rparr>
                 else restart_retract env s)
      else if has rt EXEC_CYCLE_COMPLETE then restore_complete env s
      else Some s)"

text \<open>Cycle start in \<open>state_await_resume\<close>: leaving a safety door hold, or any other hold.\<close>

definition resume_door :: "sm_env \<Rightarrow> sm \<Rightarrow> sm option" where
  "resume_door env s =
     (if pk_restart (s_park s) \<or> \<not> door_ajar env
      then
        let st = settings_of env; ax = parking_axis st;
            s = s\<lparr>s_handler := state_restore, s_parking_state := Parking_Resuming\<rparr>;
            (await_motion, s) =
              (if pk_motion (s_park s)
               then
                 let s = s\<lparr>s_park := (s_park s)\<lparr>pk_restart := False\<rparr>\<rparr>
                 in if pk_restore_target (s_park s) ax \<le> parking_target st
                    then mc_parking_motion env
                           ((pk_restore_target (s_park s))(ax := pk_retract_waypoint (s_park s)))
                           (s\<lparr>s_park := (s_park s)\<lparr>pd_feed_rate := parking_rate st\<rparr>\<rparr>)
                    else (False, s)
               else (False, s))
        in if await_motion then Some s else handle_restore env EXEC_CYCLE_COMPLETE s
      else Some s)"

definition resume_hold :: "sm_env \<Rightarrow> sm \<Rightarrow> sm" where
  "resume_hold env s =
     (if \<not> restore_after_feed_hold (settings_of env)
      then
        let s = (if s_hal_spindle_on s then s
                 else sm_log [GcSpindleOff] (s\<lparr>s_gc_spindle := (s_gc_spindle s)\<lparr>sp_on := False\<rparr>\<rparr>))
        in s\<lparr>s_spindle_stop := no_spindle_stop\<rparr>
      else
        let s = (if sp_on (s_rc_spindle s) \<noteq> s_hal_spindle_on s
                 then state_spindle_restore env (s_rc_spindle s) (sm_log [Feedback ''SpindleRestore''] s) else s);
            s = (if s_rc_coolant s \<noteq> s_hal_coolant s then coolant_restore env s else s)
        in sm_log [Feedback ''None''] (s\<lparr>s_spindle_stop := no_spindle_stop\<rparr>))"

definition resume_from :: "sm_env \<Rightarrow> sm \<Rightarrow> sm option" where
  "resume_from env s =
     (let s = (if s_state s = STATE_HOLD \<and> s_spindle_stop s = no_spindle_stop
               then s\<lparr>s_spindle_stop := (s_spindle_stop s)\<lparr>stop_restore_cycle := True\<rparr>\<rparr> else s)
      in case s_state s of
           STATE_TOOL_CHANGE \<Rightarrow> Some s
         | STATE_SLEEP \<Rightarrow> Some s
         | STATE_SAFETY_DOOR \<Rightarrow> resume_door env s
         | _ \<Rightarrow> Some (resume_hold env s))"

definition restart_cycle :: "sm_env \<Rightarrow> sm \<Rightarrow> sm" where
  "restart_cycle env s =
     (if s_state s \<in> {STATE_SLEEP, STATE_SAFETY_DOOR} then s
      else
        let sc = s_step_control s
        in state_set env STATE_CYCLE ((state_set env STATE_IDLE s)\<lparr>s_step_control := sc\<rparr>))"

definition handle_await_resume :: "sm_env \<Rightarrow> u32 \<Rightarrow> sm \<Rightarrow> sm option" where
  "handle_await_resume env rt s0 =
     (let complete = (has rt EXEC_CYCLE_COMPLETE \<and> parking_enabled (settings_of env));
          s = (if complete then door_signal env (end_sys_motion s0) else s0)
      in if complete \<and> s_state s = STATE_SLEEP then Some (enter_sleep s)
         else
           let s = (if has rt EXEC_SLEEP then state_set env STATE_SLEEP s else s)
           in if has rt EXEC_SAFETY_DOOR then Some (door_signal env s)
              else if has rt EXEC_CYCLE_START then map_option (restart_cycle env) (resume_from env s)
              else if has rt EXEC_DOOR_CLOSED \<and> \<not> door_ajar env
              then Some (s\<lparr>s_parking_state := Parking_DoorClosed\<rparr>)
              else Some s)"

text \<open>Calling \<open>stateHandler\<close>.\<close>

definition run_handler :: "sm_env \<Rightarrow> u32 \<Rightarrow> sm \<Rightarrow> sm option" where
  "run_handler env rt s =
     (case s_handler s of
        state_await_resume \<Rightarrow> handle_await_resume env rt s
      | state_restore \<Rightarrow> handle_restore env rt s
      | _ \<Rightarrow> Some (run_simple env rt s))"

definition state_update :: "sm_env \<Rightarrow> u32 \<Rightarrow> sm \<Rightarrow> sm option" where
  "state_update env rt s =
     run_handler env rt
       (if has rt EXEC_SAFETY_DOOR \<and> s_state s \<noteq> STATE_SAFETY_DOOR then state_set env STATE_SAFETY_DOOR s else s)"

definition state_suspend_manager :: "sm_env \<Rightarrow> sm \<Rightarrow> sm" where
  "state_suspend_manager env s =
     (if s_handler s \<noteq> state_await_resume \<or> \<not> sp_on (s_gc_spindle s) then s
      else if s_spindle_stop s \<noteq> no_spindle_stop
      then
        let stop = s_spindle_stop s;
            s = (if stop_initiate stop
                 then
                   let s = s\<lparr>s_spindle_stop := no_spindle_stop\<rparr>
                   in if s_hal_spindle_on s
                      then (sm_log [SpindleSet False] (s\<lparr>s_hal_spindle_on := False\<rparr>))
                        \<lparr>s_spindle_stop := no_spindle_stop\<lparr>stop_enabled := True\<rparr>\<rparr>
                      else s
                 else s)
        in if stop_restore (s_spindle_stop s)
           then (state_spindle_restore env (s_rc_spindle s) (sm_log [Feedback ''SpindleRestore''] s))
                  \<lparr>s_spindle_stop := no_spindle_stop\<rparr>
           else s
      else if update_spindle_rpm (s_step_control s) \<and> s_hal_spindle_on s
      then let s = state_spindle_restore env (s_rc_spindle s) s
           in s\<lparr>s_step_control := (s_step_control s)\<lparr>update_spindle_rpm := False\<rparr>\<rparr>
      else s)"

subsection \<open>Start-up\<close>

text \<open>The statics of the module and the cleared system structure.\<close>

definition no_spindle :: "nat \<Rightarrow> spindle" where
  "no_spindle hal = \<lparr>sp_hal = hal, sp_on = False, sp_rpm = 0\<rparr>"

definition sm_init :: sm where
  "sm_init = \<lparr>s_state = STATE_IDLE, s_pending = STATE_IDLE, s_handler = state_idle, s_suspend = False,
     s_soft_limit = False, s_feed_hold_pending = False, s_is_homing = False, s_is_parking = False,
     s_step_control = no_step_control, s_spindle_stop = no_spindle_stop, s_feed_hold_disable = False,
     s_sync = False, s_parking_disable = False, s_parking_state = Parking_DoorClosed,
     s_holding_state = Hold_NotHolding, s_alarm = Alarm_None, s_alarm_pending = Alarm_None,
     s_blocking_event = False, s_steppers_deenergize = False, s_rt_exec_state = 0, s_rt_exec_alarm = 0,
     s_tool_change = False, s_gc_coolant = 0, s_gc_spindle = no_spindle 0, s_rc_coolant = 0,
     s_rc_spindle = no_spindle 0,
     s_park = \<lparr>pk_active = False, pk_motion = False, pk_restart = False, pk_restoring = False,
       pk_target = (\<lambda>_. 0), pk_restore_target = (\<lambda>_. 0), pk_retract_waypoint = 0, pd_feed_rate = 0,
       pd_coolant = 0, pd_spindle = no_spindle 0\<rparr>,
     s_hal_coolant = 0, s_hal_spindle_on = False, s_log = []\<rparr>"

end
