(* ===== verification/StateMachine_Props.thy ===== *)
theory StateMachine_Props
  imports StateMachine
begin

text \<open>
  Properties of the machine state machine: which handler can be current in which state, alarm states
  that no real-time event leaves, feed hold and resume, the safety door, and three places where
  the code does not do what its comments or its purpose say.
\<close>

subsection \<open>Evaluation\<close>

lemmas has_eval = has_def exec_flags

lemma sm_log_fields [simp]:
  "s_state (sm_log es s) = s_state s" "s_handler (sm_log es s) = s_handler s" "s_log (sm_log es s) = s_log s @ es"
  "s_pending (sm_log es s) = s_pending s" "s_step_control (sm_log es s) = s_step_control s"
  "s_soft_limit (sm_log es s) = s_soft_limit s" "s_park (sm_log es s) = s_park s"
  "s_feed_hold_pending (sm_log es s) = s_feed_hold_pending s" "s_gc_spindle (sm_log es s) = s_gc_spindle s"
  "s_hal_spindle_on (sm_log es s) = s_hal_spindle_on s" "s_hal_coolant (sm_log es s) = s_hal_coolant s"
  "s_tool_change (sm_log es s) = s_tool_change s" "s_alarm_pending (sm_log es s) = s_alarm_pending s"
  "s_parking_state (sm_log es s) = s_parking_state s" "s_suspend (sm_log es s) = s_suspend s"
  "s_spindle_stop (sm_log es s) = s_spindle_stop s" "s_rc_spindle (sm_log es s) = s_rc_spindle s"
  "s_parking_disable (sm_log es s) = s_parking_disable s"
  "s_is_parking (sm_log es s) = s_is_parking s" "s_holding_state (sm_log es s) = s_holding_state s"
  by (simp_all add: sm_log_def)

subsection \<open>The halted states\<close>

definition halted :: "sys_state set" where
  "halted = {STATE_ALARM, STATE_ESTOP, STATE_HOMING, STATE_CHECK_MODE}"

definition sm_ok :: "sm \<Rightarrow> bool" where
  "sm_ok s \<longleftrightarrow> (s_state s \<in> halted \<longrightarrow> s_handler s = state_noop)"



text \<open>Results that keep the invariant, where the code returns.\<close>

definition ok_result :: "sm option \<Rightarrow> bool" where
  "ok_result r \<longleftrightarrow> (\<forall>s. r = Some s \<longrightarrow> sm_ok s)"

lemma ok_result_simps [simp]: "ok_result (Some s) = sm_ok s" "ok_result None"
  by (simp_all add: ok_result_def)

text \<open>Facts about state and handler only.\<close>

lemma sh_simple [simp]:
  "s_state (set_exec_state_flag f s) = s_state s" "s_handler (set_exec_state_flag f s) = s_handler s"
  "s_state (set_coolant c s) = s_state s" "s_handler (set_coolant c s) = s_handler s"
  "s_state (spindle_all_off s) = s_state s" "s_handler (spindle_all_off s) = s_handler s"
  "s_state (end_sys_motion s) = s_state s" "s_handler (end_sys_motion s) = s_handler s"
  "s_state (door_signal env s) = s_state s" "s_handler (door_signal env s) = s_handler s"
  "s_state (door_power_off env s) = s_state s" "s_handler (door_power_off env s) = s_handler s"
  "s_state (state_set_done org s) = s_state s" "s_handler (state_set_done org s) = s_handler s"
  "s_state (enter_idle s) = STATE_IDLE" "s_handler (enter_idle s) = state_idle"
  "s_state (enter_halt n s) = n" "s_handler (enter_halt n s) = state_noop"
  "s_state (enter_sleep s) = s_state s" "s_handler (enter_sleep s) = state_noop"
  by (simp_all add: set_exec_state_flag_def set_coolant_def spindle_all_off_def end_sys_motion_def
      door_signal_def door_power_off_def state_set_done_def enter_idle_def enter_halt_def enter_sleep_def Let_def)

lemma sh_motion [simp]:
  "s_state (snd (mc_parking_motion env t s)) = s_state s"
  "s_handler (snd (mc_parking_motion env t s)) = s_handler s"
  by (simp_all add: mc_parking_motion_def)

lemma sh_await_resume_complete [simp]:
  "s_state (await_resume_complete env s) = s_state s"
  by (simp add: await_resume_complete_def Let_def)

lemma state_waypoint_retract [simp]: "s_state (waypoint_retract env s) = s_state s"
  by (simp add: waypoint_retract_def Let_def mc_parking_motion_def)

lemma state_parking_retract [simp]: "s_state (snd (parking_retract env s)) = s_state s"
  by (simp add: parking_retract_def Let_def mc_parking_motion_def)

lemma hold_plan_data_fields [simp]:
  "s_state (hold_plan_data env s) = s_state s" "s_handler (hold_plan_data env s) = s_handler s"
  "s_soft_limit (hold_plan_data env s) = s_soft_limit s"
  "s_hal_spindle_on (hold_plan_data env s) = s_hal_spindle_on s"
  "s_hal_coolant (hold_plan_data env s) = s_hal_coolant s"
  "s_gc_spindle (hold_plan_data env s) = s_gc_spindle s" "s_is_parking (hold_plan_data env s) = s_is_parking s"
  "s_parking_disable (hold_plan_data env s) = s_parking_disable s"
  by (simp_all add: hold_plan_data_def)

lemma hold_conditions_fields [simp]:
  "s_state (hold_conditions env s) = s_state s" "s_handler (hold_conditions env s) = s_handler s"
  "s_soft_limit (hold_conditions env s) = s_soft_limit s"
  "s_hal_spindle_on (hold_conditions env s) = s_hal_spindle_on s"
  "s_hal_coolant (hold_conditions env s) = s_hal_coolant s"
  "s_gc_spindle (hold_conditions env s) = s_gc_spindle s" "s_is_parking (hold_conditions env s) = s_is_parking s"
  "s_parking_disable (hold_conditions env s) = s_parking_disable s"
  by (simp_all add: hold_conditions_def split: option.split)

lemma hold_laser_fields [simp]:
  "s_state (hold_laser env s) = s_state s" "s_handler (hold_laser env s) = s_handler s"
  "s_soft_limit (hold_laser env s) = s_soft_limit s" "s_hal_spindle_on (hold_laser env s) = s_hal_spindle_on s"
  "s_hal_coolant (hold_laser env s) = s_hal_coolant s" "s_gc_spindle (hold_laser env s) = s_gc_spindle s"
  "s_is_parking (hold_laser env s) = s_is_parking s"
  "s_parking_disable (hold_laser env s) = s_parking_disable s"
  by (simp_all add: hold_laser_def sm_log_def)

lemma hold_decelerate_fields [simp]:
  "s_state (hold_decelerate s) = s_state s" "s_soft_limit (hold_decelerate s) = s_soft_limit s"
  "s_hal_spindle_on (hold_decelerate s) = s_hal_spindle_on s"
  "s_hal_coolant (hold_decelerate s) = s_hal_coolant s" "s_gc_spindle (hold_decelerate s) = s_gc_spindle s"
  "s_is_parking (hold_decelerate s) = s_is_parking s"
  "s_parking_disable (hold_decelerate s) = s_parking_disable s"
  "s_handler (hold_decelerate s) =
     (if s_state s \<in> {STATE_CYCLE, STATE_JOG} then state_await_hold else s_handler s)"
  "s_state s \<in> {STATE_CYCLE, STATE_JOG} \<Longrightarrow> execute_hold (s_step_control (hold_decelerate s))"
  by (auto simp: hold_decelerate_def sm_log_def)

lemma hold_mark_fields [simp]:
  "s_state (hold_mark n s) = s_state s" "s_handler (hold_mark n s) = s_handler s"
  "s_soft_limit (hold_mark n s) = s_soft_limit s" "s_hal_spindle_on (hold_mark n s) = s_hal_spindle_on s"
  "s_hal_coolant (hold_mark n s) = s_hal_coolant s" "s_gc_spindle (hold_mark n s) = s_gc_spindle s"
  "s_is_parking (hold_mark n s) = s_is_parking s" "s_step_control (hold_mark n s) = s_step_control s"
  "s_parking_disable (hold_mark n s) = s_parking_disable s"
  by (simp_all add: hold_mark_def)

lemma initiate_hold_fields [simp]:
  "s_state (snd (initiate_hold env n s)) = s_state s"
  "fst (initiate_hold env n s) = (s_state s = STATE_CYCLE)"
  "s_soft_limit (snd (initiate_hold env n s)) = s_soft_limit s"
  "s_suspend (snd (initiate_hold env n s)) = (\<not> s_soft_limit s)"
  "s_hal_spindle_on (snd (initiate_hold env n s)) = s_hal_spindle_on s"
  "s_hal_coolant (snd (initiate_hold env n s)) = s_hal_coolant s"
  "s_gc_spindle (snd (initiate_hold env n s)) = s_gc_spindle s"
  "s_is_parking (snd (initiate_hold env n s)) = s_is_parking s"
  "s_parking_disable (snd (initiate_hold env n s)) = s_parking_disable s"
  "s_pending (snd (initiate_hold env n s)) = (if s_state s = STATE_JOG then n else STATE_IDLE)"
  "s_handler (snd (initiate_hold env n s)) =
     (if s_state s \<in> {STATE_CYCLE, STATE_JOG} then state_await_hold else s_handler s)"
  "s_state s \<in> {STATE_CYCLE, STATE_JOG} \<Longrightarrow> execute_hold (s_step_control (snd (initiate_hold env n s)))"
  by (simp_all add: initiate_hold_def Let_def)

text \<open>A state is live when it is not halted; handlers other than \<open>state_noop\<close> only run in live states.\<close>

definition live :: "sm \<Rightarrow> bool" where
  "live s \<longleftrightarrow> s_state s \<notin> halted"


lemma live_cong: "s_state s' = s_state s \<Longrightarrow> live s \<Longrightarrow> live s'"
  by (simp add: live_def)

lemma sm_ok_log [simp]: "sm_ok (sm_log es s) = sm_ok s"
  by (simp add: sm_ok_def)

lemma sm_ok_flag [simp]: "sm_ok (set_exec_state_flag f s) = sm_ok s"
  by (simp add: sm_ok_def)

lemma sm_ok_done [simp]: "sm_ok (state_set_done org s) = sm_ok s"
  by (simp add: sm_ok_def)


lemma state_parking_manager [simp]: "s_state (snd (parking_manager env s)) = s_state s"
  by (simp add: parking_manager_def Let_def case_prod_beta)











lemma state_idle_tool:
  "s_state (state_set env STATE_IDLE s) = STATE_IDLE"
  "s_state (state_set env STATE_TOOL_CHANGE s) = STATE_TOOL_CHANGE"
  by (simp_all add: state_set_def)



lemma sh_spindle_set [simp]:
  "s_state (set_spindle on s) = s_state s" "s_handler (set_spindle on s) = s_handler s"
  "s_park (set_spindle on s) = s_park s" "s_park (set_coolant c s) = s_park s"
  "s_park (end_sys_motion s) = s_park s"
  by (simp_all add: set_spindle_def set_coolant_def end_sys_motion_def)








lemma sh_plunge [simp]:
  "s_state (snd (restore_plunge env s)) = s_state s" "s_handler (snd (restore_plunge env s)) = s_handler s"
  by (simp_all add: restore_plunge_def)




















text \<open>A concrete environment: door open, a plain block in the planner, no parking.\<close>

definition demo_env :: sm_env where
  "demo_env = \<lparr>settings_of = \<lparr>parking_enabled = False, parking_axis = 2, parking_target = 0,
       pullout_increment = 5, pullout_rate = 100, parking_rate = 500, keep_coolant_on = False,
       disable_laser_during_hold = False, restore_after_feed_hold = False\<rparr>,
     cap_laser = (\<lambda>_. False), door_ajar = True,
     cur_block = Some \<lparr>pb_spindle = no_spindle 0, pb_synchronized = False, pb_units_per_rev = False,
       pb_coolant = 0\<rparr>,
     index_wait = IndexReached, data_rpm = 0, motion_ok = (\<lambda>_. True), mpos = (\<lambda>_. -10),
     axis_homed = (\<lambda>_. True), fadd = (+), is_aborted = False, spindle_as_set = (\<lambda>_. False),
     during_delay = (\<lambda>s. s)\<rparr>"


subsection \<open>The safety door\<close>

text \<open>
  C12. While the safety door is open after a hold has completed (state safety door, handler
  \<open>state_await_resume\<close>), no set of real-time events without a sleep request resumes anything, unless a
  retraction has been restarted because the door was opened again while the machine was being restored
  (\<open>park.flags.restart\<close>): the state, the handler and the spindle and coolant outputs stay, and no motion is
  planned or started.
\<close>

theorem door_open_blocks_resume:
  assumes "s_state s = STATE_SAFETY_DOOR" and "s_handler s = state_await_resume" and "door_ajar env"
    and "\<not> pk_restart (s_park s)" and "\<not> has rt EXEC_SLEEP"
  shows "\<exists>s'. state_update env rt s = Some s' \<and> s_state s' = STATE_SAFETY_DOOR \<and>
    s_handler s' = state_await_resume \<and> s_hal_spindle_on s' = s_hal_spindle_on s \<and>
    s_hal_coolant s' = s_hal_coolant s \<and> set (s_log s') \<subseteq> set (s_log s) \<union> {StParkingRestore}"
  using assms
  by (auto simp: state_update_def run_handler_def handle_await_resume_def Let_def door_signal_def
      end_sys_motion_def resume_from_def resume_door_def restart_cycle_def)

definition door_held :: sm where
  "door_held = sm_init\<lparr>s_state := STATE_SAFETY_DOOR, s_handler := state_await_resume, s_suspend := True\<rparr>"

lemma door_open_blocks_resume_witness:
  "\<exists>s'. state_update demo_env EXEC_CYCLE_START door_held = Some s' \<and> s_state s' = STATE_SAFETY_DOOR"
proof -
  have "s_state door_held = STATE_SAFETY_DOOR" "s_handler door_held = state_await_resume" "door_ajar demo_env"
    "\<not> pk_restart (s_park door_held)" "\<not> has EXEC_CYCLE_START EXEC_SLEEP"
    by (simp_all add: door_held_def sm_init_def demo_env_def has_eval)
  from door_open_blocks_resume [OF this] show ?thesis by blast
qed

lemma state_set_done_fields [simp]:
  "s_soft_limit (state_set_done org s) = s_soft_limit s" "s_suspend (state_set_done org s) = s_suspend s"
  "s_hal_spindle_on (state_set_done org s) = s_hal_spindle_on s"
  "s_hal_coolant (state_set_done org s) = s_hal_coolant s"
  "s_step_control (state_set_done org s) = s_step_control s" "s_pending (state_set_done org s) = s_pending s"
  "s_gc_spindle (state_set_done org s) = s_gc_spindle s" "s_is_parking (state_set_done org s) = s_is_parking s"
  "s_alarm_pending (state_set_done org s) = s_alarm_pending s" "s_tool_change (state_set_done org s) = s_tool_change s"
  "s_holding_state (state_set_done org s) = s_holding_state s"
  "s_parking_disable (state_set_done org s) = s_parking_disable s"
  by (simp_all add: state_set_done_def Let_def)

lemma has_bits [simp]:
  "\<not> has EXEC_SAFETY_DOOR EXEC_CYCLE_COMPLETE" "has EXEC_SAFETY_DOOR EXEC_SAFETY_DOOR"
  "\<not> has EXEC_CYCLE_COMPLETE EXEC_SAFETY_DOOR" "has EXEC_CYCLE_COMPLETE EXEC_CYCLE_COMPLETE"
  "\<not> has EXEC_CYCLE_START EXEC_SAFETY_DOOR" "has EXEC_CYCLE_START EXEC_CYCLE_START"
  "\<not> has EXEC_CYCLE_START EXEC_CYCLE_COMPLETE" "\<not> has EXEC_CYCLE_START EXEC_SLEEP"
  "\<not> has EXEC_FEED_HOLD EXEC_SAFETY_DOOR" "has EXEC_FEED_HOLD EXEC_FEED_HOLD"
  "\<not> has EXEC_FEED_HOLD EXEC_CYCLE_COMPLETE" "\<not> has EXEC_FEED_HOLD EXEC_TOOL_CHANGE"
  "\<not> has EXEC_FEED_HOLD (EXEC_MOTION_CANCEL OR EXEC_MOTION_CANCEL_FAST)"
  "EXEC_FEED_HOLD \<noteq> EXEC_CYCLE_START"
  by (simp_all add: has_eval)

text \<open>
  Once the door has been opened again while the machine was being restored, it does not block the
  resume any more: after the retraction that this restarts, a cycle start with the door still open sends the
  tool back towards the work, to the waypoint of the retraction.
\<close>

theorem reopened_door_resumes:
  assumes "s_state s = STATE_SAFETY_DOOR" and "s_handler s = state_await_resume" and "door_ajar env"
    and "pk_restart (s_park s)" and "pk_motion (s_park s)"
    and "target = (pk_restore_target (s_park s))(parking_axis (settings_of env) := pk_retract_waypoint (s_park s))"
    and "pk_restore_target (s_park s) (parking_axis (settings_of env)) \<le> parking_target (settings_of env)"
    and "motion_ok env target"
  shows "\<exists>s'. state_update env EXEC_CYCLE_START s = Some s' \<and> s_handler s' = state_restore \<and>
    \<not> pk_restart (s_park s') \<and> s_log s' = s_log s @ [ParkingMotion target, StPrepBuffer, StWakeUp]"
proof -
  define ax where "ax = parking_axis (settings_of env)"
  define s1 where "s1 = s\<lparr>s_handler := state_restore, s_parking_state := Parking_Resuming\<rparr>"
  define s2 where "s2 = s1\<lparr>s_park := (s_park s1)\<lparr>pk_restart := False\<rparr>\<rparr>"
  define s3 where "s3 = s2\<lparr>s_park := (s_park s2)\<lparr>pd_feed_rate := parking_rate (settings_of env)\<rparr>\<rparr>"
  have t: "(pk_restore_target (s_park s2))(ax := pk_retract_waypoint (s_park s2)) = target"
    by (simp add: assms(6) s2_def s1_def ax_def)
  define s4 where "s4 = snd (mc_parking_motion env target s3)"
  have m: "mc_parking_motion env target s3 = (True, s4)"
    using assms(8) by (simp add: s4_def mc_parking_motion_def)
  have d: "resume_door env s = Some s4"
    unfolding resume_door_def Let_def s1_def [symmetric] s2_def [symmetric] s3_def [symmetric] ax_def [symmetric] t m
    using assms(4,5,7) by (simp add: s1_def s2_def ax_def)
  have s4: "s_state s4 = STATE_SAFETY_DOOR" "s_handler s4 = state_restore" "\<not> pk_restart (s_park s4)"
    "s_log s4 = s_log s @ [ParkingMotion target, StPrepBuffer, StWakeUp]"
    using assms(1,8) by (simp_all add: s4_def mc_parking_motion_def s3_def s2_def s1_def)
  have "state_update env EXEC_CYCLE_START s = Some s4"
    using assms(1,2) d s4(1)
    by (simp add: state_update_def run_handler_def handle_await_resume_def resume_from_def restart_cycle_def Let_def)
  with s4 show ?thesis by blast
qed

text \<open>The witness: a machine that has been retracted again.\<close>

definition reopened :: sm where
  "reopened = door_held\<lparr>s_park := (s_park door_held)\<lparr>pk_restart := True, pk_motion := True,
     pk_restore_target := (\<lambda>_. -10), pk_retract_waypoint := -5\<rparr>\<rparr>"

lemma reopened_door_resumes_witness:
  "\<exists>target s'. state_update demo_env EXEC_CYCLE_START reopened = Some s' \<and> ParkingMotion target \<in> set (s_log s') \<and>
     target 2 = - 5"
proof -
  have r: "s_state reopened = STATE_SAFETY_DOOR" "s_handler reopened = state_await_resume" "door_ajar demo_env"
    "pk_restart (s_park reopened)" "pk_motion (s_park reopened)"
    "pk_restore_target (s_park reopened) (parking_axis (settings_of demo_env)) \<le> parking_target (settings_of demo_env)"
    "parking_axis (settings_of demo_env) = 2" "pk_retract_waypoint (s_park reopened) = - 5"
    by (simp_all add: reopened_def door_held_def sm_init_def demo_env_def)
  have m: "motion_ok demo_env t" for t by (simp add: demo_env_def)
  let ?t = "(pk_restore_target (s_park reopened))(parking_axis (settings_of demo_env) := pk_retract_waypoint (s_park reopened))"
  have "?t 2 = - 5" using r(7,8) by simp
  with reopened_door_resumes [OF r(1-5) refl r(6) m] show ?thesis by (intro exI [of _ ?t]) auto
qed


subsection \<open>Completing a hold\<close>

text \<open>A cycle complete event that finds the machine waiting for the hold to end, in a state in which
  the door event itself changes nothing.\<close>

lemma update_complete:
  "s_handler s = state_await_hold \<Longrightarrow>
   state_update env EXEC_CYCLE_COMPLETE s = Some (handle_await_hold env EXEC_CYCLE_COMPLETE s)"
  by (simp add: state_update_def run_handler_def run_simple_def)

lemma door_power_off_fields [simp]:
  "s_hal_spindle_on (door_power_off env s) = False" "s_soft_limit (door_power_off env s) = s_soft_limit s"
  "s_hal_coolant (door_power_off env s) =
     (if s_is_parking s \<or> s_state s = STATE_SLEEP \<or> \<not> keep_coolant_on (settings_of env) then 0
      else s_hal_coolant s)"
  "s_parking_state (door_power_off env s) = (if door_ajar env then Parking_DoorAjar else Parking_DoorClosed)"
  by (simp_all add: door_power_off_def door_signal_def spindle_all_off_def set_coolant_def Let_def)




definition cutting :: sm where
  "cutting = sm_init\<lparr>s_state := STATE_CYCLE, s_handler := state_cycle, s_hal_spindle_on := True,
     s_hal_coolant := 3, s_gc_spindle := \<lparr>sp_hal = 0, sp_on = True, sp_rpm = 1000\<rparr>\<rparr>"





subsection \<open>Feed hold\<close>

text \<open>What a hold remembers to restore while the planner has a block.\<close>

definition remembered :: "plan_block \<Rightarrow> sm \<Rightarrow> spindle" where
  "remembered b s = (if sp_hal (pb_spindle b) = sp_hal (s_gc_spindle s) then pb_spindle b else s_gc_spindle s)"

lemma hold_remembers:
  assumes "cur_block env = Some b"
  shows "s_rc_spindle (snd (initiate_hold env n s)) = remembered b s"
    and "s_rc_coolant (snd (initiate_hold env n s)) = pb_coolant b"
proof -
  have l: "s_rc_spindle (hold_laser env x) = s_rc_spindle x" "s_rc_coolant (hold_laser env x) = s_rc_coolant x"
    "s_rc_spindle (hold_decelerate x) = s_rc_spindle x" "s_rc_coolant (hold_decelerate x) = s_rc_coolant x"
    "s_rc_spindle (hold_mark n x) = s_rc_spindle x" "s_rc_coolant (hold_mark n x) = s_rc_coolant x" for x
    by (simp_all add: hold_laser_def hold_decelerate_def hold_mark_def sm_log_def)
  show "s_rc_spindle (snd (initiate_hold env n s)) = remembered b s"
    "s_rc_coolant (snd (initiate_hold env n s)) = pb_coolant b"
    using assms by (simp_all add: initiate_hold_def Let_def l remembered_def) (simp_all add: hold_conditions_def)
qed

text \<open>A feed hold during a cycle, up to its end.\<close>

lemma feed_hold_held:
  assumes "s_state s = STATE_CYCLE" and "s_handler s = state_cycle" and "\<not> s_soft_limit s"
    and "\<not> s_feed_hold_disable s" and "cur_block env = Some b"
  obtains e h where "state_update env EXEC_FEED_HOLD s = Some e" and "execute_hold (s_step_control e)"
    and "state_update env EXEC_CYCLE_COMPLETE e = Some h"
    and "s_state h = STATE_HOLD" and "s_handler h = state_await_resume" and "s_holding_state h = Hold_Complete"
    and "s_suspend h" and "\<not> s_feed_hold_pending h"
    and "s_hal_spindle_on h = s_hal_spindle_on s" and "s_hal_coolant h = s_hal_coolant s"
    and "s_rc_spindle h = remembered b s" and "s_rc_coolant h = pb_coolant b"
proof -
  define p where "p = snd (initiate_hold env STATE_HOLD s)"
  define e where "e = state_set_done STATE_CYCLE (p\<lparr>s_state := STATE_HOLD, s_feed_hold_pending := False\<rparr>)"
  have e: "state_update env EXEC_FEED_HOLD s = Some e"
    using assms(1,2,4) unfolding e_def p_def
    by (simp add: state_update_def run_handler_def run_simple_def handle_cycle_def Let_def state_set_def case_prod_beta)
  have p: "s_handler p = state_await_hold" "\<not> s_soft_limit p" "s_suspend p" "s_hal_spindle_on p = s_hal_spindle_on s"
    "s_hal_coolant p = s_hal_coolant s" "execute_hold (s_step_control p)"
    "s_rc_spindle p = remembered b s" "s_rc_coolant p = pb_coolant b"
    using assms(1,3,5) by (simp_all add: p_def hold_remembers)
  have ef: "s_feed_hold_pending e = False" "s_rc_spindle e = s_rc_spindle p" "s_rc_coolant e = s_rc_coolant p"
    by (simp_all add: e_def state_set_done_def Let_def sm_log_def)
  define e0 where "e0 = (sm_log [PlanReinit] e)\<lparr>s_step_control := no_step_control\<rparr>"
  define e1 where "e1 = (if s_alarm_pending e0 \<noteq> Alarm_None
    then e0\<lparr>s_rt_exec_alarm := s_alarm_pending e0\<rparr> else e0)"
  have e1: "s_state e1 = STATE_HOLD" "s_hal_spindle_on e1 = s_hal_spindle_on s" "s_hal_coolant e1 = s_hal_coolant s"
    "\<not> s_soft_limit e1" "s_suspend e1" "\<not> s_feed_hold_pending e1" "s_rc_spindle e1 = remembered b s"
    "s_rc_coolant e1 = pb_coolant b"
    using p ef by (simp_all add: e1_def e0_def e_def) (simp_all add: sm_log_def e_def)
  have "s_handler e = state_await_hold" "execute_hold (s_step_control e)" using p by (simp_all add: e_def)
  moreover from update_complete [OF this(1)]
  have "state_update env EXEC_CYCLE_COMPLETE e =
      Some (e1\<lparr>s_holding_state := Hold_Complete, s_handler := state_await_resume\<rparr>)"
    using e1 unfolding handle_await_hold_def Let_def e0_def [symmetric] e1_def [symmetric] by simp
  ultimately show thesis
    using e e1 by (intro that [of e "e1\<lparr>s_holding_state := Hold_Complete, s_handler := state_await_resume\<rparr>"]) simp_all
qed

text \<open>What resuming from a hold does to the outputs when nothing happens during the delays.\<close>

lemma resume_hold_fields:
  assumes "\<And>x. during_delay env x = x"
  shows "s_state (resume_hold env s) = s_state s"
    and "\<not> restore_after_feed_hold (settings_of env) \<Longrightarrow> s_hal_spindle_on (resume_hold env s) = s_hal_spindle_on s"
    and "\<not> restore_after_feed_hold (settings_of env) \<Longrightarrow> s_hal_coolant (resume_hold env s) = s_hal_coolant s"
    and "s_feed_hold_pending (resume_hold env s) = s_feed_hold_pending s"
    and "restore_after_feed_hold (settings_of env) \<Longrightarrow> s_hal_coolant (resume_hold env s) = s_rc_coolant s"
    and "restore_after_feed_hold (settings_of env) \<Longrightarrow> \<not> cap_laser env (sp_hal (s_rc_spindle s)) \<Longrightarrow>
      \<not> is_aborted env \<Longrightarrow> s_state s \<noteq> STATE_CHECK_MODE \<Longrightarrow>
      s_hal_spindle_on (resume_hold env s) = sp_on (s_rc_spindle s)"
proof -
  have c: "s_state (coolant_restore env x) = s_state x" "s_hal_spindle_on (coolant_restore env x) = s_hal_spindle_on x"
    "s_feed_hold_pending (coolant_restore env x) = s_feed_hold_pending x"
    "s_hal_coolant (coolant_restore env x) = s_rc_coolant x" for x
    by (simp_all add: coolant_restore_def set_coolant_def assms Let_def)
  have sp: "s_state (state_spindle_restore env sp x) = s_state x" "s_hal_coolant (state_spindle_restore env sp x) = s_hal_coolant x"
    "s_feed_hold_pending (state_spindle_restore env sp x) = s_feed_hold_pending x"
    "s_rc_coolant (state_spindle_restore env sp x) = s_rc_coolant x" for sp x
    by (simp_all add: state_spindle_restore_def spindle_restore_def set_spindle_def assms sm_log_def)
  have on: "s_hal_spindle_on (state_spindle_restore env sp x) = sp_on sp"
    if "\<not> cap_laser env (sp_hal sp)" "\<not> is_aborted env" "s_state x \<noteq> STATE_CHECK_MODE" for sp x
    using that by (simp add: state_spindle_restore_def spindle_restore_def set_spindle_def assms sm_log_def)
  have log: "s_rc_coolant (sm_log es x) = s_rc_coolant x" for es x by (simp add: sm_log_def)
  show "s_state (resume_hold env s) = s_state s"
    "s_feed_hold_pending (resume_hold env s) = s_feed_hold_pending s"
    by (simp_all add: resume_hold_def Let_def c sp)
  show "\<not> restore_after_feed_hold (settings_of env) \<Longrightarrow> s_hal_spindle_on (resume_hold env s) = s_hal_spindle_on s"
    "\<not> restore_after_feed_hold (settings_of env) \<Longrightarrow> s_hal_coolant (resume_hold env s) = s_hal_coolant s"
    by (simp_all add: resume_hold_def Let_def)
  show "restore_after_feed_hold (settings_of env) \<Longrightarrow> s_hal_coolant (resume_hold env s) = s_rc_coolant s"
    by (simp add: resume_hold_def Let_def c sp log)
  show "restore_after_feed_hold (settings_of env) \<Longrightarrow> \<not> cap_laser env (sp_hal (s_rc_spindle s)) \<Longrightarrow>
      \<not> is_aborted env \<Longrightarrow> s_state s \<noteq> STATE_CHECK_MODE \<Longrightarrow>
      s_hal_spindle_on (resume_hold env s) = sp_on (s_rc_spindle s)"
    by (simp add: resume_hold_def Let_def c sp on log)
qed

lemma restart_to_cycle:
  assumes "s_state s \<notin> {STATE_SLEEP, STATE_SAFETY_DOOR, STATE_IDLE}" and "\<not> s_feed_hold_pending s" and "cur_block env = Some b" and "\<not> pb_synchronized b"
  shows "s_state (restart_cycle env s) = STATE_CYCLE \<and> s_handler (restart_cycle env s) = state_cycle \<and>
    \<not> s_suspend (restart_cycle env s) \<and> s_holding_state (restart_cycle env s) = Hold_NotHolding \<and>
    s_hal_spindle_on (restart_cycle env s) = s_hal_spindle_on s \<and>
    s_hal_coolant (restart_cycle env s) = s_hal_coolant s \<and> s_alarm (restart_cycle env s) = Alarm_None"
proof -
  define i where "i = (state_set env STATE_IDLE s)\<lparr>s_step_control := s_step_control s\<rparr>"
  have i: "s_state i = STATE_IDLE" "\<not> s_suspend i" "s_holding_state i = Hold_NotHolding"
    "s_hal_spindle_on i = s_hal_spindle_on s" "s_hal_coolant i = s_hal_coolant s"
    using assms(1,2) by (auto simp: i_def state_set_def enter_idle_def Let_def)
  have "enter_cycle env i = (False, (sm_log [StWakeUp] (sm_log [StPrepBuffer]
      (i\<lparr>s_state := STATE_CYCLE, s_steppers_deenergize := False\<rparr>)))\<lparr>s_handler := state_cycle\<rparr>)"
    using i assms(3,4) by (simp add: enter_cycle_def Let_def)
  moreover have "restart_cycle env s = state_set env STATE_CYCLE i"
    using assms(1) by (simp add: restart_cycle_def i_def)
  ultimately have "restart_cycle env s = state_set_done STATE_IDLE ((sm_log [StWakeUp] (sm_log [StPrepBuffer]
      (i\<lparr>s_state := STATE_CYCLE, s_steppers_deenergize := False\<rparr>)))\<lparr>s_handler := state_cycle\<rparr>)"
    using i by (simp add: state_set_def)
  then show ?thesis using i by simp (simp add: state_set_done_def Let_def sm_log_def)
qed

text \<open>A cycle start while a hold is complete.\<close>

lemma resume_from_hold:
  assumes "s_state h = STATE_HOLD" and "s_handler h = state_await_resume"
  obtains h1 where "state_update env EXEC_CYCLE_START h = Some (restart_cycle env (resume_hold env h1))"
    and "s_state h1 = STATE_HOLD" and "s_feed_hold_pending h1 = s_feed_hold_pending h"
    and "s_hal_spindle_on h1 = s_hal_spindle_on h" and "s_hal_coolant h1 = s_hal_coolant h"
    and "s_rc_spindle h1 = s_rc_spindle h" and "s_rc_coolant h1 = s_rc_coolant h"
    and "s_alarm h1 = s_alarm h" and "s_blocking_event h1 = s_blocking_event h"
proof -
  define h1 where "h1 = (if s_spindle_stop h = no_spindle_stop
    then h\<lparr>s_spindle_stop := (s_spindle_stop h)\<lparr>stop_restore_cycle := True\<rparr>\<rparr> else h)"
  have h1: "s_state h1 = STATE_HOLD" using assms(1) by (simp add: h1_def)
  have "state_update env EXEC_CYCLE_START h = Some (restart_cycle env (resume_hold env h1))"
    using assms h1
    by (simp add: state_update_def run_handler_def handle_await_resume_def resume_from_def Let_def h1_def [symmetric])
  then show thesis by (rule that) (use h1 in \<open>simp_all add: h1_def\<close>)
qed

text \<open>
  C26. A feed hold during a cycle, when holds are not disabled (M53) and it is not that of a soft limit: the hold
  decelerates and completes with the spindle and coolant as they were. When nothing happens during the delays
  of the resume and the planner still has a block that does not need the spindle index, a cycle start
  returns to the state cycle with its handler and a cleared suspend flag. Without the setting
  \<open>restore_after_feed_hold\<close> spindle and coolant stay as they are; with it, the default, the coolant is that of the
  block, and a spindle that is not a laser is on exactly when it was for the block.
\<close>

theorem feed_hold_resumes_cycle:
  assumes "s_state s = STATE_CYCLE" and "s_handler s = state_cycle" and "\<not> s_soft_limit s"
    and "\<not> s_feed_hold_disable s" and "cur_block env = Some b" and "\<not> pb_synchronized b"
    and "\<And>x. during_delay env x = x" and "\<not> is_aborted env"
  shows "\<exists>e h r. state_update env EXEC_FEED_HOLD s = Some e \<and> execute_hold (s_step_control e) \<and>
    state_update env EXEC_CYCLE_COMPLETE e = Some h \<and>
    s_state h = STATE_HOLD \<and> s_holding_state h = Hold_Complete \<and> s_suspend h \<and>
    s_hal_spindle_on h = s_hal_spindle_on s \<and> s_hal_coolant h = s_hal_coolant s \<and>
    state_update env EXEC_CYCLE_START h = Some r \<and>
    s_state r = STATE_CYCLE \<and> s_handler r = state_cycle \<and> \<not> s_suspend r \<and> s_holding_state r = Hold_NotHolding \<and>
    (if restore_after_feed_hold (settings_of env)
     then s_hal_coolant r = pb_coolant b \<and>
       (\<not> cap_laser env (sp_hal (remembered b s)) \<longrightarrow> s_hal_spindle_on r = sp_on (remembered b s))
     else s_hal_coolant r = s_hal_coolant s \<and> s_hal_spindle_on r = s_hal_spindle_on s)"
proof -
  obtain e h where eh: "state_update env EXEC_FEED_HOLD s = Some e" "execute_hold (s_step_control e)"
    "state_update env EXEC_CYCLE_COMPLETE e = Some h"
    "s_state h = STATE_HOLD" "s_handler h = state_await_resume" "s_holding_state h = Hold_Complete"
    "s_suspend h" "\<not> s_feed_hold_pending h"
    "s_hal_spindle_on h = s_hal_spindle_on s" "s_hal_coolant h = s_hal_coolant s"
    "s_rc_spindle h = remembered b s" "s_rc_coolant h = pb_coolant b"
    using assms(1-5) by (rule feed_hold_held)
  obtain h1 where h1: "state_update env EXEC_CYCLE_START h = Some (restart_cycle env (resume_hold env h1))"
    "s_state h1 = STATE_HOLD" "s_feed_hold_pending h1 = s_feed_hold_pending h"
    "s_hal_spindle_on h1 = s_hal_spindle_on h" "s_hal_coolant h1 = s_hal_coolant h"
    "s_rc_spindle h1 = s_rc_spindle h" "s_rc_coolant h1 = s_rc_coolant h"
    using eh(4,5) by (rule resume_from_hold)
  note f = resume_hold_fields [OF assms(7), of h1]
  have "s_state (resume_hold env h1) \<notin> {STATE_SLEEP, STATE_SAFETY_DOOR, STATE_IDLE}"
    "\<not> s_feed_hold_pending (resume_hold env h1)"
    using f h1 eh by simp_all
  note r = restart_to_cycle [OF this assms(5,6)]
  have "if restore_after_feed_hold (settings_of env)
     then s_hal_coolant (restart_cycle env (resume_hold env h1)) = pb_coolant b \<and>
       (\<not> cap_laser env (sp_hal (remembered b s)) \<longrightarrow>
          s_hal_spindle_on (restart_cycle env (resume_hold env h1)) = sp_on (remembered b s))
     else s_hal_coolant (restart_cycle env (resume_hold env h1)) = s_hal_coolant s \<and>
       s_hal_spindle_on (restart_cycle env (resume_hold env h1)) = s_hal_spindle_on s"
    using r f h1 eh assms(8) by simp
  with eh h1(1) r show ?thesis by blast
qed

lemma feed_hold_resumes_cycle_witness:
  "\<exists>e h r. state_update demo_env EXEC_FEED_HOLD cutting = Some e \<and> state_update demo_env EXEC_CYCLE_COMPLETE e = Some h \<and>
     state_update demo_env EXEC_CYCLE_START h = Some r \<and> s_state r = STATE_CYCLE \<and> s_hal_spindle_on r"
proof -
  obtain b where b: "cur_block demo_env = Some b" "\<not> pb_synchronized b" by (simp add: demo_env_def)
  have c: "s_state cutting = STATE_CYCLE" "s_handler cutting = state_cycle" "\<not> s_soft_limit cutting"
    "\<not> s_feed_hold_disable cutting" "s_hal_spindle_on cutting" "\<And>x. during_delay demo_env x = x"
    "\<not> is_aborted demo_env" "\<not> restore_after_feed_hold (settings_of demo_env)"
    by (simp_all add: cutting_def sm_init_def demo_env_def)
  from feed_hold_resumes_cycle [OF c(1-4) b c(6,7)] c show ?thesis by auto
qed

text \<open>
  An alarm that is raised while the spindle is being restarted after a feed hold, such as the one of a
  spindle that does not reach its speed, is lost: the resume goes on, the state is cycle, no alarm is active, and
  the motion continues with the spindle as the alarm has left it.
\<close>

theorem alarm_during_resume_lost:
  assumes "s_state h = STATE_HOLD" and "s_handler h = state_await_resume" and "\<not> s_feed_hold_pending h"
    and "restore_after_feed_hold (settings_of env)" and "s_rc_coolant h = s_hal_coolant h"
    and "sp_on (s_rc_spindle h)" and "\<not> s_hal_spindle_on h" and "\<not> cap_laser env (sp_hal (s_rc_spindle h))"
    and "\<not> is_aborted env" and "cur_block env = Some b" and "\<not> pb_synchronized b"
    and "s_alarm h \<noteq> Alarm_Spindle" and "\<not> s_blocking_event h"
    and "\<And>x. during_delay env x = system_raise_alarm env Alarm_Spindle (x\<lparr>s_hal_spindle_on := False\<rparr>)"
  shows "\<exists>x r. s_state (during_delay env x) = STATE_ALARM \<and> s_alarm (during_delay env x) = Alarm_Spindle \<and>
    state_update env EXEC_CYCLE_START h = Some r \<and> s_state r = STATE_CYCLE \<and> s_handler r = state_cycle \<and>
    s_alarm r = Alarm_None \<and> \<not> s_hal_spindle_on r"
proof -
  obtain h1 where h1: "state_update env EXEC_CYCLE_START h = Some (restart_cycle env (resume_hold env h1))"
    "s_state h1 = STATE_HOLD" "s_feed_hold_pending h1 = s_feed_hold_pending h"
    "s_hal_spindle_on h1 = s_hal_spindle_on h" "s_hal_coolant h1 = s_hal_coolant h"
    "s_rc_spindle h1 = s_rc_spindle h" "s_rc_coolant h1 = s_rc_coolant h"
    "s_alarm h1 = s_alarm h" "s_blocking_event h1 = s_blocking_event h"
    using assms(1,2) by (rule resume_from_hold)
  define x where "x = set_spindle True (sm_log [SpindleRestore (s_rc_spindle h1)] (sm_log [Feedback ''SpindleRestore''] h1))"
  have x: "s_alarm x = s_alarm h" "s_blocking_event x = s_blocking_event h" "s_state x = STATE_HOLD"
    "s_rc_coolant x = s_hal_coolant x" "s_feed_hold_pending x = s_feed_hold_pending h"
    using h1 assms(5) by (simp_all add: x_def set_spindle_def sm_log_def)
  define a where "a = during_delay env x"
  have a: "s_state a = STATE_ALARM" "s_alarm a = Alarm_Spindle" "\<not> s_hal_spindle_on a" "s_rc_coolant a = s_hal_coolant a"
    "s_feed_hold_pending a = s_feed_hold_pending h"
    using x assms(12,13)
    by (simp_all add: a_def assms(14) system_raise_alarm_def set_halt_def state_set_done_def enter_halt_def
        sm_log_def Let_def Alarm_EStop_def Alarm_Spindle_def)
  have "state_spindle_restore env (s_rc_spindle h1) (sm_log [Feedback ''SpindleRestore''] h1) = a"
    using h1 assms(6-9) by (simp add: state_spindle_restore_def spindle_restore_def a_def x_def)
  then have rh: "resume_hold env h1 = sm_log [Feedback ''None''] (a\<lparr>s_spindle_stop := no_spindle_stop\<rparr>)"
    using assms(4,6,7) h1 a by (simp add: resume_hold_def Let_def)
  have "s_state (resume_hold env h1) \<notin> {STATE_SLEEP, STATE_SAFETY_DOOR, STATE_IDLE}"
    "\<not> s_feed_hold_pending (resume_hold env h1)"
    using a assms(3) by (simp_all add: rh)
  note r = restart_to_cycle [OF this assms(10,11)]
  have "\<not> s_hal_spindle_on (resume_hold env h1)" using a(3) by (simp add: rh)
  with r a h1(1) show ?thesis unfolding a_def by blast
qed

definition slow_spindle_env :: sm_env where
  "slow_spindle_env = demo_env\<lparr>settings_of := (settings_of demo_env)\<lparr>restore_after_feed_hold := True\<rparr>,
     during_delay := (\<lambda>x. system_raise_alarm demo_env Alarm_Spindle (x\<lparr>s_hal_spindle_on := False\<rparr>))\<rparr>"

definition held_stopped :: sm where
  "held_stopped = sm_init\<lparr>s_state := STATE_HOLD, s_handler := state_await_resume, s_suspend := True,
     s_rc_spindle := \<lparr>sp_hal = 0, sp_on = True, sp_rpm = 1000\<rparr>\<rparr>"

lemma alarm_during_resume_lost_witness:
  "\<exists>r. state_update slow_spindle_env EXEC_CYCLE_START held_stopped = Some r \<and> s_state r = STATE_CYCLE \<and>
     s_alarm r = Alarm_None \<and> \<not> s_hal_spindle_on r"
proof -
  obtain b where b: "cur_block slow_spindle_env = Some b" "\<not> pb_synchronized b"
    by (simp add: slow_spindle_env_def demo_env_def)
  have raise: "system_raise_alarm env a x = system_raise_alarm env' a x" for env env' a x
    by (simp add: system_raise_alarm_def)
  have h: "s_state held_stopped = STATE_HOLD" "s_handler held_stopped = state_await_resume"
    "\<not> s_feed_hold_pending held_stopped" "restore_after_feed_hold (settings_of slow_spindle_env)"
    "s_rc_coolant held_stopped = s_hal_coolant held_stopped" "sp_on (s_rc_spindle held_stopped)"
    "\<not> s_hal_spindle_on held_stopped" "\<not> cap_laser slow_spindle_env (sp_hal (s_rc_spindle held_stopped))"
    "\<not> is_aborted slow_spindle_env" "s_alarm held_stopped \<noteq> Alarm_Spindle" "\<not> s_blocking_event held_stopped"
    "during_delay slow_spindle_env x = system_raise_alarm slow_spindle_env Alarm_Spindle (x\<lparr>s_hal_spindle_on := False\<rparr>)" for x
    by (simp_all add: held_stopped_def sm_init_def slow_spindle_env_def demo_env_def Alarm_Spindle_def Alarm_None_def raise)
  from alarm_during_resume_lost [OF h(1-9) b h(10-12)] show ?thesis by blast
qed

text \<open>
  When the steppers report the end of a cycle in the same pass in which a motion cancel is handled, the machine
  is left idle by name only: the state is idle, but the suspend flag is set and the handler waits
  for the end of a motion that has already ended, so that no cycle start, feed hold or motion
  cancel does anything any more.
\<close>

theorem cancel_at_completion_stuck:
  assumes "s_state s = STATE_CYCLE" and "s_handler s = state_cycle" and "\<not> s_tool_change s"
    and "state_update env (EXEC_CYCLE_COMPLETE OR EXEC_MOTION_CANCEL) s = Some s'"
    and "\<not> has rt EXEC_CYCLE_COMPLETE" and "\<not> has rt EXEC_SAFETY_DOOR"
  shows "s_state s' = STATE_IDLE \<and> s_suspend s' \<and> s_handler s' = state_await_motion_cancel \<and>
    state_update env rt s' = Some s'"
proof -
  define i where "i = state_set env STATE_IDLE s"
  have i: "s_state i = STATE_IDLE" by (simp add: i_def state_idle_tool)
  have flags: "has (EXEC_CYCLE_COMPLETE OR EXEC_MOTION_CANCEL) EXEC_CYCLE_COMPLETE"
    "has (EXEC_CYCLE_COMPLETE OR EXEC_MOTION_CANCEL) (EXEC_MOTION_CANCEL OR EXEC_MOTION_CANCEL_FAST)"
    "\<not> has (EXEC_CYCLE_COMPLETE OR EXEC_MOTION_CANCEL) EXEC_SAFETY_DOOR"
    "\<not> has (EXEC_CYCLE_COMPLETE OR EXEC_MOTION_CANCEL) EXEC_TOOL_CHANGE"
    "\<not> has (EXEC_CYCLE_COMPLETE OR EXEC_MOTION_CANCEL) EXEC_FEED_HOLD"
    "EXEC_CYCLE_COMPLETE OR EXEC_MOTION_CANCEL \<noteq> EXEC_CYCLE_START"
    by (simp_all add: has_eval)
  have s': "s' = (sm_log [StUpdatePlanBlock (has (EXEC_CYCLE_COMPLETE OR EXEC_MOTION_CANCEL) EXEC_MOTION_CANCEL_FAST)] i)
      \<lparr>s_suspend := True, s_step_control := (s_step_control i)\<lparr>execute_hold := True\<rparr>,
       s_handler := state_await_motion_cancel\<rparr>"
    using assms(4) unfolding i_def using assms(1-3) flags
    by (simp add: state_update_def run_handler_def run_simple_def handle_cycle_def Let_def)
  show ?thesis
    using i assms(5,6) by (simp add: s' state_update_def run_handler_def run_simple_def handle_await_motion_cancel_def)
qed

lemma cancel_at_completion_stuck_witness:
  "\<exists>s'. state_update demo_env (EXEC_CYCLE_COMPLETE OR EXEC_MOTION_CANCEL) cutting = Some s' \<and>
     s_handler s' = state_await_motion_cancel"
proof -
  have c: "s_state cutting = STATE_CYCLE" "s_handler cutting = state_cycle" "\<not> s_tool_change cutting"
    by (simp_all add: cutting_def sm_init_def)
  obtain s' where s': "state_update demo_env (EXEC_CYCLE_COMPLETE OR EXEC_MOTION_CANCEL) cutting = Some s'"
    by (simp add: state_update_def has_eval run_handler_def c)
  from cancel_at_completion_stuck [OF c s', of EXEC_CYCLE_START] s' show ?thesis by simp
qed

end
