(* ===== verification/Float32.thy ===== *)
theory Float32
  imports Complex_Main Prelude
begin

text \<open>
  Single precision arithmetic as the code uses it. A value is a real number, an infinity or not a
  number; the sign of zero is not kept. The target's rounding is a parameter: the result of an
  arithmetic operation or library function on finite operands is the exact result put through
  \<open>fp_round\<close>, which may round, overflow or be anything else. Converting a value outside the range of
  the integer type is undefined in C; it gives what \<open>fp_cvt\<close> says. Every theorem holds for
  all roundings and conversions.
\<close>

datatype flt = Fin real | Infty bool | NaN

record fpu =
  fp_round :: "real \<Rightarrow> flt"
  fp_cvt :: "flt \<Rightarrow> int"

definition exact_fpu :: fpu where
  "exact_fpu = \<lparr>fp_round = Fin, fp_cvt = (\<lambda>_. 0)\<rparr>"

fun f_add :: "fpu \<Rightarrow> flt \<Rightarrow> flt \<Rightarrow> flt" where
  "f_add fp (Fin a) (Fin b) = fp_round fp (a + b)"
| "f_add fp (Infty s) (Infty t) = (if s = t then Infty s else NaN)"
| "f_add fp (Infty s) (Fin b) = Infty s"
| "f_add fp (Fin a) (Infty t) = Infty t"
| "f_add fp _ _ = NaN"

fun f_neg :: "flt \<Rightarrow> flt" where
  "f_neg (Fin a) = Fin (- a)"
| "f_neg (Infty s) = Infty (\<not> s)"
| "f_neg NaN = NaN"

definition f_sub :: "fpu \<Rightarrow> flt \<Rightarrow> flt \<Rightarrow> flt" where
  "f_sub fp x y = f_add fp x (f_neg y)"

fun f_mul :: "fpu \<Rightarrow> flt \<Rightarrow> flt \<Rightarrow> flt" where
  "f_mul fp (Fin a) (Fin b) = fp_round fp (a * b)"
| "f_mul fp (Infty s) (Infty t) = Infty (s \<noteq> t)"
| "f_mul fp (Infty s) (Fin b) = (if b = 0 then NaN else Infty (s \<noteq> (b < 0)))"
| "f_mul fp (Fin a) (Infty t) = (if a = 0 then NaN else Infty ((a < 0) \<noteq> t))"
| "f_mul fp _ _ = NaN"

fun f_div :: "fpu \<Rightarrow> flt \<Rightarrow> flt \<Rightarrow> flt" where
  "f_div fp (Fin a) (Fin b) = (if b \<noteq> 0 then fp_round fp (a / b) else if a = 0 then NaN else Infty (a < 0))"
| "f_div fp (Infty s) (Fin b) = Infty (s \<noteq> (b < 0))"
| "f_div fp (Fin a) (Infty t) = Fin 0"
| "f_div fp _ _ = NaN"

definition trunc :: "real \<Rightarrow> int" where
  "trunc a = (if a < 0 then \<lceil>a\<rceil> else \<lfloor>a\<rfloor>)"

text \<open>\<open>fmodf\<close>, \<open>floorf\<close>, \<open>ceilf\<close>, \<open>truncf\<close> and \<open>fabsf\<close> are exact.\<close>

fun f_mod :: "flt \<Rightarrow> flt \<Rightarrow> flt" where
  "f_mod (Fin a) (Fin b) = (if b = 0 then NaN else Fin (a - b * of_int (trunc (a / b))))"
| "f_mod (Fin a) (Infty t) = Fin a"
| "f_mod _ _ = NaN"

fun f_map_exact :: "(real \<Rightarrow> real) \<Rightarrow> flt \<Rightarrow> flt" where
  "f_map_exact g (Fin a) = Fin (g a)"
| "f_map_exact g x = x"

definition f_floor :: "flt \<Rightarrow> flt" where "f_floor = f_map_exact (\<lambda>a. of_int \<lfloor>a\<rfloor>)"
definition f_ceil :: "flt \<Rightarrow> flt" where "f_ceil = f_map_exact (\<lambda>a. of_int \<lceil>a\<rceil>)"
definition f_trunc :: "flt \<Rightarrow> flt" where "f_trunc = f_map_exact (\<lambda>a. of_int (trunc a))"

fun f_abs :: "flt \<Rightarrow> flt" where
  "f_abs (Fin a) = Fin \<bar>a\<bar>"
| "f_abs (Infty s) = Infty False"
| "f_abs NaN = NaN"

subsection \<open>Comparison\<close>

fun f_lt :: "flt \<Rightarrow> flt \<Rightarrow> bool" where
  "f_lt (Fin a) (Fin b) \<longleftrightarrow> a < b"
| "f_lt (Infty s) (Infty t) \<longleftrightarrow> s \<and> \<not> t"
| "f_lt (Infty s) (Fin b) \<longleftrightarrow> s"
| "f_lt (Fin a) (Infty t) \<longleftrightarrow> \<not> t"
| "f_lt _ _ \<longleftrightarrow> False"

definition f_eq :: "flt \<Rightarrow> flt \<Rightarrow> bool" where
  "f_eq x y \<longleftrightarrow> x = y \<and> x \<noteq> NaN"

definition f_le :: "flt \<Rightarrow> flt \<Rightarrow> bool" where
  "f_le x y \<longleftrightarrow> f_lt x y \<or> f_eq x y"

definition f_isnan :: "flt \<Rightarrow> bool" where "f_isnan x \<longleftrightarrow> x = NaN"
definition f_isinf :: "flt \<Rightarrow> bool" where
  "f_isinf x \<longleftrightarrow> (case x of Infty s \<Rightarrow> True | _ \<Rightarrow> False)"

abbreviation f_zero :: flt where "f_zero \<equiv> Fin 0"
abbreviation f_one :: flt where "f_one \<equiv> Fin 1"

text \<open>Truth values as numbers.\<close>

definition f_bool :: "bool \<Rightarrow> flt" where "f_bool b = (if b then f_one else f_zero)"

lemma f_bool_simps [simp]: "f_bool True = f_one" "f_bool False = f_zero"
  by (simp_all add: f_bool_def)

subsection \<open>Conversion\<close>

definition f_to_int :: "fpu \<Rightarrow> int \<Rightarrow> int \<Rightarrow> flt \<Rightarrow> int" where
  "f_to_int fp lo hi x =
     (case x of Fin a \<Rightarrow> if lo \<le> trunc a \<and> trunc a \<le> hi then trunc a else fp_cvt fp x
      | _ \<Rightarrow> fp_cvt fp x)"

definition f_to_i32 :: "fpu \<Rightarrow> flt \<Rightarrow> int" where
  "f_to_i32 fp = f_to_int fp (- 2147483648) 2147483647"

definition f_to_u32 :: "fpu \<Rightarrow> flt \<Rightarrow> u32" where
  "f_to_u32 fp x = word_of_int (f_to_int fp 0 4294967295 x)"

definition f_of_int :: "fpu \<Rightarrow> int \<Rightarrow> flt" where
  "f_of_int fp i = fp_round fp (of_int i)"

subsection \<open>Library functions\<close>

definition f_fun :: "fpu \<Rightarrow> (real \<Rightarrow> real) \<Rightarrow> flt \<Rightarrow> flt" where
  "f_fun fp g x = (case x of Fin a \<Rightarrow> fp_round fp (g a) | _ \<Rightarrow> NaN)"

definition f_exp :: "fpu \<Rightarrow> flt \<Rightarrow> flt" where
  "f_exp fp x = (case x of Fin a \<Rightarrow> fp_round fp (exp a) | Infty s \<Rightarrow> if s then Fin 0 else x | NaN \<Rightarrow> NaN)"

text \<open>\<open>logf\<close> is called with positive operands.\<close>

definition f_ln :: "fpu \<Rightarrow> flt \<Rightarrow> flt" where
  "f_ln fp x = (case x of Fin a \<Rightarrow> fp_round fp (ln a) | Infty s \<Rightarrow> if s then NaN else x | NaN \<Rightarrow> NaN)"

definition f_sqrt :: "fpu \<Rightarrow> flt \<Rightarrow> flt" where
  "f_sqrt fp x = (case x of Fin a \<Rightarrow> if a < 0 then NaN else fp_round fp (sqrt a) | Infty s \<Rightarrow> if s then NaN else x | NaN \<Rightarrow> NaN)"

text \<open>\<open>powf\<close>: the base is not negative unless the exponent is whole.\<close>

definition is_whole :: "real \<Rightarrow> bool" where "is_whole b \<longleftrightarrow> of_int \<lfloor>b\<rfloor> = b"

fun f_pow :: "fpu \<Rightarrow> flt \<Rightarrow> flt \<Rightarrow> flt" where
  "f_pow fp (Fin a) (Fin b) =
     (if b = 0 then Fin 1
      else if a = 0 then (if 0 < b then Fin 0 else Infty False)
      else if 0 < a then fp_round fp (a powr b)
      else if \<not> is_whole b then NaN
      else fp_round fp ((if even \<lfloor>b\<rfloor> then 1 else - 1) * (- a) powr b))"
| "f_pow fp x (Fin b) =
     (if b = 0 then Fin 1
      else case x of
        Infty s \<Rightarrow> (if b < 0 then Fin 0 else Infty (s \<and> is_whole b \<and> odd \<lfloor>b\<rfloor>))
      | _ \<Rightarrow> NaN)"
| "f_pow fp (Fin a) (Infty t) =
     (if \<bar>a\<bar> = 1 then Fin 1 else if (\<bar>a\<bar> < 1) = t then Infty False else Fin 0)"
| "f_pow fp (Infty s) (Infty t) = (if t then Fin 0 else Infty False)"
| "f_pow fp NaN (Infty t) = NaN"
| "f_pow fp x NaN = (if x = Fin 1 then Fin 1 else NaN)"

text \<open>\<open>atan2f\<close>, zeros taken as positive.\<close>

definition atan2_real :: "real \<Rightarrow> real \<Rightarrow> real" where
  "atan2_real y x =
     (if 0 < x then arctan (y / x)
      else if x < 0 then (if y < 0 then arctan (y / x) - pi else arctan (y / x) + pi)
      else if 0 < y then pi / 2 else if y < 0 then - (pi / 2) else 0)"

fun f_atan2 :: "fpu \<Rightarrow> flt \<Rightarrow> flt \<Rightarrow> flt" where
  "f_atan2 fp (Fin y) (Fin x) = fp_round fp (atan2_real y x)"
| "f_atan2 fp (Infty s) (Fin x) = fp_round fp ((if s then - 1 else 1) * pi / 2)"
| "f_atan2 fp (Fin y) (Infty t) =
     (if t then fp_round fp (if y < 0 then - pi else pi) else Fin 0)"
| "f_atan2 fp (Infty s) (Infty t) = fp_round fp ((if s then - 1 else 1) * (if t then 3 * pi / 4 else pi / 4))"
| "f_atan2 fp _ _ = NaN"

end
