(* ===== verification/NutsBolts.thy ===== *)
theory NutsBolts
  imports Float32 Errors
begin

text \<open>
  Number conversion and small helpers of \<open>grbl/nuts_bolts.c\<close>: reading unsigned integers and decimal
  numbers out of a command line, printing them, trimming, capitalising, dates and counting bits. A C
  string is the list of its characters without the terminating NUL; reading at its end gives NUL.
\<close>

definition NUL :: char where "NUL = CHR 0x00"

definition cchar :: "string \<Rightarrow> nat \<Rightarrow> char" where
  "cchar s i = (if i < length s then s ! i else NUL)"

definition is_digit :: "char \<Rightarrow> bool" where
  "is_digit c \<longleftrightarrow> 48 \<le> (of_char c :: nat) \<and> (of_char c :: nat) \<le> 57"

definition digit_value :: "char \<Rightarrow> nat" where
  "digit_value c = of_char c - 48"

definition digit_char :: "nat \<Rightarrow> char" where
  "digit_char k = char_of (48 + k)"

definition CAPS :: "char \<Rightarrow> char" where
  "CAPS c = (if 97 \<le> (of_char c :: nat) \<and> (of_char c :: nat) \<le> 122 then char_of ((of_char c :: nat) - 32) else c)"

definition LCAPS :: "char \<Rightarrow> char" where
  "LCAPS c = (if 65 \<le> (of_char c :: nat) \<and> (of_char c :: nat) \<le> 90 then char_of ((of_char c :: nat) + 32) else c)"

subsection \<open>Reading numbers\<close>

text \<open>The digit loop of \<open>read_uint\<close> over the characters left; n counts those consumed.\<close>

fun uint_loop :: "string \<Rightarrow> nat \<Rightarrow> bool \<Rightarrow> bool \<Rightarrow> nat \<Rightarrow> u32 \<Rightarrow> status_code + (bool \<times> u32 \<times> nat)" where
  "uint_loop [] n isdecimal ok ndigit intval = Inr (ok, intval, n)"
| "uint_loop (c # cs) n isdecimal ok ndigit intval =
     (if is_digit c
      then
        let v = digit_value c;
            ndigit = (if \<not> isdecimal \<and> (v \<noteq> 0 \<or> intval \<noteq> 0) then Suc ndigit else ndigit)
        in if isdecimal \<and> v \<noteq> 0 then Inl Status_GcodeCommandValueNotInteger
           else uint_loop cs (Suc n) isdecimal True ndigit
                  (if (ndigit \<le> 9 \<or> v \<le> 4) \<and> intval \<le> 429496729
                   then push_bit 1 (push_bit 2 intval + intval) + of_nat v else intval)
      else if c = CHR ''.'' \<and> \<not> isdecimal then uint_loop cs (Suc n) True ok ndigit intval
      else Inr (ok, intval, n))"

definition read_uint :: "string \<Rightarrow> nat \<Rightarrow> u32 \<Rightarrow> status_code \<times> nat \<times> u32" where
  "read_uint line pos old =
     (if cchar line pos = CHR ''-'' then (Status_NegativeValue, pos, old)
      else
        let start = (if cchar line pos = CHR ''+'' then Suc pos else pos)
        in case uint_loop (drop start line) 0 False False 0 0 of
             Inl status \<Rightarrow> (status, pos, old)
           | Inr (ok, intval, n) \<Rightarrow>
               if \<not> ok then (Status_BadNumberFormat, pos, old) else (Status_OK, start + n, intval))"

definition MAX_INT_DIGITS :: nat where "MAX_INT_DIGITS = 9"

fun float_loop :: "string \<Rightarrow> nat \<Rightarrow> bool \<Rightarrow> bool \<Rightarrow> nat \<Rightarrow> u32 \<Rightarrow> int \<Rightarrow> bool \<times> u32 \<times> int \<times> nat" where
  "float_loop [] n isdecimal ok ndigit intval ex = (ok, intval, ex, n)"
| "float_loop (c # cs) n isdecimal ok ndigit intval ex =
     (if is_digit c
      then
        let v = digit_value c;
            ndigit = (if v \<noteq> 0 \<or> intval \<noteq> 0 then Suc ndigit else ndigit)
        in if ndigit \<le> MAX_INT_DIGITS
           then float_loop cs (Suc n) isdecimal True ndigit
                  (push_bit 1 (push_bit 2 intval + intval) + of_nat v) (if isdecimal then ex - 1 else ex)
           else float_loop cs (Suc n) isdecimal True ndigit intval (if isdecimal then ex else ex + 1)
      else if c = CHR ''.'' \<and> \<not> isdecimal then float_loop cs (Suc n) True ok ndigit intval ex
      else (ok, intval, ex, n))"

text \<open>Applying the decimal exponent, negative or positive.\<close>

fun scale_down :: "fpu \<Rightarrow> nat \<Rightarrow> flt \<Rightarrow> flt" where
  "scale_down fp (Suc (Suc k)) x = scale_down fp k (f_mul fp x (fp_round fp 0.01))"
| "scale_down fp (Suc 0) x = f_mul fp x (fp_round fp 0.1)"
| "scale_down fp 0 x = x"

fun scale_up :: "fpu \<Rightarrow> nat \<Rightarrow> flt \<Rightarrow> flt" where
  "scale_up fp 0 x = x"
| "scale_up fp (Suc k) x = scale_up fp k (f_mul fp x (Fin 10))"

definition read_float :: "fpu \<Rightarrow> string \<Rightarrow> nat \<Rightarrow> flt \<Rightarrow> bool \<times> nat \<times> flt" where
  "read_float fp line pos old =
     (let isnegative = (cchar line pos = CHR ''-'');
          start = (if isnegative \<or> cchar line pos = CHR ''+'' then Suc pos else pos)
      in case float_loop (drop start line) 0 False False 0 0 0 of
           (ok, intval, ex, n) \<Rightarrow>
             if \<not> ok then (False, pos, old)
             else
               let fval = f_of_int fp (uint intval);
                   fval = (if f_eq fval f_zero then fval
                           else if ex < 0 then scale_down fp (nat (- ex)) fval
                           else scale_up fp (nat ex) fval)
               in (True, start + n, if isnegative then f_neg fval else fval))"

definition isintf :: "fpu \<Rightarrow> flt \<Rightarrow> bool" where
  "isintf fp value \<longleftrightarrow> \<not> f_isnan value \<and> f_lt (f_abs (f_sub fp value (f_trunc value))) (fp_round fp 0.001)"

subsection \<open>Printing numbers\<close>

text \<open>The buffer holds \<open>STRLEN_COORDVALUE + 1\<close> bytes; writing below its start is undefined.\<close>

definition STRLEN_COORDVALUE :: nat where "STRLEN_COORDVALUE = MAX_INT_DIGITS + 4 + 1"

definition in_buf :: "string \<Rightarrow> string option" where
  "in_buf s = (if length s + 1 \<le> STRLEN_COORDVALUE + 1 then Some s else None)"

function digits_loop :: "nat \<Rightarrow> string \<Rightarrow> string" where
  "digits_loop n acc = (if n = 0 then acc else digits_loop (n div 10) (digit_char (n mod 10) # acc))"
  by auto
termination by (relation "measure fst") auto

declare digits_loop.simps [simp del]

definition uitoa :: "u32 \<Rightarrow> string option" where
  "uitoa n = in_buf (if n = 0 then [CHR ''0''] else digits_loop (unat n) [])"

fun decimals_loop :: "nat \<Rightarrow> nat \<Rightarrow> string \<Rightarrow> string" where
  "decimals_loop 0 b acc = acc"
| "decimals_loop (Suc k) b acc =
     (if b \<noteq> 0 then decimals_loop k (b div 10) (digit_char (b mod 10) # acc)
      else decimals_loop k b (CHR ''0'' # acc))"

fun scale_decimals :: "fpu \<Rightarrow> nat \<Rightarrow> flt \<Rightarrow> flt" where
  "scale_decimals fp (Suc (Suc k)) n = scale_decimals fp k (f_mul fp n (Fin 100))"
| "scale_decimals fp (Suc 0) n = f_mul fp n (Fin 10)"
| "scale_decimals fp 0 n = n"

definition MAX_PRECISION :: nat where "MAX_PRECISION = 10"

definition froundvalues :: "fpu \<Rightarrow> flt list" where
  "froundvalues fp = map (\<lambda>k. fp_round fp (5 / 10 ^ Suc k)) [0..<Suc MAX_PRECISION]"

definition ftoa :: "fpu \<Rightarrow> flt \<Rightarrow> nat \<Rightarrow> string option" where
  "ftoa fp n decimal_places =
     (if MAX_PRECISION < decimal_places then None
      else
        let isNegative = f_lt n f_zero;
            n = (if isNegative then f_neg n else n);
            n = f_add fp n (froundvalues fp ! decimal_places);
            a = unat (f_to_u32 fp n);
            frac = (if decimal_places = 0 then ''''
                    else decimals_loop decimal_places
                      (unat (f_to_u32 fp (scale_decimals fp decimal_places (f_sub fp n (f_of_int fp (int a))))) ) '''');
            s = CHR ''.'' # frac;
            s = (if a = 0 then CHR ''0'' # s else digits_loop a s)
        in in_buf (if isNegative then CHR ''-'' # s else s))"

definition trim_float :: "string \<Rightarrow> string" where
  "trim_float s =
     (if CHR ''.'' \<in> set s
      then let r = dropWhile (\<lambda>c. c = CHR ''0'') (rev s)
           in rev (case r of c # cs \<Rightarrow> if c = CHR ''.'' then cs else r | [] \<Rightarrow> r)
      else s)"

subsection \<open>Other helpers\<close>

definition strcaps :: "string \<Rightarrow> string" where
  "strcaps s = map CAPS (filter (\<lambda>c. c \<noteq> CHR '' '') s)"

partial_function (option) bit_count :: "u32 \<Rightarrow> nat \<Rightarrow> nat option" where
  "bit_count bits count =
     (if bits = 0 then Some count else bit_count (bits AND (bits - 1)) (Suc count))"

text \<open>\<open>get_datetime\<close>: the fields of the \<open>struct tm\<close>, \<open>-1\<close> while not set.\<close>

record tm =
  tm_year :: int
  tm_mon :: int
  tm_mday :: int
  tm_hour :: int
  tm_min :: int
  tm_sec :: int

definition no_tm :: tm where
  "no_tm = \<lparr>tm_year = - 1, tm_mon = - 1, tm_mday = - 1, tm_hour = - 1, tm_min = - 1, tm_sec = - 1\<rparr>"

definition mdays :: "nat list" where
  "mdays = [31, 28, 31, 30, 31, 30, 31, 31, 30, 31, 30, 31]"

definition tm_field :: "nat \<Rightarrow> char \<Rightarrow> nat \<Rightarrow> tm \<Rightarrow> tm" where
  "tm_field idx c value dt =
     (if idx = 0 \<and> c = CHR ''-'' \<and> 1970 \<le> value \<and> value \<le> 2099 then dt\<lparr>tm_year := int value - 1900\<rparr>
      else if idx = 1 \<and> c = CHR ''-'' \<and> 1 \<le> value \<and> value \<le> 12 then dt\<lparr>tm_mon := int value - 1\<rparr>
      else if idx = 2 \<and> c = CHR ''T'' \<and> 1 \<le> value \<and>
        value \<le> mdays ! (if 0 \<le> tm_mon dt then nat (tm_mon dt) else 0) +
          (if tm_mon dt = 1 \<and> tm_year dt \<noteq> 100 \<and> tm_year dt mod 4 = 0 then 1 else 0)
      then dt\<lparr>tm_mday := int value\<rparr>
      else if idx = 3 \<and> c = CHR '':'' \<and> value \<le> 23 then dt\<lparr>tm_hour := int value\<rparr>
      else if idx = 4 \<and> c = CHR '':'' \<and> value \<le> 59 then dt\<lparr>tm_min := int value\<rparr>
      else if idx = 5 \<and> (c = CHR ''Z'' \<or> c = NUL) \<and> value \<le> 59 then dt\<lparr>tm_sec := int value\<rparr>
      else dt)"

text \<open>The loop over the characters, the terminating NUL included; the value wraps at 32 bits.\<close>

fun datetime_loop :: "string \<Rightarrow> nat \<Rightarrow> u32 \<Rightarrow> tm \<Rightarrow> tm" where
  "datetime_loop [] idx value dt = tm_field idx NUL (unat value) dt"
| "datetime_loop (c # cs) idx value dt =
     (if is_digit c then datetime_loop cs idx (value * 10 + of_nat (digit_value c)) dt
      else if c \<notin> {CHR ''-'', CHR '':'', CHR ''T'', CHR ''Z''} then dt
      else datetime_loop cs (Suc idx) 0 (tm_field idx c (unat value) dt))"

definition get_datetime :: "string \<Rightarrow> tm option" where
  "get_datetime s =
     (let dt = datetime_loop s 0 0 no_tm
      in if tm_year dt < 0 \<or> tm_mon dt < 0 \<or> tm_mday dt < 0 \<or> tm_hour dt < 0 \<or> tm_min dt < 0 \<or> tm_sec dt < 0
         then None
         else if tm_year dt = 0 \<and> tm_mon dt = 0 \<and> tm_mday dt = 0 \<and> tm_hour dt = 0 \<and> tm_min dt = 0 \<and> tm_sec dt = 0
         then None else Some dt)"


subsection \<open>Digits\<close>

lemma digit_char_props:
  assumes "k < 10"
  shows "is_digit (digit_char k)" and "digit_value (digit_char k) = k"
  using assms by (simp_all add: is_digit_def digit_value_def digit_char_def)

lemma digit_chars:
  "digit_char 0 = CHR ''0''" "digit_char (Suc 0) = CHR ''1''" "digit_char 2 = CHR ''2''" "digit_char 3 = CHR ''3''"
  "digit_char 4 = CHR ''4''" "digit_char 5 = CHR ''5''" "digit_char 6 = CHR ''6''" "digit_char 7 = CHR ''7''"
  "digit_char 8 = CHR ''8''" "digit_char 9 = CHR ''9''"
  by (simp_all add: digit_char_def char_of_def bit_0)

lemma digits_loop_0 [simp]: "digits_loop 0 acc = acc"
  by (subst digits_loop.simps) simp

lemma digits_loop_step: "0 < n \<Longrightarrow> digits_loop n acc = digits_loop (n div 10) (digit_char (n mod 10) # acc)"
  by (subst digits_loop.simps) simp

lemma digits_loop_app: "digits_loop n (xs @ ys) = digits_loop n xs @ ys"
proof (induction n arbitrary: xs rule: less_induct)
  case (less n)
  show ?case
  proof (cases "n = 0")
    case False
    then have "digits_loop (n div 10) ((digit_char (n mod 10) # xs) @ ys) =
        digits_loop (n div 10) (digit_char (n mod 10) # xs) @ ys"
      by (intro less) simp
    with False show ?thesis by (simp add: digits_loop_step)
  qed simp
qed

definition dec :: "nat \<Rightarrow> string" where
  "dec n = digits_loop n []"

lemma dec_0 [simp]: "dec 0 = []"
  by (simp add: dec_def)

lemma dec_step: "0 < n \<Longrightarrow> dec n = dec (n div 10) @ [digit_char (n mod 10)]"
  using digits_loop_app [of "n div 10" "[]" "[digit_char (n mod 10)]"]
  by (simp add: dec_def digits_loop_step)

lemma dec_nonempty: "0 < n \<Longrightarrow> dec n \<noteq> []"
  by (simp add: dec_step)

lemma length_dec: "n < 10 ^ k \<Longrightarrow> length (dec n) \<le> k"
proof (induction k arbitrary: n)
  case (Suc k)
  show ?case
  proof (cases "n = 0")
    case False
    have "n div 10 < 10 ^ k" using Suc.prems by (simp add: less_mult_imp_div_less mult.commute)
    from Suc.IH [OF this] False show ?thesis by (simp add: dec_step)
  qed simp
qed simp

lemma length_dec_ge: "10 ^ k \<le> n \<Longrightarrow> k < length (dec n)"
proof (induction k arbitrary: n)
  case 0
  then show ?case by (simp add: dec_nonempty)
next
  case (Suc k)
  have "10 ^ k \<le> n div 10" using Suc.prems by (simp add: less_eq_div_iff_mult_less_eq mult.commute)
  moreover have "0 < n" using Suc.prems by (meson less_le_trans zero_less_numeral zero_less_power)
  ultimately show ?case using Suc.IH [of "n div 10"] by (simp add: dec_step)
qed

subsection \<open>Reading back what was printed\<close>

lemma times_ten: "push_bit 2 i * 2 + i * 2 = 10 * (i :: u32)"
  by (simp add: push_bit_eq_mult algebra_simps)

lemma u32_nat_simps:
  assumes "m < 2 ^ 32"
  shows "(of_nat m :: u32) = 0 \<longleftrightarrow> m = 0" and "(of_nat m :: u32) \<le> of_nat 429496729 \<longleftrightarrow> m \<le> 429496729"
  using assms by (auto simp: word_le_nat_alt unat_of_nat word_unat_eq_iff)

text \<open>One digit of the loop, in terms of natural numbers.\<close>

lemma uint_loop_digit:
  assumes d: "d < 10" and m: "m \<le> 429496729" and nz: "m \<noteq> 0 \<or> d \<noteq> 0"
  shows "uint_loop (digit_char d # cs) k False ok ndigit (of_nat m) =
    uint_loop cs (Suc k) False True (Suc ndigit)
      (of_nat (if Suc ndigit \<le> 9 \<or> d \<le> 4 then 10 * m + d else m))"
proof -
  have m32: "m < 2 ^ 32" using m by simp
  have le: "(of_nat m :: u32) \<le> 429496729" using u32_nat_simps(2) [OF m32] m by simp
  have z: "(of_nat m :: u32) \<noteq> 0 \<or> d \<noteq> 0" using u32_nat_simps(1) [OF m32] nz by simp
  show ?thesis
    using le z by (auto simp: digit_char_props [OF d] times_ten Let_def)
qed

lemma uint_loop_dec:
  assumes "0 < n" and "n < 10 ^ 9"
  shows "uint_loop (dec n @ rest) k False ok 0 0 =
    uint_loop rest (k + length (dec n)) False True (length (dec n)) (of_nat n)"
  using assms
proof (induction n arbitrary: k ok rest rule: less_induct)
  case (less n)
  let ?m = "n div 10" and ?d = "n mod 10"
  have dec_n: "dec n = dec ?m @ [digit_char ?d]" using less.prems by (simp add: dec_step)
  have len: "length (dec n) \<le> 9" using length_dec [OF less.prems(2)] .
  have m: "?m \<le> 429496729" using less.prems by simp
  show ?case
  proof (cases "?m = 0")
    case True
    then have "n < 10" by (simp add: div_eq_0_iff)
    with less.prems True dec_n show ?thesis
      using uint_loop_digit [of n 0 rest k ok 0] by simp
  next
    case False
    have "uint_loop (dec ?m @ (digit_char ?d # rest)) k False ok 0 0 =
      uint_loop (digit_char ?d # rest) (k + length (dec ?m)) False True (length (dec ?m)) (of_nat ?m)"
      using False less.prems by (intro less.IH) simp_all
    also have "\<dots> = uint_loop rest (Suc (k + length (dec ?m))) False True (Suc (length (dec ?m))) (of_nat n)"
      using False len dec_n m uint_loop_digit [of ?d ?m rest "k + length (dec ?m)" True "length (dec ?m)"] by simp
    finally show ?thesis using dec_n by simp
  qed
qed

lemma dec_hd_digit: "0 < m \<Longrightarrow> is_digit (hd (dec m))"
proof (induction m rule: less_induct)
  case (less m)
  have m: "dec m = dec (m div 10) @ [digit_char (m mod 10)]" using less.prems by (rule dec_step)
  show ?case
  proof (cases "m div 10 = 0")
    case True
    then have "dec m = [digit_char (m mod 10)]" by (simp only: m dec_0 append_Nil)
    then show ?thesis by (simp add: digit_char_props)
  next
    case False
    then have "is_digit (hd (dec (m div 10)))" using less by (intro less.IH) simp_all
    then show ?thesis using False by (simp only: m hd_append2 dec_nonempty zero_less_iff_neq_zero simp_thms)
  qed
qed

definition uint_end :: "string \<Rightarrow> bool" where
  "uint_end rest \<longleftrightarrow> (case rest of [] \<Rightarrow> True | c # cs \<Rightarrow> \<not> is_digit c \<and> c \<noteq> CHR ''.'')"

lemma uint_loop_end: "uint_end rest \<Longrightarrow> uint_loop rest k isdec ok nd v = Inr (ok, v, k)"
  by (cases rest) (auto simp: uint_end_def)

lemma uint_loop_dec32:
  assumes "0 < n" and "n < 2 ^ 32"
  shows "uint_loop (dec n @ rest) k False ok 0 0 =
    uint_loop rest (k + length (dec n)) False True (length (dec n))
      (of_nat (if n < 10 ^ 9 \<or> n mod 10 \<le> 4 then n else n div 10))"
proof (cases "n < 10 ^ 9")
  case False
  let ?m = "n div 10" and ?d = "n mod 10"
  have m: "0 < ?m" "?m < 10 ^ 9" "?m \<le> 429496729" using False assms by simp_all
  have dec_n: "dec n = dec ?m @ [digit_char ?d]" using assms by (simp add: dec_step)
  have len: "\<not> Suc (length (dec ?m)) \<le> 9" using length_dec_ge [of 9 n] False dec_n by simp
  have "uint_loop (dec n @ rest) k False ok 0 0 =
      uint_loop (digit_char ?d # rest) (k + length (dec ?m)) False True (length (dec ?m)) (of_nat ?m)"
    using uint_loop_dec [OF m(1,2), of "digit_char ?d # rest"] by (simp add: dec_n)
  also have "\<dots> = uint_loop rest (Suc (k + length (dec ?m))) False True (Suc (length (dec ?m)))
      (of_nat (if ?d \<le> 4 then n else ?m))"
    using m len uint_loop_digit [of ?d ?m rest "k + length (dec ?m)" True "length (dec ?m)"] by simp
  finally show ?thesis using False dec_n by simp
qed (simp add: uint_loop_dec [OF assms(1)])

text \<open>
  C35. Every 32-bit unsigned number of up to nine digits, and every ten-digit one whose last digit is at most
  4, is read back from its printed form, whatever follows that is neither a digit nor a point; of the
  other ten-digit numbers the last digit is silently dropped.
\<close>

theorem uint_roundtrip:
  assumes "uitoa n = Some s" and "uint_end rest"
  shows "read_uint (s @ rest) 0 old = (Status_OK, length s,
    if unat n < 10 ^ 9 \<or> unat n mod 10 \<le> 4 then n else n div 10)"
proof (cases "n = 0")
  case True
  then have s: "s = [CHR ''0'']" using assms(1) by (simp add: uitoa_def in_buf_def split: if_splits)
  have d: "is_digit (CHR ''0'')" "digit_value (CHR ''0'') = 0" by (simp_all add: is_digit_def digit_value_def)
  show ?thesis
    using d uint_loop_end [OF assms(2)] True by (simp add: s read_uint_def cchar_def times_ten)
next
  case False
  then have s: "s = dec (unat n)" using assms(1) by (simp add: uitoa_def in_buf_def dec_def split: if_splits)
  have n: "0 < unat n" "unat n < 2 ^ 32" using False by (simp_all add: unat_gt_0 unsigned_less [of n, simplified])
  have hd: "cchar (s @ rest) 0 = hd (dec (unat n))" using n by (simp add: s cchar_def dec_nonempty hd_conv_nth nth_append)
  have "\<not> is_digit (CHR ''-'')" "\<not> is_digit (CHR ''+'')" by (simp_all add: is_digit_def)
  with dec_hd_digit n hd have c: "cchar (s @ rest) 0 \<noteq> CHR ''-''" "cchar (s @ rest) 0 \<noteq> CHR ''+''" by metis+
  have v: "(of_nat (if unat n < 10 ^ 9 \<or> unat n mod 10 \<le> 4 then unat n else unat n div 10) :: u32) =
      (if unat n < 10 ^ 9 \<or> unat n mod 10 \<le> 4 then n else n div 10)"
  proof -
    have "unat n < 4294967296" "unat n div 10 < 4294967296" using n(2) by simp_all
    then show ?thesis by (simp add: word_unat_eq_iff unat_div unat_of_nat)
  qed
  show ?thesis
    using c uint_loop_dec32 [OF n, of rest 0 False] uint_loop_end [OF assms(2)] v
    by (simp add: read_uint_def s)
qed

lemma uint_roundtrip_witness:
  "read_uint ''1234567895G0'' 0 0 = (Status_OK, 10, 123456789)"
proof -
  have "uitoa 1234567895 = Some ''1234567895''"
    by (simp add: uitoa_def in_buf_def STRLEN_COORDVALUE_def MAX_INT_DIGITS_def digits_loop_step digit_chars)
  moreover have "uint_end ''G0''" by (simp add: uint_end_def is_digit_def)
  ultimately show ?thesis using uint_roundtrip [of 1234567895 "''1234567895''" "''G0''" 0] by simp
qed

text \<open>
  A decimal point with a zero after it multiplies the value: a nonzero number up to 42949672 written with
  one decimal zero is accepted and read as ten times its value.
\<close>

theorem uint_decimal_scaled:
  assumes "0 < n" and "n \<le> 42949672" and "uint_end rest"
  shows "read_uint (dec n @ ''.0'' @ rest) 0 old = (Status_OK, length (dec n) + 2, of_nat (10 * n))"
proof -
  have n: "n < 10 ^ 9" "n < 2 ^ 32" "(of_nat n :: u32) \<le> 429496729"
    using assms(2) by (simp_all add: word_le_nat_alt unat_of_nat)
  have len: "length (dec n) \<le> 9" using length_dec [OF n(1)] .
  have d: "is_digit (CHR ''0'')" "digit_value (CHR ''0'') = 0" "\<not> is_digit (CHR ''.'')"
    "\<not> is_digit (CHR ''-'')" "\<not> is_digit (CHR ''+'')"
    by (simp_all add: is_digit_def digit_value_def)
  have c: "is_digit (cchar (dec n @ ''.0'' @ rest) 0)"
    using dec_hd_digit [OF assms(1)] dec_nonempty [OF assms(1)] by (simp add: cchar_def hd_conv_nth nth_append)
  have "uint_loop (dec n @ ''.0'' @ rest) 0 False False 0 0 =
      Inr (True, of_nat (10 * n), length (dec n) + 2)"
    using uint_loop_dec [OF assms(1) n(1), of "''.0'' @ rest" 0 False] uint_loop_end [OF assms(3)] d n len
    by (simp add: times_ten Let_def)
  with c d show ?thesis by (auto simp: read_uint_def)
qed

lemma uint_decimal_scaled_witness:
  "read_uint ''12.0'' 0 0 = (Status_OK, 4, 120)"
proof -
  have "dec 12 = ''12''" by (simp add: dec_def digits_loop_step digit_chars)
  with uint_decimal_scaled [of 12 "[]" 0] show ?thesis by (simp add: uint_end_def)
qed

subsection \<open>Counting bits\<close>

text \<open>Subtracting one from a nonzero word clears its lowest set bit and sets those below.\<close>

lemma bit_pred:
  fixes w :: u32
  assumes k: "bit w k" and low: "\<And>i. i < k \<Longrightarrow> \<not> bit w i"
  shows "w AND (w - 1) = w AND NOT (push_bit k 1)"
proof -
  have k32: "k < 32" using bit_imp_le_length [OF k] by simp
  define hi where "hi = w AND NOT (mask (Suc k))"
  have w: "w = hi OR push_bit k 1"
  proof (rule bit_word_eqI)
    fix n assume "n < LENGTH(32)"
    then show "bit w n = bit (hi OR push_bit k 1) n"
      using k low [of n] by (cases "n < k"; cases "n = k") (auto simp: hi_def bit_simps)
  qed
  have "hi AND push_bit k 1 = 0"
    by (rule bit_word_eqI) (auto simp: hi_def bit_simps)
  then have plus: "w = hi + push_bit k 1" using w by (simp add: disjunctive_add_eq_or)
  have m: "push_bit k 1 - 1 = (mask k :: u32)" by (simp add: mask_eq_decr_exp push_bit_of_1)
  have "hi AND mask k = 0" by (rule bit_word_eqI) (auto simp: hi_def bit_simps)
  then have "hi + mask k = hi OR mask k" by (rule disjunctive_add_eq_or)
  then have pred: "w - 1 = hi OR mask k" using plus m by (simp add: algebra_simps)
  show ?thesis
  proof (rule bit_word_eqI)
    fix n assume n: "n < LENGTH(32)"
    show "bit (w AND (w - 1)) n = bit (w AND NOT (push_bit k 1)) n"
      unfolding pred using low [of n] k n by (cases "n < k"; cases "n = k") (auto simp: hi_def bit_simps)
  qed
qed

text \<open>
  C99. \<open>bit_count\<close> ends for every word and returns the number of its set bits.
\<close>

theorem bit_count_correct: "bit_count w c = Some (c + card {i. bit w i})"
proof (induction "card {i. bit w i}" arbitrary: w c)
  case 0
  have "finite {i. bit w i}" by (rule finite_subset [of _ "{..<32}"]) (auto dest: bit_imp_le_length)
  with 0 have "\<forall>i. \<not> bit w i" by auto
  then have "w = 0" by (auto intro: bit_word_eqI)
  moreover have "card {i. bit w i} = 0" using 0 by simp
  ultimately show ?case by (subst bit_count.simps) (simp only: if_True add_0_right simp_thms)
next
  case (Suc n)
  have fin: "finite {i. bit w i}" by (rule finite_subset [of _ "{..<32}"]) (auto dest: bit_imp_le_length)
  from Suc(2) have "{i. bit w i} \<noteq> {}" by (metis Zero_not_Suc card.empty)
  then obtain j where "bit w j" by auto
  define k where "k = (LEAST i. bit w i)"
  have k: "bit w k" "\<And>i. i < k \<Longrightarrow> \<not> bit w i"
    using LeastI [of "bit w", OF \<open>bit w j\<close>] not_less_Least by (auto simp: k_def)
  let ?v = "w AND (w - 1)"
  have p: "?v = w AND NOT (push_bit k 1)" by (rule bit_pred [OF k])
  have v: "{i. bit ?v i} = {i. bit w i} - {k}"
    unfolding p using bit_imp_le_length [of w] by (auto simp: bit_simps)
  have n: "n = card {i. bit ?v i}" using Suc(2) k fin by (simp add: v)
  from Suc(1) [OF n] have "bit_count ?v (Suc c) = Some (Suc c + n)" using n by simp
  moreover have "w \<noteq> 0" using k by auto
  ultimately show ?case using Suc(2) by (subst bit_count.simps) simp
qed

subsection \<open>Dates\<close>

text \<open>
  The 29th of February 2000 is rejected although 2000 was a leap year; the same day of 2004 is accepted.
\<close>

theorem leap_day_2000_rejected:
  "get_datetime ''2000-02-29T12:00:00Z'' = None \<and>
   get_datetime ''2004-02-29T12:00:00Z'' =
     Some \<lparr>tm_year = 104, tm_mon = 1, tm_mday = 29, tm_hour = 12, tm_min = 0, tm_sec = 0\<rparr>"
  by (simp add: get_datetime_def is_digit_def digit_value_def tm_field_def no_tm_def mdays_def NUL_def)

end
