(* ===== verification/Ngc_Machine.thy ===== *)
theory Ngc_Machine
  imports NutsBolts
begin

text \<open>
  The read-only g-code parameters of \<open>grbl/ngc_params.c\<close>: the numbered ones (\<open>ngc_ro_params\<close> with
  their getters) and the predefined named ones (\<open>ngc_named_ro_param\<close>,
  \<open>ngc_named_param_get_by_id\<close>). What the getters read of the parser state, the system state, the settings
  and the hardware is the record \<open>machine\<close> with its parts \<open>gc_modal\<close> and \<open>gc_hw\<close>; the build has three axes and no rotation.
\<close>

record gc_modal =
  g_line_number :: nat
  g_motion :: nat
  g_plane_select :: nat
  g_units_imperial :: bool
  g_distance_incremental :: bool
  g_feed_mode :: nat
  g_tool_offset_mode :: nat
  g_retract_mode :: nat
  g_rpm_mode :: nat
  g_diameter_mode :: bool
  g_spindle_on :: bool
  g_spindle_ccw :: bool
  g_mist :: bool
  g_flood :: bool
  g_spindle_rpm_disable :: bool
  g_feed_rates_disable :: bool
  g_feed_hold_disable :: bool
  g_feed_rate :: flt
  g_rpm :: flt

record gc_hw =
  g_pocket :: "nat \<Rightarrow> int"
  g_tool_pending :: nat
  g_cap_probe :: bool
  g_cap_probe2 :: bool
  g_cap_toolsetter :: bool
  g_is_triggered :: "(nat \<Rightarrow> bool) option"
  g_probe_id :: "nat option"
  g_homing_mask :: u8
  g_homed_mask :: u8
  g_single_axis_commands :: bool
  g_homing_manual :: bool
  g_n_tools :: nat
  g_free_mem :: "u32 option"

record machine =
  g_report_inches :: bool
  g_steps_per_mm :: "nat \<Rightarrow> flt"
  g_position :: "nat \<Rightarrow> int"
  g_offset :: "nat \<Rightarrow> flt" \<comment> \<open>\<open>gc_get_offset(axis, false)\<close>\<close>
  g_probe_position :: "nat \<Rightarrow> int"
  g_probe_coordsys_id :: nat
  g_probe_succeeded :: bool
  g_g5x_id :: nat
  g_g5x_offset :: "nat \<Rightarrow> flt"
  g_coord_data :: "nat \<Rightarrow> (nat \<Rightarrow> flt) option" \<comment> \<open>\<open>settings_read_coord_data\<close>\<close>
  g_scaling :: "nat \<Rightarrow> flt"
  g_var5399 :: int
  g_tool_id :: nat
  g_tool_length_offset :: "nat \<Rightarrow> flt"
  g_g92_applied :: bool
  g_g92_offset :: "nat \<Rightarrow> flt"
  g_debug_out :: bool
  g_modal :: gc_modal
  g_hw :: gc_hw

subsection \<open>Numbered parameters\<close>

definition axis_map :: "nat list" where
  "axis_map = [255, 0, 1, 2, 255, 255, 255, 255, 255, 255]"

definition convert_pos :: "fpu \<Rightarrow> machine \<Rightarrow> flt \<Rightarrow> flt" where
  "convert_pos fp g value = (if g_report_inches g then f_mul fp value (fp_round fp 25.4) else value)"

definition position_mm :: "fpu \<Rightarrow> machine \<Rightarrow> nat \<Rightarrow> flt" where
  "position_mm fp g axis = f_div fp (f_of_int fp (g_position g axis)) (g_steps_per_mm g axis)"

definition absolute_pos :: "fpu \<Rightarrow> machine \<Rightarrow> nat \<Rightarrow> flt" where
  "absolute_pos fp g a =
     (let axis = axis_map ! a
      in convert_pos fp g (if axis \<le> 9 then position_mm fp g axis else f_zero))"

definition relative_pos :: "fpu \<Rightarrow> machine \<Rightarrow> nat \<Rightarrow> flt" where
  "relative_pos fp g a =
     (let axis = axis_map ! a
      in convert_pos fp g (if axis \<le> 9 then f_sub fp (position_mm fp g axis) (g_offset g axis) else f_zero))"

definition probe_coord :: "fpu \<Rightarrow> machine \<Rightarrow> nat \<Rightarrow> flt" where
  "probe_coord fp g param =
     (let axis = axis_map ! (param mod 10);
          pos = f_div fp (f_of_int fp (g_probe_position g axis)) (g_steps_per_mm g axis);
          value = (if axis \<le> 9
                   then if g_probe_coordsys_id g = g_g5x_id g then f_sub fp pos (g_g5x_offset g axis)
                        else case g_coord_data g (g_probe_coordsys_id g) of
                               Some offset \<Rightarrow> f_sub fp pos (offset axis) | None \<Rightarrow> f_zero
                   else f_zero)
      in convert_pos fp g value)"

definition axis_value :: "(nat \<Rightarrow> flt) \<Rightarrow> nat \<Rightarrow> flt" where
  "axis_value f param = (let axis = axis_map ! (param mod 10) in if axis \<le> 9 then f axis else f_zero)"

definition scaling_factors :: "machine \<Rightarrow> nat \<Rightarrow> flt" where
  "scaling_factors g param = axis_value (g_scaling g) param"

definition tool_offset :: "machine \<Rightarrow> nat \<Rightarrow> flt" where
  "tool_offset g param = axis_value (g_tool_length_offset g) param"

definition g92_offset :: "machine \<Rightarrow> nat \<Rightarrow> flt" where
  "g92_offset g param = axis_value (g_g92_offset g) param"

definition CoordinateSystem_G59 :: nat where "CoordinateSystem_G59 = 5"
definition CoordinateSystem_G28 :: nat where "CoordinateSystem_G28 = 9"
definition CoordinateSystem_G30 :: nat where "CoordinateSystem_G30 = 10"

definition coord_data_value :: "machine \<Rightarrow> nat \<Rightarrow> nat \<Rightarrow> flt" where
  "coord_data_value g cs axis =
     (if axis \<le> 9 then case g_coord_data g cs of Some offset \<Rightarrow> offset axis | None \<Rightarrow> f_zero else f_zero)"

definition g28_home :: "machine \<Rightarrow> nat \<Rightarrow> flt" where
  "g28_home g param = coord_data_value g CoordinateSystem_G28 (axis_map ! (param mod 10))"

definition g30_home :: "machine \<Rightarrow> nat \<Rightarrow> flt" where
  "g30_home g param = coord_data_value g CoordinateSystem_G30 (axis_map ! (param mod 10))"

definition coord_system_offset :: "machine \<Rightarrow> nat \<Rightarrow> flt" where
  "coord_system_offset g param =
     (let axis = param mod 10
      in coord_data_value g ((param - 5220 - axis - (if param = 0 then 10 else 0)) div 20) (axis_map ! axis))"

definition work_position :: "fpu \<Rightarrow> machine \<Rightarrow> nat \<Rightarrow> flt" where
  "work_position fp g param = relative_pos fp g (param mod 10 + 1)"

text \<open>The table: first and last parameter number and the getter.\<close>

definition ngc_ro_params :: "fpu \<Rightarrow> machine \<Rightarrow> (nat \<times> nat \<times> (nat \<Rightarrow> flt)) list" where
  "ngc_ro_params fp g = [
     (5061, 5069, probe_coord fp g),
     (5070, 5070, \<lambda>_. f_bool (g_probe_succeeded g)),
     (5161, 5169, g28_home g),
     (5181, 5189, g30_home g),
     (5191, 5199, scaling_factors g),
     (5210, 5210, \<lambda>_. f_bool (g_g92_applied g)),
     (5211, 5219, g92_offset g),
     (5220, 5220, \<lambda>_. f_add fp (f_of_int fp (int (g_g5x_id g))) f_one),
     (5221, 5230, coord_system_offset g),
     (5241, 5250, coord_system_offset g),
     (5261, 5270, coord_system_offset g),
     (5281, 5290, coord_system_offset g),
     (5301, 5310, coord_system_offset g),
     (5321, 5330, coord_system_offset g),
     (5341, 5350, coord_system_offset g),
     (5361, 5370, coord_system_offset g),
     (5381, 5390, coord_system_offset g),
     (5399, 5399, \<lambda>_. f_of_int fp (g_var5399 g)),
     (5400, 5400, \<lambda>_. f_of_int fp (int (g_tool_id g))),
     (5401, 5409, tool_offset g),
     (5420, 5428, work_position fp g),
     (5599, 5599, \<lambda>_. f_bool (g_debug_out g))]"

text \<open>The search from the last entry down.\<close>

fun ro_scan :: "(nat \<times> nat \<times> (nat \<Rightarrow> flt)) list \<Rightarrow> nat \<Rightarrow> nat \<Rightarrow> flt option" where
  "ro_scan t 0 param = None"
| "ro_scan t (Suc n) param =
     (case t ! n of (id_min, id_max, get) \<Rightarrow>
        if id_min \<le> param \<and> param \<le> id_max then Some (get param) else ro_scan t n param)"

definition ngc_ro_param_get :: "fpu \<Rightarrow> machine \<Rightarrow> nat \<Rightarrow> flt option" where
  "ngc_ro_param_get fp g param = ro_scan (ngc_ro_params fp g) (length (ngc_ro_params fp g)) param"

definition ngc_param_is_rw :: "nat \<Rightarrow> bool" where
  "ngc_param_is_rw param \<longleftrightarrow> 0 < param \<and> param < 5061"

definition ngc_param_exists :: "nat \<Rightarrow> bool" where
  "ngc_param_exists param \<longleftrightarrow> 0 < param \<and> param \<le> 5599"

subsection \<open>Predefined named parameters\<close>

definition NGCParam_vmajor :: nat where "NGCParam_vmajor = 0"
definition NGCParam_vminor :: nat where "NGCParam_vminor = 1"
definition NGCParam_line :: nat where "NGCParam_line = 2"
definition NGCParam_motion_mode :: nat where "NGCParam_motion_mode = 3"
definition NGCParam_plane :: nat where "NGCParam_plane = 4"
definition NGCParam_ccomp :: nat where "NGCParam_ccomp = 5"
definition NGCParam_metric :: nat where "NGCParam_metric = 6"
definition NGCParam_imperial :: nat where "NGCParam_imperial = 7"
definition NGCParam_absolute :: nat where "NGCParam_absolute = 8"
definition NGCParam_incremental :: nat where "NGCParam_incremental = 9"
definition NGCParam_inverse_time :: nat where "NGCParam_inverse_time = 10"
definition NGCParam_units_per_minute :: nat where "NGCParam_units_per_minute = 11"
definition NGCParam_units_per_rev :: nat where "NGCParam_units_per_rev = 12"
definition NGCParam_coord_system :: nat where "NGCParam_coord_system = 13"
definition NGCParam_tool_offset :: nat where "NGCParam_tool_offset = 14"
definition NGCParam_retract_r_plane :: nat where "NGCParam_retract_r_plane = 15"
definition NGCParam_retract_old_z :: nat where "NGCParam_retract_old_z = 16"
definition NGCParam_spindle_rpm_mode :: nat where "NGCParam_spindle_rpm_mode = 17"
definition NGCParam_spindle_css_mode :: nat where "NGCParam_spindle_css_mode = 18"
definition NGCParam_ijk_absolute_mode :: nat where "NGCParam_ijk_absolute_mode = 19"
definition NGCParam_lathe_diameter_mode :: nat where "NGCParam_lathe_diameter_mode = 20"
definition NGCParam_lathe_radius_mode :: nat where "NGCParam_lathe_radius_mode = 21"
definition NGCParam_spindle_on :: nat where "NGCParam_spindle_on = 22"
definition NGCParam_spindle_cw :: nat where "NGCParam_spindle_cw = 23"
definition NGCParam_mist :: nat where "NGCParam_mist = 24"
definition NGCParam_flood :: nat where "NGCParam_flood = 25"
definition NGCParam_speed_override :: nat where "NGCParam_speed_override = 26"
definition NGCParam_feed_override :: nat where "NGCParam_feed_override = 27"
definition NGCParam_adaptive_feed :: nat where "NGCParam_adaptive_feed = 28"
definition NGCParam_feed_hold :: nat where "NGCParam_feed_hold = 29"
definition NGCParam_feed :: nat where "NGCParam_feed = 30"
definition NGCParam_rpm :: nat where "NGCParam_rpm = 31"
definition NGCParam_x :: nat where "NGCParam_x = 32"
definition NGCParam_y :: nat where "NGCParam_y = 33"
definition NGCParam_z :: nat where "NGCParam_z = 34"
definition NGCParam_a :: nat where "NGCParam_a = 35"
definition NGCParam_b :: nat where "NGCParam_b = 36"
definition NGCParam_c :: nat where "NGCParam_c = 37"
definition NGCParam_u :: nat where "NGCParam_u = 38"
definition NGCParam_v :: nat where "NGCParam_v = 39"
definition NGCParam_w :: nat where "NGCParam_w = 40"
definition NGCParam_abs_x :: nat where "NGCParam_abs_x = 41"
definition NGCParam_abs_y :: nat where "NGCParam_abs_y = 42"
definition NGCParam_abs_z :: nat where "NGCParam_abs_z = 43"
definition NGCParam_abs_a :: nat where "NGCParam_abs_a = 44"
definition NGCParam_abs_b :: nat where "NGCParam_abs_b = 45"
definition NGCParam_abs_c :: nat where "NGCParam_abs_c = 46"
definition NGCParam_abs_u :: nat where "NGCParam_abs_u = 47"
definition NGCParam_abs_v :: nat where "NGCParam_abs_v = 48"
definition NGCParam_abs_w :: nat where "NGCParam_abs_w = 49"
definition NGCParam_current_tool :: nat where "NGCParam_current_tool = 50"
definition NGCParam_current_pocket :: nat where "NGCParam_current_pocket = 51"
definition NGCParam_selected_tool :: nat where "NGCParam_selected_tool = 52"
definition NGCParam_selected_pocket :: nat where "NGCParam_selected_pocket = 53"
definition NGCParam_call_level :: nat where "NGCParam_call_level = 54"
definition NGCParam_probe_state :: nat where "NGCParam_probe_state = 55"
definition NGCParam_probe2_state :: nat where "NGCParam_probe2_state = 56"
definition NGCParam_toolsetter_state :: nat where "NGCParam_toolsetter_state = 57"
definition NGCParam_active_probe :: nat where "NGCParam_active_probe = 58"
definition NGCParam_homed_state :: nat where "NGCParam_homed_state = 59"
definition NGCParam_homed_axes :: nat where "NGCParam_homed_axes = 60"
definition NGCParam_tool_table_size :: nat where "NGCParam_tool_table_size = 61"
definition NGCParam_free_memory :: nat where "NGCParam_free_memory = 62"

lemmas ngc_param_ids =
  NGCParam_vmajor_def NGCParam_vminor_def NGCParam_line_def NGCParam_motion_mode_def
  NGCParam_plane_def NGCParam_ccomp_def NGCParam_metric_def NGCParam_imperial_def
  NGCParam_absolute_def NGCParam_incremental_def NGCParam_inverse_time_def NGCParam_units_per_minute_def
  NGCParam_units_per_rev_def NGCParam_coord_system_def NGCParam_tool_offset_def NGCParam_retract_r_plane_def
  NGCParam_retract_old_z_def NGCParam_spindle_rpm_mode_def NGCParam_spindle_css_mode_def NGCParam_ijk_absolute_mode_def
  NGCParam_lathe_diameter_mode_def NGCParam_lathe_radius_mode_def NGCParam_spindle_on_def NGCParam_spindle_cw_def
  NGCParam_mist_def NGCParam_flood_def NGCParam_speed_override_def NGCParam_feed_override_def
  NGCParam_adaptive_feed_def NGCParam_feed_hold_def NGCParam_feed_def NGCParam_rpm_def
  NGCParam_x_def NGCParam_y_def NGCParam_z_def NGCParam_a_def
  NGCParam_b_def NGCParam_c_def NGCParam_u_def NGCParam_v_def
  NGCParam_w_def NGCParam_abs_x_def NGCParam_abs_y_def NGCParam_abs_z_def
  NGCParam_abs_a_def NGCParam_abs_b_def NGCParam_abs_c_def NGCParam_abs_u_def
  NGCParam_abs_v_def NGCParam_abs_w_def NGCParam_current_tool_def NGCParam_current_pocket_def
  NGCParam_selected_tool_def NGCParam_selected_pocket_def NGCParam_call_level_def NGCParam_probe_state_def
  NGCParam_probe2_state_def NGCParam_toolsetter_state_def NGCParam_active_probe_def NGCParam_homed_state_def
  NGCParam_homed_axes_def NGCParam_tool_table_size_def NGCParam_free_memory_def

definition ngc_named_ro_param :: "(string \<times> nat) list" where
  "ngc_named_ro_param = [
     (''_vmajor'', NGCParam_vmajor),
     (''_vminor'', NGCParam_vminor),
     (''_line'', NGCParam_line),
     (''_motion_mode'', NGCParam_motion_mode),
     (''_plane'', NGCParam_plane),
     (''_ccomp'', NGCParam_ccomp),
     (''_metric'', NGCParam_metric),
     (''_imperial'', NGCParam_imperial),
     (''_absolute'', NGCParam_absolute),
     (''_incremental'', NGCParam_incremental),
     (''_inverse_time'', NGCParam_inverse_time),
     (''_units_per_minute'', NGCParam_units_per_minute),
     (''_units_per_rev'', NGCParam_units_per_rev),
     (''_coord_system'', NGCParam_coord_system),
     (''_tool_offset'', NGCParam_tool_offset),
     (''_retract_r_plane'', NGCParam_retract_r_plane),
     (''_retract_old_z'', NGCParam_retract_old_z),
     (''_spindle_rpm_mode'', NGCParam_spindle_rpm_mode),
     (''_spindle_css_mode'', NGCParam_spindle_css_mode),
     (''_ijk_absolute_mode'', NGCParam_ijk_absolute_mode),
     (''_lathe_diameter_mode'', NGCParam_lathe_diameter_mode),
     (''_lathe_radius_mode'', NGCParam_lathe_radius_mode),
     (''_spindle_on'', NGCParam_spindle_on),
     (''_spindle_cw'', NGCParam_spindle_cw),
     (''_mist'', NGCParam_mist),
     (''_flood'', NGCParam_flood),
     (''_speed_override'', NGCParam_speed_override),
     (''_feed_override'', NGCParam_feed_override),
     (''_adaptive_feed'', NGCParam_adaptive_feed),
     (''_feed_hold'', NGCParam_feed_hold),
     (''_feed'', NGCParam_feed),
     (''_rpm'', NGCParam_rpm),
     (''_x'', NGCParam_x),
     (''_y'', NGCParam_y),
     (''_z'', NGCParam_z),
     (''_a'', NGCParam_a),
     (''_b'', NGCParam_b),
     (''_c'', NGCParam_c),
     (''_u'', NGCParam_u),
     (''_v'', NGCParam_v),
     (''_w'', NGCParam_w),
     (''_abs_x'', NGCParam_abs_x),
     (''_abs_y'', NGCParam_abs_y),
     (''_abs_z'', NGCParam_abs_z),
     (''_abs_a'', NGCParam_abs_a),
     (''_abs_b'', NGCParam_abs_b),
     (''_abs_c'', NGCParam_abs_c),
     (''_abs_u'', NGCParam_abs_u),
     (''_abs_v'', NGCParam_abs_v),
     (''_abs_w'', NGCParam_abs_w),
     (''_current_tool'', NGCParam_current_tool),
     (''_current_pocket'', NGCParam_current_pocket),
     (''_selected_tool'', NGCParam_selected_tool),
     (''_selected_pocket'', NGCParam_selected_pocket),
     (''_call_level'', NGCParam_call_level),
     (''_probe_state'', NGCParam_probe_state),
     (''_probe2_state'', NGCParam_probe2_state),
     (''_toolsetter_state'', NGCParam_toolsetter_state),
     (''_active_probe'', NGCParam_active_probe),
     (''_homed_state'', NGCParam_homed_state),
     (''_homed_axes'', NGCParam_homed_axes),
     (''_tool_table_size'', NGCParam_tool_table_size),
     (''_free_memory'', NGCParam_free_memory)]"

definition FeedMode_UnitsPerMin :: nat where "FeedMode_UnitsPerMin = 0"
definition FeedMode_InverseTime :: nat where "FeedMode_InverseTime = 1"
definition FeedMode_UnitsPerRev :: nat where "FeedMode_UnitsPerRev = 2"
definition ToolLengthOffset_Enable :: nat where "ToolLengthOffset_Enable = 1"
definition CCRetractMode_Previous :: nat where "CCRetractMode_Previous = 0"
definition CCRetractMode_RPos :: nat where "CCRetractMode_RPos = 1"
definition SpindleSpeedMode_RPM :: nat where "SpindleSpeedMode_RPM = 0"
definition SpindleSpeedMode_CSS :: nat where "SpindleSpeedMode_CSS = 1"
definition GRBL_BUILD :: int where "GRBL_BUILD = 20260803"

definition probe_input :: "fpu \<Rightarrow> machine \<Rightarrow> bool \<Rightarrow> nat \<Rightarrow> flt" where
  "probe_input fp g cap probe =
     (case g_is_triggered (g_hw g) of
        Some f \<Rightarrow> if cap then f_bool (f probe) else Fin (- 1)
      | None \<Rightarrow> Fin (- 1))"

definition homed_state :: "machine \<Rightarrow> flt" where
  "homed_state g =
     (if g_homing_mask (g_hw g) \<noteq> 0 \<or> g_single_axis_commands (g_hw g) \<or> g_homing_manual (g_hw g)
      then let homing = (if g_homing_mask (g_hw g) \<noteq> 0 then g_homing_mask (g_hw g) else 7)
           in f_bool (homing AND g_homed_mask (g_hw g) = homing)
      else f_zero)"

definition f_nat :: "fpu \<Rightarrow> nat \<Rightarrow> flt" where
  "f_nat fp n = f_of_int fp (int n)"

text \<open>The second argument is the current call level.\<close>

definition ngc_named_param_get_by_id :: "fpu \<Rightarrow> nat \<Rightarrow> machine \<Rightarrow> nat \<Rightarrow> flt" where
  "ngc_named_param_get_by_id fp level g param =
     (if param = NGCParam_vmajor then fp_round fp 1.1
      else if param = NGCParam_vminor then f_of_int fp (GRBL_BUILD - 20000000)
      else if param = NGCParam_line then f_nat fp (g_line_number (g_modal g))
      else if param = NGCParam_motion_mode then f_nat fp (g_motion (g_modal g) * 10)
      else if param = NGCParam_plane then f_nat fp (170 + g_plane_select (g_modal g) * 10)
      else if param = NGCParam_ccomp then Fin 400
      else if param = NGCParam_metric then f_bool (\<not> g_units_imperial (g_modal g))
      else if param = NGCParam_imperial then f_bool (g_units_imperial (g_modal g))
      else if param = NGCParam_absolute then f_bool (\<not> g_distance_incremental (g_modal g))
      else if param = NGCParam_incremental then f_bool (g_distance_incremental (g_modal g))
      else if param = NGCParam_inverse_time then f_bool (g_feed_mode (g_modal g) = FeedMode_InverseTime)
      else if param = NGCParam_units_per_minute then f_bool (g_feed_mode (g_modal g) = FeedMode_UnitsPerMin)
      else if param = NGCParam_units_per_rev then f_bool (g_feed_mode (g_modal g) = FeedMode_UnitsPerRev)
      else if param = NGCParam_coord_system then
          (let i = g_g5x_id g * 10;
               i = (if CoordinateSystem_G59 * 10 < i
                    then CoordinateSystem_G59 * 10 + g_g5x_id g - CoordinateSystem_G59 else i)
           in f_nat fp (540 + i))
      else if param = NGCParam_tool_offset then f_bool (ToolLengthOffset_Enable \<le> g_tool_offset_mode (g_modal g))
      else if param = NGCParam_retract_r_plane then f_bool (g_retract_mode (g_modal g) = CCRetractMode_Previous)
      else if param = NGCParam_retract_old_z then f_bool (g_retract_mode (g_modal g) = CCRetractMode_RPos)
      else if param = NGCParam_spindle_rpm_mode then f_bool (g_rpm_mode (g_modal g) = SpindleSpeedMode_RPM)
      else if param = NGCParam_spindle_css_mode then f_bool (g_rpm_mode (g_modal g) = SpindleSpeedMode_CSS)
      else if param = NGCParam_ijk_absolute_mode then f_zero
      else if param = NGCParam_lathe_diameter_mode then f_bool (g_diameter_mode (g_modal g))
      else if param = NGCParam_lathe_radius_mode then f_bool (\<not> g_diameter_mode (g_modal g))
      else if param = NGCParam_spindle_on then f_bool (g_spindle_on (g_modal g))
      else if param = NGCParam_spindle_cw then f_bool (g_spindle_ccw (g_modal g))
      else if param = NGCParam_mist then f_bool (g_mist (g_modal g))
      else if param = NGCParam_flood then f_bool (g_flood (g_modal g))
      else if param = NGCParam_speed_override then f_bool (\<not> g_spindle_rpm_disable (g_modal g))
      else if param = NGCParam_feed_override then f_bool (\<not> g_feed_rates_disable (g_modal g))
      else if param = NGCParam_adaptive_feed then f_zero
      else if param = NGCParam_feed_hold then f_bool (\<not> g_feed_hold_disable (g_modal g))
      else if param = NGCParam_feed then g_feed_rate (g_modal g)
      else if param = NGCParam_rpm then g_rpm (g_modal g)
      else if param = NGCParam_x then relative_pos fp g 1
      else if param = NGCParam_y then relative_pos fp g 2
      else if param = NGCParam_z then relative_pos fp g 3
      else if param = NGCParam_a then relative_pos fp g 4
      else if param = NGCParam_b then relative_pos fp g 5
      else if param = NGCParam_c then relative_pos fp g 6
      else if param = NGCParam_u then relative_pos fp g 7
      else if param = NGCParam_v then relative_pos fp g 8
      else if param = NGCParam_w then relative_pos fp g 9
      else if param = NGCParam_abs_x then absolute_pos fp g 1
      else if param = NGCParam_abs_y then absolute_pos fp g 2
      else if param = NGCParam_abs_z then absolute_pos fp g 3
      else if param = NGCParam_abs_a then absolute_pos fp g 4
      else if param = NGCParam_abs_b then absolute_pos fp g 5
      else if param = NGCParam_abs_c then absolute_pos fp g 6
      else if param = NGCParam_abs_u then absolute_pos fp g 7
      else if param = NGCParam_abs_v then absolute_pos fp g 8
      else if param = NGCParam_abs_w then absolute_pos fp g 9
      else if param = NGCParam_current_tool then f_nat fp (g_tool_id g)
      else if param = NGCParam_current_pocket then f_of_int fp (g_pocket (g_hw g) (g_tool_id g))
      else if param = NGCParam_selected_tool then
          (if g_tool_pending (g_hw g) \<noteq> g_tool_id g then f_nat fp (g_tool_pending (g_hw g)) else Fin (- 1))
      else if param = NGCParam_selected_pocket then
          (if g_tool_pending (g_hw g) \<noteq> g_tool_id g then f_of_int fp (g_pocket (g_hw g) (g_tool_pending (g_hw g))) else Fin (- 1))
      else if param = NGCParam_call_level then f_nat fp level
      else if param = NGCParam_probe_state then probe_input fp g (g_cap_probe (g_hw g)) 0
      else if param = NGCParam_probe2_state then probe_input fp g (g_cap_probe2 (g_hw g)) 2
      else if param = NGCParam_toolsetter_state then probe_input fp g (g_cap_toolsetter (g_hw g)) 1
      else if param = NGCParam_active_probe then (case g_probe_id (g_hw g) of Some p \<Rightarrow> f_nat fp p | None \<Rightarrow> Fin (- 1))
      else if param = NGCParam_homed_state then homed_state g
      else if param = NGCParam_homed_axes then f_nat fp (unat (g_homed_mask (g_hw g)))
      else if param = NGCParam_tool_table_size then f_nat fp (g_n_tools (g_hw g))
      else if param = NGCParam_free_memory then
          (case g_free_mem (g_hw g) of Some m \<Rightarrow> f_div fp (f_nat fp (unat m)) (Fin 1024) | None \<Rightarrow> Fin (- 1))
      else NaN)"

text \<open>The search of the table from its last entry down.\<close>

fun named_ro_scan :: "(string \<times> nat) list \<Rightarrow> nat \<Rightarrow> string \<Rightarrow> nat option" where
  "named_ro_scan t 0 name = None"
| "named_ro_scan t (Suc n) name = (if fst (t ! n) = name then Some (snd (t ! n)) else named_ro_scan t n name)"

definition named_ro_find :: "string \<Rightarrow> nat option" where
  "named_ro_find name = named_ro_scan ngc_named_ro_param (length ngc_named_ro_param) name"

end
