(* ===== verification/Ngc_Params.thy ===== *)
theory Ngc_Params
  imports Ngc_Machine
begin

text \<open>
  The g-code parameters that programs can set (\<open>grbl/ngc_params.c\<close>): numbered parameters 1 to 5060, of
  which 1 to 30 are local to a call level, named parameters, of which those not starting with an
  underscore are local, string parameters, the call levels and the saved modal states. A linked list is
  the list of its nodes; a context, the address of a call's stack entry, is a number, \<open>None\<close> the null
  pointer. The flag \<open>mem\<close> says whether an allocation succeeds. \<open>None\<close> as a result is a write past the
  end of a buffer.
\<close>

type_synonym ctx = "nat option"
type_synonym 'k store = "(ctx \<times> 'k \<times> flt) list"

definition NGC_MAX_CALL_LEVEL :: nat where "NGC_MAX_CALL_LEVEL = 10"
definition NGC_MAX_PARAM_LENGTH :: nat where "NGC_MAX_PARAM_LENGTH = 30"
definition NGC_MAX_PARAM_ID :: nat where "NGC_MAX_PARAM_ID = 65535"

record string_param =
  sp_id :: u32
  sp_len :: nat
  sp_value :: string

record 'm ngc_params =
  np_call_level :: int
  np_context :: ctx
  np_levels :: "(ctx \<times> 'm option) list"
  np_modal :: "'m option"
  np_rw :: "nat store"
  np_named :: "string store"
  np_strings :: "string_param list"
  np_ref_id :: u32

definition ngc_params_start :: "'m ngc_params" where
  "ngc_params_start = \<lparr>np_call_level = - 1, np_context = None,
     np_levels = replicate NGC_MAX_CALL_LEVEL (None, None), np_modal = None, np_rw = [], np_named = [],
     np_strings = [], np_ref_id = - 1\<rparr>"

subsection \<open>Search, update and removal in the parameter lists\<close>

fun store_find :: "ctx \<Rightarrow> 'k \<Rightarrow> 'k store \<Rightarrow> flt option" where
  "store_find c k [] = None"
| "store_find c k ((c', k', v) # ps) = (if c' = c \<and> k' = k then Some v else store_find c k ps)"

fun store_replace :: "ctx \<Rightarrow> 'k \<Rightarrow> flt \<Rightarrow> 'k store \<Rightarrow> 'k store" where
  "store_replace c k v [] = []"
| "store_replace c k v ((c', k', v') # ps) =
     (if c' = c \<and> k' = k then (c', k', v) # ps else (c', k', v') # store_replace c k v ps)"

definition store_drop :: "ctx \<Rightarrow> 'k store \<Rightarrow> 'k store" where
  "store_drop c ps = filter (\<lambda>(c', _). c' \<noteq> c) ps"

text \<open>Setting: a numbered parameter that is not in the list is added unless its value is zero, which is
  what a missing parameter reads as; a named one is always added.\<close>

definition store_value :: "ctx \<Rightarrow> 'k \<Rightarrow> 'k store \<Rightarrow> flt" where
  "store_value c k ps = (case store_find c k ps of Some v \<Rightarrow> v | None \<Rightarrow> f_zero)"

definition rw_put :: "bool \<Rightarrow> ctx \<Rightarrow> nat \<Rightarrow> flt \<Rightarrow> nat store \<Rightarrow> bool \<times> nat store" where
  "rw_put mem c k v ps =
     (case store_find c k ps of
        Some _ \<Rightarrow> (True, store_replace c k v ps)
      | None \<Rightarrow> if \<not> f_eq v f_zero \<and> mem then (True, ps @ [(c, k, v)]) else (f_eq v f_zero, ps))"

definition named_put :: "bool \<Rightarrow> ctx \<Rightarrow> string \<Rightarrow> flt \<Rightarrow> string store \<Rightarrow> bool \<times> string store" where
  "named_put mem c k v ps =
     (case store_find c k ps of
        Some _ \<Rightarrow> (True, store_replace c k v ps)
      | None \<Rightarrow> if mem then (True, ps @ [(c, k, v)]) else (False, ps))"

subsection \<open>Numbered parameters\<close>

definition local_context :: "'m ngc_params \<Rightarrow> nat \<Rightarrow> ctx" where
  "local_context s param = (if 30 < param then None else np_context s)"

definition ngc_param_get :: "fpu \<Rightarrow> machine \<Rightarrow> 'm ngc_params \<Rightarrow> nat \<Rightarrow> bool \<times> flt" where
  "ngc_param_get fp g s param =
     (if ngc_param_is_rw param
      then (True, store_value (local_context s param) param (np_rw s))
      else case ngc_ro_param_get fp g param of Some v \<Rightarrow> (True, v) | None \<Rightarrow> (False, f_zero))"

definition ngc_param_set :: "bool \<Rightarrow> nat \<Rightarrow> flt \<Rightarrow> 'm ngc_params \<Rightarrow> bool \<times> 'm ngc_params" where
  "ngc_param_set mem param value s =
     (if \<not> ngc_param_is_rw param then (False, s)
      else let (ok, ps) = rw_put mem (local_context s param) param value (np_rw s)
           in (ok, s\<lparr>np_rw := ps\<rparr>))"

subsection \<open>Named parameters\<close>

text \<open>Lowercase the name and drop control characters and spaces; the buffer has
  \<open>NGC_MAX_PARAM_LENGTH + 1\<close> bytes, the loop copies up to as many characters.\<close>

definition name_chars :: "string \<Rightarrow> string" where
  "name_chars s = take (NGC_MAX_PARAM_LENGTH + 1) (map LCAPS (filter (\<lambda>c. 32 < (of_char c :: nat)) s))"

definition ngc_name_tolower :: "string \<Rightarrow> string option" where
  "ngc_name_tolower s =
     (if length (name_chars s) \<le> NGC_MAX_PARAM_LENGTH then Some (name_chars s) else None)"

definition no_name :: "string \<Rightarrow> bool" where
  "no_name name \<longleftrightarrow> name = '''' \<or> name = ''_''"

definition is_global :: "string \<Rightarrow> bool" where
  "is_global name \<longleftrightarrow> cchar name 0 = CHR ''_''"

definition named_context :: "'m ngc_params \<Rightarrow> string \<Rightarrow> ctx" where
  "named_context s name = (if is_global name then None else np_context s)"

definition ngc_call_level :: "'m ngc_params \<Rightarrow> nat" where
  "ngc_call_level s = nat (np_call_level s + 1)"

definition ngc_named_param_get ::
  "fpu \<Rightarrow> machine \<Rightarrow> 'm ngc_params \<Rightarrow> string \<Rightarrow> flt \<Rightarrow> (bool \<times> flt) option" where
  "ngc_named_param_get fp g s name old =
     (case ngc_name_tolower name of None \<Rightarrow> None
      | Some name \<Rightarrow> Some
          (if no_name name then (False, old)
           else case (if is_global name then named_ro_find name else None) of
                  Some i \<Rightarrow> (True, ngc_named_param_get_by_id fp (ngc_call_level s) g i)
                | None \<Rightarrow>
                    (case store_find (named_context s name) name (np_named s) of
                       Some v \<Rightarrow> (True, v) | None \<Rightarrow> (False, f_zero))))"

definition ngc_named_param_exists :: "fpu \<Rightarrow> machine \<Rightarrow> 'm ngc_params \<Rightarrow> string \<Rightarrow> bool option" where
  "ngc_named_param_exists fp g s name = map_option fst (ngc_named_param_get fp g s name f_zero)"

definition ngc_named_param_set :: "bool \<Rightarrow> string \<Rightarrow> flt \<Rightarrow> 'm ngc_params \<Rightarrow> (bool \<times> 'm ngc_params) option" where
  "ngc_named_param_set mem name value s =
     (case ngc_name_tolower name of None \<Rightarrow> None
      | Some name \<Rightarrow> Some
          (if no_name name then (False, s)
           else if is_global name \<and> named_ro_find name \<noteq> None then (True, s)
           else let (ok, ps) = named_put mem (named_context s name) name value (np_named s)
                in (ok, s\<lparr>np_named := ps\<rparr>)))"

subsection \<open>String parameters\<close>

fun sp_get_by_name :: "string \<Rightarrow> string_param list \<Rightarrow> string_param option" where
  "sp_get_by_name name [] = None"
| "sp_get_by_name name (sp # sps) =
     (if NGC_MAX_PARAM_ID < unat (sp_id sp) \<and> sp_value sp = name then Some sp else sp_get_by_name name sps)"

fun sp_find :: "u32 \<Rightarrow> string_param list \<Rightarrow> string_param option" where
  "sp_find i [] = None"
| "sp_find i (sp # sps) = (if sp_id sp = i then Some sp else sp_find i sps)"

fun sp_delete :: "u32 \<Rightarrow> string_param list \<Rightarrow> string_param list" where
  "sp_delete i [] = []"
| "sp_delete i (sp # sps) = (if sp_id sp = i then sps else sp # sp_delete i sps)"

fun sp_replace :: "string_param \<Rightarrow> string_param list \<Rightarrow> string_param list" where
  "sp_replace new [] = []"
| "sp_replace new (sp # sps) = (if sp_id sp = sp_id new then new # sps else sp # sp_replace new sps)"

definition sp_set :: "bool \<Rightarrow> u32 \<Rightarrow> string \<Rightarrow> string_param list \<Rightarrow> bool \<times> string_param list" where
  "sp_set mem i value sps =
     (let len = length value
      in case sp_find i sps of
           None \<Rightarrow>
             if len \<le> 255 \<and> mem
             then (True, sps @ [\<lparr>sp_id = i, sp_len = len, sp_value = value\<rparr>]) else (False, sps)
         | Some sp \<Rightarrow>
             if 255 < len then (False, sp_delete i sps)
             else if len \<le> sp_len sp then (True, sp_replace (sp\<lparr>sp_value := value\<rparr>) sps)
             else if mem then (True, sp_replace (sp\<lparr>sp_len := len, sp_value := value\<rparr>) sps)
             else (False, sp_delete i sps))"

definition ngc_string_param_get :: "u32 \<Rightarrow> 'm ngc_params \<Rightarrow> string option" where
  "ngc_string_param_get i s = map_option sp_value (sp_find i (np_strings s))"

definition ngc_string_param_exists :: "u32 \<Rightarrow> 'm ngc_params \<Rightarrow> bool" where
  "ngc_string_param_exists i s \<longleftrightarrow> ngc_string_param_get i s \<noteq> None"

definition ngc_string_param_set :: "bool \<Rightarrow> u16 \<Rightarrow> string \<Rightarrow> 'm ngc_params \<Rightarrow> bool \<times> 'm ngc_params" where
  "ngc_string_param_set mem i value s =
     (if i = 0 then (False, s)
      else let (ok, sps) = sp_set mem (ucast i) value (np_strings s) in (ok, s\<lparr>np_strings := sps\<rparr>))"

definition ngc_string_param_set_name :: "bool \<Rightarrow> string \<Rightarrow> 'm ngc_params \<Rightarrow> u32 \<times> 'm ngc_params" where
  "ngc_string_param_set_name mem name s =
     (if name = '''' then (0, s)
      else case sp_get_by_name name (np_strings s) of
             Some sp \<Rightarrow> (sp_id sp, s)
           | None \<Rightarrow>
               let ref = np_ref_id s - 1;
                   (ok, sps) = sp_set mem ref name (np_strings s)
               in (if ok then ref else 0, s\<lparr>np_ref_id := ref, np_strings := sps\<rparr>))"

definition ngc_string_param_delete :: "u32 \<Rightarrow> 'm ngc_params \<Rightarrow> 'm ngc_params" where
  "ngc_string_param_delete i s = s\<lparr>np_strings := sp_delete i (np_strings s)\<rparr>"

subsection \<open>Saved modal states and call levels\<close>

definition ngc_modal_state_get :: "'m ngc_params \<Rightarrow> 'm option" where
  "ngc_modal_state_get s =
     (if np_call_level s = - 1 then np_modal s else snd (np_levels s ! nat (np_call_level s)))"

definition set_modal :: "'m option \<Rightarrow> 'm ngc_params \<Rightarrow> 'm ngc_params" where
  "set_modal m s =
     (if np_call_level s = - 1 then s\<lparr>np_modal := m\<rparr>
      else let l = nat (np_call_level s)
           in s\<lparr>np_levels := (np_levels s)[l := (fst (np_levels s ! l), m)]\<rparr>)"

definition ngc_modal_state_save :: "bool \<Rightarrow> 'm \<Rightarrow> 'm ngc_params \<Rightarrow> bool \<times> 'm ngc_params" where
  "ngc_modal_state_save mem snapshot s =
     (if ngc_modal_state_get s \<noteq> None \<or> mem then (True, set_modal (Some snapshot) s) else (False, s))"

definition ngc_modal_state_invalidate :: "'m ngc_params \<Rightarrow> 'm ngc_params" where
  "ngc_modal_state_invalidate s = (if ngc_modal_state_get s \<noteq> None then set_modal None s else s)"

definition ngc_call_push :: "nat \<Rightarrow> 'm ngc_params \<Rightarrow> bool \<times> 'm ngc_params" where
  "ngc_call_push c s =
     (if np_call_level s < int NGC_MAX_CALL_LEVEL - 1
      then
        let l = np_call_level s + 1
        in (True, s\<lparr>np_call_level := l, np_context := Some c,
                    np_levels := (np_levels s)[nat l := (Some c, snd (np_levels s ! nat l))]\<rparr>)
      else (False, s))"

text \<open>Leaving a call level: its local parameters are freed, a modal state saved with auto restore is
  handed back (second component), and the caller's context is current again.\<close>

definition ngc_call_pop :: "('m \<Rightarrow> bool) \<Rightarrow> 'm ngc_params \<Rightarrow> bool \<times> 'm option \<times> 'm ngc_params" where
  "ngc_call_pop auto_restore s =
     (if np_call_level s < 0 then (False, None, s)
      else
        let l = nat (np_call_level s);
            s = (if np_context s \<noteq> None
                 then s\<lparr>np_rw := store_drop (np_context s) (np_rw s),
                        np_named := store_drop (np_context s) (np_named s)\<rparr>
                 else s);
            saved = snd (np_levels s ! l);
            restored = (case saved of Some m \<Rightarrow> if auto_restore m then Some m else None | None \<Rightarrow> None);
            s = s\<lparr>np_levels := (np_levels s)[l := (fst (np_levels s ! l), None)],
                  np_call_level := np_call_level s - 1\<rparr>;
            s = s\<lparr>np_context := (if 0 \<le> np_call_level s then fst (np_levels s ! nat (np_call_level s)) else None)\<rparr>
        in (0 \<le> np_call_level s, restored, s))"

definition ngc_params_init :: "'m ngc_params \<Rightarrow> 'm ngc_params" where
  "ngc_params_init s = ngc_modal_state_invalidate s"


subsection \<open>The contract of a store with contexts\<close>

text \<open>
  What the call levels rely on: a successful put reads back, a put changes nothing else, and
  dropping a context makes all its entries read as zero and nothing else. Writing any number of
  entries of one context and then dropping it therefore leaves every other context as it was.
\<close>

locale ctx_store =
  fixes find :: "ctx \<Rightarrow> 'k \<Rightarrow> 's \<Rightarrow> flt option"
    and put :: "bool \<Rightarrow> ctx \<Rightarrow> 'k \<Rightarrow> flt \<Rightarrow> 's \<Rightarrow> bool \<times> 's"
    and drp :: "ctx \<Rightarrow> 's \<Rightarrow> 's"
  assumes put_same: "fst (put mem c k v m) \<Longrightarrow>
      (case find c k (snd (put mem c k v m)) of Some x \<Rightarrow> x | None \<Rightarrow> f_zero) = v"
    and put_other: "c' \<noteq> c \<or> k' \<noteq> k \<Longrightarrow> find c' k' (snd (put mem c k v m)) = find c' k' m"
    and drp_find: "find c' k (drp c m) = (if c' = c then None else find c' k m)"
begin

lemma puts_other:
  "c' \<noteq> c \<Longrightarrow> find c' k' (foldl (\<lambda>m (mem, k, v). snd (put mem c k v m)) m ws) = find c' k' m"
  by (induction ws arbitrary: m) (auto simp: put_other)

lemma puts_dropped:
  "find c' k (drp c (foldl (\<lambda>m (mem, k, v). snd (put mem c k v m)) m ws)) =
     (if c' = c then None else find c' k m)"
  by (simp add: drp_find puts_other)

end

lemma store_find_replace:
  "store_find c' k' (store_replace c k v ps) =
     (if c' = c \<and> k' = k \<and> store_find c k ps \<noteq> None then Some v else store_find c' k' ps)"
  by (induction ps) (auto split: if_splits)

lemma store_find_append:
  "store_find c k (ps @ qs) = (case store_find c k ps of Some v \<Rightarrow> Some v | None \<Rightarrow> store_find c k qs)"
  by (induction ps) auto

lemma store_find_drop: "store_find c' k (store_drop c ps) = (if c' = c then None else store_find c' k ps)"
  by (induction ps) (auto simp: store_drop_def)

interpretation rw: ctx_store store_find rw_put store_drop
  by unfold_locales
     (auto simp: rw_put_def store_find_replace store_find_append store_find_drop f_eq_def
       split: option.splits)

interpretation named: ctx_store store_find named_put store_drop
  by unfold_locales
     (auto simp: named_put_def store_find_replace store_find_append store_find_drop
       split: option.splits)

subsection \<open>Well-formed states\<close>

text \<open>The call level is the index of the current entry of the call level array, -1 outside of calls, and
  the current context is that entry's.\<close>

definition params_ok :: "'m ngc_params \<Rightarrow> bool" where
  "params_ok s \<longleftrightarrow>
     - 1 \<le> np_call_level s \<and> np_call_level s < int NGC_MAX_CALL_LEVEL \<and>
     length (np_levels s) = NGC_MAX_CALL_LEVEL \<and>
     np_context s = (if 0 \<le> np_call_level s then fst (np_levels s ! nat (np_call_level s)) else None) \<and>
     (\<forall>l \<le> nat (np_call_level s). 0 \<le> np_call_level s \<longrightarrow> fst (np_levels s ! l) \<noteq> None)"

lemma params_ok_start: "params_ok ngc_params_start"
  by (simp add: params_ok_def ngc_params_start_def NGC_MAX_CALL_LEVEL_def)

lemma set_fields:
  "np_call_level (snd (ngc_param_set mem k v s)) = np_call_level s"
  "np_levels (snd (ngc_param_set mem k v s)) = np_levels s"
  "np_context (snd (ngc_param_set mem k v s)) = np_context s"
  "np_named (snd (ngc_param_set mem k v s)) = np_named s"
  "ngc_named_param_set mem n v s = Some (ok, s') \<Longrightarrow> np_call_level s' = np_call_level s"
  "ngc_named_param_set mem n v s = Some (ok, s') \<Longrightarrow> np_levels s' = np_levels s"
  "ngc_named_param_set mem n v s = Some (ok, s') \<Longrightarrow> np_context s' = np_context s"
  "ngc_named_param_set mem n v s = Some (ok, s') \<Longrightarrow> np_rw s' = np_rw s"
  by (auto simp: ngc_param_set_def ngc_named_param_set_def Let_def case_prod_beta split: option.splits if_splits)

lemma params_ok_cong:
  "params_ok s \<Longrightarrow> np_call_level s' = np_call_level s \<Longrightarrow> np_context s' = np_context s \<Longrightarrow>
   length (np_levels s') = length (np_levels s) \<Longrightarrow>
   (\<And>l. l < length (np_levels s) \<Longrightarrow> fst (np_levels s' ! l) = fst (np_levels s ! l)) \<Longrightarrow> params_ok s'"
  by (auto simp: params_ok_def)

lemma set_modal_fields:
  "np_call_level (set_modal m s) = np_call_level s" "np_context (set_modal m s) = np_context s"
  "length (np_levels (set_modal m s)) = length (np_levels s)"
  "l < length (np_levels s) \<Longrightarrow> fst (np_levels (set_modal m s) ! l) = fst (np_levels s ! l)"
  "np_rw (set_modal m s) = np_rw s" "np_named (set_modal m s) = np_named s"
  by (cases "nat (np_call_level s) < length (np_levels s)"; auto simp: set_modal_def Let_def nth_list_update)+

lemma params_ok_save: "params_ok s \<Longrightarrow> params_ok (snd (ngc_modal_state_save mem m s))"
  by (auto simp: ngc_modal_state_save_def set_modal_fields intro: params_ok_cong [of s])

lemma params_ok_push: "params_ok s \<Longrightarrow> params_ok (snd (ngc_call_push c s))"
  by (auto simp: params_ok_def ngc_call_push_def Let_def nth_list_update NGC_MAX_CALL_LEVEL_def
      nat_add_distrib le_Suc_eq)

lemma push_fields:
  assumes "ngc_call_push c s = (True, s')"
  shows "np_call_level s' = np_call_level s + 1" "np_context s' = Some c" "np_rw s' = np_rw s"
    "np_named s' = np_named s" "length (np_levels s') = length (np_levels s)"
    "l < length (np_levels s) \<Longrightarrow> l \<noteq> nat (np_call_level s + 1) \<Longrightarrow> np_levels s' ! l = np_levels s ! l"
  using assms by (auto simp: ngc_call_push_def Let_def split: if_splits)

lemma pop_fields:
  assumes "params_ok s" and "0 \<le> np_call_level s" and "ngc_call_pop ar s = (r, m, s')"
  shows "np_call_level s' = np_call_level s - 1" "np_rw s' = store_drop (np_context s) (np_rw s)"
    "np_named s' = store_drop (np_context s) (np_named s)" "length (np_levels s') = length (np_levels s)"
    "l < length (np_levels s) \<Longrightarrow> fst (np_levels s' ! l) = fst (np_levels s ! l)"
    "np_context s' = (if 0 \<le> np_call_level s' then fst (np_levels s ! nat (np_call_level s')) else None)"
  using assms by (auto simp: ngc_call_pop_def Let_def params_ok_def nth_list_update split: if_splits)

lemma params_ok_pop:
  assumes "params_ok s"
  shows "params_ok (snd (snd (ngc_call_pop ar s)))"
proof (cases "np_call_level s < 0")
  case False
  obtain r m s' where p: "ngc_call_pop ar s = (r, m, s')" by (metis prod_cases3)
  from False have l: "0 \<le> np_call_level s" by simp
  note f = pop_fields [OF assms l p]
  have len: "length (np_levels s) = NGC_MAX_CALL_LEVEL" "np_call_level s < int NGC_MAX_CALL_LEVEL"
    using assms by (simp_all add: params_ok_def)
  have "fst (np_levels s' ! i) \<noteq> None" if "i \<le> nat (np_call_level s')" "0 \<le> np_call_level s'" for i
  proof -
    have i: "i \<le> nat (np_call_level s)" using that f(1) by simp
    then have "i < length (np_levels s)" using len l by linarith
    with f(5) i assms l show ?thesis by (simp add: params_ok_def)
  qed
  then have "params_ok s'" using f len l by (auto simp: params_ok_def)
  with p show ?thesis by simp
qed (use assms in \<open>simp add: ngc_call_pop_def\<close>)

subsection \<open>Programs with nested calls\<close>

datatype 'm param_op =
    SetNum bool nat flt
  | SetNamed bool string flt
  | SaveModal bool 'm
  | Call nat "'m param_op list"

fun run_op :: "('m \<Rightarrow> bool) \<Rightarrow> 'm param_op \<Rightarrow> 'm ngc_params \<Rightarrow> 'm ngc_params option"
  and run_ops :: "('m \<Rightarrow> bool) \<Rightarrow> 'm param_op list \<Rightarrow> 'm ngc_params \<Rightarrow> 'm ngc_params option" where
  "run_op ar (SetNum mem i v) s = Some (snd (ngc_param_set mem i v s))"
| "run_op ar (SetNamed mem n v) s = map_option snd (ngc_named_param_set mem n v s)"
| "run_op ar (SaveModal mem m) s = Some (snd (ngc_modal_state_save mem m s))"
| "run_op ar (Call c ops) s =
     (case ngc_call_push c s of
        (False, _) \<Rightarrow> Some s
      | (True, s1) \<Rightarrow> map_option (\<lambda>s2. snd (snd (ngc_call_pop ar s2))) (run_ops ar ops s1))"
| "run_ops ar [] s = Some s"
| "run_ops ar (op # ops) s = (case run_op ar op s of None \<Rightarrow> None | Some s' \<Rightarrow> run_ops ar ops s')"

text \<open>Every call's context differs from those of the calls around it.\<close>

fun fresh_op :: "nat set \<Rightarrow> 'm param_op \<Rightarrow> bool" where
  "fresh_op L (Call c ops) \<longleftrightarrow> c \<notin> L \<and> (\<forall>op \<in> set ops. fresh_op (insert c L) op)"
| "fresh_op L _ \<longleftrightarrow> True"

definition same_locals :: "ctx set \<Rightarrow> 'm ngc_params \<Rightarrow> 'm ngc_params \<Rightarrow> bool" where
  "same_locals C s s' \<longleftrightarrow>
     (\<forall>c \<in> C. (\<forall>i \<le> 30. store_find c i (np_rw s') = store_find c i (np_rw s)) \<and>
        (\<forall>n. \<not> is_global n \<longrightarrow> store_find c n (np_named s') = store_find c n (np_named s)))"

definition same_levels :: "'m ngc_params \<Rightarrow> 'm ngc_params \<Rightarrow> bool" where
  "same_levels s s' \<longleftrightarrow>
     np_call_level s' = np_call_level s \<and> np_context s' = np_context s \<and>
     length (np_levels s') = length (np_levels s) \<and>
     (\<forall>l. int l \<le> np_call_level s \<longrightarrow> fst (np_levels s' ! l) = fst (np_levels s ! l))"

definition live_in :: "nat set \<Rightarrow> 'm ngc_params \<Rightarrow> bool" where
  "live_in L s \<longleftrightarrow> (\<forall>c. np_context s = Some c \<longrightarrow> c \<in> L)"

definition outer :: "nat set \<Rightarrow> ctx set" where
  "outer L = insert None (Some ` L)"

lemma same_locals_trans:
  "same_locals C s s' \<Longrightarrow> same_locals C s' s'' \<Longrightarrow> same_locals C s s''"
  by (simp add: same_locals_def)

lemma same_levels_trans:
  "same_levels s s' \<Longrightarrow> same_levels s' s'' \<Longrightarrow> same_levels s s''"
  by (simp add: same_levels_def)

lemma same_locals_mono: "same_locals C s s' \<Longrightarrow> D \<subseteq> C \<Longrightarrow> same_locals D s s'"
  by (auto simp: same_locals_def)

lemma set_num_same: "same_locals (C - {np_context s}) s (snd (ngc_param_set mem k v s))"
  unfolding same_locals_def ngc_param_set_def
  by (auto simp: Let_def case_prod_beta local_context_def intro!: rw.put_other)

lemma set_named_same:
  "ngc_named_param_set mem n v s = Some (ok, s') \<Longrightarrow> same_locals (C - {np_context s}) s s'"
  unfolding same_locals_def ngc_named_param_set_def
  by (auto simp: Let_def case_prod_beta named_context_def split: option.splits if_splits intro!: named.put_other)

lemma save_same: "same_locals C s (snd (ngc_modal_state_save mem m s))"
  by (auto simp: same_locals_def ngc_modal_state_save_def set_modal_fields)

lemma save_levels: "params_ok s \<Longrightarrow> same_levels s (snd (ngc_modal_state_save mem m s))"
  by (auto simp: same_levels_def ngc_modal_state_save_def set_modal_fields params_ok_def)

lemma params_ok_levels: "params_ok s \<Longrightarrow> same_levels s s' \<Longrightarrow> params_ok s'"
  by (auto simp: params_ok_def same_levels_def)

lemma call_same:
  assumes ok: "params_ok s" and live: "live_in L s" and c: "c \<notin> L"
    and push: "ngc_call_push c s = (True, s1)"
    and body: "same_levels s1 s2" "same_locals (outer (insert c L) - {np_context s1}) s1 s2"
    and pop: "ngc_call_pop ar s2 = (r, m, s3)"
  shows "same_levels s s3" and "same_locals (outer L) s s3"
proof -
  note p1 = push_fields [OF push]
  have ok1: "params_ok s1" using params_ok_push [OF ok, of c] push by simp
  have ok2: "params_ok s2" using params_ok_levels [OF ok1 body(1)] .
  have l2: "np_call_level s2 = np_call_level s + 1" using body(1) p1 by (simp add: same_levels_def)
  have lev: "- 1 \<le> np_call_level s" using ok by (simp add: params_ok_def)
  have ctx: "np_context s2 = Some c" using body(1) p1 by (simp add: same_levels_def)
  have pos: "0 \<le> np_call_level s2" using l2 lev by simp
  note p3 = pop_fields [OF ok2 pos pop]
  have len: "length (np_levels s3) = length (np_levels s)" "length (np_levels s) = NGC_MAX_CALL_LEVEL"
    "length (np_levels s2) = NGC_MAX_CALL_LEVEL" "np_call_level s2 < int NGC_MAX_CALL_LEVEL"
    using p3 p1 body(1) ok ok2 by (simp_all add: same_levels_def params_ok_def)
  have keep: "fst (np_levels s3 ! l) = fst (np_levels s ! l)" "fst (np_levels s2 ! l) = fst (np_levels s ! l)"
    if "int l \<le> np_call_level s" for l
  proof -
    have l: "l < length (np_levels s2)" using that len l2 by linarith
    have "np_levels s1 ! l = np_levels s ! l" using p1(6) [of l] that len l by auto
    then show "fst (np_levels s2 ! l) = fst (np_levels s ! l)"
      using body(1) that p1(1) by (auto simp: same_levels_def)
    with p3(5) [OF l] show "fst (np_levels s3 ! l) = fst (np_levels s ! l)" by simp
  qed
  have "np_context s3 = np_context s"
  proof (cases "0 \<le> np_call_level s")
    case True
    then show ?thesis using p3(1,6) l2 ok keep(2) [of "nat (np_call_level s)"] by (simp add: params_ok_def)
  next
    case False
    then show ?thesis using p3(1,6) l2 ok by (simp add: params_ok_def)
  qed
  then show "same_levels s s3" using p3(1) l2 len keep by (simp add: same_levels_def)
  have sub: "outer L \<subseteq> outer (insert c L) - {np_context s1}" using c p1(2) by (auto simp: outer_def)
  have other: "x \<noteq> Some c" if "x \<in> outer L" for x using c that by (auto simp: outer_def)
  show "same_locals (outer L) s s3"
    using same_locals_mono [OF body(2) sub] other p1(3,4)
    unfolding same_locals_def p3(2,3) ctx rw.drp_find named.drp_find by simp
qed

lemma run_same:
  "params_ok s \<Longrightarrow> live_in L s \<Longrightarrow> fresh_op L op \<Longrightarrow> run_op ar op s = Some s' \<Longrightarrow>
     same_levels s s' \<and> same_locals (outer L - {np_context s}) s s'"
  "params_ok s \<Longrightarrow> live_in L s \<Longrightarrow> \<forall>op \<in> set ops. fresh_op L op \<Longrightarrow> run_ops ar ops s = Some s' \<Longrightarrow>
     same_levels s s' \<and> same_locals (outer L - {np_context s}) s s'"
proof (induction ar op s and ar ops s arbitrary: L s' and L s' rule: run_op_run_ops.induct)
  case (1 ar mem i v s)
  then show ?case using set_num_same by (auto simp: same_levels_def set_fields)
next
  case (2 ar mem n v s)
  then show ?case using set_named_same by (auto simp: same_levels_def set_fields)
next
  case (3 ar mem m s)
  then show ?case using save_same save_levels by auto
next
  case (4 ar c ops s)
  show ?case
  proof (cases "ngc_call_push c s")
    case (Pair ok s1)
    show ?thesis
    proof (cases ok)
      case False
      with 4 Pair show ?thesis by (simp add: same_levels_def same_locals_def)
    next
      case True
      with Pair have push: "ngc_call_push c s = (True, s1)" by simp
      then obtain s2 where s2: "run_ops ar ops s1 = Some s2" "s' = snd (snd (ngc_call_pop ar s2))"
        using 4(5) by auto
      have "params_ok s1" using params_ok_push [OF 4(2), of c] push by simp
      moreover have "live_in (insert c L) s1" using push_fields(2) [OF push] by (simp add: live_in_def)
      moreover have "\<forall>op \<in> set ops. fresh_op (insert c L) op" "c \<notin> L" using 4(4) by simp_all
      ultimately have body: "same_levels s1 s2" "same_locals (outer (insert c L) - {np_context s1}) s1 s2"
        using 4(1) [OF push [symmetric] refl, of "insert c L" s2] s2(1) by auto
      obtain r m s3 where pop: "ngc_call_pop ar s2 = (r, m, s3)" by (metis prod_cases3)
      from call_same [OF 4(2,3) _ push body pop] \<open>c \<notin> L\<close> s2(2) pop show ?thesis
        by (auto intro: same_locals_mono)
    qed
  qed
next
  case (5 ar s)
  then show ?case by (simp add: same_levels_def same_locals_def)
next
  case (6 ar op ops s)
  then obtain s1 where s1: "run_op ar op s = Some s1" "run_ops ar ops s1 = Some s'"
    by (auto split: option.splits)
  have a: "same_levels s s1" "same_locals (outer L - {np_context s}) s s1"
    using 6(1) [of L s1] 6(3-5) s1 by auto
  have ok: "params_ok s1" using params_ok_levels [OF 6(3) a(1)] .
  have ctx: "np_context s1 = np_context s" using a(1) by (simp add: same_levels_def)
  then have "live_in L s1" using 6(4) by (simp add: live_in_def)
  then have "same_levels s1 s' \<and> same_locals (outer L - {np_context s1}) s1 s'"
    using 6(2) [OF s1(1) ok _ _ s1(2)] 6(5) by simp
  with a ctx show ?case by (auto intro: same_levels_trans same_locals_trans)
qed

lemma param_get_same:
  assumes "same_levels s s'" and "same_locals (outer L) s s'" and "live_in L s" and "i \<le> 30"
  shows "ngc_param_get fp g s' i = ngc_param_get fp g s i"
proof -
  have "np_context s \<in> outer L" using assms(3) by (cases "np_context s") (auto simp: outer_def live_in_def)
  with assms show ?thesis
    by (auto simp: ngc_param_get_def local_context_def same_levels_def same_locals_def store_value_def)
qed

lemma named_get_same:
  assumes "same_levels s s'" and "same_locals (outer L) s s'" and "live_in L s"
    and "ngc_name_tolower n = Some n'" and "\<not> is_global n'"
  shows "ngc_named_param_get fp g s' n old = ngc_named_param_get fp g s n old"
proof -
  have "np_context s \<in> outer L" using assms(3) by (cases "np_context s") (auto simp: outer_def live_in_def)
  with assms show ?thesis
    by (auto simp: ngc_named_param_get_def named_context_def same_levels_def same_locals_def)
qed

text \<open>
  C10. Calling a subroutine leaves the caller's parameters alone. Whatever the subroutine sets, numbered or
  named, local or global, and whatever it calls in turn, after its return the call level
  array is well formed, the level and the context are the caller's again, and each of the caller's local
  parameters, numbers 1 to 30 and names without an underscore, reads as before the call.
\<close>

theorem call_isolates_locals:
  assumes "params_ok s" and "live_in L s" and "fresh_op L (Call c ops)" and "run_op ar (Call c ops) s = Some s'"
  shows "params_ok s' \<and> np_call_level s' = np_call_level s \<and> np_context s' = np_context s \<and>
    (\<forall>i \<le> 30. ngc_param_get fp g s' i = ngc_param_get fp g s i) \<and>
    (\<forall>n n' old. ngc_name_tolower n = Some n' \<longrightarrow> \<not> is_global n' \<longrightarrow>
       ngc_named_param_get fp g s' n old = ngc_named_param_get fp g s n old)"
proof -
  have "same_levels s s' \<and> same_locals (outer L) s s'"
  proof (cases "fst (ngc_call_push c s)")
    case False
    with assms(4) show ?thesis
      by (auto simp: same_levels_def same_locals_def split: prod.splits bool.splits)
  next
    case True
    then obtain s1 where push: "ngc_call_push c s = (True, s1)" by (metis prod.collapse)
    with assms(4) obtain s2 where s2: "run_ops ar ops s1 = Some s2" "s' = snd (snd (ngc_call_pop ar s2))"
      by auto
    have "params_ok s1" using params_ok_push [OF assms(1), of c] push by simp
    moreover have "live_in (insert c L) s1" using push_fields(2) [OF push] by (simp add: live_in_def)
    moreover have "\<forall>op \<in> set ops. fresh_op (insert c L) op" "c \<notin> L" using assms(3) by simp_all
    ultimately have body: "same_levels s1 s2" "same_locals (outer (insert c L) - {np_context s1}) s1 s2"
      using run_same(2) [of s1 "insert c L" ops ar s2] s2(1) by auto
    obtain r m s3 where pop: "ngc_call_pop ar s2 = (r, m, s3)" by (metis prod_cases3)
    from call_same [OF assms(1,2) _ push body pop] \<open>c \<notin> L\<close> s2(2) pop show ?thesis by simp
  qed
  then have same: "same_levels s s'" "same_locals (outer L) s s'" by simp_all
  from same(1) have "np_call_level s' = np_call_level s" "np_context s' = np_context s"
    by (simp_all add: same_levels_def)
  with same params_ok_levels [OF assms(1) same(1)] param_get_same [OF same assms(2)]
    named_get_same [OF same assms(2)]
  show ?thesis by blast
qed

definition demo_params :: "unit ngc_params" where
  "demo_params = ngc_params_start\<lparr>np_rw := [(None, 1, Fin 5)]\<rparr>"

definition demo_call :: "unit param_op" where
  "demo_call = Call 7 [SetNum True 1 (Fin 9), SetNum True 100 (Fin 3), SetNamed True ''x'' (Fin 2)]"

lemma call_isolates_locals_witness:
  "\<exists>s'. run_op (\<lambda>_. False) demo_call demo_params = Some s' \<and>
     (\<forall>g. ngc_param_get exact_fpu g s' 1 = (True, Fin 5))"
proof -
  have ok: "params_ok demo_params"
    using params_ok_start by (auto simp: demo_params_def params_ok_def)
  have live: "live_in {} demo_params" by (simp add: demo_params_def live_in_def ngc_params_start_def)
  have fresh: "fresh_op {} demo_call" by (simp add: demo_call_def)
  have "ngc_name_tolower ''x'' = Some ''x''"
    by (simp add: ngc_name_tolower_def name_chars_def LCAPS_def NGC_MAX_PARAM_LENGTH_def)
  then have ne: "ngc_named_param_set True ''x'' v s \<noteq> None" for v and s :: "unit ngc_params"
    by (simp add: ngc_named_param_set_def)
  have "run_op (\<lambda>_. False) demo_call demo_params \<noteq> None"
    by (simp add: demo_call_def ne split: prod.split bool.split option.split)
  then have "\<exists>s'. run_op (\<lambda>_. False) demo_call demo_params = Some s'" by simp
  then obtain s' where s': "run_op (\<lambda>_. False) demo_call demo_params = Some s'" ..
  have "ngc_param_get exact_fpu g s' 1 = ngc_param_get exact_fpu g demo_params 1" for g
    using call_isolates_locals [OF ok live fresh [unfolded demo_call_def] s' [unfolded demo_call_def], of exact_fpu g]
    by simp
  moreover have "ngc_param_get exact_fpu g demo_params 1 = (True, Fin 5)" for g
    by (simp add: ngc_param_get_def ngc_param_is_rw_def local_context_def demo_params_def ngc_params_start_def
        store_value_def)
  ultimately show ?thesis using s' by simp
qed

end
