(* ===== verification/Ngc_Expr.thy ===== *)
theory Ngc_Expr
  imports Ngc_Params
begin

text \<open>
  The expression evaluator of \<open>grbl/ngc_expr.c\<close>. Every reader takes the line, a position and the old
  contents of its result variable and returns the status, the new position and the new contents, as the
  C functions do through their pointers. \<open>Overflow\<close> is an access past the end of an array. The
  recursion of the readers (a bracket, a sign, a parameter or a function consumes at least one character)
  is bounded by fuel; \<open>NoFuel\<close> is not a result of the code and does not occur when the fuel exceeds the
  length of the rest of the line (see \<open>Ngc_Expr_Props\<close>).
\<close>

datatype 'a outcome = Done 'a | Overflow | NoFuel

fun bnd :: "'a outcome \<Rightarrow> ('a \<Rightarrow> 'b outcome) \<Rightarrow> 'b outcome" where
  "bnd (Done x) f = f x"
| "bnd Overflow f = Overflow"
| "bnd NoFuel f = NoFuel"

type_synonym 'a reading = "(status_code \<times> nat \<times> 'a) outcome"

text \<open>What a setting reads as: \<open>setting_get_details\<close> and the getters of the settings module.\<close>

datatype setting_read = NoSetting | DecimalSetting flt | IntegerSetting u32 | OtherSetting

record 'm expr_env =
  ee_fp :: fpu
  ee_machine :: machine
  ee_params :: "'m ngc_params"
  ee_setting :: "int \<Rightarrow> setting_read"
  ee_junk :: flt \<comment> \<open>what local variables hold before they are set\<close>

definition MAX_STACK :: nat where "MAX_STACK = 7"

definition TOLERANCE_EQUAL :: "fpu \<Rightarrow> flt" where "TOLERANCE_EQUAL fp = fp_round fp 0.0001"
definition RADDEG :: "fpu \<Rightarrow> flt" where "RADDEG fp = fp_round fp 0.01745329251994329577"
definition DEGRAD :: "fpu \<Rightarrow> flt" where "DEGRAD fp = fp_round fp 57.29577951308232087680"

datatype ngc_binary_op =
    NGCBinaryOp_NoOp | NGCBinaryOp_DividedBy | NGCBinaryOp_Modulo | NGCBinaryOp_Power | NGCBinaryOp_Times
  | NGCBinaryOp_And2 | NGCBinaryOp_ExclusiveOR | NGCBinaryOp_Minus | NGCBinaryOp_NotExclusiveOR
  | NGCBinaryOp_Plus | NGCBinaryOp_RightBracket | NGCBinaryOp_LT | NGCBinaryOp_EQ | NGCBinaryOp_NE
  | NGCBinaryOp_LE | NGCBinaryOp_GE | NGCBinaryOp_GT

datatype ngc_unary_op =
    NGCUnaryOp_ABS | NGCUnaryOp_ACOS | NGCUnaryOp_ASIN | NGCUnaryOp_ATAN | NGCUnaryOp_COS | NGCUnaryOp_EXP
  | NGCUnaryOp_FIX | NGCUnaryOp_FUP | NGCUnaryOp_LN | NGCUnaryOp_Round | NGCUnaryOp_SIN | NGCUnaryOp_SQRT
  | NGCUnaryOp_TAN | NGCUnaryOp_Exists | NGCUnaryOp_Parameter

subsection \<open>Operations\<close>

definition execute_binary1 :: "fpu \<Rightarrow> flt \<Rightarrow> ngc_binary_op \<Rightarrow> flt \<Rightarrow> status_code \<times> flt" where
  "execute_binary1 fp lhs operation rhs =
     (case operation of
        NGCBinaryOp_DividedBy \<Rightarrow>
          if f_eq rhs f_zero then (Status_ExpressionDivideByZero, lhs) else (Status_OK, f_div fp lhs rhs)
      | NGCBinaryOp_Modulo \<Rightarrow>
          (let lhs = f_mod lhs rhs
           in (Status_OK, if f_lt lhs f_zero then f_add fp lhs (f_abs rhs) else lhs))
      | NGCBinaryOp_Power \<Rightarrow>
          if f_lt lhs f_zero \<and> \<not> f_eq (f_floor rhs) rhs then (Status_ExpressionInvalidArgument, lhs)
          else (Status_OK, f_pow fp lhs rhs)
      | NGCBinaryOp_Times \<Rightarrow> (Status_OK, f_mul fp lhs rhs)
      | _ \<Rightarrow> (Status_ExpressionUknownOp, lhs))"

definition abs_diff :: "fpu \<Rightarrow> flt \<Rightarrow> flt \<Rightarrow> flt" where
  "abs_diff fp lhs rhs = (let diff = f_sub fp lhs rhs in if f_lt diff f_zero then f_neg diff else diff)"

definition execute_binary2 :: "fpu \<Rightarrow> flt \<Rightarrow> ngc_binary_op \<Rightarrow> flt \<Rightarrow> status_code \<times> flt" where
  "execute_binary2 fp lhs operation rhs =
     (let l0 = f_eq lhs f_zero; r0 = f_eq rhs f_zero
      in case operation of
           NGCBinaryOp_And2 \<Rightarrow> (Status_OK, f_bool (\<not> (l0 \<or> r0)))
         | NGCBinaryOp_ExclusiveOR \<Rightarrow> (Status_OK, f_bool (l0 \<and> \<not> r0 \<or> \<not> l0 \<and> r0))
         | NGCBinaryOp_Minus \<Rightarrow> (Status_OK, f_sub fp lhs rhs)
         | NGCBinaryOp_NotExclusiveOR \<Rightarrow> (Status_OK, f_bool (\<not> l0 \<or> \<not> r0))
         | NGCBinaryOp_Plus \<Rightarrow> (Status_OK, f_add fp lhs rhs)
         | NGCBinaryOp_LT \<Rightarrow> (Status_OK, f_bool (f_lt lhs rhs))
         | NGCBinaryOp_EQ \<Rightarrow> (Status_OK, f_bool (f_lt (abs_diff fp lhs rhs) (TOLERANCE_EQUAL fp)))
         | NGCBinaryOp_NE \<Rightarrow> (Status_OK, f_bool (f_le (TOLERANCE_EQUAL fp) (abs_diff fp lhs rhs)))
         | NGCBinaryOp_LE \<Rightarrow> (Status_OK, f_bool (f_le lhs rhs))
         | NGCBinaryOp_GE \<Rightarrow> (Status_OK, f_bool (f_le rhs lhs))
         | NGCBinaryOp_GT \<Rightarrow> (Status_OK, f_bool (f_lt rhs lhs))
         | _ \<Rightarrow> (Status_ExpressionUknownOp, lhs))"

definition execute_binary :: "fpu \<Rightarrow> flt \<Rightarrow> ngc_binary_op \<Rightarrow> flt \<Rightarrow> status_code \<times> flt" where
  "execute_binary fp lhs operation rhs =
     (if operation \<in> {NGCBinaryOp_NoOp, NGCBinaryOp_DividedBy, NGCBinaryOp_Modulo, NGCBinaryOp_Power,
                       NGCBinaryOp_Times}
      then execute_binary1 fp lhs operation rhs else execute_binary2 fp lhs operation rhs)"

definition execute_unary :: "fpu \<Rightarrow> flt \<Rightarrow> ngc_unary_op \<Rightarrow> status_code \<times> flt" where
  "execute_unary fp x operation =
     (case operation of
        NGCUnaryOp_ABS \<Rightarrow> (Status_OK, if f_lt x f_zero then f_mul fp (Fin (- 1)) x else x)
      | NGCUnaryOp_ACOS \<Rightarrow>
          if f_lt x (Fin (- 1)) \<or> f_lt f_one x then (Status_ExpressionArgumentOutOfRange, x)
          else (Status_OK, f_mul fp (f_fun fp arccos x) (DEGRAD fp))
      | NGCUnaryOp_ASIN \<Rightarrow>
          if f_lt x (Fin (- 1)) \<or> f_lt f_one x then (Status_ExpressionArgumentOutOfRange, x)
          else (Status_OK, f_mul fp (f_fun fp arcsin x) (DEGRAD fp))
      | NGCUnaryOp_COS \<Rightarrow> (Status_OK, f_fun fp cos (f_mul fp x (RADDEG fp)))
      | NGCUnaryOp_Exists \<Rightarrow> (Status_OK, x)
      | NGCUnaryOp_EXP \<Rightarrow> (Status_OK, f_exp fp x)
      | NGCUnaryOp_FIX \<Rightarrow> (Status_OK, f_floor x)
      | NGCUnaryOp_FUP \<Rightarrow> (Status_OK, f_ceil x)
      | NGCUnaryOp_LN \<Rightarrow>
          if f_le x f_zero then (Status_ExpressionArgumentOutOfRange, x) else (Status_OK, f_ln fp x)
      | NGCUnaryOp_Round \<Rightarrow>
          (Status_OK, f_of_int fp (f_to_i32 fp (f_add fp x (if f_lt x f_zero then Fin (- 0.5) else Fin 0.5))))
      | NGCUnaryOp_SIN \<Rightarrow> (Status_OK, f_fun fp sin (f_mul fp x (RADDEG fp)))
      | NGCUnaryOp_SQRT \<Rightarrow>
          if f_lt x f_zero then (Status_ExpressionArgumentOutOfRange, x) else (Status_OK, f_sqrt fp x)
      | NGCUnaryOp_TAN \<Rightarrow> (Status_OK, f_fun fp tan (f_mul fp x (RADDEG fp)))
      | _ \<Rightarrow> (Status_ExpressionUknownOp, x))"

definition precedence :: "ngc_binary_op \<Rightarrow> nat" where
  "precedence operator =
     (case operator of
        NGCBinaryOp_RightBracket \<Rightarrow> 1
      | NGCBinaryOp_And2 \<Rightarrow> 2 | NGCBinaryOp_ExclusiveOR \<Rightarrow> 2 | NGCBinaryOp_NotExclusiveOR \<Rightarrow> 2
      | NGCBinaryOp_LT \<Rightarrow> 3 | NGCBinaryOp_EQ \<Rightarrow> 3 | NGCBinaryOp_NE \<Rightarrow> 3
      | NGCBinaryOp_LE \<Rightarrow> 3 | NGCBinaryOp_GE \<Rightarrow> 3 | NGCBinaryOp_GT \<Rightarrow> 3
      | NGCBinaryOp_Minus \<Rightarrow> 4 | NGCBinaryOp_Plus \<Rightarrow> 4
      | NGCBinaryOp_NoOp \<Rightarrow> 5 | NGCBinaryOp_DividedBy \<Rightarrow> 5 | NGCBinaryOp_Modulo \<Rightarrow> 5 | NGCBinaryOp_Times \<Rightarrow> 5
      | NGCBinaryOp_Power \<Rightarrow> 6)"

subsection \<open>Reading operators\<close>

text \<open>\<open>strncmp\<close> of a word at a position.\<close>

definition word_at :: "string \<Rightarrow> nat \<Rightarrow> string \<Rightarrow> bool" where
  "word_at line pos w \<longleftrightarrow> take (length w) (drop pos line) = w"

definition read_operation :: "string \<Rightarrow> nat \<Rightarrow> status_code \<times> nat \<times> ngc_binary_op" where
  "read_operation line pos =
     (let c = cchar line pos; pos = Suc pos;
          ok = (\<lambda>n operation. (Status_OK, pos + n, operation));
          unknown = (Status_ExpressionUknownOp, pos, NGCBinaryOp_NoOp)
      in if c = CHR ''+'' then ok 0 NGCBinaryOp_Plus
         else if c = CHR ''-'' then ok 0 NGCBinaryOp_Minus
         else if c = CHR ''/'' then ok 0 NGCBinaryOp_DividedBy
         else if c = CHR ''*''
           then if cchar line pos = CHR ''*'' then ok 1 NGCBinaryOp_Power else ok 0 NGCBinaryOp_Times
         else if c = CHR '']'' then ok 0 NGCBinaryOp_RightBracket
         else if c = CHR ''A'' then if word_at line pos ''ND'' then ok 2 NGCBinaryOp_And2 else unknown
         else if c = CHR ''M'' then if word_at line pos ''OD'' then ok 2 NGCBinaryOp_Modulo else unknown
         else if c = CHR ''O'' then if cchar line pos = CHR ''R'' then ok 1 NGCBinaryOp_NotExclusiveOR else unknown
         else if c = CHR ''X'' then if word_at line pos ''OR'' then ok 2 NGCBinaryOp_ExclusiveOR else unknown
         else if c = CHR ''E'' then if cchar line pos = CHR ''Q'' then ok 1 NGCBinaryOp_EQ else unknown
         else if c = CHR ''N'' then if cchar line pos = CHR ''E'' then ok 1 NGCBinaryOp_NE else unknown
         else if c = CHR ''G''
           then if cchar line pos = CHR ''E'' then ok 1 NGCBinaryOp_GE
                else if cchar line pos = CHR ''T'' then ok 1 NGCBinaryOp_GT else unknown
         else if c = CHR ''L''
           then if cchar line pos = CHR ''E'' then ok 1 NGCBinaryOp_LE
                else if cchar line pos = CHR ''T'' then ok 1 NGCBinaryOp_LT else unknown
         else unknown)"

definition read_operation_unary :: "string \<Rightarrow> nat \<Rightarrow> status_code \<times> nat \<times> ngc_unary_op" where
  "read_operation_unary line pos =
     (let c = cchar line pos; pos = Suc pos;
          ok = (\<lambda>n operation. (Status_OK, pos + n, operation));
          unknown = (Status_ExpressionUknownOp, pos, NGCUnaryOp_ABS)
      in if c = CHR ''A''
           then if word_at line pos ''BS'' then ok 2 NGCUnaryOp_ABS
                else if word_at line pos ''COS'' then ok 3 NGCUnaryOp_ACOS
                else if word_at line pos ''SIN'' then ok 3 NGCUnaryOp_ASIN
                else if word_at line pos ''TAN'' then ok 3 NGCUnaryOp_ATAN
                else unknown
         else if c = CHR ''C'' then if word_at line pos ''OS'' then ok 2 NGCUnaryOp_COS else unknown
         else if c = CHR ''E''
           then if word_at line pos ''XP'' then ok 2 NGCUnaryOp_EXP
                else if word_at line pos ''XISTS'' then ok 5 NGCUnaryOp_Exists
                else unknown
         else if c = CHR ''F''
           then if word_at line pos ''IX'' then ok 2 NGCUnaryOp_FIX
                else if word_at line pos ''UP'' then ok 2 NGCUnaryOp_FUP
                else unknown
         else if c = CHR ''L'' then if cchar line pos = CHR ''N'' then ok 1 NGCUnaryOp_LN else unknown
         else if c = CHR ''R'' then if word_at line pos ''OUND'' then ok 4 NGCUnaryOp_Round else unknown
         else if c = CHR ''S''
           then if word_at line pos ''IN'' then ok 2 NGCUnaryOp_SIN
                else if word_at line pos ''QRT'' then ok 3 NGCUnaryOp_SQRT
                else unknown
         else if c = CHR ''T'' then if word_at line pos ''AN'' then ok 2 NGCUnaryOp_TAN else unknown
         else if c = CHR ''P'' then if word_at line pos ''RM'' then ok 2 NGCUnaryOp_Parameter else unknown
         else unknown)"

subsection \<open>Names, integers and parameters\<close>

text \<open>The name loop: the last character looked at and the copied name.\<close>

fun name_loop :: "string \<Rightarrow> string \<Rightarrow> char \<times> string" where
  "name_loop [] name = (NUL, name)"
| "name_loop (c # cs) name =
     (if c \<noteq> NUL \<and> c \<noteq> CHR ''>'' \<and> length name \<le> NGC_MAX_PARAM_LENGTH
      then name_loop cs (name @ [LCAPS c]) else (c, name))"

text \<open>The caller's buffer holds \<open>NGC_MAX_PARAM_LENGTH + 1\<close> bytes; the terminating NUL is stored after the
  name.\<close>

definition ngc_read_name :: "string \<Rightarrow> nat \<Rightarrow> string reading" where
  "ngc_read_name line pos =
     (if cchar line pos \<noteq> CHR ''<'' then Done (Status_BadNumberFormat, Suc pos, '''')
      else case name_loop (drop (Suc pos) line) '''' of
             (c, name) \<Rightarrow>
               if c \<noteq> CHR ''>'' then Done (Status_FlowControlSyntaxError, Suc pos + length name, name)
               else if NGC_MAX_PARAM_LENGTH < length name then Overflow
               else Done (Status_OK, Suc pos + length name + 1, name))"

definition ngc_read_integer_unsigned :: "string \<Rightarrow> nat \<Rightarrow> u32 \<Rightarrow> status_code \<times> nat \<times> u32" where
  "ngc_read_integer_unsigned line pos old =
     (if cchar line pos = CHR ''+'' then (Status_GcodeCommandValueNotInteger, pos, old)
      else read_uint line pos old)"

text \<open>The functions below take the reader of a real value, \<open>rd\<close>, and the evaluator of an expression in
  brackets, \<open>ev\<close>, as arguments; they are tied together at the end.\<close>

type_synonym reader = "string \<Rightarrow> nat \<Rightarrow> flt \<Rightarrow> flt reading"

definition ngc_read_integer_value :: "'m expr_env \<Rightarrow> reader \<Rightarrow> string \<Rightarrow> nat \<Rightarrow> int reading" where
  "ngc_read_integer_value env rd line pos =
     bnd (rd line pos (ee_junk env)) (\<lambda>(status, pos, fvalue).
       if status \<noteq> Status_OK then Done (status, pos, 0)
       else
         let fp = ee_fp env;
             value = f_to_i32 fp (f_floor fvalue);
             frac = f_sub fp fvalue (f_of_int fp value)
         in if f_lt (fp_round fp 0.9999) frac
            then Done (status, pos, sint (f_to_u32 fp (f_ceil fvalue)))
            else if f_lt (fp_round fp 0.0001) frac
            then Done (Status_GcodeCommandValueNotInteger, pos, value)
            else Done (status, pos, value))"

definition param_id :: "int \<Rightarrow> nat" where
  "param_id i = nat (i mod 65536)"

definition ngc_read_parameter ::
  "'m expr_env \<Rightarrow> reader \<Rightarrow> string \<Rightarrow> nat \<Rightarrow> flt \<Rightarrow> bool \<Rightarrow> flt reading" where
  "ngc_read_parameter env rd line pos old check =
     (if cchar line pos \<noteq> CHR ''#'' then Done (Status_BadNumberFormat, pos, old)
      else
        let pos = Suc pos
        in if cchar line pos = CHR ''<''
           then bnd (ngc_read_name line pos) (\<lambda>(status, pos, name).
             if status \<noteq> Status_OK then Done (status, pos, old)
             else case ngc_named_param_get (ee_fp env) (ee_machine env) (ee_params env) name old of
                    None \<Rightarrow> Overflow
                  | Some (found, value) \<Rightarrow>
                      Done (if found then Status_OK else Status_BadNumberFormat, pos, value))
           else bnd (ngc_read_integer_value env rd line pos) (\<lambda>(status, pos, param).
             if status \<noteq> Status_OK then Done (status, pos, old)
             else if param < 0 \<or> (check \<and> \<not> ngc_param_exists (param_id param))
             then Done (Status_GcodeValueOutOfRange, pos, old)
             else case ngc_param_get (ee_fp env) (ee_machine env) (ee_params env) (param_id param) of
                    (found, value) \<Rightarrow>
                      Done (if found then Status_OK else Status_GcodeValueOutOfRange, pos, value)))"

subsection \<open>Functions\<close>

definition read_atan :: "'m expr_env \<Rightarrow> reader \<Rightarrow> string \<Rightarrow> nat \<Rightarrow> flt \<Rightarrow> flt reading" where
  "read_atan env ev line pos value =
     (if cchar line pos \<noteq> CHR ''/'' then Done (Status_ExpressionSyntaxError, pos, value)
      else if cchar line (Suc pos) \<noteq> CHR ''['' then Done (Status_ExpressionSyntaxError, Suc pos, value)
      else bnd (ev line (Suc pos) (ee_junk env)) (\<lambda>(status, pos, argument2).
        Done (status, pos,
          if status = Status_OK then f_mul (ee_fp env) (f_atan2 (ee_fp env) value argument2) (DEGRAD (ee_fp env))
          else value)))"

text \<open>EXISTS, with the position after its opening bracket: the characters from \<open>#<\<close> to the closing bracket
  must end in \<open>>\<close>.\<close>

definition read_exists :: "'m expr_env \<Rightarrow> string \<Rightarrow> nat \<Rightarrow> flt \<Rightarrow> flt reading" where
  "read_exists env line pos old =
     (if cchar line pos = CHR ''#'' \<and> cchar line (Suc pos) = CHR ''<''
      then
        let arg = takeWhile (\<lambda>c. c \<noteq> CHR '']'') (drop (pos + 2) line);
            s = pos + 2 + length arg
        in if cchar line s = CHR '']'' \<and> arg \<noteq> '''' \<and> last arg = CHR ''>''
           then case ngc_named_param_exists (ee_fp env) (ee_machine env) (ee_params env) (butlast arg) of
                  None \<Rightarrow> Overflow
                | Some found \<Rightarrow> Done (Status_OK, s + 1, f_bool found)
           else Done (Status_ExpressionSyntaxError, pos, old)
      else Done (Status_ExpressionSyntaxError, pos, old))"

text \<open>PRM, with the position after its opening bracket: a setting, or a bit of it.\<close>

definition setting_value :: "'m expr_env \<Rightarrow> int \<Rightarrow> int option \<Rightarrow> flt \<Rightarrow> status_code \<times> flt" where
  "setting_value env setting bitnum old =
     (case ee_setting env setting of
        NoSetting \<Rightarrow> (Status_ExpressionArgumentOutOfRange, old)
      | OtherSetting \<Rightarrow> (Status_ExpressionArgumentOutOfRange, old)
      | DecimalSetting v \<Rightarrow> (Status_OK, v)
      | IntegerSetting v \<Rightarrow>
          let value = f_of_int (ee_fp env) (uint v)
          in (Status_OK, case bitnum of
                None \<Rightarrow> value
              | Some b \<Rightarrow> f_bool (drop_bit (nat b) (f_to_u32 (ee_fp env) value) AND 1 \<noteq> 0)))"

definition read_setting :: "'m expr_env \<Rightarrow> reader \<Rightarrow> string \<Rightarrow> nat \<Rightarrow> flt \<Rightarrow> flt reading" where
  "read_setting env rd line pos old =
     bnd (ngc_read_integer_value env rd line pos) (\<lambda>(status, pos, setting).
       if status \<noteq> Status_OK then Done (status, pos, old)
       else
         let finish = (\<lambda>pos bitnum.
               if cchar line pos \<noteq> CHR '']'' then Done (Status_ExpressionSyntaxError, pos, old)
               else case setting_value env setting bitnum old of (status, v) \<Rightarrow> Done (status, Suc pos, v))
         in if cchar line pos = CHR '',''
            then bnd (ngc_read_integer_value env rd line (Suc pos)) (\<lambda>(status, pos, bitnum).
              if status \<noteq> Status_OK then Done (status, pos, old)
              else if bitnum < 0 \<or> 31 < bitnum then Done (Status_ExpressionArgumentOutOfRange, pos, old)
              else finish pos (Some bitnum))
            else finish pos None)"

definition read_unary :: "'m expr_env \<Rightarrow> reader \<Rightarrow> reader \<Rightarrow> reader" where
  "read_unary env ev rd line pos old =
     (case read_operation_unary line pos of
        (status, pos, operation) \<Rightarrow>
          if status \<noteq> Status_OK then Done (status, pos, old)
          else if cchar line pos \<noteq> CHR ''['' then Done (Status_ExpressionSyntaxError, pos, old)
          else if operation = NGCUnaryOp_Exists then read_exists env line (Suc pos) old
          else if operation = NGCUnaryOp_Parameter then read_setting env rd line (Suc pos) old
          else bnd (ev line pos old) (\<lambda>(status, pos, value).
            if status \<noteq> Status_OK then Done (status, pos, value)
            else if operation = NGCUnaryOp_ATAN then read_atan env ev line pos value
            else case execute_unary (ee_fp env) value operation of (status, v) \<Rightarrow> Done (status, pos, v)))"

text \<open>The dispatch on the first characters, and the check of the result variable that ends the
  function whatever the status is.\<close>

definition check_value :: "status_code \<times> nat \<times> flt \<Rightarrow> status_code \<times> nat \<times> flt" where
  "check_value r =
     (case r of (status, pos, value) \<Rightarrow>
        (if f_isnan value \<or> f_isinf value then Status_ExpressionInvalidResult else status, pos, value))"

definition sign_prefix :: "char \<Rightarrow> bool" where
  "sign_prefix c1 \<longleftrightarrow> c1 \<noteq> NUL \<and> \<not> is_digit c1 \<and> c1 \<noteq> CHR ''.''"

definition real_step :: "'m expr_env \<Rightarrow> reader \<Rightarrow> reader \<Rightarrow> reader" where
  "real_step env ev rd line pos old =
     (let c = cchar line pos; c1 = cchar line (Suc pos)
      in if c = NUL then Done (Status_ExpressionSyntaxError, pos, old)
         else bnd
           (if c = CHR ''['' then ev line pos old
            else if c = CHR ''#'' then ngc_read_parameter env rd line pos old False
            else if c = CHR ''+'' \<and> sign_prefix c1 then rd line (Suc pos) old
            else if c = CHR ''-'' \<and> sign_prefix c1
            then bnd (rd line (Suc pos) old) (\<lambda>(status, pos, value). Done (status, pos, f_neg value))
            else if 65 \<le> (of_char c :: nat) \<and> (of_char c :: nat) \<le> 90 then read_unary env ev rd line pos old
            else case read_float (ee_fp env) line pos old of
                   (ok, pos, value) \<Rightarrow> Done (if ok then Status_OK else Status_BadNumberFormat, pos, value))
           (\<lambda>r. Done (check_value r)))"

subsection \<open>Expressions in brackets\<close>

text \<open>The operand and operator stacks are arrays of \<open>MAX_STACK\<close> entries.\<close>

record eval_stack =
  ev_values :: "flt list"
  ev_ops :: "ngc_binary_op list"
  ev_top :: nat

text \<open>The inner loop: apply the operators that bind at least as strongly as the one just read.\<close>

fun reduce :: "fpu \<Rightarrow> nat \<Rightarrow> flt list \<Rightarrow> ngc_binary_op list \<Rightarrow> status_code \<times> eval_stack" where
  "reduce fp 0 vs ops = (Status_OK, \<lparr>ev_values = vs, ev_ops = ops, ev_top = 0\<rparr>)"
| "reduce fp (Suc k) vs ops =
     (case execute_binary fp (vs ! k) (ops ! k) (vs ! Suc k) of
        (status, lhs) \<Rightarrow>
          let vs = vs[k := lhs]
          in if status \<noteq> Status_OK then (status, \<lparr>ev_values = vs, ev_ops = ops, ev_top = Suc k\<rparr>)
             else
               let ops = ops[k := ops ! Suc k]
               in if 0 < k \<and> precedence (ops ! k) \<le> precedence (ops ! (k - 1)) then reduce fp k vs ops
                  else (Status_OK, \<lparr>ev_values = vs, ev_ops = ops, ev_top = Suc k\<rparr>))"

definition eval_step :: "'m expr_env \<Rightarrow> reader \<Rightarrow> string \<Rightarrow> nat \<Rightarrow> eval_stack \<Rightarrow> eval_stack reading" where
  "eval_step env rd line pos st =
     (let i = ev_top st
      in if MAX_STACK \<le> i then Overflow
         else bnd (rd line pos (ev_values st ! i)) (\<lambda>(status, pos, value).
           let vs = (ev_values st)[i := value]
           in if status \<noteq> Status_OK then Done (status, pos, st\<lparr>ev_values := vs\<rparr>)
              else case read_operation line pos of
                     (status, pos, operation) \<Rightarrow>
                       if status \<noteq> Status_OK then Done (status, pos, st\<lparr>ev_values := vs\<rparr>)
                       else
                         let ops = (ev_ops st)[i := operation]
                         in if precedence (ops ! (i - 1)) < precedence (ops ! i)
                            then Done (Status_OK, pos, \<lparr>ev_values = vs, ev_ops = ops, ev_top = Suc i\<rparr>)
                            else case reduce (ee_fp env) i vs ops of (status, st) \<Rightarrow> Done (status, pos, st)))"

fun eval_loop :: "nat \<Rightarrow> 'm expr_env \<Rightarrow> reader \<Rightarrow> string \<Rightarrow> nat \<Rightarrow> eval_stack \<Rightarrow> eval_stack reading" where
  "eval_loop n env rd line pos st =
     (if ev_ops st ! 0 = NGCBinaryOp_RightBracket then Done (Status_OK, pos, st)
      else case n of
             0 \<Rightarrow> NoFuel
           | Suc n \<Rightarrow> bnd (eval_step env rd line pos st) (\<lambda>(status, pos, st).
               if status \<noteq> Status_OK then Done (status, pos, st) else eval_loop n env rd line pos st))"

declare eval_loop.simps [simp del]

definition eval_with :: "'m expr_env \<Rightarrow> reader \<Rightarrow> reader" where
  "eval_with env rd line pos old =
     (if cchar line pos \<noteq> CHR ''['' then Done (Status_GcodeUnsupportedCommand, pos, old)
      else bnd (rd line (Suc pos) (ee_junk env)) (\<lambda>(status, pos, value).
        if status \<noteq> Status_OK then Done (status, pos, old)
        else case read_operation line pos of
               (status, pos, operation) \<Rightarrow>
                 if status \<noteq> Status_OK then Done (status, pos, old)
                 else bnd (eval_loop (Suc (length line)) env rd line pos
                     \<lparr>ev_values = (replicate MAX_STACK (ee_junk env))[0 := value],
                      ev_ops = (replicate MAX_STACK NGCBinaryOp_NoOp)[0 := operation], ev_top = 1\<rparr>)
                   (\<lambda>(status, pos, st).
                     Done (status, pos, if status = Status_OK then ev_values st ! 0 else old))))"

fun ngc_read_real_value :: "nat \<Rightarrow> 'm expr_env \<Rightarrow> reader" where
  "ngc_read_real_value 0 env line pos old = NoFuel"
| "ngc_read_real_value (Suc n) env line pos old =
     real_step env (eval_with env (ngc_read_real_value n env)) (ngc_read_real_value n env) line pos old"

definition ngc_eval_expression :: "'m expr_env \<Rightarrow> reader" where
  "ngc_eval_expression env line pos old =
     eval_with env (ngc_read_real_value (Suc (length line)) env) line pos old"

definition read_real_value :: "'m expr_env \<Rightarrow> reader" where
  "read_real_value env line pos old = ngc_read_real_value (Suc (length line)) env line pos old"

end
