(* ===== verification/Ngc_Expr_Props.thy ===== *)
theory Ngc_Expr_Props
  imports Ngc_Expr
begin

text \<open>
  What the expression evaluator computes. The reference semantics takes the operators one level of
  precedence after the other, tightest first and left to right within a level; the evaluator, which
  works on two stacks of seven entries while it reads, gives the same value. It always returns, and
  it stays inside its arrays unless a parameter name is too long for its buffer.
\<close>

subsection \<open>Reference semantics\<close>

text \<open>An expression is a list of operators with the operands on their right; the operator of the
  first entry is not used. \<open>None\<close> is a failing operation.\<close>

type_synonym operand_list = "(ngc_binary_op \<times> flt) list"

definition apply_op :: "fpu \<Rightarrow> flt \<Rightarrow> ngc_binary_op \<Rightarrow> flt \<Rightarrow> flt option" where
  "apply_op fp v operation w =
     (case execute_binary fp v operation w of (status, x) \<Rightarrow> if status = Status_OK then Some x else None)"

fun collapse :: "fpu \<Rightarrow> nat \<Rightarrow> operand_list \<Rightarrow> operand_list option" where
  "collapse fp p [] = Some []"
| "collapse fp p [x] = Some [x]"
| "collapse fp p ((l, v) # (operation, w) # r) =
     (if precedence operation = p
      then Option.bind (apply_op fp v operation w) (\<lambda>x. collapse fp p ((l, x) # r))
      else map_option ((#) (l, v)) (collapse fp p ((operation, w) # r)))"

fun levels :: "fpu \<Rightarrow> nat list \<Rightarrow> operand_list \<Rightarrow> operand_list option" where
  "levels fp [] xs = Some xs"
| "levels fp (p # ps) xs = Option.bind (collapse fp p xs) (levels fp ps)"

definition expr_value :: "fpu \<Rightarrow> operand_list \<Rightarrow> flt option" where
  "expr_value fp xs = map_option (\<lambda>ys. snd (hd ys)) (levels fp [6, 5, 4, 3, 2] xs)"

lemma map_option_append [simp]:
  "map_option ((@) []) x = x"
  "map_option ((@) (y # ys)) x = map_option ((#) y) (map_option ((@) ys) x)"
  by (cases x; simp)+

lemma collapse_sep:
  "precedence operation \<noteq> p \<Longrightarrow>
     collapse fp p (xs @ (operation, b) # r) =
       Option.bind (collapse fp p xs) (\<lambda>xs'. map_option ((@) xs') (collapse fp p ((operation, b) # r)))"
proof (induction fp p xs rule: collapse.induct)
  case (1 fp p)
  then show ?case by simp
next
  case (2 fp p x)
  then show ?case by (cases x) (auto simp: option.map_comp comp_def)
next
  case (3 fp p l v operation' w r')
  then show ?case
    by (cases "precedence operation' = p")
       (auto simp: Option.bind_map_option option.map_comp comp_def map_option_bind
         split: Option.bind_splits)
qed

text \<open>A level that an entry's right neighbour does not belong to leaves the entry alone.\<close>

definition heads_below :: "nat \<Rightarrow> operand_list \<Rightarrow> bool" where
  "heads_below q r \<longleftrightarrow> (case r of [] \<Rightarrow> True | x # _ \<Rightarrow> precedence (fst x) \<le> q)"

lemma collapse_hd: "collapse fp p ((l, v) # r) = Some ys \<Longrightarrow> fst (hd ys) = l \<and> ys \<noteq> []"
  by (induction "fp" p "(l, v) # r" arbitrary: v r ys rule: collapse.induct)
     (auto split: if_splits Option.bind_splits)

lemma collapse_alone:
  assumes "heads_below q r" and "q < p"
  shows "collapse fp p ((l, v) # r) = map_option ((#) (l, v)) (collapse fp p r)"
  using assms by (cases r) (auto simp: heads_below_def)

lemma collapse_heads:
  assumes "heads_below q r" and "collapse fp p r = Some r'"
  shows "heads_below q r'"
  using assms collapse_hd by (cases r; cases r') (fastforce simp: heads_below_def split: list.splits)+

lemma collapse_last:
  assumes "collapse fp p xs = Some ys" and "xs \<noteq> []"
  shows "ys \<noteq> []"
  using assms collapse_hd by (cases xs) (auto, metis)

text \<open>Applying an operator that binds tighter than the one on its left and at least as tightly as the
  one on its right first does not change the value.\<close>

lemma levels_reduce:
  assumes "l = [] \<or> precedence (fst x) < precedence operation"
    and "heads_below (precedence operation) r"
    and "precedence operation \<in> set ps" and "sorted_wrt (>) ps"
  shows "levels fp ps (l @ x # (operation, b) # r) =
    Option.bind (apply_op fp (snd x) operation b) (\<lambda>c. levels fp ps (l @ (fst x, c) # r))"
  using assms
proof (induction ps arbitrary: l r)
  case Nil
  then show ?case by simp
next
  case (Cons p ps)
  obtain o1 a where x: "x = (o1, a)" by force
  let ?q = "precedence operation"
  have left: "collapse fp p (l @ (o1, v) # r') =
      Option.bind (collapse fp p l) (\<lambda>l'. map_option ((@) l') (collapse fp p ((o1, v) # r')))"
    if "?q \<le> p" for v r'
  proof (cases "l = []")
    case True
    then show ?thesis by simp
  next
    case False
    with Cons.prems(1) that x have "precedence o1 \<noteq> p" by auto
    then show ?thesis by (rule collapse_sep)
  qed
  show ?case
  proof (cases "?q = p")
    case True
    then show ?thesis
      by (auto simp: x left split: Option.bind_splits)
  next
    case False
    with Cons.prems have q: "?q < p" and mem: "?q \<in> set ps" by auto
    have sides: "collapse fp p ((o1, v) # r) = map_option ((#) (o1, v)) (collapse fp p r)" for v
      using Cons.prems(2) q by (rule collapse_alone)
    have pair: "collapse fp p ((o1, a) # (operation, b) # r) =
        map_option (\<lambda>r'. (o1, a) # (operation, b) # r') (collapse fp p r)"
      using q collapse_alone [OF Cons.prems(2) q, of "fp" operation b]
      by (simp add: option.map_comp comp_def)
    have both: "collapse fp p (l @ (o1, a) # (operation, b) # r) =
        Option.bind (collapse fp p l) (\<lambda>l'.
          map_option (\<lambda>r'. l' @ (o1, a) # (operation, b) # r') (collapse fp p r))"
      using q by (simp only: left pair option.map_comp comp_def less_imp_le)
    have step: "levels fp ps (l' @ x # (operation, b) # r') =
        Option.bind (apply_op fp a operation b) (\<lambda>c. levels fp ps (l' @ (o1, c) # r'))"
      if "collapse fp p l = Some l'" "collapse fp p r = Some r'" for l' r'
    proof -
      have "l' = [] \<or> precedence (fst x) < ?q"
        using Cons.prems(1) that(1) by auto
      moreover have "heads_below ?q r'"
        using Cons.prems(2) that(2) by (rule collapse_heads)
      ultimately show ?thesis
        using Cons.IH mem Cons.prems(4) x by simp
    qed
    show ?thesis
      using q
      by (cases "collapse fp p l"; cases "collapse fp p r"; cases "apply_op fp a operation b")
         (use step in \<open>auto simp: x both left sides\<close>)
  qed
qed

lemma precedence_bounds: "1 \<le> precedence operation" "precedence operation \<le> 6"
  by (cases operation; simp add: precedence_def)+

lemma precedence_levels: "operation \<noteq> NGCBinaryOp_RightBracket \<Longrightarrow> precedence operation \<in> set [6, 5, 4, 3, 2]"
  by (cases operation) (simp_all add: precedence_def)

lemma expr_value_reduce:
  assumes "l = [] \<or> precedence (fst x) < precedence operation"
    and "heads_below (precedence operation) r"
    and "operation \<noteq> NGCBinaryOp_RightBracket"
  shows "expr_value fp (l @ x # (operation, b) # r) =
    Option.bind (apply_op fp (snd x) operation b) (\<lambda>c. expr_value fp (l @ (fst x, c) # r))"
  unfolding expr_value_def
  using levels_reduce [OF assms(1,2) precedence_levels [OF assms(3)]]
  by (auto simp: map_option_bind comp_def split: Option.bind_splits)

subsection \<open>The stacks compute the reference semantics\<close>

text \<open>The operands and operators still to be read: each operand with the operator after it, the last
  operator being the right bracket.\<close>

fun ends_in_bracket :: "ngc_binary_op \<Rightarrow> (flt \<times> ngc_binary_op) list \<Rightarrow> bool" where
  "ends_in_bracket operation [] \<longleftrightarrow> operation = NGCBinaryOp_RightBracket"
| "ends_in_bracket operation ((v, next) # toks) \<longleftrightarrow>
     operation \<noteq> NGCBinaryOp_RightBracket \<and> ends_in_bracket next toks"

fun operands :: "ngc_binary_op \<Rightarrow> (flt \<times> ngc_binary_op) list \<Rightarrow> operand_list" where
  "operands operation [] = []"
| "operands operation ((v, next) # toks) = (operation, v) # operands next toks"

lemma heads_below_operands: "heads_below q (operands operation toks)" if "precedence operation \<le> q"
  using that by (cases toks) (auto simp: heads_below_def)

text \<open>What the first i entries of the stacks stand for.\<close>

definition stacked :: "nat \<Rightarrow> flt list \<Rightarrow> ngc_binary_op list \<Rightarrow> operand_list" where
  "stacked i vs ops = zip (NGCBinaryOp_NoOp # take (i - 1) ops) (take i vs)"

definition stack_ok :: "nat \<Rightarrow> flt list \<Rightarrow> ngc_binary_op list \<Rightarrow> bool" where
  "stack_ok i vs ops \<longleftrightarrow> length vs = MAX_STACK \<and> length ops = MAX_STACK \<and> 0 < i \<and>
     (\<forall>j < i. \<forall>k < j. precedence (ops ! k) < precedence (ops ! j))"

lemma stacked_Suc:
  assumes "Suc i \<le> length vs" and "Suc i \<le> length ops" and "0 < i"
  shows "stacked (Suc i) vs ops = stacked i vs ops @ [(ops ! (i - 1), vs ! i)]"
proof -
  obtain k where k: "i = Suc k" using assms by (cases i) auto
  with assms show ?thesis
    by (simp add: stacked_def take_Suc_conv_app_nth [of "Suc k" vs] take_Suc_conv_app_nth [of k ops]
      zip_append [of "NGCBinaryOp_NoOp # take k ops" "take (Suc k) vs" "[ops ! k]", simplified])
qed

lemma stacked_update: "i \<le> j \<Longrightarrow> stacked i (vs[j := v]) ops = stacked i vs ops"
  "i \<le> Suc j \<Longrightarrow> stacked i vs (ops[j := q]) = stacked i vs ops"
  by (auto simp: stacked_def)

lemma stack_height: "stack_ok i vs ops \<Longrightarrow> i \<le> 6"
proof -
  assume ok: "stack_ok i vs ops"
  have "j < i \<Longrightarrow> j < precedence (ops ! j)" for j
  proof (induction j)
    case 0
    then show ?case using precedence_bounds(1) [of "ops ! 0"] by simp
  next
    case (Suc j)
    then have "precedence (ops ! j) < precedence (ops ! Suc j)"
      using ok by (auto simp: stack_ok_def)
    with Suc show ?case by simp
  qed
  from this [of "i - 1"] precedence_bounds(2) [of "ops ! (i - 1)"] ok show "i \<le> 6"
    by (auto simp: stack_ok_def)
qed

lemma stacked_top:
  assumes "stack_ok (Suc k) vs ops"
  obtains l x where "stacked (Suc k) vs ops = l @ [x]" and "snd x = vs ! k"
    and "l = [] \<or> precedence (fst x) < precedence (ops ! k)"
    and "\<And>c q. stacked (Suc k) (vs[k := c]) (ops[k := q]) = l @ [(fst x, c)]"
proof -
  have len: "length vs = 7" "length ops = 7" "k < 6"
    using assms stack_height [OF assms] by (auto simp: stack_ok_def MAX_STACK_def)
  show thesis
  proof (cases k)
    case 0
    have "stacked (Suc 0) us qs = [(NGCBinaryOp_NoOp, us ! 0)]" if "length us = 7" for us qs
      using that by (cases us) (auto simp: stacked_def)
    with that [of "[]" "(NGCBinaryOp_NoOp, vs ! 0)"] 0 len show thesis by simp
  next
    case (Suc j)
    then have "precedence (ops ! j) < precedence (ops ! k)"
      using assms by (auto simp: stack_ok_def)
    moreover have "stacked (Suc k) us qs = stacked k us qs @ [(qs ! j, us ! k)]"
      if "length us = 7" "length qs = 7" for us qs
      using stacked_Suc [of k us qs] that len Suc by simp
    ultimately show thesis
      using that [of "stacked k vs ops" "(ops ! j, vs ! k)"] len Suc
      by (simp add: stacked_update)
  qed
qed

definition pending :: "eval_stack \<Rightarrow> (flt \<times> ngc_binary_op) list \<Rightarrow> operand_list" where
  "pending st toks =
     stacked (ev_top st) (ev_values st) (ev_ops st) @ operands (ev_ops st ! (ev_top st - 1)) toks"

definition eval_inv :: "eval_stack \<Rightarrow> (flt \<times> ngc_binary_op) list \<Rightarrow> bool" where
  "eval_inv st toks \<longleftrightarrow> stack_ok (ev_top st) (ev_values st) (ev_ops st) \<and>
     (1 < ev_top st \<longrightarrow> ev_ops st ! 0 \<noteq> NGCBinaryOp_RightBracket) \<and>
     ends_in_bracket (ev_ops st ! (ev_top st - 1)) toks"

lemma stack_ok_update:
  "stack_ok (Suc k) vs ops \<Longrightarrow> (0 < k \<Longrightarrow> precedence (ops ! (k - 1)) < precedence q) \<Longrightarrow>
     stack_ok (Suc k) (vs[k := c]) (ops[k := q])"
proof -
  assume ok: "stack_ok (Suc k) vs ops" and q: "0 < k \<Longrightarrow> precedence (ops ! (k - 1)) < precedence q"
  have "precedence (ops ! m) < precedence q" if "m < k" for m
  proof (cases "m = k - 1")
    case True
    with q that show ?thesis by simp
  next
    case False
    with that ok have "precedence (ops ! m) < precedence (ops ! (k - 1))" by (simp add: stack_ok_def)
    with q that show ?thesis by simp
  qed
  with ok stack_height [OF ok] show ?thesis
    by (auto simp: stack_ok_def nth_list_update less_Suc_eq MAX_STACK_def)
qed

lemma not_bracket:
  assumes "stack_ok i vs ops" and "ops ! 0 \<noteq> NGCBinaryOp_RightBracket" and "j < i"
  shows "ops ! j \<noteq> NGCBinaryOp_RightBracket"
proof (cases "j = 0")
  case False
  with assms have "precedence (ops ! 0) < precedence (ops ! j)" by (auto simp: stack_ok_def)
  with precedence_bounds(1) [of "ops ! 0"] show ?thesis by (auto simp: precedence_def)
qed (use assms in simp)

lemma reduce_correct:
  assumes "stack_ok i vs ops" and "0 < i" and "ops ! 0 \<noteq> NGCBinaryOp_RightBracket"
    and "precedence (ops ! i) \<le> precedence (ops ! (i - 1))" and "ends_in_bracket (ops ! i) toks"
    and "reduce fp i vs ops = (status, st)"
  shows "if status = Status_OK
    then eval_inv st toks \<and> expr_value fp (stacked (Suc i) vs ops @ operands (ops ! i) toks) =
           expr_value fp (pending st toks)
    else expr_value fp (stacked (Suc i) vs ops @ operands (ops ! i) toks) = None"
  using assms
proof (induction i arbitrary: vs ops)
  case 0
  then show ?case by simp
next
  case (Suc k)
  have len: "length vs = 7" "length ops = 7" "k < 6"
    using Suc.prems(1) stack_height [OF Suc.prems(1)] by (auto simp: stack_ok_def MAX_STACK_def)
  obtain l x where x: "stacked (Suc k) vs ops = l @ [x]" "snd x = vs ! k"
    "l = [] \<or> precedence (fst x) < precedence (ops ! k)"
    "\<And>c q. stacked (Suc k) (vs[k := c]) (ops[k := q]) = l @ [(fst x, c)]"
    using Suc.prems(1) by (rule stacked_top) blast
  have nb: "ops ! k \<noteq> NGCBinaryOp_RightBracket"
    using not_bracket [OF Suc.prems(1,3)] by simp
  obtain s c where e: "execute_binary fp (vs ! k) (ops ! k) (vs ! Suc k) = (s, c)" by force
  have "heads_below (precedence (ops ! k)) (operands (ops ! Suc k) toks)"
    using Suc.prems(4) by (simp add: heads_below_operands)
  from expr_value_reduce [OF x(3) this nb, of "fp" "vs ! Suc k"]
  have val: "expr_value fp (stacked (Suc (Suc k)) vs ops @ operands (ops ! Suc k) toks) =
      (if s = Status_OK then expr_value fp (l @ (fst x, c) # operands (ops ! Suc k) toks) else None)"
    using len by (simp add: stacked_Suc x apply_op_def e)
  let ?vs = "vs[k := c]" and ?ops = "ops[k := ops ! Suc k]"
  show ?case
  proof (cases "s = Status_OK")
    case False
    with Suc.prems(6) val e show ?thesis by (auto simp: Let_def)
  next
    case s: True
    show ?thesis
    proof (cases "0 < k \<and> precedence (ops ! Suc k) \<le> precedence (ops ! (k - 1))")
      case False
      with Suc.prems(6) e s len
      have st: "status = Status_OK" "st = \<lparr>ev_values = ?vs, ev_ops = ?ops, ev_top = Suc k\<rparr>"
        by (auto simp: Let_def nth_list_update split: if_splits)
      have "stack_ok (Suc k) ?vs ?ops"
        using False by (intro stack_ok_update [OF Suc.prems(1)]) auto
      with Suc.prems(3,5) len s val show ?thesis
        by (auto simp: st eval_inv_def pending_def x nth_list_update)
    next
      case more: True
      have ok: "stack_ok k ?vs ?ops"
        using Suc.prems(1) more by (auto simp: stack_ok_def nth_list_update)
      have k: "k \<noteq> k - Suc 0" using more by arith
      then have red: "reduce fp k ?vs ?ops = (status, st)"
        using Suc.prems(6) e s len more by (simp add: Let_def nth_list_update)
      show ?thesis
        using Suc.IH [OF ok _ _ _ _ red] more k s val len Suc.prems(3,5)
        by (cases "status = Status_OK") (simp_all add: nth_list_update x)
    qed
  qed
qed

subsection \<open>Reading and evaluating\<close>

text \<open>The line holds, from a position on, operands and operators that all read without error.\<close>

fun tokens_at :: "reader \<Rightarrow> string \<Rightarrow> nat \<Rightarrow> (flt \<times> ngc_binary_op) list \<Rightarrow> nat \<Rightarrow> bool" where
  "tokens_at rd line pos [] pos' \<longleftrightarrow> pos = pos'"
| "tokens_at rd line pos ((v, operation) # toks) pos' \<longleftrightarrow>
     (\<exists>p q. (\<forall>old. rd line pos old = Done (Status_OK, p, v)) \<and>
        read_operation line p = (Status_OK, q, operation) \<and> tokens_at rd line q toks pos')"

lemma expr_value_single [simp]: "expr_value fp [(operation, v)] = Some v"
  by (simp add: expr_value_def)

lemma eval_inv_done:
  assumes "eval_inv st []"
  shows "ev_ops st ! 0 = NGCBinaryOp_RightBracket"
    and "expr_value fp (pending st []) = Some (ev_values st ! 0)"
proof -
  obtain k where k: "ev_top st = Suc k" using assms by (cases "ev_top st") (auto simp: eval_inv_def stack_ok_def)
  have "k = 0"
    using assms not_bracket [of "Suc k" "ev_values st" "ev_ops st" k] k by (auto simp: eval_inv_def)
  with assms k show "ev_ops st ! 0 = NGCBinaryOp_RightBracket" by (simp add: eval_inv_def)
  have "length (ev_values st) = 7" using assms by (simp add: eval_inv_def stack_ok_def MAX_STACK_def)
  then have "take (Suc 0) (ev_values st) = [ev_values st ! 0]" by (cases "ev_values st") simp_all
  with k \<open>k = 0\<close> show "expr_value fp (pending st []) = Some (ev_values st ! 0)"
    by (simp add: pending_def stacked_def)
qed

lemma eval_inv_more:
  "eval_inv st (t # toks) \<Longrightarrow> ev_ops st ! 0 \<noteq> NGCBinaryOp_RightBracket"
  by (cases t; cases "ev_top st = 1") (auto simp: eval_inv_def stack_ok_def)

lemma eval_step_correct:
  assumes inv: "eval_inv st ((v, operation) # toks)"
    and rd: "rd line pos (ev_values st ! ev_top st) = Done (Status_OK, p, v)"
    and op: "read_operation line p = (Status_OK, q, operation)"
  obtains status st' where "eval_step env rd line pos st = Done (status, q, st')"
    and "if status = Status_OK
         then eval_inv st' toks \<and>
           expr_value (ee_fp env) (pending st ((v, operation) # toks)) = expr_value (ee_fp env) (pending st' toks)
         else expr_value (ee_fp env) (pending st ((v, operation) # toks)) = None"
proof -
  let ?i = "ev_top st"
  let ?vs = "(ev_values st)[?i := v]" and ?ops = "(ev_ops st)[?i := operation]"
  have ok: "stack_ok ?i (ev_values st) (ev_ops st)" and i: "0 < ?i"
    and nb: "ev_ops st ! 0 \<noteq> NGCBinaryOp_RightBracket" and e: "ends_in_bracket operation toks"
    using inv eval_inv_more [OF inv] by (auto simp: eval_inv_def stack_ok_def)
  note h = stack_height [OF ok]
  have len: "length (ev_values st) = 7" "length (ev_ops st) = 7"
    using ok by (auto simp: stack_ok_def MAX_STACK_def)
  have ok': "stack_ok ?i ?vs ?ops" using ok by (auto simp: stack_ok_def nth_list_update)
  have pend: "stacked (Suc ?i) ?vs ?ops @ operands (?ops ! ?i) toks = pending st ((v, operation) # toks)"
    using i h len by (simp add: pending_def stacked_Suc stacked_update)
  show thesis
  proof (cases "precedence (?ops ! (?i - 1)) < precedence (?ops ! ?i)")
    case True
    let ?st = "\<lparr>ev_values = ?vs, ev_ops = ?ops, ev_top = Suc ?i\<rparr>"
    have "precedence (?ops ! k) < precedence operation" if "k < ?i" for k
    proof (cases "k = ?i - 1")
      case False
      with that ok have "precedence (ev_ops st ! k) < precedence (ev_ops st ! (?i - 1))"
        by (auto simp: stack_ok_def)
      with True that h len i show ?thesis by (simp add: nth_list_update)
    qed (use True h len in simp)
    then have "stack_ok (Suc ?i) ?vs ?ops"
      using ok' h len by (auto simp: stack_ok_def less_Suc_eq)
    then have "eval_inv ?st toks"
      using nb e i h len by (simp add: eval_inv_def nth_list_update)
    moreover have "pending ?st toks = pending st ((v, operation) # toks)"
      using pend by (simp add: pending_def)
    ultimately show thesis
      using that [of Status_OK ?st] True h by (simp add: eval_step_def rd op MAX_STACK_def Let_def)
  next
    case False
    obtain s st' where r: "reduce (ee_fp env) ?i ?vs ?ops = (s, st')" by force
    have nb': "?ops ! 0 \<noteq> NGCBinaryOp_RightBracket" using nb i by (simp add: nth_list_update)
    have le: "precedence (?ops ! ?i) \<le> precedence (?ops ! (?i - 1))" using False by simp
    have e': "ends_in_bracket (?ops ! ?i) toks" using e h len by simp
    have "eval_step env rd line pos st = Done (s, q, st')"
      using False r h len by (simp add: eval_step_def rd op MAX_STACK_def Let_def)
    then show thesis
      by (rule that [OF _ reduce_correct [OF ok' i nb' le e' r, unfolded pend]])
  qed
qed

lemma eval_loop_correct:
  assumes "eval_inv st toks" and "tokens_at rd line pos toks pos'" and "length toks \<le> n"
  shows "case expr_value (ee_fp env) (pending st toks) of
      Some v \<Rightarrow> \<exists>st'. eval_loop n env rd line pos st = Done (Status_OK, pos', st') \<and> ev_values st' ! 0 = v
    | None \<Rightarrow> \<exists>s p st'. s \<noteq> Status_OK \<and> eval_loop n env rd line pos st = Done (s, p, st')"
  using assms
proof (induction toks arbitrary: st pos n)
  case Nil
  then show ?case by (simp add: eval_inv_done eval_loop.simps)
next
  case (Cons t toks)
  obtain v operation where t: "t = (v, operation)" by force
  obtain p q where rd: "\<And>old. rd line pos old = Done (Status_OK, p, v)"
    and op: "read_operation line p = (Status_OK, q, operation)" and more: "tokens_at rd line q toks pos'"
    using Cons.prems(2) t by auto
  obtain m where n: "n = Suc m" using Cons.prems(3) by (cases n) auto
  obtain s st' where step: "eval_step env rd line pos st = Done (s, q, st')"
    and val: "if s = Status_OK
         then eval_inv st' toks \<and>
           expr_value (ee_fp env) (pending st (t # toks)) = expr_value (ee_fp env) (pending st' toks)
         else expr_value (ee_fp env) (pending st (t # toks)) = None"
    using eval_step_correct [OF Cons.prems(1) [unfolded t],
        where rd = rd and line = line and pos = pos and p = p and q = q and env = env] rd op
    unfolding t by metis
  have "eval_loop n env rd line pos st =
      (if s \<noteq> Status_OK then Done (s, q, st') else eval_loop m env rd line q st')"
    using eval_inv_more [OF Cons.prems(1)] by (subst eval_loop.simps) (simp add: n step)
  then show ?case
    using val Cons.IH [OF _ more, of st' m] Cons.prems(3) n
    by (cases "s = Status_OK") (auto split: option.splits)
qed

subsection \<open>Every line is read to an end\<close>

text \<open>No name is longer than its buffer: the names of parameters, and what EXISTS takes for one.\<close>

definition names_fit :: "string \<Rightarrow> bool" where
  "names_fit line \<longleftrightarrow>
     (\<forall>i < length line. line ! i = CHR ''<'' \<longrightarrow>
        length (takeWhile (\<lambda>c. c \<noteq> CHR ''>'') (drop (Suc i) line)) \<le> NGC_MAX_PARAM_LENGTH \<and>
        (8 \<le> i \<and> word_at line (i - 8) ''EXISTS[#'' \<longrightarrow>
           length (takeWhile (\<lambda>c. c \<noteq> CHR '']'') (drop (Suc i) line)) \<le> Suc NGC_MAX_PARAM_LENGTH))"

definition returns :: "string \<Rightarrow> nat \<Rightarrow> 'a reading \<Rightarrow> bool" where
  "returns line pos r \<longleftrightarrow>
     (case r of
        Done (status, p, _) \<Rightarrow> pos \<le> p \<and> (status = Status_OK \<longrightarrow> pos < p)
      | Overflow \<Rightarrow> \<not> names_fit line
      | NoFuel \<Rightarrow> False)"

lemma returns_simps [simp]:
  "returns line pos (Done (status, p, v)) \<longleftrightarrow> pos \<le> p \<and> (status = Status_OK \<longrightarrow> pos < p)"
  "returns line pos Overflow \<longleftrightarrow> \<not> names_fit line"
  "returns line pos NoFuel \<longleftrightarrow> False"
  by (simp_all add: returns_def)

lemma returns_mono: "returns line q r \<Longrightarrow> pos \<le> q \<Longrightarrow> returns line pos r"
  by (auto simp: returns_def split: outcome.splits)

lemma returns_bnd:
  assumes "returns line q r"
    and "\<And>status p v. r = Done (status, p, v) \<Longrightarrow> q \<le> p \<Longrightarrow> (status = Status_OK \<Longrightarrow> q < p) \<Longrightarrow>
           returns line pos (f (status, p, v))"
  shows "returns line pos (bnd r f)"
proof (cases r)
  case (Done x)
  then obtain status p v where "r = Done (status, p, v)" by (cases x) auto
  with assms show ?thesis by simp
qed (use assms(1) in auto)

lemma cchar_in: "cchar line i = c \<Longrightarrow> c \<noteq> NUL \<Longrightarrow> i < length line \<and> line ! i = c"
  by (auto simp: cchar_def split: if_splits)

lemma word_at_Nil [simp]: "word_at line pos []"
  by (simp add: word_at_def)

lemma word_at_Cons [simp]:
  assumes c: "c \<noteq> NUL"
  shows "word_at line pos (c # w) \<longleftrightarrow> cchar line pos = c \<and> word_at line (Suc pos) w"
proof (cases "pos < length line")
  case True
  then show ?thesis using Cons_nth_drop_Suc [OF True, symmetric] by (auto simp: word_at_def cchar_def)
next
  case False
  with c show ?thesis by (auto simp: word_at_def cchar_def)
qed

lemma length_name_loop:
  "name_loop cs name = (c, name') \<Longrightarrow>
     length name' \<le> length name + length (takeWhile (\<lambda>c. c \<noteq> CHR ''>'') cs)"
  by (induction cs name rule: name_loop.induct) (auto split: if_splits)

lemma read_name_returns:
  assumes "cchar line pos = CHR ''<''"
  shows "returns line pos (ngc_read_name line pos)"
    and "names_fit line \<Longrightarrow> ngc_read_name line pos = Done (Status_OK, p, name) \<Longrightarrow>
           length name \<le> NGC_MAX_PARAM_LENGTH"
proof -
  obtain c nm where l: "name_loop (drop (Suc pos) line) '''' = (c, nm)" by force
  have "line ! pos = CHR ''<'' \<and> pos < length line" using assms cchar_in by (auto simp: NUL_def)
  then have fit: "names_fit line \<Longrightarrow> length nm \<le> NGC_MAX_PARAM_LENGTH"
    using length_name_loop [OF l] unfolding names_fit_def by fastforce
  then show "returns line pos (ngc_read_name line pos)"
    using assms l by (auto simp: ngc_read_name_def status_defs)
  show "length name \<le> NGC_MAX_PARAM_LENGTH"
    if "names_fit line" "ngc_read_name line pos = Done (Status_OK, p, name)"
    using that fit assms l by (auto simp: ngc_read_name_def status_defs split: if_splits)
qed

lemma short_name:
  assumes "length name \<le> NGC_MAX_PARAM_LENGTH"
  shows "ngc_named_param_get fp g s name old \<noteq> None"
proof -
  have "length (filter (\<lambda>c. 32 < (of_char c :: nat)) name) \<le> NGC_MAX_PARAM_LENGTH"
    using length_filter_le assms by (rule le_trans)
  then show ?thesis
    by (auto simp: ngc_named_param_get_def ngc_name_tolower_def name_chars_def)
qed

lemma short_exists:
  "length name \<le> NGC_MAX_PARAM_LENGTH \<Longrightarrow> ngc_named_param_exists fp g s name \<noteq> None"
  using short_name [of name "fp" g s f_zero] by (simp add: ngc_named_param_exists_def)

lemma float_loop_progress:
  "float_loop cs n isdecimal ok nd v ex = (ok', v', ex', n') \<Longrightarrow> n \<le> n' \<and> (ok' \<longrightarrow> ok \<or> n < n')"
  by (induction cs n isdecimal ok nd v ex rule: float_loop.induct)
     (fastforce simp: Let_def split: if_splits)+

lemma read_operation_pos: "read_operation line pos = (status, p, operation) \<Longrightarrow> pos < p"
  by (auto simp: read_operation_def Let_def split: if_splits)

lemma read_operation_unary_pos: "read_operation_unary line pos = (status, p, operation) \<Longrightarrow> pos < p"
  by (auto simp: read_operation_unary_def Let_def split: if_splits)

lemma read_float_pos: "read_float fp line pos old = (ok, p, v) \<Longrightarrow> pos \<le> p"
  by (auto simp: read_float_def Let_def split: prod.splits if_splits)

lemma read_float_progress: "read_float fp line pos old = (True, p, v) \<Longrightarrow> pos < p"
  by (auto simp: read_float_def Let_def split: prod.splits if_splits dest!: float_loop_progress)

lemma read_operation_progress: "read_operation line pos = (Status_OK, p, operation) \<Longrightarrow> pos < p \<and> pos < length line"
  by (auto simp: read_operation_def Let_def status_defs cchar_def NUL_def split: if_splits)

lemma read_unary_progress:
  assumes "read_operation_unary line pos = (Status_OK, p, operation)"
  shows "pos < p"
    and "operation = NGCUnaryOp_Exists \<Longrightarrow> p = pos + 6 \<and> word_at line pos ''EXISTS''"
  using assms
  by (auto simp: read_operation_unary_def Let_def status_defs NUL_def split: if_splits)

text \<open>A reader that returns at every position after \<open>pos\<close>.\<close>

definition returns_after :: "string \<Rightarrow> nat \<Rightarrow> reader \<Rightarrow> bool" where
  "returns_after line pos rd \<longleftrightarrow> (\<forall>q old. pos < q \<longrightarrow> returns line q (rd line q old))"

lemma read_integer_returns:
  assumes "returns_after line pos rd" and "pos < q"
  shows "returns line q (ngc_read_integer_value env rd line q)"
  unfolding ngc_read_integer_value_def
proof (rule returns_bnd)
  show "returns line q (rd line q (ee_junk env))" using assms by (simp add: returns_after_def)
qed (auto simp: Let_def)

lemma read_parameter_returns:
  assumes "returns_after line pos rd"
  shows "returns line pos (ngc_read_parameter env rd line pos old check)"
proof (cases "cchar line pos = CHR ''#''")
  case False
  then show ?thesis by (simp add: ngc_read_parameter_def status_defs)
next
  case hash: True
  show ?thesis
  proof (cases "cchar line (Suc pos) = CHR ''<''")
    case True
    have "returns line pos (bnd (ngc_read_name line (Suc pos)) (\<lambda>(status, pos, name).
             if status \<noteq> Status_OK then Done (status, pos, old)
             else case ngc_named_param_get (ee_fp env) (ee_machine env) (ee_params env) name old of
                    None \<Rightarrow> Overflow
                  | Some (found, value) \<Rightarrow>
                      Done (if found then Status_OK else Status_BadNumberFormat, pos, value)))"
    proof (rule returns_bnd [OF read_name_returns(1) [OF True]], goal_cases)
      case (1 status p name)
      have "ngc_named_param_get (ee_fp env) (ee_machine env) (ee_params env) name old \<noteq> None"
        if "names_fit line" and "status = Status_OK"
        using that 1(1) by (intro short_name read_name_returns(2) [OF True]) simp_all
      with 1 show ?case
        by (cases "ngc_named_param_get (ee_fp env) (ee_machine env) (ee_params env) name old")
           (auto simp: status_defs split: prod.splits)
    qed
    with hash True show ?thesis by (simp add: ngc_read_parameter_def)
  next
    case False
    have "returns line pos (bnd (ngc_read_integer_value env rd line (Suc pos)) (\<lambda>(status, pos, param).
             if status \<noteq> Status_OK then Done (status, pos, old)
             else if param < 0 \<or> (check \<and> \<not> ngc_param_exists (param_id param))
             then Done (Status_GcodeValueOutOfRange, pos, old)
             else case ngc_param_get (ee_fp env) (ee_machine env) (ee_params env) (param_id param) of
                    (found, value) \<Rightarrow>
                      Done (if found then Status_OK else Status_GcodeValueOutOfRange, pos, value)))"
      by (rule returns_bnd [OF read_integer_returns [OF assms lessI]])
         (auto split: prod.splits simp: status_defs)
    with hash False show ?thesis by (simp add: ngc_read_parameter_def)
  qed
qed

text \<open>The reference's sign is consumed even when reading it fails.\<close>

lemma read_parameter_advances:
  assumes "returns_after line pos rd" and "cchar line pos = CHR ''#''"
    and "ngc_read_parameter env rd line pos old check = Done (status, p, v)"
  shows "pos < p"
proof -
  have "returns line (Suc pos) (ngc_read_integer_value env rd line (Suc pos))"
    using assms(1) by (rule read_integer_returns) simp
  with assms read_name_returns(1) [of line "Suc pos"] show ?thesis
    by (cases "ngc_read_integer_value env rd line (Suc pos)"; cases "ngc_read_name line (Suc pos)")
       (auto simp: ngc_read_parameter_def split: if_splits option.splits prod.splits)
qed

lemma read_atan_returns:
  assumes "returns_after line pos ev" and "pos \<le> q"
  shows "returns line pos (read_atan env ev line q v)"
proof -
  have "returns line pos (bnd (ev line (Suc q) (ee_junk env)) (\<lambda>(status, pos, argument2).
        Done (status, pos,
          if status = Status_OK then f_mul (ee_fp env) (f_atan2 (ee_fp env) v argument2) (DEGRAD (ee_fp env))
          else v)))"
    using assms by (intro returns_bnd [of line "Suc q"]) (auto simp: returns_after_def)
  then show ?thesis using assms(2) by (simp add: read_atan_def status_defs)
qed

lemma read_exists_returns:
  assumes "8 \<le> Suc pos" and "word_at line (Suc pos - 8) ''EXISTS[''"
  shows "returns line pos (read_exists env line pos old)"
proof (cases "cchar line pos = CHR ''#'' \<and> cchar line (Suc pos) = CHR ''<''")
  case True
  let ?arg = "takeWhile (\<lambda>c. c \<noteq> CHR '']'') (drop (pos + 2) line)"
  have at: "line ! Suc pos = CHR ''<'' \<and> Suc pos < length line"
    using True cchar_in by (auto simp: NUL_def)
  have "word_at line (Suc pos - 8) ''EXISTS[#''"
  proof -
    have "Suc pos - 8 + 7 = pos" using assms(1) by simp
    with assms True show ?thesis by (simp add: NUL_def eval_nat_numeral)
  qed
  with at have "names_fit line \<Longrightarrow> length ?arg \<le> Suc NGC_MAX_PARAM_LENGTH"
    using assms(1) unfolding names_fit_def by fastforce
  then have "names_fit line \<Longrightarrow> length (butlast ?arg) \<le> NGC_MAX_PARAM_LENGTH" by simp
  then have "names_fit line \<Longrightarrow>
      ngc_named_param_exists (ee_fp env) (ee_machine env) (ee_params env) (butlast ?arg) \<noteq> None"
    by (intro short_exists)
  with True show ?thesis
    by (auto simp: read_exists_def Let_def status_defs split: option.splits)
qed (auto simp: read_exists_def status_defs)

lemma read_setting_returns:
  assumes "returns_after line pos rd" and "pos < q"
  shows "returns line pos (read_setting env rd line q old)"
proof -
  let ?finish = "\<lambda>setting p bitnum.
    if cchar line p \<noteq> CHR '']'' then Done (Status_ExpressionSyntaxError, p, old)
    else case setting_value env setting bitnum old of (status, v) \<Rightarrow> Done (status, Suc p, v)"
  have fin: "returns line pos (?finish setting p bitnum)" if "pos < p" for setting p bitnum
    using that by (auto simp: status_defs split: prod.splits)
  have bit: "returns line pos (bnd (ngc_read_integer_value env rd line (Suc p)) (\<lambda>(status, pos, bitnum).
      if status \<noteq> Status_OK then Done (status, pos, old)
      else if bitnum < 0 \<or> 31 < bitnum then Done (Status_ExpressionArgumentOutOfRange, pos, old)
      else ?finish setting pos (Some bitnum)))" if "pos < p" for setting p
  proof (rule returns_bnd)
    show "returns line (Suc p) (ngc_read_integer_value env rd line (Suc p))"
      using that by (intro read_integer_returns [OF assms(1)]) simp
    fix status p' bitnum
    assume "Suc p \<le> p'" "status = Status_OK \<Longrightarrow> Suc p < p'"
    with that fin [of p' setting "Some bitnum"]
    show "returns line pos (case (status, p', bitnum) of (status, pos, bitnum) \<Rightarrow>
      if status \<noteq> Status_OK then Done (status, pos, old)
      else if bitnum < 0 \<or> 31 < bitnum then Done (Status_ExpressionArgumentOutOfRange, pos, old)
      else ?finish setting pos (Some bitnum))"
      by (cases "status = Status_OK"; cases "bitnum < 0 \<or> 31 < bitnum")
         (simp_all add: status_defs)
  qed
  have "returns line q (ngc_read_integer_value env rd line q)"
    using assms by (rule read_integer_returns)
  then show ?thesis
    unfolding read_setting_def Let_def
  proof (rule returns_bnd)
    fix status p setting
    assume "q \<le> p"
    with assms(2) have "pos < p" by simp
    with fin [of p setting None] bit [of p setting]
    show "returns line pos (case (status, p, setting) of (status, pos, setting) \<Rightarrow>
      if status \<noteq> Status_OK then Done (status, pos, old)
      else if cchar line pos = CHR '',''
      then bnd (ngc_read_integer_value env rd line (Suc pos)) (\<lambda>(status, pos, bitnum).
        if status \<noteq> Status_OK then Done (status, pos, old)
        else if bitnum < 0 \<or> 31 < bitnum then Done (Status_ExpressionArgumentOutOfRange, pos, old)
        else ?finish setting pos (Some bitnum))
      else ?finish setting pos None)"
      by simp
  qed
qed

lemma read_unary_returns:
  assumes "returns_after line pos rd" and "returns_after line pos ev"
  shows "returns line pos (read_unary env ev rd line pos old)"
proof -
  obtain status p operation where u: "read_operation_unary line pos = (status, p, operation)"
    by (cases "read_operation_unary line pos") auto
  show ?thesis
  proof (cases "status = Status_OK \<and> cchar line p = CHR ''[''")
    case False
    with u read_operation_unary_pos [OF u] show ?thesis by (auto simp: read_unary_def status_defs)
  next
    case True
    then have p: "pos < p" using read_unary_progress(1) [of line pos p operation] u by simp
    have ex: "returns line pos (read_exists env line (Suc p) old)" if "operation = NGCUnaryOp_Exists"
    proof -
      have "p = pos + 6 \<and> word_at line pos ''EXISTS''"
        using read_unary_progress(2) [of line pos p operation] u True that by simp
      with True have "returns line (Suc p) (read_exists env line (Suc p) old)"
        by (intro read_exists_returns) (simp_all add: NUL_def eval_nat_numeral)
      then show ?thesis by (rule returns_mono) (use p in simp)
    qed
    have "returns line pos (read_setting env rd line (Suc p) old)"
      using assms(1) p by (intro read_setting_returns) simp_all
    moreover have "returns line pos (bnd (ev line p old) (\<lambda>(status, p, value).
        if status \<noteq> Status_OK then Done (status, p, value)
        else if operation = NGCUnaryOp_ATAN then read_atan env ev line p value
        else case execute_unary (ee_fp env) value operation of (status, v) \<Rightarrow> Done (status, p, v)))"
    proof (rule returns_bnd)
      show "returns line p (ev line p old)" using assms(2) p by (simp add: returns_after_def)
      fix status q v
      assume "p \<le> q" "status = Status_OK \<Longrightarrow> p < q"
      with p read_atan_returns [OF assms(2), of q]
      show "returns line pos (case (status, q, v) of (status, p, value) \<Rightarrow>
        if status \<noteq> Status_OK then Done (status, p, value)
        else if operation = NGCUnaryOp_ATAN then read_atan env ev line p value
        else case execute_unary (ee_fp env) value operation of (status, v) \<Rightarrow> Done (status, p, v))"
        by (auto split: prod.splits)
    qed
    ultimately show ?thesis
      using u True ex by (simp add: read_unary_def)
  qed
qed

text \<open>The stacks are never overrun, whatever is read.\<close>

definition stack_inv :: "eval_stack \<Rightarrow> bool" where
  "stack_inv st \<longleftrightarrow> (\<exists>toks. eval_inv st toks)"

definition closing :: "ngc_binary_op \<Rightarrow> (flt \<times> ngc_binary_op) list" where
  "closing operation =
     (if operation = NGCBinaryOp_RightBracket then [] else [(NaN, NGCBinaryOp_RightBracket)])"

lemma stack_inv_next:
  assumes "stack_inv st" and "ev_ops st ! 0 \<noteq> NGCBinaryOp_RightBracket"
  shows "eval_inv st ((v, operation) # closing operation)"
proof -
  obtain toks where e: "eval_inv st toks" using assms(1) by (auto simp: stack_inv_def)
  then have "ev_ops st ! (ev_top st - 1) \<noteq> NGCBinaryOp_RightBracket"
    using assms(2) not_bracket [of "ev_top st" "ev_values st" "ev_ops st" "ev_top st - 1"]
    by (simp add: eval_inv_def stack_ok_def)
  with e show ?thesis by (simp add: eval_inv_def closing_def)
qed

lemma eval_step_returns:
  assumes "stack_inv st" and "ev_ops st ! 0 \<noteq> NGCBinaryOp_RightBracket"
    and "returns line pos (rd line pos (ev_values st ! ev_top st))"
  shows "returns line pos (eval_step env rd line pos st) \<and>
    (\<forall>p st'. eval_step env rd line pos st = Done (Status_OK, p, st') \<longrightarrow> stack_inv st' \<and> pos < length line)"
proof -
  have i: "ev_top st < MAX_STACK"
    using stack_inv_next [OF assms(1,2)] stack_height
    by (fastforce simp: eval_inv_def MAX_STACK_def)
  show ?thesis
  proof (cases "rd line pos (ev_values st ! ev_top st)")
    case (Done x)
    then obtain status p v where d: "rd line pos (ev_values st ! ev_top st) = Done (status, p, v)"
      by (cases x) auto
    obtain status' q operation where r: "read_operation line p = (status', q, operation)"
      by (cases "read_operation line p") auto
    show ?thesis
    proof (cases "status = Status_OK \<and> status' = Status_OK")
      case True
      then obtain s st' where step: "eval_step env rd line pos st = Done (s, q, st')"
        and inv: "s = Status_OK \<Longrightarrow> eval_inv st' (closing operation)"
        using eval_step_correct [OF stack_inv_next [OF assms(1,2)], of rd line pos p v q operation env] d r
        by metis
      have "pos < p" "p < q" "p < length line"
        using True assms(3) d r read_operation_progress [of line p q operation] by auto
      with step inv show ?thesis by (auto simp: stack_inv_def)
    next
      case False
      moreover have "pos \<le> p" "p < q" using assms(3) d read_operation_pos [OF r] by simp_all
      ultimately show ?thesis using i d r by (auto simp: eval_step_def Let_def)
    qed
  qed (use i assms(3) in \<open>auto simp: eval_step_def Let_def\<close>)
qed

lemma eval_loop_returns:
  assumes "stack_inv st" and "returns_after line k rd" and "k < pos" and "length line < pos + n" and "0 < n"
  shows "returns line k (eval_loop n env rd line pos st)"
  using assms
proof (induction n arbitrary: pos st)
  case 0
  then show ?case by simp
next
  case (Suc n)
  show ?case
  proof (cases "ev_ops st ! 0 = NGCBinaryOp_RightBracket")
    case True
    with Suc.prems show ?thesis by (simp add: eval_loop.simps)
  next
    case False
    have "returns line pos (rd line pos (ev_values st ! ev_top st))"
      using Suc.prems by (simp add: returns_after_def)
    note step = eval_step_returns [where env = env and rd = rd, OF Suc.prems(1) False this]
    have "returns line k (bnd (eval_step env rd line pos st) (\<lambda>(status, pos, st).
        if status \<noteq> Status_OK then Done (status, pos, st) else eval_loop n env rd line pos st))"
    proof (rule returns_bnd [OF conjunct1 [OF step]])
      fix status p st'
      assume e: "eval_step env rd line pos st = Done (status, p, st')" and "pos \<le> p"
        and p: "status = Status_OK \<Longrightarrow> pos < p"
      have "returns line k (eval_loop n env rd line p st')" if "status = Status_OK"
        using step e p that Suc.prems by (intro Suc.IH) auto
      then show "returns line k (case (status, p, st') of (status, pos, st) \<Rightarrow>
          if status \<noteq> Status_OK then Done (status, pos, st) else eval_loop n env rd line pos st)"
        using \<open>pos \<le> p\<close> Suc.prems(3) by simp
    qed
    with False show ?thesis by (simp add: eval_loop.simps)
  qed
qed

lemma start_inv:
  "eval_inv \<lparr>ev_values = (replicate MAX_STACK junk)[0 := v],
    ev_ops = (replicate MAX_STACK NGCBinaryOp_NoOp)[0 := operation], ev_top = 1\<rparr> toks \<longleftrightarrow>
     ends_in_bracket operation toks"
  by (simp add: eval_inv_def stack_ok_def MAX_STACK_def)

lemma eval_with_returns:
  assumes "returns_after line pos rd"
  shows "returns line pos (eval_with env rd line pos old)"
proof (cases "cchar line pos = CHR ''[''")
  case False
  then show ?thesis by (simp add: eval_with_def status_defs)
next
  case True
  have "returns line pos (bnd (rd line (Suc pos) (ee_junk env)) (\<lambda>(status, pos, value).
        if status \<noteq> Status_OK then Done (status, pos, old)
        else case read_operation line pos of
               (status, pos, operation) \<Rightarrow>
                 if status \<noteq> Status_OK then Done (status, pos, old)
                 else bnd (eval_loop (Suc (length line)) env rd line pos
                     \<lparr>ev_values = (replicate MAX_STACK (ee_junk env))[0 := value],
                      ev_ops = (replicate MAX_STACK NGCBinaryOp_NoOp)[0 := operation], ev_top = 1\<rparr>)
                   (\<lambda>(status, pos, st).
                     Done (status, pos, if status = Status_OK then ev_values st ! 0 else old))))"
  proof (rule returns_bnd [where q = "Suc pos"], goal_cases)
    case 1
    show "returns line (Suc pos) (rd line (Suc pos) (ee_junk env))"
      using assms by (simp add: returns_after_def)
  next
    case (2 status p v)
    obtain status' q operation where r: "read_operation line p = (status', q, operation)"
      by (cases "read_operation line p") auto
    let ?st = "\<lparr>ev_values = (replicate MAX_STACK (ee_junk env))[0 := v],
                 ev_ops = (replicate MAX_STACK NGCBinaryOp_NoOp)[0 := operation], ev_top = 1\<rparr>"
    have "stack_inv ?st"
      unfolding stack_inv_def start_inv by (rule exI [of _ "closing operation"]) (simp add: closing_def)
    then have loop: "returns line pos (eval_loop (Suc (length line)) env rd line q ?st)"
      if "status = Status_OK" "status' = Status_OK"
      using that 2 read_operation_progress [of line p q operation] r
      by (intro eval_loop_returns [OF _ assms]) auto
    have "returns line pos (bnd (eval_loop (Suc (length line)) env rd line q ?st)
        (\<lambda>(status, pos, st). Done (status, pos, if status = Status_OK then ev_values st ! 0 else old)))"
      if "status = Status_OK" "status' = Status_OK"
      by (rule returns_bnd [OF loop [OF that]]) simp
    with r read_operation_pos [OF r] 2 show ?case by simp
  qed
  with True show ?thesis by (simp add: eval_with_def)
qed

lemma real_step_returns:
  assumes rd: "returns_after line pos rd"
  shows "returns line pos (real_step env (eval_with env rd) rd line pos old)"
proof -
  have later: "returns_after line q rd" if "pos < q" for q
    using rd that less_trans unfolding returns_after_def by blast
  have ev: "returns_after line pos (eval_with env rd)"
    unfolding returns_after_def [of _ _ "eval_with env rd"] using eval_with_returns [OF later] by blast
  have next_rd: "returns line pos (rd line (Suc pos) old)"
    by (rule returns_mono [of line "Suc pos"]) (use rd in \<open>simp_all add: returns_after_def\<close>)
  then have neg: "returns line pos (bnd (rd line (Suc pos) old) (\<lambda>(status, pos, value). Done (status, pos, f_neg value)))"
    by (rule returns_bnd) simp
  have fl: "returns line pos (case read_float (ee_fp env) line pos old of
      (ok, pos, value) \<Rightarrow> Done (if ok then Status_OK else Status_BadNumberFormat, pos, value))"
    using read_float_pos [of "ee_fp env" line pos old]
    by (auto split: prod.splits simp: status_defs dest: read_float_progress)
  have chk: "returns line pos (bnd r (\<lambda>r. Done (check_value r)))" if "returns line pos r" for r
    using that by (rule returns_bnd) (auto simp: check_value_def status_defs)
  show ?thesis
    unfolding real_step_def Let_def
    using eval_with_returns [OF rd] read_parameter_returns [OF rd] next_rd neg
      read_unary_returns [OF rd ev]
    by (auto simp: status_defs intro!: chk fl)
qed

lemma real_value_returns:
  "length line < pos + n \<Longrightarrow> 0 < n \<Longrightarrow> returns line pos (ngc_read_real_value n env line pos old)"
proof (induction n arbitrary: pos old)
  case 0
  then show ?case by simp
next
  case (Suc n)
  show ?case
  proof (cases "pos < length line")
    case True
    then have "returns_after line pos (ngc_read_real_value n env)"
      using Suc by (simp add: returns_after_def)
    then show ?thesis by (simp add: real_step_returns)
  next
    case False
    then show ?thesis by (simp add: real_step_def cchar_def status_defs)
  qed
qed

lemma returns_done:
  "returns line pos r \<Longrightarrow> names_fit line \<Longrightarrow>
     \<exists>status p v. r = Done (status, p, v) \<and> pos \<le> p \<and> (status = Status_OK \<longrightarrow> pos < p)"
  by (cases r) auto

lemma tokens_length:
  "tokens_at (ngc_read_real_value (Suc (length line)) env) line pos toks pos' \<Longrightarrow> length toks \<le> length line - pos"
proof (induction toks arbitrary: pos)
  case Nil
  then show ?case by simp
next
  case (Cons t toks)
  obtain v operation where t: "t = (v, operation)" by force
  from Cons.prems t obtain p q where
    rd: "ngc_read_real_value (Suc (length line)) env line pos f_zero = Done (Status_OK, p, v)"
    and op: "read_operation line p = (Status_OK, q, operation)"
    and more: "tokens_at (ngc_read_real_value (Suc (length line)) env) line q toks pos'"
    by (auto simp del: ngc_read_real_value.simps)
  have "pos < p"
    using real_value_returns [of line pos "Suc (length line)" env f_zero]
    unfolding rd returns_simps by simp
  moreover have "p < q" "p < length line" using read_operation_progress [OF op] by simp_all
  ultimately show ?case using Cons.IH [OF more] by simp
qed

subsection \<open>Properties\<close>

text \<open>
  C30. Reading a real value or evaluating a bracketed expression always ends, and never touches a stack
  entry or a name buffer out of bounds, when no name on the line is longer than its buffer. A reading
  that succeeds has moved on in the line.
\<close>

theorem expressions_return:
  assumes "names_fit line"
  shows "(\<exists>status p v. read_real_value env line pos old = Done (status, p, v) \<and>
       pos \<le> p \<and> (status = Status_OK \<longrightarrow> pos < p)) \<and>
    (\<exists>status p v. ngc_eval_expression env line pos old = Done (status, p, v) \<and>
       pos \<le> p \<and> (status = Status_OK \<longrightarrow> pos < p))"
proof -
  have "returns line pos (read_real_value env line pos old)"
    by (simp only: read_real_value_def) (rule real_value_returns; simp)
  note r = returns_done [OF this assms]
  have "returns_after line pos (ngc_read_real_value (Suc (length line)) env)"
    unfolding returns_after_def by (auto intro: real_value_returns simp del: ngc_read_real_value.simps)
  then have "returns line pos (ngc_eval_expression env line pos old)"
    unfolding ngc_eval_expression_def by (rule eval_with_returns)
  from r returns_done [OF this assms] show ?thesis by (rule conjI)
qed

definition demo_env :: "machine \<Rightarrow> unit expr_env" where
  "demo_env g = \<lparr>ee_fp = exact_fpu, ee_machine = g, ee_params = demo_params,
     ee_setting = (\<lambda>_. NoSetting), ee_junk = Fin 0\<rparr>"

lemma expressions_return_witness:
  "names_fit ''[#<x>+EXISTS[#<y>]]'' \<and>
   (\<forall>g. \<exists>status p v. ngc_eval_expression (demo_env g) ''[#<x>+EXISTS[#<y>]]'' 0 f_zero = Done (status, p, v))"
proof -
  have fit: "names_fit ''[#<x>+EXISTS[#<y>]]''"
    by (simp add: names_fit_def All_less_Suc nth_Cons' NGC_MAX_PARAM_LENGTH_def)
  then show ?thesis using expressions_return [OF fit] by blast
qed

lemma name_loop_app:
  "(\<forall>c \<in> set cs. c \<noteq> NUL \<and> c \<noteq> CHR ''>'') \<Longrightarrow> length name + length cs \<le> Suc NGC_MAX_PARAM_LENGTH \<Longrightarrow>
     name_loop (cs @ CHR ''>'' # r) name = (CHR ''>'', name @ map LCAPS cs)"
  by (induction cs arbitrary: name) auto

text \<open>
  A name of exactly 31 characters before its closing bracket is copied into a buffer of 31 bytes and
  the terminating NUL is then stored behind it.
\<close>

theorem overlong_name_overflows:
  assumes "length name = 31" and "NUL \<notin> set name" and "CHR ''>'' \<notin> set name"
  shows "read_real_value env (''#<'' @ name @ ''>'' @ rest) 0 old = Overflow"
proof -
  let ?line = "''#<'' @ name @ ''>'' @ rest"
  have "name_loop (drop (Suc 1) ?line) '''' = (CHR ''>'', map LCAPS name)"
    using name_loop_app [of name "''''" rest] assms by (auto simp: NGC_MAX_PARAM_LENGTH_def)
  then have "ngc_read_name ?line 1 = Overflow"
    using assms(1) by (simp add: ngc_read_name_def cchar_def NGC_MAX_PARAM_LENGTH_def)
  then have "ngc_read_parameter env rd ?line 0 old False = Overflow" for rd
    by (simp add: ngc_read_parameter_def cchar_def)
  then show ?thesis
    by (simp add: read_real_value_def real_step_def cchar_def NUL_def)
qed

lemma overlong_name_overflows_witness:
  "\<forall>g. read_real_value (demo_env g) (''#<'' @ replicate 31 CHR ''A'' @ ''>'') 0 f_zero = Overflow"
proof
  fix g
  show "read_real_value (demo_env g) (''#<'' @ replicate 31 CHR ''A'' @ ''>'') 0 f_zero = Overflow"
    using overlong_name_overflows [of "replicate 31 CHR ''A''" "demo_env g" "''''" f_zero]
    by (simp add: NUL_def)
qed

text \<open>
  C5. A bracketed expression whose operands and operators all read without error has the value of the
  reference semantics: tighter operators first, left to right within a level of precedence. When one of
  the operations fails the evaluator reports an error and leaves its result variable alone.
\<close>

theorem expression_value:
  assumes "cchar line pos = CHR ''[''"
    and "tokens_at (ngc_read_real_value (Suc (length line)) env) line (Suc pos) ((v, operation) # toks) pos'"
    and "ends_in_bracket operation toks"
  shows "case expr_value (ee_fp env) ((NGCBinaryOp_NoOp, v) # operands operation toks) of
      Some x \<Rightarrow> ngc_eval_expression env line pos old = Done (Status_OK, pos', x)
    | None \<Rightarrow> \<exists>status p. status \<noteq> Status_OK \<and> ngc_eval_expression env line pos old = Done (status, p, old)"
proof -
  let ?rd = "ngc_read_real_value (Suc (length line)) env"
  let ?st = "\<lparr>ev_values = (replicate MAX_STACK (ee_junk env))[0 := v],
    ev_ops = (replicate MAX_STACK NGCBinaryOp_NoOp)[0 := operation], ev_top = 1\<rparr>"
  from assms(2) obtain p q where rd: "\<And>old. ?rd line (Suc pos) old = Done (Status_OK, p, v)"
    and op: "read_operation line p = (Status_OK, q, operation)" and more: "tokens_at ?rd line q toks pos'"
    by (auto simp del: ngc_read_real_value.simps)
  have start: "ngc_eval_expression env line pos old =
      bnd (eval_loop (Suc (length line)) env ?rd line q ?st) (\<lambda>(status, pos, st).
        Done (status, pos, if status = Status_OK then ev_values st ! 0 else old))"
    using assms(1) rd op
    by (simp add: ngc_eval_expression_def eval_with_def del: ngc_read_real_value.simps)
  have len: "length toks \<le> Suc (length line)"
    using tokens_length [OF more] by simp
  have pend: "pending ?st toks = (NGCBinaryOp_NoOp, v) # operands operation toks"
    by (simp add: pending_def stacked_def MAX_STACK_def eval_nat_numeral)
  show ?thesis
    using eval_loop_correct [of ?st toks ?rd line q pos' "Suc (length line)" env] more len assms(3)
    unfolding pend start start_inv
    by (auto simp del: ngc_read_real_value.simps split: option.splits)
qed

lemma demo_tokens:
  fixes g :: machine
  defines "rd \<equiv> ngc_read_real_value (Suc (length ''[1+2*3]'')) (demo_env g)"
  shows "rd ''[1+2*3]'' 1 old = Done (Status_OK, 2, Fin 1)"
    and "rd ''[1+2*3]'' 3 old = Done (Status_OK, 4, Fin 2)"
    and "rd ''[1+2*3]'' 5 old = Done (Status_OK, 6, Fin 3)"
  unfolding rd_def
  by (simp_all add: real_step_def cchar_def NUL_def sign_prefix_def read_float_def float_loop.simps is_digit_def
      digit_value_def demo_env_def exact_fpu_def f_of_int_def MAX_INT_DIGITS_def f_eq_def check_value_def
      f_isnan_def f_isinf_def Let_def)

lemma expression_value_witness:
  "\<forall>g. ngc_eval_expression (demo_env g) ''[1+2*3]'' 0 f_zero = Done (Status_OK, 7, Fin 7)"
proof
  fix g
  let ?line = "''[1+2*3]''"
  let ?toks = "[(Fin 2, NGCBinaryOp_Times), (Fin 3, NGCBinaryOp_RightBracket)]"
  have toks: "tokens_at (ngc_read_real_value (Suc (length ?line)) (demo_env g)) ?line (Suc 0)
      ((Fin 1, NGCBinaryOp_Plus) # ?toks) 7"
    using demo_tokens [of g]
    by (simp add: read_operation_def cchar_def Let_def del: ngc_read_real_value.simps)
  have "expr_value (ee_fp (demo_env g)) ((NGCBinaryOp_NoOp, Fin 1) # operands NGCBinaryOp_Plus ?toks) = Some (Fin 7)"
    by (simp add: expr_value_def precedence_def apply_op_def execute_binary_def execute_binary1_def
        execute_binary2_def demo_env_def exact_fpu_def)
  with expression_value [OF _ toks] show "ngc_eval_expression (demo_env g) ?line 0 f_zero = Done (Status_OK, 7, Fin 7)"
    by (simp add: cchar_def)
qed

end
