(* ===== verification/Ngc_Text.thy ===== *)
theory Ngc_Text
  imports Ngc_Expr_Props
begin

text \<open>
  Parameter references in comments and messages, \<open>ngc_substitute_parameters\<close> of \<open>grbl/ngc_expr.c\<close>.
  The first pass computes the size of the result, the second writes it into a buffer of that size; the
  state of the format parser (the part of a format read, its digit and the number of decimals) is not
  reset between the passes, and the digit is static.
\<close>

record format_state =
  fs_parse :: nat \<comment> \<open>\<open>parse_format\<close>, 0 outside a format\<close>
  fs_digit :: nat
  fs_decimals :: nat

text \<open>The result is the new \<open>parse_format\<close>; negative for a complete format.\<close>

definition ngc_float_decimals :: "machine \<Rightarrow> nat" where
  "ngc_float_decimals g = (if g_report_inches g then 4 else 3)"

definition get_format :: "machine \<Rightarrow> char \<Rightarrow> format_state \<Rightarrow> int \<times> format_state" where
  "get_format g c st =
     (if fs_parse st = 1
      then if c = CHR ''d'' then (- 2, st\<lparr>fs_decimals := 0\<rparr>)
           else if c = CHR ''f'' then (- 2, st\<lparr>fs_decimals := ngc_float_decimals g\<rparr>)
           else if c = CHR ''.'' then (2, st)
           else (0, st)
      else if fs_parse st = 2
      then if is_digit c then (3, st\<lparr>fs_digit := digit_value c\<rparr>) else (0, st)
      else if c = CHR ''f'' then (- 4, st\<lparr>fs_decimals := fs_digit st\<rparr>) else (0, st))"

definition param_text :: "fpu \<Rightarrow> nat \<Rightarrow> flt \<Rightarrow> string outcome" where
  "param_text fp decimals value =
     (case ftoa fp value decimals of
        None \<Rightarrow> Overflow
      | Some s \<Rightarrow> Done (if decimals = 0 then trim_float s else s))"

text \<open>A reference at a position: the position after it and what stands for it in the result.\<close>

definition reference_text :: "'m expr_env \<Rightarrow> string \<Rightarrow> nat \<Rightarrow> nat \<Rightarrow> (nat \<times> string) outcome" where
  "reference_text env line decimals pos =
     bnd (ngc_read_parameter env (ngc_read_real_value (Suc (length line)) env) line pos (ee_junk env) True)
       (\<lambda>(status, pos, value).
         if status = Status_OK then bnd (param_text (ee_fp env) decimals value) (\<lambda>s. Done (pos, s))
         else Done (pos, ''N/A''))"

text \<open>The first pass; fuel bounds the number of characters and references looked at.\<close>

fun length_pass ::
  "nat \<Rightarrow> 'm expr_env \<Rightarrow> string \<Rightarrow> nat \<Rightarrow> format_state \<Rightarrow> nat \<Rightarrow> (nat \<times> format_state) outcome" where
  "length_pass 0 env line pos st len = NoFuel"
| "length_pass (Suc n) env line pos st len =
     (let c = cchar line pos
      in if c = NUL then Done (len, st)
         else if fs_parse st \<noteq> 0
         then case get_format (ee_machine env) c st of
                (f, st) \<Rightarrow> length_pass n env line (Suc pos) (st\<lparr>fs_parse := nat f\<rparr>)
                             (if f < 0 then len + nat (- f) else len)
         else if c = CHR ''%'' then length_pass n env line (Suc pos) (st\<lparr>fs_parse := 1\<rparr>) len
         else if c = CHR ''#''
         then bnd (reference_text env line (fs_decimals st) pos)
                (\<lambda>(pos, s). length_pass n env line pos st (len + length s))
         else length_pass n env line (Suc pos) st (len + 1))"

text \<open>The second pass, with the characters of the current format and the text written so far.\<close>

definition fmt_text :: "string \<Rightarrow> string" where
  "fmt_text fmt = takeWhile (\<lambda>c. c \<noteq> NUL) fmt"

fun text_pass ::
  "nat \<Rightarrow> 'm expr_env \<Rightarrow> string \<Rightarrow> nat \<Rightarrow> format_state \<Rightarrow> string \<Rightarrow> string \<Rightarrow> (string \<times> format_state) outcome" where
  "text_pass 0 env line pos st fmt s = NoFuel"
| "text_pass (Suc n) env line pos st fmt s =
     (let c = cchar line pos
      in if c = NUL then Done (s, st)
         else if fs_parse st \<noteq> 0
         then let fmt = fmt[fs_parse st := c]
              in case get_format (ee_machine env) c st of
                   (f, st) \<Rightarrow> text_pass n env line (Suc pos) (st\<lparr>fs_parse := nat f\<rparr>) fmt
                                (if f = 0 then s @ fmt_text fmt else s)
         else if c = CHR ''%'' then text_pass n env line (Suc pos) (st\<lparr>fs_parse := 1\<rparr>) (fmt[0 := c]) s
         else if c = CHR ''#''
         then bnd (reference_text env line (fs_decimals st) pos)
                (\<lambda>(pos, t). text_pass n env line pos st fmt (s @ t))
         else text_pass n env line (Suc pos) st fmt (s @ [c]))"

declare length_pass.simps(2) [simp del] text_pass.simps(2) [simp del]

text \<open>\<open>mem\<close> says whether \<open>malloc\<close> succeeds, \<open>digit\<close> is the static digit; writing more than the first
  pass counted runs over the end of the allocated block.\<close>

definition ngc_substitute_parameters ::
  "bool \<Rightarrow> 'm expr_env \<Rightarrow> nat \<Rightarrow> string \<Rightarrow> (string option \<times> nat) outcome" where
  "ngc_substitute_parameters mem env digit line =
     (let line = dropWhile (\<lambda>c. c = CHR '' '') line;
          start = \<lparr>fs_parse = 0, fs_digit = digit, fs_decimals = ngc_float_decimals (ee_machine env)\<rparr>
      in bnd (length_pass (Suc (length line)) env line 0 start 0) (\<lambda>(len, st).
           if \<not> mem then Done (None, fs_digit st)
           else bnd (text_pass (Suc (length line)) env line 0 st (replicate 5 NUL) '''') (\<lambda>(s, st).
             if len < length s then Overflow else Done (Some s, fs_digit st))))"

text \<open>The message of a DEBUG or PRINT comment, and what is left of the comment for other handlers.
  \<open>strncasecmp\<close> of the first six characters.\<close>

definition starts_with_nocase :: "string \<Rightarrow> string \<Rightarrow> bool" where
  "starts_with_nocase w s \<longleftrightarrow> map CAPS (take (length w) s) = w"

definition ngc_process_comment ::
  "bool \<Rightarrow> 'm expr_env \<Rightarrow> nat \<Rightarrow> string \<Rightarrow> (string option \<times> nat \<times> string) outcome" where
  "ngc_process_comment mem env digit comment =
     (if starts_with_nocase ''DEBUG,'' comment
      then if g_debug_out (ee_machine env)
           then bnd (ngc_substitute_parameters mem env digit (drop 6 comment))
                  (\<lambda>(message, digit). Done (message, digit, take 6 comment))
           else Done (None, digit, '''')
      else if starts_with_nocase ''PRINT,'' comment
      then bnd (ngc_substitute_parameters mem env digit (drop 6 comment))
             (\<lambda>(message, digit). Done (message, digit, take 6 comment))
      else Done (None, digit, comment))"

subsection \<open>Text without formats\<close>

text \<open>The text with every reference replaced, the rest copied.\<close>

fun substituted :: "nat \<Rightarrow> 'm expr_env \<Rightarrow> string \<Rightarrow> nat \<Rightarrow> string outcome" where
  "substituted 0 env line pos = NoFuel"
| "substituted (Suc n) env line pos =
     (if cchar line pos = NUL then Done ''''
      else if cchar line pos = CHR ''#''
      then bnd (reference_text env line (ngc_float_decimals (ee_machine env)) pos)
             (\<lambda>(pos, t). bnd (substituted n env line pos) (\<lambda>s. Done (t @ s)))
      else bnd (substituted n env line (Suc pos)) (\<lambda>s. Done (cchar line pos # s)))"

definition plain_start :: "machine \<Rightarrow> format_state \<Rightarrow> bool" where
  "plain_start g st \<longleftrightarrow> fs_parse st = 0 \<and> fs_decimals st = ngc_float_decimals g"

lemma bnd_assoc: "bnd (bnd r f) g = bnd r (\<lambda>x. bnd (f x) g)"
  by (cases r) auto

lemma bnd_ends: "r \<noteq> NoFuel \<Longrightarrow> (\<And>x. r = Done x \<Longrightarrow> f x \<noteq> NoFuel) \<Longrightarrow> bnd r f \<noteq> NoFuel"
  by (cases r) auto

declare substituted.simps(2) [simp del]

lemma no_percent: "CHR ''%'' \<notin> set line \<Longrightarrow> cchar line pos \<noteq> CHR ''%''"
  by (auto simp: cchar_def NUL_def dest: nth_mem)

lemma length_pass_plain:
  assumes "CHR ''%'' \<notin> set line" and "plain_start (ee_machine env) st"
  shows "length_pass n env line pos st len = bnd (substituted n env line pos) (\<lambda>s. Done (len + length s, st))"
proof (induction n arbitrary: pos len)
  case (Suc n)
  show ?case
    using assms(2) no_percent [OF assms(1), of pos]
    by (auto simp: length_pass.simps(2) substituted.simps(2) plain_start_def bnd_assoc Suc Let_def ac_simps split_def
        intro: arg_cong [where f = "bnd r" for r])
qed simp

lemma text_pass_plain:
  assumes "CHR ''%'' \<notin> set line" and "plain_start (ee_machine env) st"
  shows "text_pass n env line pos st fmt t = bnd (substituted n env line pos) (\<lambda>s. Done (t @ s, st))"
proof (induction n arbitrary: pos t)
  case (Suc n)
  show ?case
    using assms(2) no_percent [OF assms(1), of pos]
    by (auto simp: text_pass.simps(2) substituted.simps(2) plain_start_def bnd_assoc Suc Let_def split_def)
qed simp

lemma reference_advances:
  assumes "cchar line pos = CHR ''#''" and "reference_text env line d pos = Done (p, t)"
  shows "pos < p"
proof -
  let ?rd = "ngc_read_real_value (Suc (length line)) env"
  have "returns_after line pos ?rd"
    unfolding returns_after_def by (auto intro: real_value_returns simp del: ngc_read_real_value.simps)
  note r = read_parameter_advances [OF this assms(1), of env "ee_junk env" True]
  with assms(2) show ?thesis
    by (cases "ngc_read_parameter env ?rd line pos (ee_junk env) True")
       (auto simp: reference_text_def param_text_def simp del: ngc_read_real_value.simps
         split: if_splits option.splits)
qed

lemma reference_returns:
  assumes "names_fit line"
  shows "reference_text env line d pos \<noteq> NoFuel"
proof -
  let ?rd = "ngc_read_real_value (Suc (length line)) env"
  have "returns_after line pos ?rd"
    unfolding returns_after_def by (auto intro: real_value_returns simp del: ngc_read_real_value.simps)
  from returns_done [OF read_parameter_returns [OF this, of env "ee_junk env" True] assms]
  have "ngc_read_parameter env ?rd line pos (ee_junk env) True \<noteq> NoFuel" by auto
  moreover have "param_text fp d v \<noteq> NoFuel" for "fp" v
    by (simp add: param_text_def split: option.split)
  ultimately show ?thesis
    unfolding reference_text_def
    by (simp add: bnd_ends split_def del: ngc_read_real_value.simps)
qed

lemma substituted_returns:
  assumes "names_fit line"
  shows "length line < pos + n \<Longrightarrow> 0 < n \<Longrightarrow> substituted n env line pos \<noteq> NoFuel"
proof (induction n arbitrary: pos)
  case (Suc n)
  note adv = reference_advances [of line pos env "ngc_float_decimals (ee_machine env)"]
  note ref = reference_returns [OF assms, of env "ngc_float_decimals (ee_machine env)" pos]
  show ?case
  proof (cases "pos < length line")
    case True
    with Suc.prems have later: "substituted n env line p \<noteq> NoFuel" if "pos < p" for p
      using that by (intro Suc.IH) auto
    have "bnd (reference_text env line (ngc_float_decimals (ee_machine env)) pos)
             (\<lambda>(pos, t). bnd (substituted n env line pos) (\<lambda>s. Done (t @ s))) \<noteq> NoFuel"
      if hash: "cchar line pos = CHR ''#''"
    proof (rule bnd_ends [OF ref])
      fix x assume "reference_text env line (ngc_float_decimals (ee_machine env)) pos = Done x"
      moreover obtain p t where "x = (p, t)" by force
      ultimately have "substituted n env line p \<noteq> NoFuel" using adv [OF hash] later by simp
      with \<open>x = (p, t)\<close>
      show "(case x of (pos, t) \<Rightarrow> bnd (substituted n env line pos) (\<lambda>s. Done (t @ s))) \<noteq> NoFuel"
        by (simp add: bnd_ends)
    qed
    moreover have "bnd (substituted n env line (Suc pos)) (\<lambda>s. Done (cchar line pos # s)) \<noteq> NoFuel"
      using later by (intro bnd_ends) simp_all
    ultimately show ?thesis by (simp add: substituted.simps(2))
  next
    case False
    then show ?thesis by (simp add: cchar_def substituted.simps(2))
  qed
qed simp

text \<open>
  A line without formats is substituted into exactly the memory that the first pass asked for: the
  result is the line, less its leading spaces, with every parameter reference replaced by its value or
  by N/A. The two passes end; only a value too long for the number buffer overflows.
\<close>

theorem substitution_without_formats:
  fixes env :: "'m expr_env"
  defines "txt \<equiv> \<lambda>line. dropWhile (\<lambda>c. c = CHR '' '') line"
  assumes "CHR ''%'' \<notin> set line" and "names_fit (txt line)"
  shows "ngc_substitute_parameters True env digit line =
      bnd (substituted (Suc (length (txt line))) env (txt line) 0) (\<lambda>s. Done (Some s, digit)) \<and>
    ngc_substitute_parameters True env digit line \<noteq> NoFuel"
proof -
  have np: "CHR ''%'' \<notin> set (txt line)" using assms(2) set_dropWhileD by (fastforce simp: txt_def)
  have start: "plain_start (ee_machine env)
      \<lparr>fs_parse = 0, fs_digit = digit, fs_decimals = ngc_float_decimals (ee_machine env)\<rparr>"
    by (simp add: plain_start_def)
  have eq: "ngc_substitute_parameters True env digit line =
      bnd (substituted (Suc (length (txt line))) env (txt line) 0) (\<lambda>s. Done (Some s, digit))"
    unfolding ngc_substitute_parameters_def Let_def txt_def [symmetric]
      length_pass_plain [OF np start] text_pass_plain [OF np start] bnd_assoc
    by (cases "substituted (Suc (length (txt line))) env (txt line) 0") (simp_all add: text_pass_plain [OF np start])
  have "substituted (Suc (length (txt line))) env (txt line) 0 \<noteq> NoFuel"
    using assms(3) by (rule substituted_returns) simp_all
  then show ?thesis
    unfolding eq by (cases "substituted (Suc (length (txt line))) env (txt line) 0") simp_all
qed

lemma substitution_without_formats_witness:
  "\<forall>g. ngc_substitute_parameters True (demo_env g) 0 '' a #<zz>'' = Done (Some ''a N/A'', 0)"
proof
  fix g
  have fit: "names_fit (dropWhile (\<lambda>c. c = CHR '' '') '' a #<zz>'')"
    by (simp add: names_fit_def All_less_Suc nth_Cons' NGC_MAX_PARAM_LENGTH_def)
  show "ngc_substitute_parameters True (demo_env g) 0 '' a #<zz>'' = Done (Some ''a N/A'', 0)"
    using substitution_without_formats [OF _ fit, of "demo_env g" 0]
    by (simp add: substituted.simps(2) cchar_def NUL_def reference_text_def ngc_read_parameter_def ngc_read_name_def
        NGC_MAX_PARAM_LENGTH_def LCAPS_def demo_env_def ngc_named_param_get_def ngc_name_tolower_def
        name_chars_def no_name_def is_global_def demo_params_def ngc_params_start_def status_defs)
qed

subsection \<open>A percent sign that does not start a format\<close>

definition plain_text :: "string \<Rightarrow> bool" where
  "plain_text s \<longleftrightarrow> (\<forall>c \<in> set s. c \<noteq> NUL \<and> c \<noteq> CHR ''%'' \<and> c \<noteq> CHR ''#'')"

lemma cchar_append [simp]: "cchar (s @ t) (length s) = cchar t 0"
  by (simp add: cchar_def nth_append)

lemma length_pass_text:
  "plain_text s \<Longrightarrow> fs_parse st = 0 \<Longrightarrow>
     length_pass (length s + n) env (pre @ s @ t) (length pre) st len =
     length_pass n env (pre @ s @ t) (length pre + length s) st (len + length s)"
proof (induction s arbitrary: pre len)
  case (Cons c s)
  have "cchar (pre @ (c # s) @ t) (length pre) = c" by (simp add: cchar_def)
  with Cons.prems Cons.IH [of "pre @ [c]" "len + 1"] show ?case
    by (simp add: length_pass.simps(2) plain_text_def Let_def)
qed simp

lemma text_pass_text:
  "plain_text s \<Longrightarrow> fs_parse st = 0 \<Longrightarrow>
     text_pass (length s + n) env (pre @ s @ t) (length pre) st fmt r =
     text_pass n env (pre @ s @ t) (length pre + length s) st fmt (r @ s)"
proof (induction s arbitrary: pre r)
  case (Cons c s)
  have "cchar (pre @ (c # s) @ t) (length pre) = c" by (simp add: cchar_def)
  with Cons.prems Cons.IH [of "pre @ [c]" "r @ [c]"] show ?case
    by (simp add: text_pass.simps(2) plain_text_def Let_def)
qed simp

lemma bad_format:
  assumes "cchar line pos = CHR ''%''" and "cchar line (Suc pos) = c"
    and "c \<notin> {CHR ''d'', CHR ''f'', CHR ''.'', NUL}" and "fs_parse st = 0"
  shows "length_pass (Suc (Suc n)) env line pos st len = length_pass n env line (Suc (Suc pos)) st len"
    and "text_pass (Suc (Suc n)) env line pos st (replicate 5 NUL) r =
           text_pass n env line (Suc (Suc pos)) st [CHR ''%'', c, NUL, NUL, NUL] (r @ [CHR ''%'', c])"
proof -
  have bad: "get_format (ee_machine env) c (st\<lparr>fs_parse := 1\<rparr>) = (0, st\<lparr>fs_parse := 1\<rparr>)"
    using assms(3) by (simp add: get_format_def)
  have st: "st\<lparr>fs_parse := 0\<rparr> = st" using assms(4) by simp
  have pct: "CHR ''%'' \<noteq> NUL" by (simp add: NUL_def)
  have five: "replicate 5 NUL = [NUL, NUL, NUL, NUL, NUL]" by (simp add: eval_nat_numeral)
  have one: "length_pass (Suc (Suc n)) env line pos st len = length_pass (Suc n) env line (Suc pos) (st\<lparr>fs_parse := 1\<rparr>) len"
    using assms(1,4) pct by (simp add: length_pass.simps(2) [of "Suc n"] Let_def)
  have "length_pass (Suc n) env line (Suc pos) (st\<lparr>fs_parse := 1\<rparr>) len = length_pass n env line (Suc (Suc pos)) st len"
    unfolding length_pass.simps(2) Let_def assms(2) bad using assms(3) st by simp
  with one show "length_pass (Suc (Suc n)) env line pos st len = length_pass n env line (Suc (Suc pos)) st len" by simp
  have two: "text_pass (Suc (Suc n)) env line pos st (replicate 5 NUL) r =
      text_pass (Suc n) env line (Suc pos) (st\<lparr>fs_parse := 1\<rparr>) [CHR ''%'', NUL, NUL, NUL, NUL] r"
    using assms(1,4) pct five by (simp add: text_pass.simps(2) [of "Suc n"] Let_def)
  have "text_pass (Suc n) env line (Suc pos) (st\<lparr>fs_parse := 1\<rparr>) [CHR ''%'', NUL, NUL, NUL, NUL] r =
      text_pass n env line (Suc (Suc pos)) st [CHR ''%'', c, NUL, NUL, NUL] (r @ [CHR ''%'', c])"
    unfolding text_pass.simps(2) Let_def assms(2) using assms(3) st pct bad by (simp add: fmt_text_def)
  with two show "text_pass (Suc (Suc n)) env line pos st (replicate 5 NUL) r =
      text_pass n env line (Suc (Suc pos)) st [CHR ''%'', c, NUL, NUL, NUL] (r @ [CHR ''%'', c])" by simp
qed

lemma pass_end:
  assumes "cchar line pos = NUL"
  shows "length_pass (Suc n) env line pos st len = Done (len, st)"
    and "text_pass (Suc n) env line pos st fmt r = Done (r, st)"
  using assms by (simp_all add: length_pass.simps(2) text_pass.simps(2) Let_def)

text \<open>
  A percent sign followed by a character that cannot start a format is not counted by the first
  pass, together with that character, but the second pass writes both: the text runs two characters
  over the end of its memory.
\<close>

theorem percent_sign_overflows:
  assumes "plain_text pre" and "plain_text post" and "c \<notin> {CHR ''d'', CHR ''f'', CHR ''.'', NUL}"
    and "cchar (pre @ ''%'' @ [c] @ post) 0 \<noteq> CHR '' ''"
  shows "ngc_substitute_parameters True env digit (pre @ ''%'' @ [c] @ post) = Overflow"
proof -
  let ?line = "pre @ ''%'' @ [c] @ post"
  let ?st = "\<lparr>fs_parse = 0, fs_digit = digit, fs_decimals = ngc_float_decimals (ee_machine env)\<rparr>"
  have line: "dropWhile (\<lambda>c. c = CHR '' '') ?line = ?line"
    using assms(4) by (cases pre) (simp_all add: cchar_def)
  have fuel: "Suc (length ?line) = length pre + Suc (Suc (length post + 1))" by simp
  have at: "cchar ?line (length pre) = CHR ''%''" "cchar ?line (Suc (length pre)) = c"
    "cchar ?line (Suc (Suc (length pre + length post))) = NUL"
    by (simp_all add: cchar_def nth_append)
  have "length_pass (Suc (length ?line)) env ?line 0 ?st 0 =
      length_pass (Suc (Suc (length post + 1))) env ?line (length pre) ?st (length pre)"
    using length_pass_text [OF assms(1), of ?st "Suc (Suc (length post + 1))" env "[]" "''%'' @ [c] @ post" 0]
    unfolding fuel by simp
  also have "\<dots> = length_pass (length post + 1) env ?line (Suc (Suc (length pre))) ?st (length pre)"
    by (rule bad_format(1) [OF at(1,2) assms(3)]) simp
  also have "\<dots> = length_pass 1 env ?line (Suc (Suc (length pre + length post))) ?st (length pre + length post)"
    using length_pass_text [OF assms(2), of ?st 1 env "pre @ ''%'' @ [c]" "[]" "length pre"] by simp
  also have "\<dots> = Done (length pre + length post, ?st)"
    using pass_end(1) [OF at(3), of 0] by simp
  finally have len: "length_pass (Suc (length ?line)) env ?line 0 ?st 0 = Done (length pre + length post, ?st)" .
  have "text_pass (Suc (length ?line)) env ?line 0 ?st (replicate 5 NUL) [] =
      text_pass (Suc (Suc (length post + 1))) env ?line (length pre) ?st (replicate 5 NUL) pre"
    using text_pass_text [OF assms(1), of ?st "Suc (Suc (length post + 1))" env "[]" "''%'' @ [c] @ post"
        "replicate 5 NUL" "[]"]
    unfolding fuel by simp
  also have "\<dots> = text_pass (length post + 1) env ?line (Suc (Suc (length pre))) ?st
      [CHR ''%'', c, NUL, NUL, NUL] (pre @ [CHR ''%'', c])"
    by (rule bad_format(2) [OF at(1,2) assms(3)]) simp
  also have "\<dots> = text_pass 1 env ?line (Suc (Suc (length pre + length post))) ?st
      [CHR ''%'', c, NUL, NUL, NUL] (pre @ CHR ''%'' # c # post)"
    using text_pass_text [OF assms(2), of ?st 1 env "pre @ ''%'' @ [c]" "[]"] by simp
  also have "\<dots> = Done (pre @ CHR ''%'' # c # post, ?st)"
    using pass_end(2) [OF at(3), of 0] by simp
  finally show ?thesis
    unfolding ngc_substitute_parameters_def Let_def line len by simp
qed

lemma percent_sign_overflows_witness:
  "\<forall>g. ngc_substitute_parameters True (demo_env g) 0 ''50% done'' = Overflow"
proof
  fix g
  show "ngc_substitute_parameters True (demo_env g) 0 ''50% done'' = Overflow"
    using percent_sign_overflows [of "''50''" "''done''" "CHR '' ''" "demo_env g" 0]
    by (simp add: plain_text_def cchar_def NUL_def)
qed

end
