(* ===== verification/Stream_File.thy ===== *)
theory Stream_File
  imports NutsBolts
begin

text \<open>
  Reading the command stream from files, \<open>grbl/stream_file.c\<close>: macros and named subroutines redirect
  the input stream to a file and put the previous stream back when the file is closed. A file is named
  by the number of its handle; the file system is what \<open>vfs_open\<close>, \<open>vfs_read\<close>, \<open>vfs_seek\<close>,
  \<open>vfs_tell\<close> and \<open>vfs_close\<close> promise. The handlers a client installs are values of the type \<open>'h\<close>.
\<close>

subsection \<open>Files\<close>

record vfs =
  vf_files :: "string \<Rightarrow> string option"
  vf_open :: "nat \<Rightarrow> (string \<times> nat) option" \<comment> \<open>contents and position\<close>
  vf_next :: nat

definition vfs_open :: "string \<Rightarrow> vfs \<Rightarrow> nat option \<times> vfs" where
  "vfs_open name v =
     (case vf_files v name of
        None \<Rightarrow> (None, v)
      | Some contents \<Rightarrow> (Some (vf_next v), v\<lparr>vf_open := (vf_open v)(vf_next v \<mapsto> (contents, 0)), vf_next := vf_next v + 1\<rparr>))"

definition vfs_close :: "nat \<Rightarrow> vfs \<Rightarrow> vfs" where
  "vfs_close h v = v\<lparr>vf_open := (vf_open v)(h := None)\<rparr>"

definition vfs_read_char :: "nat \<Rightarrow> vfs \<Rightarrow> char option \<times> vfs" where
  "vfs_read_char h v =
     (case vf_open v h of
        None \<Rightarrow> (None, v)
      | Some (s, p) \<Rightarrow>
          if p < length s then (Some (s ! p), v\<lparr>vf_open := (vf_open v)(h \<mapsto> (s, p + 1))\<rparr>) else (None, v))"

definition vfs_seek :: "nat \<Rightarrow> nat \<Rightarrow> vfs \<Rightarrow> vfs" where
  "vfs_seek h p v =
     (case vf_open v h of None \<Rightarrow> v | Some (s, _) \<Rightarrow> v\<lparr>vf_open := (vf_open v)(h \<mapsto> (s, p))\<rparr>)"

definition vfs_tell :: "nat \<Rightarrow> vfs \<Rightarrow> nat" where
  "vfs_tell h v = (case vf_open v h of None \<Rightarrow> 0 | Some (_, p) \<Rightarrow> p)"

subsection \<open>The input stream and its redirections\<close>

datatype stream_type =
    StreamType_Serial | StreamType_MPG | StreamType_Bluetooth | StreamType_Telnet | StreamType_WebSocket
  | StreamType_File | StreamType_Redirected | StreamType_Null

text \<open>The function behind \<open>hal.stream.read\<close>.\<close>

datatype read_fn = Stream_Read_File | Other_Read nat

type_synonym line_number = u32

record 'h rd_stream =
  rd_file_new :: nat
  rd_file :: "nat option"
  rd_line_number :: line_number
  rd_read :: read_fn
  rd_type :: stream_type
  rd_status_handler :: "'h option"
  rd_eof_handler :: "'h option"

record 'h streams =
  ss_file :: "nat option" \<comment> \<open>\<open>hal.stream.file\<close>\<close>
  ss_type :: stream_type
  ss_read :: read_fn
  ss_gc_file_stream :: bool
  ss_line_number :: line_number
  ss_eol_ok :: bool
  ss_redirects :: "'h rd_stream list"
  ss_hooked :: bool \<comment> \<open>\<open>error_handler_ok\<close>: the handlers of this file are installed\<close>
  ss_vfs :: vfs

text \<open>What a read returns: no data, or a character.\<close>

datatype stream_char = NoData | Ch char

definition ASCII_LF :: char where "ASCII_LF = CHR 0x0A"
definition ASCII_CR :: char where "ASCII_CR = CHR 0x0D"
definition ASCII_EOF :: char where "ASCII_EOF = CHR 0x1A"

definition stream_read_file :: "'h streams \<Rightarrow> stream_char \<times> 'h streams" where
  "stream_read_file st =
     (case ss_file st of
        None \<Rightarrow> (NoData, st)
      | Some h \<Rightarrow>
          (case vfs_read_char h (ss_vfs st) of
             (r, v) \<Rightarrow>
               let st = st\<lparr>ss_vfs := v\<rparr>
               in case r of
                    Some c \<Rightarrow>
                      if c = ASCII_CR \<or> c = ASCII_LF
                      then if ss_eol_ok st then (NoData, st)
                           else (Ch c, st\<lparr>ss_line_number := ss_line_number st + 1, ss_eol_ok := True\<rparr>)
                      else (Ch c, st\<lparr>ss_eol_ok := False\<rparr>)
                  | None \<Rightarrow>
                      if ss_eol_ok st then (Ch ASCII_EOF, st\<lparr>ss_eol_ok := False\<rparr>)
                      else (Ch ASCII_LF, st\<lparr>ss_eol_ok := True\<rparr>)))"

definition onLineNumberAssigned :: "line_number \<Rightarrow> 'h streams \<Rightarrow> line_number \<times> 'h streams" where
  "onLineNumberAssigned pline_number st =
     (if ss_redirects st \<noteq> []
      then if pline_number \<noteq> 0 then (pline_number, st\<lparr>ss_line_number := pline_number\<rparr>)
           else (ss_line_number st, st)
      else (pline_number, st))"

text \<open>Who handles the end of a file and a status: the handlers of the last redirection.\<close>

definition onFileEnd :: "'h streams \<Rightarrow> 'h option" where
  "onFileEnd st = (if ss_redirects st = [] then None else rd_eof_handler (last (ss_redirects st)))"

datatype 'h status_target = ToReport | ToHandler 'h | Swallowed

definition trap_status_messages :: "'h streams \<Rightarrow> status_code \<Rightarrow> 'h status_target" where
  "trap_status_messages st status =
     (if ss_redirects st = [] then ToReport
      else if status = Status_OK \<or> status = Status_Unhandled then Swallowed
      else case rd_status_handler (last (ss_redirects st)) of None \<Rightarrow> Swallowed | Some h \<Rightarrow> ToHandler h)"

definition stream_set_type :: "stream_type \<Rightarrow> nat option \<Rightarrow> 'h streams \<Rightarrow> 'h streams" where
  "stream_set_type t file st =
     (let st = st\<lparr>ss_type := t, ss_file := file\<rparr>
      in if file = None then st\<lparr>ss_gc_file_stream := False\<rparr> else st)"

definition stream_is_file :: "'h streams \<Rightarrow> bool" where
  "stream_is_file st \<longleftrightarrow> ss_type st = StreamType_File"

text \<open>\<open>mem\<close> says whether \<open>malloc\<close> succeeds.\<close>

definition stream_redirect_read ::
  "bool \<Rightarrow> string \<Rightarrow> 'h option \<Rightarrow> 'h option \<Rightarrow> 'h streams \<Rightarrow> nat option \<times> 'h streams" where
  "stream_redirect_read mem filename status_handler eof_handler st =
     (case vfs_open filename (ss_vfs st) of
        (None, v) \<Rightarrow> (None, st\<lparr>ss_vfs := v\<rparr>)
      | (Some file, v) \<Rightarrow>
          if mem
          then
            let rd = \<lparr>rd_file_new = file, rd_file = ss_file st,
                      rd_line_number = (if ss_redirects st \<noteq> [] then ss_line_number st else 0),
                      rd_read = ss_read st, rd_type = ss_type st,
                      rd_status_handler = status_handler, rd_eof_handler = eof_handler\<rparr>;
                st = stream_set_type StreamType_File (Some file) (st\<lparr>ss_vfs := v, ss_read := Stream_Read_File\<rparr>)
            in (Some file, st\<lparr>ss_redirects := ss_redirects st @ [rd], ss_line_number := 0, ss_hooked := True\<rparr>)
          else (None, st\<lparr>ss_vfs := vfs_close file v\<rparr>))"

definition stream_reposition :: "nat \<Rightarrow> nat \<Rightarrow> line_number \<Rightarrow> 'h streams \<Rightarrow> 'h streams" where
  "stream_reposition file pos line_number st =
     (let st = st\<lparr>ss_vfs := vfs_seek file pos (ss_vfs st)\<rparr>
      in if line_number \<noteq> 0 \<and> ss_hooked st then snd (onLineNumberAssigned line_number st) else st)"

fun rd_find :: "nat \<Rightarrow> 'h rd_stream list \<Rightarrow> 'h rd_stream option" where
  "rd_find file [] = None"
| "rd_find file (rd # rds) = (if rd_file_new rd = file then Some rd else rd_find file rds)"

fun rd_remove :: "nat \<Rightarrow> 'h rd_stream list \<Rightarrow> 'h rd_stream list" where
  "rd_remove file [] = []"
| "rd_remove file (rd # rds) = (if rd_file_new rd = file then rds else rd # rd_remove file rds)"

definition stream_redirect_close :: "nat option \<Rightarrow> 'h streams \<Rightarrow> 'h streams" where
  "stream_redirect_close file st =
     (case file of
        None \<Rightarrow> st
      | Some file \<Rightarrow>
          (case rd_find file (ss_redirects st) of
             None \<Rightarrow> st
           | Some rd \<Rightarrow>
               let st = st\<lparr>ss_vfs := vfs_close file (ss_vfs st), ss_read := rd_read rd\<rparr>;
                   st = (if rd_read rd = Stream_Read_File then st\<lparr>ss_line_number := rd_line_number rd\<rparr> else st);
                   st = stream_set_type (rd_type rd) (rd_file rd) st
               in st\<lparr>ss_redirects := rd_remove file (ss_redirects st)\<rparr>))"

subsection \<open>Redirections nest\<close>

text \<open>The handles of the redirections are open and pairwise different, and the current file is the last
  one redirected to.\<close>

definition streams_ok :: "'h streams \<Rightarrow> bool" where
  "streams_ok st \<longleftrightarrow>
     distinct (map rd_file_new (ss_redirects st)) \<and>
     (\<forall>rd \<in> set (ss_redirects st). rd_file_new rd < vf_next (ss_vfs st)) \<and>
     (ss_redirects st \<noteq> [] \<longrightarrow>
        ss_file st = Some (rd_file_new (last (ss_redirects st))) \<and> ss_read st = Stream_Read_File)"

lemma rd_find_append: "rd_find f (rds @ rds') = (case rd_find f rds of None \<Rightarrow> rd_find f rds' | Some rd \<Rightarrow> Some rd)"
  by (induction rds) auto

lemma rd_find_None: "rd_find f rds = None \<longleftrightarrow> f \<notin> rd_file_new ` set rds"
  by (induction rds) auto

lemma rd_remove_append: "f \<notin> rd_file_new ` set rds \<Longrightarrow> rd_remove f (rds @ rds') = rds @ rd_remove f rds'"
  by (induction rds) auto

lemma streams_ok_read: "streams_ok st \<Longrightarrow> streams_ok (snd (stream_redirect_read mem name sh eh st))"
  by (auto simp: streams_ok_def stream_redirect_read_def vfs_open_def stream_set_type_def vfs_close_def Let_def
      less_Suc_eq split: option.splits)

text \<open>What reading and repositioning may change.\<close>

datatype stream_op = ReadChar | Reposition nat nat line_number | AssignLine line_number

fun run_stream_op :: "stream_op \<Rightarrow> 'h streams \<Rightarrow> 'h streams" where
  "run_stream_op ReadChar st = snd (stream_read_file st)"
| "run_stream_op (Reposition f p l) st = stream_reposition f p l st"
| "run_stream_op (AssignLine l) st = snd (onLineNumberAssigned l st)"

definition same_stream :: "'h streams \<Rightarrow> 'h streams \<Rightarrow> bool" where
  "same_stream st st' \<longleftrightarrow> ss_file st' = ss_file st \<and> ss_type st' = ss_type st \<and> ss_read st' = ss_read st \<and>
     ss_redirects st' = ss_redirects st \<and> ss_gc_file_stream st' = ss_gc_file_stream st"

lemma stream_op_same: "same_stream st (run_stream_op op st)"
  by (cases op) (auto simp: same_stream_def stream_read_file_def stream_reposition_def onLineNumberAssigned_def
      Let_def split: option.splits prod.splits)

lemma same_stream_fold: "same_stream st (fold run_stream_op ops st)"
proof (induction ops arbitrary: st)
  case Nil
  then show ?case by (simp add: same_stream_def)
next
  case (Cons op ops)
  then show ?case using stream_op_same [of st op] by (force simp: same_stream_def)
qed

text \<open>
  C34. Redirecting the input to a file, reading from it and moving around in it in any way, and closing it
  puts the previous stream back: its file, its type and its read function, and the redirections below.
  The line number is put back as well when the previous stream was a redirected file.
\<close>

theorem redirect_restores:
  assumes "streams_ok st" and "stream_redirect_read mem name sh eh st = (Some h, st1)"
    and "st2 = stream_redirect_close (Some h) (fold run_stream_op ops st1)"
  shows "ss_file st2 = ss_file st \<and> ss_type st2 = ss_type st \<and> ss_read st2 = ss_read st \<and>
    ss_redirects st2 = ss_redirects st \<and> vf_open (ss_vfs st2) h = None \<and>
    (ss_redirects st \<noteq> [] \<longrightarrow> ss_line_number st2 = ss_line_number st)"
proof -
  define rd where "rd = \<lparr>rd_file_new = h, rd_file = ss_file st,
      rd_line_number = (if ss_redirects st \<noteq> [] then ss_line_number st else 0),
      rd_read = ss_read st, rd_type = ss_type st, rd_status_handler = sh, rd_eof_handler = eh\<rparr>"
  have h: "h = vf_next (ss_vfs st)" and red1: "ss_redirects st1 = ss_redirects st @ [rd]"
    using assms(2)
    by (auto simp: rd_def stream_redirect_read_def vfs_open_def stream_set_type_def Let_def
        split: option.splits if_splits)
  have rd: "ss_redirects st1 = ss_redirects st @ [rd]" "rd_file_new rd = h" "rd_file rd = ss_file st"
    "rd_type rd = ss_type st" "rd_read rd = ss_read st" "ss_redirects st \<noteq> [] \<Longrightarrow> rd_line_number rd = ss_line_number st"
    using red1 by (simp_all add: rd_def)
  have new: "h \<notin> rd_file_new ` set (ss_redirects st)"
    using assms(1) h by (auto simp: streams_ok_def)
  have same: "same_stream st1 (fold run_stream_op ops st1)" by (rule same_stream_fold)
  define s where "s = fold run_stream_op ops st1"
  have red: "ss_redirects s = ss_redirects st @ [rd]"
    using same rd(1) by (simp add: same_stream_def s_def)
  have "rd_find h (ss_redirects st) = None" using new by (simp add: rd_find_None)
  then have find: "rd_find h (ss_redirects s) = Some rd"
    using rd(2) by (simp add: red rd_find_append)
  have rest: "rd_remove h (ss_redirects s) = ss_redirects st"
    using new rd(2) by (simp add: red rd_remove_append)
  have reader: "ss_redirects st \<noteq> [] \<longrightarrow> ss_read st = Stream_Read_File"
    using assms(1) by (simp add: streams_ok_def)
  show ?thesis
    unfolding assms(3) s_def [symmetric] stream_redirect_close_def
    using rd(3-6) reader
    by (simp add: find rest stream_set_type_def vfs_close_def Let_def)
qed

definition demo_streams :: "nat streams" where
  "demo_streams = \<lparr>ss_file = None, ss_type = StreamType_Serial, ss_read = Other_Read 0, ss_gc_file_stream = False,
     ss_line_number = 0, ss_eol_ok = False, ss_redirects = [], ss_hooked = False,
     ss_vfs = \<lparr>vf_files = (\<lambda>n. if n = ''/a.macro'' then Some ''G1'' else None), vf_open = (\<lambda>_. None), vf_next = 1\<rparr>\<rparr>"

lemma redirect_restores_witness:
  "\<exists>st1. stream_redirect_read True ''/a.macro'' None None demo_streams = (Some 1, st1) \<and>
     ss_type st1 = StreamType_File \<and>
     ss_type (stream_redirect_close (Some 1) (fold run_stream_op [ReadChar, ReadChar] st1)) = StreamType_Serial"
proof -
  have ok: "streams_ok demo_streams" by (simp add: streams_ok_def demo_streams_def)
  obtain st1 where r: "stream_redirect_read True ''/a.macro'' None None demo_streams = (Some 1, st1)"
      "ss_type st1 = StreamType_File"
    by (simp add: stream_redirect_read_def vfs_open_def demo_streams_def stream_set_type_def Let_def)
  with redirect_restores [OF ok r(1) refl, of "[ReadChar, ReadChar]"] show ?thesis
    by (auto simp: demo_streams_def)
qed

end
