(* ===== verification/Ngc_Flow.thy ===== *)
theory Ngc_Flow
  imports Ngc_Text Stream_File
begin

text \<open>
  The O-word flow control of \<open>grbl/ngc_flowctrl.c\<close>: conditionals, loops and subroutines of a G-code
  program, kept on a stack of at most twenty entries. The stack is a list with its top first;
  \<open>stack_idx\<close> is its length less one. A subroutine is known by the number that stands for its address;
  one that is not in the list of subroutines has been freed. \<open>Overflow\<close> is here any access the C
  code may not make: \<open>stack[-1]\<close>, a freed subroutine or a null pointer. What the code hands
  to the rest of the firmware is appended to a list of events. \<open>mem\<close> says whether memory can be
  allocated during an operation.
\<close>

datatype ngc_cmd =
    NGCFlowCtrl_NoOp | NGCFlowCtrl_If | NGCFlowCtrl_ElseIf | NGCFlowCtrl_Else | NGCFlowCtrl_EndIf
  | NGCFlowCtrl_Do | NGCFlowCtrl_Continue | NGCFlowCtrl_Break | NGCFlowCtrl_While | NGCFlowCtrl_EndWhile
  | NGCFlowCtrl_Repeat | NGCFlowCtrl_EndRepeat | NGCFlowCtrl_Sub | NGCFlowCtrl_EndSub | NGCFlowCtrl_Call
  | NGCFlowCtrl_Return | NGCFlowCtrl_RaiseAlarm | NGCFlowCtrl_RaiseError

definition NGC_STACK_DEPTH :: nat where "NGC_STACK_DEPTH = 20"

record ngc_sub =
  sub_ptr :: nat
  sub_label :: u32
  sub_file :: nat
  sub_file_pos :: nat
  sub_line_number :: line_number
  sub_callback :: "nat option"

record ngc_stack_entry =
  se_label :: u32
  se_operation :: ngc_cmd
  se_sub :: "nat option"
  se_file :: "nat option"
  se_file_pos :: nat
  se_line_number :: line_number
  se_expr :: "string option"
  se_repeats :: u32
  se_skip :: bool
  se_handled :: bool
  se_brk :: bool

text \<open>The handlers that are installed for the file of a named subroutine, or by other modules.\<close>

datatype flow_handler = NamedSub | ExternalHandler nat

datatype 'm flow_event =
    CallbackRun nat u32 bool | AlarmRaised u8 | MacroReturned | ModalRestored 'm | Message string
  | StatusReported status_code | HandlerRun nat status_code

record 'm flow =
  fl_env :: "'m expr_env"
  fl_streams :: "flow_handler streams"
  fl_stack :: "ngc_stack_entry list"
  fl_skip_sub :: bool
  fl_subs :: "ngc_sub list"
  fl_exec_sub :: "nat option"
  fl_next_sub :: nat
  fl_macro_return :: bool \<comment> \<open>\<open>grbl.on_macro_return\<close> is set\<close>
  fl_closing :: bool
  fl_fmt_digit :: nat
  fl_auto_restore :: "'m \<Rightarrow> bool"
  fl_events :: "'m flow_event list"

definition emit :: "'m flow_event \<Rightarrow> 'm flow \<Rightarrow> 'm flow" where
  "emit e st = st\<lparr>fl_events := fl_events st @ [e]\<rparr>"

definition params_of :: "'m flow \<Rightarrow> 'm ngc_params" where
  "params_of st = ee_params (fl_env st)"

definition set_params :: "'m ngc_params \<Rightarrow> 'm flow \<Rightarrow> 'm flow" where
  "set_params s st = st\<lparr>fl_env := (fl_env st)\<lparr>ee_params := s\<rparr>\<rparr>"

definition on_streams :: "(flow_handler streams \<Rightarrow> flow_handler streams) \<Rightarrow> 'm flow \<Rightarrow> 'm flow" where
  "on_streams f st = st\<lparr>fl_streams := f (fl_streams st)\<rparr>"

definition hal_file :: "'m flow \<Rightarrow> nat option" where
  "hal_file st = ss_file (fl_streams st)"

definition tell :: "nat option \<Rightarrow> 'm flow \<Rightarrow> nat" where
  "tell file st = (case file of None \<Rightarrow> 0 | Some f \<Rightarrow> vfs_tell f (ss_vfs (fl_streams st)))"

text \<open>Labels above this stand for names.\<close>

definition named_label :: "u32 \<Rightarrow> bool" where
  "named_label o_label \<longleftrightarrow> NGC_MAX_PARAM_ID < unat o_label"

subsection \<open>Reading the operation\<close>

definition read_command :: "string \<Rightarrow> nat \<Rightarrow> status_code \<times> nat \<times> ngc_cmd" where
  "read_command line pos =
     (let c = cchar line pos; pos = Suc pos;
          ok = (\<lambda>n operation. (Status_OK, pos + n, operation));
          unknown = (Status_FlowControlSyntaxError, pos, NGCFlowCtrl_NoOp)
      in if c = CHR ''A'' then if word_at line pos ''LARM'' then ok 4 NGCFlowCtrl_RaiseAlarm else unknown
         else if c = CHR ''B'' then if word_at line pos ''REAK'' then ok 4 NGCFlowCtrl_Break else unknown
         else if c = CHR ''C''
           then if word_at line pos ''ONTINUE'' then ok 7 NGCFlowCtrl_Continue
                else if word_at line pos ''ALL'' then ok 3 NGCFlowCtrl_Call
                else unknown
         else if c = CHR ''D'' then if cchar line pos = CHR ''O'' then ok 1 NGCFlowCtrl_Do else unknown
         else if c = CHR ''E''
           then if word_at line pos ''LSEIF'' then ok 5 NGCFlowCtrl_ElseIf
                else if word_at line pos ''LSE'' then ok 3 NGCFlowCtrl_Else
                else if word_at line pos ''NDIF'' then ok 4 NGCFlowCtrl_EndIf
                else if word_at line pos ''NDWHILE'' then ok 7 NGCFlowCtrl_EndWhile
                else if word_at line pos ''NDREPEAT'' then ok 8 NGCFlowCtrl_EndRepeat
                else if word_at line pos ''NDSUB'' then ok 5 NGCFlowCtrl_EndSub
                else if word_at line pos ''RROR'' then ok 4 NGCFlowCtrl_RaiseError
                else unknown
         else if c = CHR ''I'' then if cchar line pos = CHR ''F'' then ok 1 NGCFlowCtrl_If else unknown
         else if c = CHR ''R''
           then if word_at line pos ''EPEAT'' then ok 5 NGCFlowCtrl_Repeat
                else if word_at line pos ''ETURN'' then ok 5 NGCFlowCtrl_Return
                else unknown
         else if c = CHR ''S'' then if word_at line pos ''UB'' then ok 2 NGCFlowCtrl_Sub else unknown
         else if c = CHR ''W'' then if word_at line pos ''HILE'' then ok 4 NGCFlowCtrl_While else unknown
         else unknown)"

subsection \<open>Subroutines\<close>

definition find_sub :: "nat \<Rightarrow> 'm flow \<Rightarrow> ngc_sub option" where
  "find_sub p st = find (\<lambda>sub. sub_ptr sub = p) (fl_subs st)"

definition get_refcount :: "'m flow \<Rightarrow> nat option \<times> nat" where
  "get_refcount st =
     (let named = filter (\<lambda>sub. named_label (sub_label sub)) (fl_subs st);
          o_label = (if named = [] then 0 else sub_label (last named));
          same = filter (\<lambda>sub. sub_label sub = o_label) (fl_subs st)
      in (if same = [] then None else Some (sub_ptr (last same)), length same))"

definition add_sub :: "bool \<Rightarrow> u32 \<Rightarrow> line_number \<Rightarrow> nat \<Rightarrow> 'm flow \<Rightarrow> ngc_sub option \<times> 'm flow" where
  "add_sub mem o_label line_number file st =
     (if mem
      then
        let sub = \<lparr>sub_ptr = fl_next_sub st, sub_label = o_label, sub_file = file,
                   sub_file_pos = tell (Some file) st, sub_line_number = line_number, sub_callback = None\<rparr>
        in (Some sub, st\<lparr>fl_subs := fl_subs st @ [sub], fl_next_sub := Suc (fl_next_sub st)\<rparr>)
      else (None, st))"

text \<open>Freeing the subroutines of a file, of all files for a null pointer; each runs its callback.\<close>

definition sub_in :: "nat option \<Rightarrow> ngc_sub \<Rightarrow> bool" where
  "sub_in file sub \<longleftrightarrow> file = None \<or> file = Some (sub_file sub)"

definition free_event :: "ngc_sub \<Rightarrow> 'm flow_event list" where
  "free_event sub = (case sub_callback sub of None \<Rightarrow> [] | Some cb \<Rightarrow> [CallbackRun cb (sub_label sub) False])"

definition clear_subs :: "nat option \<Rightarrow> 'm flow \<Rightarrow> 'm flow" where
  "clear_subs file st =
     st\<lparr>fl_events := fl_events st @ concat (map free_event (filter (sub_in file) (fl_subs st))),
        fl_subs := filter (\<lambda>sub. \<not> sub_in file sub) (fl_subs st)\<rparr>"

definition set_callback :: "u32 \<Rightarrow> nat \<Rightarrow> ngc_sub list \<Rightarrow> ngc_sub list" where
  "set_callback o_label cb subs =
     (let before = takeWhile (\<lambda>sub. sub_label sub \<noteq> o_label) subs
      in case drop (length before) subs of
           [] \<Rightarrow> subs
         | sub # rest \<Rightarrow> before @ sub\<lparr>sub_callback := Some cb\<rparr> # rest)"

definition ngc_flowctrl_on_endsub_callback :: "u32 \<Rightarrow> nat \<Rightarrow> 'm flow \<Rightarrow> bool \<times> 'm flow" where
  "ngc_flowctrl_on_endsub_callback o_label cb st =
     (\<exists>sub \<in> set (fl_subs st). sub_label sub = o_label, st\<lparr>fl_subs := set_callback o_label cb (fl_subs st)\<rparr>)"

subsection \<open>The stack\<close>

definition upd_top :: "(ngc_stack_entry \<Rightarrow> ngc_stack_entry) \<Rightarrow> 'm flow \<Rightarrow> 'm flow" where
  "upd_top f st = (case fl_stack st of [] \<Rightarrow> st | e # es \<Rightarrow> st\<lparr>fl_stack := f e # es\<rparr>)"

definition call_level_ok :: "ngc_cmd \<Rightarrow> 'm flow \<Rightarrow> bool \<times> 'm flow" where
  "call_level_ok operation st =
     (if operation \<noteq> NGCFlowCtrl_Call then (True, st)
      else case ngc_call_push (length (fl_stack st)) (params_of st) of (ok, s) \<Rightarrow> (ok, set_params s st))"

definition stack_push :: "u32 \<Rightarrow> line_number \<Rightarrow> ngc_cmd \<Rightarrow> 'm flow \<Rightarrow> status_code \<times> 'm flow" where
  "stack_push o_label line_number operation st =
     (if length (fl_stack st) < NGC_STACK_DEPTH
      then case call_level_ok operation st of
             (ok, st) \<Rightarrow>
               if ok
               then (Status_OK, st\<lparr>fl_stack :=
                       \<lparr>se_label = o_label, se_operation = operation, se_sub = fl_exec_sub st,
                        se_file = hal_file st, se_file_pos = 0, se_line_number = line_number, se_expr = None,
                        se_repeats = 0, se_skip = False, se_handled = False, se_brk = False\<rparr> # fl_stack st\<rparr>)
               else (Status_FlowControlStackOverflow, st)
      else (Status_FlowControlStackOverflow, st))"

definition call_pop :: "'m flow \<Rightarrow> 'm flow" where
  "call_pop st =
     (case ngc_call_pop (fl_auto_restore st) (params_of st) of
        (_, restored, s) \<Rightarrow>
          let st = set_params s st in (case restored of None \<Rightarrow> st | Some m \<Rightarrow> emit (ModalRestored m) st))"

definition stack_pull :: "'m flow \<Rightarrow> bool \<times> 'm flow" where
  "stack_pull st =
     (case fl_stack st of
        [] \<Rightarrow> (False, st)
      | e # es \<Rightarrow>
          let st = (if se_operation e = NGCFlowCtrl_Call then call_pop st else st)
          in (True, st\<lparr>fl_stack := es\<rparr>))"

text \<open>Pulling entries while there are any and the top one does not satisfy a condition: a loop that only
  ends when every pull takes an entry off. Its fuel is one more than the height of the stack.\<close>

fun pull_until :: "nat \<Rightarrow> (ngc_stack_entry \<Rightarrow> bool) \<Rightarrow> 'm flow \<Rightarrow> 'm flow outcome" where
  "pull_until 0 P st = NoFuel"
| "pull_until (Suc n) P st =
     (case fl_stack st of
        [] \<Rightarrow> Done st
      | e # es \<Rightarrow> if P e then Done st else pull_until n P (snd (stack_pull st)))"

definition pull_while_not :: "(ngc_stack_entry \<Rightarrow> bool) \<Rightarrow> 'm flow \<Rightarrow> 'm flow outcome" where
  "pull_while_not P st = pull_until (Suc (length (fl_stack st))) P st"

definition reposition :: "nat option \<Rightarrow> nat \<Rightarrow> line_number \<Rightarrow> 'm flow \<Rightarrow> 'm flow outcome" where
  "reposition file file_pos line_number st =
     (case file of
        None \<Rightarrow> Overflow
      | Some f \<Rightarrow> Done (on_streams (stream_reposition f file_pos line_number) st))"

definition reposition_top :: "'m flow \<Rightarrow> 'm flow outcome" where
  "reposition_top st =
     (case fl_stack st of
        [] \<Rightarrow> Overflow
      | e # _ \<Rightarrow> reposition (se_file e) (se_file_pos e) (se_line_number e) st)"

text \<open>Leaving a subroutine: the entries above its call go, a named one is closed and freed, and its
  end-of-subroutine callback runs.\<close>

definition leave_sub :: "u32 \<Rightarrow> ngc_stack_entry \<Rightarrow> 'm flow \<Rightarrow> 'm flow outcome" where
  "leave_sub o_label e st =
     (if named_label o_label
      then
        let (sub, count) = get_refcount st;
            st = (if se_sub e = sub \<and> count = 1
                  then set_params (ngc_string_param_delete o_label (params_of st)) st else st)
        in Done (on_streams (stream_redirect_close (se_file e)) (clear_subs (se_file e) st))
      else reposition (se_file e) (se_file_pos e) (se_line_number e) st)"

definition top_sub :: "'m flow \<Rightarrow> nat option" where
  "top_sub st = (case fl_stack st of [] \<Rightarrow> None | e # _ \<Rightarrow> se_sub e)"

definition stack_unwind_sub :: "u32 \<Rightarrow> bool \<Rightarrow> 'm flow \<Rightarrow> 'm flow outcome" where
  "stack_unwind_sub o_label success st =
     bnd (pull_while_not (\<lambda>e. se_label e = o_label) st) (\<lambda>st.
       case fl_stack st of
         [] \<Rightarrow> Done (st\<lparr>fl_exec_sub := None\<rparr>)
       | e # _ \<Rightarrow>
             bnd (leave_sub o_label e st) (\<lambda>st.
               case Option.bind (se_sub e) (\<lambda>p. find_sub p st) of
                 None \<Rightarrow> Overflow
               | Some sub \<Rightarrow>
                   let st = snd (stack_pull st);
                       st = (case sub_callback sub of None \<Rightarrow> st | Some cb \<Rightarrow> emit (CallbackRun cb o_label success) st)
                   in Done (st\<lparr>fl_exec_sub := top_sub st\<rparr>)))"

definition ngc_flowctrl_unwind_stack :: "nat option \<Rightarrow> 'm flow \<Rightarrow> 'm flow outcome" where
  "ngc_flowctrl_unwind_stack file st = pull_while_not (\<lambda>e. se_file e \<noteq> file) (clear_subs file st)"

definition ngc_flowctrl_init :: "'m flow \<Rightarrow> 'm flow outcome" where
  "ngc_flowctrl_init st = pull_while_not (\<lambda>_. False) (clear_subs None st)"

subsection \<open>Errors and the end of a file\<close>

text \<open>ABORT comments; \<open>next_handler\<close> is the handler installed before.\<close>

definition onGcodeComment ::
  "bool \<Rightarrow> (string \<Rightarrow> status_code) option \<Rightarrow> string \<Rightarrow> 'm flow \<Rightarrow> (status_code \<times> 'm flow) outcome" where
  "onGcodeComment mem next_handler comment st =
     (if starts_with_nocase ''ABORT,'' comment
      then bnd (ngc_process_comment mem (fl_env st) (fl_fmt_digit st) (CHR ''!'' # tl comment)) (\<lambda>(msg, digit, _).
        bnd (if msg = None then ngc_substitute_parameters mem (fl_env st) digit (drop 6 comment) else Done (msg, digit))
          (\<lambda>(msg, digit).
            let st = st\<lparr>fl_fmt_digit := digit\<rparr>
            in Done (Status_UserException, case msg of None \<Rightarrow> st | Some m \<Rightarrow> emit (Message m) st)))
      else Done (case next_handler of None \<Rightarrow> Status_OK | Some f \<Rightarrow> f comment, st))"

definition error_text :: "status_code \<Rightarrow> string \<Rightarrow> string" where
  "error_text status name =
     (let s = ''error '' @ dec (unat status) @ '' in named sub '' @ name
      in take 89 s @ (if 89 \<le> length s then ''*.macro'' else ''.macro)''))"

definition file_sub :: "'m flow \<Rightarrow> ngc_sub option" where
  "file_sub st = find (\<lambda>sub. hal_file st = Some (sub_file sub) \<and> named_label (sub_label sub)) (fl_subs st)"

definition announce_error :: "status_code \<Rightarrow> u32 \<Rightarrow> 'm flow \<Rightarrow> 'm flow" where
  "announce_error status o_label st =
     (if fl_closing st then st
      else
        let st = st\<lparr>fl_closing := True\<rparr>
        in case ngc_string_param_get o_label (params_of st) of
             None \<Rightarrow> st
           | Some name \<Rightarrow> emit (Message (error_text status name)) st)"

text \<open>Reporting a status calls the handler of the innermost redirection. \<open>ext\<close> gives what the handlers
  of other modules return, \<open>named\<close> is the handler of named subroutines.\<close>

definition deliver_status ::
  "(nat \<Rightarrow> status_code \<Rightarrow> status_code) \<Rightarrow> (status_code \<Rightarrow> 'm flow \<Rightarrow> (status_code \<times> 'm flow) outcome) \<Rightarrow>
    status_code \<Rightarrow> 'm flow \<Rightarrow> (status_code \<times> 'm flow) outcome" where
  "deliver_status ext named status st =
     (case trap_status_messages (fl_streams st) status of
        ToReport \<Rightarrow> Done (status, emit (StatusReported status) st)
      | Swallowed \<Rightarrow> Done (status, st)
      | ToHandler h \<Rightarrow>
          (case h of
             NamedSub \<Rightarrow> named status st
           | ExternalHandler k \<Rightarrow> Done (ext k status, emit (HandlerRun k status) st)))"

text \<open>The handler of a named subroutine closes it and reports again. Every round takes an entry off the
  stack, so that one more than its height is enough fuel.\<close>

fun onNamedSubError ::
  "nat \<Rightarrow> (nat \<Rightarrow> status_code \<Rightarrow> status_code) \<Rightarrow> status_code \<Rightarrow> 'm flow \<Rightarrow> (status_code \<times> 'm flow) outcome" where
  "onNamedSubError 0 ext status st = NoFuel"
| "onNamedSubError (Suc n) ext status st =
     (if fl_stack st = [] then Done (status, st)
      else
        let finish = (\<lambda>status st. bnd (ngc_flowctrl_init (st\<lparr>fl_closing := False\<rparr>)) (\<lambda>st. Done (status, st)))
        in case file_sub st of
             None \<Rightarrow> finish status st
           | Some sub \<Rightarrow>
               bnd (stack_unwind_sub (sub_label sub) False (announce_error status (sub_label sub) st)) (\<lambda>st.
                 bnd (deliver_status ext (onNamedSubError n ext) status st)
                   (\<lambda>(status, st). finish status st)))"

definition report_status ::
  "(nat \<Rightarrow> status_code \<Rightarrow> status_code) \<Rightarrow> status_code \<Rightarrow> 'm flow \<Rightarrow> (status_code \<times> 'm flow) outcome" where
  "report_status ext status st =
     deliver_status ext (onNamedSubError (Suc (length (fl_stack st))) ext) status st"

definition onNamedSubEOF :: "nat \<Rightarrow> status_code \<Rightarrow> 'm flow \<Rightarrow> (status_code \<times> 'm flow) outcome" where
  "onNamedSubEOF file status st =
     (case fl_stack st of
        [] \<Rightarrow> Done (status, st)
      | e # _ \<Rightarrow>
          if se_file e = Some file
          then bnd (ngc_flowctrl_unwind_stack (se_file e) (on_streams (stream_redirect_close (se_file e)) st))
                 (\<lambda>st. Done (status, st))
          else Done (status, st))"

subsection \<open>Operations\<close>

type_synonym 'm flow_result = "(status_code \<times> nat \<times> 'm flow) outcome"

definition skipping :: "'m flow \<Rightarrow> bool" where
  "skipping st \<longleftrightarrow> fl_skip_sub st \<or> (case fl_stack st of [] \<Rightarrow> False | e # _ \<Rightarrow> se_skip e)"

definition last_op :: "'m flow \<Rightarrow> ngc_cmd" where
  "last_op st =
     (case fl_stack st of
        [] \<Rightarrow> if fl_skip_sub st then NGCFlowCtrl_Sub else NGCFlowCtrl_NoOp
      | e # _ \<Rightarrow> se_operation e)"

definition top_label :: "u32 \<Rightarrow> 'm flow \<Rightarrow> bool" where
  "top_label o_label st \<longleftrightarrow> (case fl_stack st of [] \<Rightarrow> False | e # _ \<Rightarrow> se_label e = o_label)"

definition eval_then ::
  "'m flow \<Rightarrow> string \<Rightarrow> nat \<Rightarrow> (nat \<Rightarrow> flt \<Rightarrow> 'm flow_result) \<Rightarrow> 'm flow_result" where
  "eval_then st line pos f =
     bnd (ngc_eval_expression (fl_env st) line pos (ee_junk (fl_env st))) (\<lambda>(status, pos, value).
       if status \<noteq> Status_OK then Done (status, pos, st) else f pos value)"

definition is_zero :: "flt \<Rightarrow> bool" where "is_zero v \<longleftrightarrow> f_eq v f_zero"

text \<open>An \<open>else if(!skipping)\<close> branch that reports a syntax error.\<close>

definition misplaced :: "nat \<Rightarrow> 'm flow \<Rightarrow> 'm flow_result" where
  "misplaced pos st = Done (if skipping st then Status_OK else Status_FlowControlSyntaxError, pos, st)"

definition flow_if :: "u32 \<Rightarrow> line_number \<Rightarrow> string \<Rightarrow> nat \<Rightarrow> 'm flow \<Rightarrow> 'm flow_result" where
  "flow_if o_label line_number line pos st =
     (if skipping st then Done (Status_OK, pos, st)
      else eval_then st line pos (\<lambda>pos value.
        case stack_push o_label line_number NGCFlowCtrl_If st of
          (status, st) \<Rightarrow>
            Done (status, pos,
              if status = Status_OK
              then upd_top (\<lambda>e. e\<lparr>se_skip := is_zero value, se_handled := \<not> is_zero value\<rparr>) st else st)))"

definition flow_elseif :: "u32 \<Rightarrow> string \<Rightarrow> nat \<Rightarrow> 'm flow \<Rightarrow> 'm flow_result" where
  "flow_elseif o_label line pos st =
     (if last_op st = NGCFlowCtrl_If \<or> last_op st = NGCFlowCtrl_ElseIf
      then
        if \<not> top_label o_label st then Done (Status_OK, pos, st)
        else
          let st = upd_top (\<lambda>e. e\<lparr>se_skip := se_handled e\<rparr>) st
          in if se_handled (hd (fl_stack st)) then Done (Status_OK, pos, st)
             else eval_then st line pos (\<lambda>pos value.
               Done (Status_OK, pos,
                 if is_zero value then upd_top (\<lambda>e. e\<lparr>se_skip := True\<rparr>) st
                 else upd_top (\<lambda>e. e\<lparr>se_skip := False, se_operation := NGCFlowCtrl_ElseIf, se_handled := True\<rparr>) st))
      else misplaced pos st)"

definition flow_else :: "u32 \<Rightarrow> nat \<Rightarrow> 'm flow \<Rightarrow> 'm flow_result" where
  "flow_else o_label pos st =
     (if last_op st = NGCFlowCtrl_If \<or> last_op st = NGCFlowCtrl_ElseIf
      then Done (Status_OK, pos,
        if top_label o_label st
        then upd_top (\<lambda>e. e\<lparr>se_skip := se_handled e,
               se_operation := (if se_handled e then se_operation e else NGCFlowCtrl_Else)\<rparr>) st
        else st)
      else misplaced pos st)"

definition flow_endif :: "u32 \<Rightarrow> nat \<Rightarrow> 'm flow \<Rightarrow> 'm flow_result" where
  "flow_endif o_label pos st =
     (if last_op st = NGCFlowCtrl_If \<or> last_op st = NGCFlowCtrl_ElseIf \<or> last_op st = NGCFlowCtrl_Else
      then Done (Status_OK, pos, if top_label o_label st then snd (stack_pull st) else st)
      else misplaced pos st)"

subsection \<open>Loops\<close>

definition not_in_macro :: "nat \<Rightarrow> 'm flow \<Rightarrow> 'm flow_result" where
  "not_in_macro pos st = Done (Status_FlowControlNotExecutingMacro, pos, st)"

definition flow_do :: "u32 \<Rightarrow> line_number \<Rightarrow> nat \<Rightarrow> 'm flow \<Rightarrow> 'm flow_result" where
  "flow_do o_label line_number pos st =
     (if skipping st then Done (Status_OK, pos, st)
      else case stack_push o_label line_number NGCFlowCtrl_Do st of
             (status, st) \<Rightarrow>
               Done (status, pos,
                 if status = Status_OK
                 then upd_top (\<lambda>e. e\<lparr>se_file_pos := tell (hal_file st) st, se_skip := False\<rparr>) st else st))"

text \<open>Marking a new WHILE or REPEAT entry as running from here.\<close>

definition loop_start :: "'m flow \<Rightarrow> ngc_stack_entry \<Rightarrow> ngc_stack_entry" where
  "loop_start st e = e\<lparr>se_file := hal_file st, se_file_pos := tell (hal_file st) st\<rparr>"

definition flow_while :: "bool \<Rightarrow> u32 \<Rightarrow> line_number \<Rightarrow> string \<Rightarrow> nat \<Rightarrow> 'm flow \<Rightarrow> 'm flow_result" where
  "flow_while mem o_label line_number line pos st =
     (let expr = drop pos line;
          closes_do = (last_op st = NGCFlowCtrl_Do \<and> top_label o_label st)
      in if (case fl_stack st of [] \<Rightarrow> False | e # _ \<Rightarrow> se_brk e)
         then Done (Status_OK, pos, if closes_do then snd (stack_pull st) else st)
         else if skipping st then Done (Status_OK, pos, st)
         else eval_then st line pos (\<lambda>pos value.
           if closes_do
           then if \<not> is_zero value then bnd (reposition_top st) (\<lambda>st. Done (Status_OK, pos, st))
                else Done (Status_OK, pos, snd (stack_pull st))
           else case stack_push o_label line_number NGCFlowCtrl_While st of
             (status, st) \<Rightarrow>
               if status \<noteq> Status_OK then Done (status, pos, st)
               else if is_zero value then Done (Status_OK, pos, upd_top (\<lambda>e. e\<lparr>se_skip := True\<rparr>) st)
               else if mem
               then Done (Status_OK, pos,
                      upd_top (\<lambda>e. loop_start st (e\<lparr>se_skip := False, se_expr := Some expr\<rparr>)) st)
               else Done (Status_FlowControlOutOfMemory, pos, st)))"

text \<open>The condition of a WHILE loop is evaluated again, from the copy of its text; the result is the
  status and whether the loop has ended.\<close>

definition while_again :: "'m flow \<Rightarrow> (status_code \<times> 'm flow) outcome" where
  "while_again st =
     (case fl_stack st of
        [] \<Rightarrow> Overflow
      | e # _ \<Rightarrow>
          if se_skip e then Done (Status_OK, st)
          else case se_expr e of
            None \<Rightarrow> Overflow
          | Some expr \<Rightarrow>
              bnd (ngc_eval_expression (fl_env st) expr 0 (ee_junk (fl_env st))) (\<lambda>(status, _, value).
                if status \<noteq> Status_OK then Done (status, st)
                else if is_zero value then Done (Status_OK, upd_top (\<lambda>e. e\<lparr>se_skip := True\<rparr>) st)
                else bnd (reposition_top (upd_top (\<lambda>e. e\<lparr>se_skip := False\<rparr>) st)) (\<lambda>st. Done (Status_OK, st))))"

definition pull_skipped :: "'m flow \<Rightarrow> 'm flow" where
  "pull_skipped st = (case fl_stack st of [] \<Rightarrow> st | e # _ \<Rightarrow> if se_skip e then snd (stack_pull st) else st)"

definition flow_endwhile :: "u32 \<Rightarrow> nat \<Rightarrow> 'm flow \<Rightarrow> 'm flow_result" where
  "flow_endwhile o_label pos st =
     (if last_op st = NGCFlowCtrl_While
      then if \<not> top_label o_label st then Done (Status_OK, pos, st)
           else bnd (if skipping st then Done (Status_OK, st) else while_again st)
                  (\<lambda>(status, st). Done (status, pos, pull_skipped st))
      else misplaced pos st)"

text \<open>\<open>nearbyintf\<close>, to the nearest integer and halves to the even one.\<close>

definition round_even :: "real \<Rightarrow> real" where
  "round_even a =
     (let l = \<lfloor>a\<rfloor>; d = a - of_int l
      in of_int (if d < 1 / 2 \<or> (d = 1 / 2 \<and> even l) then l else l + 1))"

definition flow_repeat :: "u32 \<Rightarrow> line_number \<Rightarrow> string \<Rightarrow> nat \<Rightarrow> 'm flow \<Rightarrow> 'm flow_result" where
  "flow_repeat o_label line_number line pos st =
     (if skipping st then Done (Status_OK, pos, st)
      else eval_then st line pos (\<lambda>pos value.
        case stack_push o_label line_number NGCFlowCtrl_Repeat st of
          (status, st) \<Rightarrow>
            let value = f_map_exact round_even value
            in Done (status, pos,
                 if status \<noteq> Status_OK then st
                 else if f_le value f_zero then upd_top (\<lambda>e. e\<lparr>se_skip := True\<rparr>) st
                 else upd_top (\<lambda>e. loop_start st
                        (e\<lparr>se_skip := False, se_repeats := f_to_u32 (ee_fp (fl_env st)) value\<rparr>)) st)))"

definition set_repeats :: "u32 \<Rightarrow> 'm flow \<Rightarrow> 'm flow" where
  "set_repeats n st = upd_top (\<lambda>e. e\<lparr>se_repeats := n\<rparr>) st"

text \<open>\<open>repeats && --repeats\<close>\<close>

definition more_repeats :: "'m flow \<Rightarrow> bool \<times> 'm flow" where
  "more_repeats st =
     (let n = se_repeats (hd (fl_stack st))
      in if n = 0 then (False, st) else (n - 1 \<noteq> 0, set_repeats (n - 1) st))"

definition flow_endrepeat :: "u32 \<Rightarrow> nat \<Rightarrow> 'm flow \<Rightarrow> 'm flow_result" where
  "flow_endrepeat o_label pos st =
     (if last_op st = NGCFlowCtrl_Repeat
      then if \<not> top_label o_label st then Done (Status_OK, pos, st)
           else if skipping st then Done (Status_OK, pos, snd (stack_pull st))
           else case more_repeats st of
                  (again, st) \<Rightarrow>
                    if again then bnd (reposition_top st) (\<lambda>st. Done (Status_OK, pos, st))
                    else Done (Status_OK, pos, snd (stack_pull st))
      else misplaced pos st)"

text \<open>BREAK and CONTINUE first pull entries until the label is found. The label of \<open>stack[-1]\<close> is read
  when it is not.\<close>

definition flow_break :: "u32 \<Rightarrow> nat \<Rightarrow> 'm flow \<Rightarrow> 'm flow_result" where
  "flow_break o_label pos st =
     (if skipping st then Done (Status_OK, pos, st)
      else bnd (pull_while_not (\<lambda>e. se_label e = o_label) st) (\<lambda>st.
           case fl_stack st of
             [] \<Rightarrow> Overflow
           | e # _ \<Rightarrow>
               if se_operation e \<in> {NGCFlowCtrl_Do, NGCFlowCtrl_While, NGCFlowCtrl_Repeat}
               then Done (Status_OK, pos,
                      upd_top (\<lambda>e. e\<lparr>se_repeats := 0, se_handled := True, se_skip := True, se_brk := True\<rparr>) st)
               else Done (Status_FlowControlSyntaxError, pos, st)))"

definition flow_continue :: "u32 \<Rightarrow> nat \<Rightarrow> 'm flow \<Rightarrow> 'm flow_result" where
  "flow_continue o_label pos st =
     (if skipping st then Done (Status_OK, pos, st)
      else bnd (pull_while_not (\<lambda>e. se_label e = o_label) st) (\<lambda>st.
           case fl_stack st of
             [] \<Rightarrow> Overflow
           | e # _ \<Rightarrow>
               (case se_operation e of
                  NGCFlowCtrl_Repeat \<Rightarrow>
                    (case more_repeats st of
                       (again, st) \<Rightarrow>
                         if again then bnd (reposition_top st) (\<lambda>st. Done (Status_OK, pos, st))
                         else Done (Status_OK, pos, upd_top (\<lambda>e. e\<lparr>se_skip := True\<rparr>) st))
                | NGCFlowCtrl_Do \<Rightarrow> bnd (reposition_top st) (\<lambda>st. Done (Status_OK, pos, st))
                | NGCFlowCtrl_While \<Rightarrow> bnd (while_again st) (\<lambda>(status, st). Done (status, pos, pull_skipped st))
                | _ \<Rightarrow> Done (Status_FlowControlSyntaxError, pos, st))))"

subsection \<open>Alarms and errors\<close>

definition to_u8 :: "fpu \<Rightarrow> flt \<Rightarrow> u8" where
  "to_u8 fp v = ucast (f_to_u32 fp v)"

definition flow_alarm :: "string \<Rightarrow> nat \<Rightarrow> 'm flow \<Rightarrow> 'm flow_result" where
  "flow_alarm line pos st =
     (if skipping st then Done (Status_OK, pos, st)
      else bnd (ngc_eval_expression (fl_env st) line pos (ee_junk (fl_env st))) (\<lambda>(status, pos, value).
        Done (Status_OK, pos,
          if status = Status_OK then emit (AlarmRaised (to_u8 (ee_fp (fl_env st)) value)) st else st)))"

definition flow_error :: "string \<Rightarrow> nat \<Rightarrow> 'm flow \<Rightarrow> 'm flow_result" where
  "flow_error line pos st =
     (if skipping st then Done (Status_OK, pos, st)
      else bnd (ngc_eval_expression (fl_env st) line pos (ee_junk (fl_env st))) (\<lambda>(status, pos, value).
        Done (if status = Status_OK then to_u8 (ee_fp (fl_env st)) value else Status_OK, pos, st)))"

subsection \<open>Subroutines: definition, call and return\<close>

text \<open>Global parameters set by the code; the names are shorter than the name buffer.\<close>

definition set_named :: "bool \<Rightarrow> string \<Rightarrow> flt \<Rightarrow> 'm flow \<Rightarrow> 'm flow outcome" where
  "set_named mem name value st =
     (case ngc_named_param_set mem name value (params_of st) of
        None \<Rightarrow> Overflow
      | Some (_, s) \<Rightarrow> Done (set_params s st))"

text \<open>The value after ENDSUB and RETURN, evaluated after the subroutine has been left.\<close>

definition return_value :: "bool \<Rightarrow> string \<Rightarrow> nat \<Rightarrow> 'm flow \<Rightarrow> (nat \<times> 'm flow) outcome" where
  "return_value mem line pos st =
     bnd (ngc_eval_expression (fl_env st) line pos (ee_junk (fl_env st))) (\<lambda>(status, pos, value).
       if status = Status_OK
       then bnd (set_named mem ''_value'' value st) (\<lambda>st.
              bnd (set_named mem ''_value_returned'' f_one st) (\<lambda>st. Done (pos, st)))
       else bnd (set_named mem ''_value_returned'' f_zero st) (\<lambda>st. Done (pos, st)))"

definition flow_sub :: "bool \<Rightarrow> u32 \<Rightarrow> line_number \<Rightarrow> nat \<Rightarrow> 'm flow \<Rightarrow> 'm flow_result" where
  "flow_sub mem o_label line_number pos st =
     (case hal_file st of
        None \<Rightarrow> not_in_macro pos st
      | Some file \<Rightarrow>
          if named_label o_label
          then
            let found = find (\<lambda>sub. sub_label sub = o_label \<and> sub_file sub = file) (fl_subs st)
            in Done (if found \<noteq> None \<or> (fl_subs st \<noteq> [] \<and> sub_label (last (fl_subs st)) = o_label)
                     then Status_OK else Status_FlowControlSyntaxError, pos, st)
          else case add_sub mem o_label line_number file st of
                 (sub, st) \<Rightarrow>
                   Done (if sub = None then Status_FlowControlOutOfMemory else Status_OK, pos,
                         st\<lparr>fl_skip_sub := (sub \<noteq> None)\<rparr>))"

definition flow_endsub :: "bool \<Rightarrow> u32 \<Rightarrow> string \<Rightarrow> nat \<Rightarrow> 'm flow \<Rightarrow> 'm flow_result" where
  "flow_endsub mem o_label line pos st =
     (if fl_skip_sub st then Done (Status_OK, pos, st\<lparr>fl_skip_sub := False\<rparr>)
      else bnd (stack_unwind_sub o_label True st) (\<lambda>st.
        bnd (return_value mem line pos st) (\<lambda>(pos, st). Done (Status_OK, pos, st\<lparr>fl_skip_sub := False\<rparr>))))"

text \<open>The subroutine to call: a macro file for a name, otherwise one defined in the current file.\<close>

definition open_macro :: "bool \<Rightarrow> string \<Rightarrow> 'm flow \<Rightarrow> nat option \<times> 'm flow" where
  "open_macro mem subname st =
     (case stream_redirect_read mem (''/littlefs/'' @ subname @ ''.macro'') (Some NamedSub) (Some NamedSub) (fl_streams st) of
        (Some file, ss) \<Rightarrow> (Some file, st\<lparr>fl_streams := ss\<rparr>)
      | (None, ss) \<Rightarrow>
          (case stream_redirect_read mem (''/'' @ subname @ ''.macro'') (Some NamedSub) (Some NamedSub) ss of
             (file, ss) \<Rightarrow> (file, st\<lparr>fl_streams := ss\<rparr>)))"

definition callee :: "bool \<Rightarrow> u32 \<Rightarrow> line_number \<Rightarrow> 'm flow \<Rightarrow> status_code \<times> ngc_sub option \<times> 'm flow" where
  "callee mem o_label line_number st =
     (if named_label o_label
      then case ngc_string_param_get o_label (params_of st) of
             None \<Rightarrow> (Status_OK, None, st)
           | Some subname \<Rightarrow>
               if 59 < length subname + 20 \<and> \<not> mem then (Status_FlowControlOutOfMemory, None, st)
               else (case open_macro mem subname st of
                       (None, st) \<Rightarrow> (Status_FileOpenFailed, None, st)
                     | (Some file, st) \<Rightarrow>
                         (case add_sub mem o_label line_number file st of
                            (None, st) \<Rightarrow> (Status_FlowControlOutOfMemory, None, st)
                          | (Some sub, st) \<Rightarrow> (Status_OK, Some sub, st)))
      else (Status_OK, find (\<lambda>sub. sub_label sub = o_label \<and> hal_file st = Some (sub_file sub)) (fl_subs st), st))"

text \<open>The arguments: at most thirty expressions; n counts how many more may follow.\<close>

fun read_args :: "nat \<Rightarrow> 'm flow \<Rightarrow> string \<Rightarrow> nat \<Rightarrow> flt list \<Rightarrow> (status_code \<times> nat \<times> flt list) outcome" where
  "read_args 0 st line pos args = Done (Status_OK, pos, args)"
| "read_args (Suc n) st line pos args =
     (if cchar line pos = NUL then Done (Status_OK, pos, args)
      else bnd (ngc_eval_expression (fl_env st) line pos (ee_junk (fl_env st))) (\<lambda>(status, pos, value).
        if status \<noteq> Status_OK then Done (status, pos, args) else read_args n st line pos (args @ [value])))"

text \<open>Parameters without an argument keep the caller's value; the last one is left unset when there are
  twenty-nine arguments.\<close>

definition all_args :: "'m flow \<Rightarrow> flt list \<Rightarrow> flt list" where
  "all_args st args =
     (if length args < 29
      then args @ map (\<lambda>i. snd (ngc_param_get (ee_fp (fl_env st)) (ee_machine (fl_env st)) (params_of st) i))
                    [Suc (length args)..<31]
      else args @ replicate (30 - length args) (ee_junk (fl_env st)))"

text \<open>Setting the parameters of the new level, zeros left out.\<close>

fun set_args :: "bool \<Rightarrow> nat \<Rightarrow> flt list \<Rightarrow> status_code \<Rightarrow> 'm flow \<Rightarrow> status_code \<times> 'm flow" where
  "set_args mem i [] status st = (status, st)"
| "set_args mem i (v # vs) status st =
     (if is_zero v then set_args mem (Suc i) vs status st
      else case ngc_param_set mem i v (params_of st) of
             (ok, s) \<Rightarrow> set_args mem (Suc i) vs (if ok then status else Status_FlowControlOutOfMemory) (set_params s st))"

definition enter_sub :: "bool \<Rightarrow> ngc_sub \<Rightarrow> flt list \<Rightarrow> 'm flow \<Rightarrow> (status_code \<times> 'm flow) outcome" where
  "enter_sub mem sub args st =
     (let st = upd_top (\<lambda>e. e\<lparr>se_sub := Some (sub_ptr sub), se_file := hal_file st,
                              se_file_pos := tell (hal_file st) st, se_repeats := 1\<rparr>)
                 (st\<lparr>fl_exec_sub := Some (sub_ptr sub)\<rparr>)
      in case set_args mem 1 args Status_OK st of
           (status, st) \<Rightarrow>
             if status \<noteq> Status_OK then Done (status, st)
             else bnd (set_named mem ''_value'' f_zero st) (\<lambda>st.
               bnd (set_named mem ''_value_returned'' f_zero st) (\<lambda>st.
                 bnd (reposition (Some (sub_file sub)) (sub_file_pos sub) (sub_line_number sub) st)
                   (\<lambda>st. Done (Status_OK, st)))))"

definition flow_call :: "bool \<Rightarrow> u32 \<Rightarrow> line_number \<Rightarrow> string \<Rightarrow> nat \<Rightarrow> 'm flow \<Rightarrow> 'm flow_result" where
  "flow_call mem o_label line_number line pos st =
     (if hal_file st = None \<and> \<not> named_label o_label then not_in_macro pos st
      else if skipping st then Done (Status_OK, pos, st)
      else case callee mem o_label line_number st of
             (status, None, st) \<Rightarrow>
               Done (if status = Status_OK then Status_FlowControlSyntaxError else status, pos, st)
           | (_, Some sub, st) \<Rightarrow>
               bnd (read_args 30 st line pos []) (\<lambda>(status, pos, args).
                 if status \<noteq> Status_OK then Done (status, pos, st)
                 else let params = all_args st args
                      in case stack_push o_label line_number NGCFlowCtrl_Call st of
                           (status, st) \<Rightarrow>
                             if status \<noteq> Status_OK then Done (status, pos, st)
                             else bnd (enter_sub mem sub params st) (\<lambda>(status, st). Done (status, pos, st))))"

definition flow_return :: "bool \<Rightarrow> u32 \<Rightarrow> string \<Rightarrow> nat \<Rightarrow> 'm flow \<Rightarrow> 'm flow_result" where
  "flow_return mem o_label line pos st =
     (if skipping st then Done (Status_OK, pos, st)
      else
        let g65_return = (fl_exec_sub st = None \<and> fl_macro_return st)
        in bnd (if fl_exec_sub st \<noteq> None then stack_unwind_sub o_label True st
                else if g65_return
                then (case fl_stack st of [] \<Rightarrow> Overflow | e # _ \<Rightarrow> ngc_flowctrl_unwind_stack (se_file e) st)
                else Done st) (\<lambda>st.
             bnd (return_value mem line pos st) (\<lambda>(pos, st).
               Done (Status_OK, pos, if g65_return then emit MacroReturned st else st))))"

subsection \<open>The dispatcher\<close>

definition needs_file :: "ngc_cmd \<Rightarrow> bool" where
  "needs_file operation \<longleftrightarrow>
     operation \<in> {NGCFlowCtrl_Do, NGCFlowCtrl_While, NGCFlowCtrl_EndWhile, NGCFlowCtrl_Repeat, NGCFlowCtrl_EndRepeat,
       NGCFlowCtrl_Break, NGCFlowCtrl_Continue, NGCFlowCtrl_EndSub, NGCFlowCtrl_Return}"

definition flow_operation ::
  "bool \<Rightarrow> ngc_cmd \<Rightarrow> u32 \<Rightarrow> line_number \<Rightarrow> string \<Rightarrow> nat \<Rightarrow> 'm flow \<Rightarrow> 'm flow_result" where
  "flow_operation mem operation o_label line_number line pos st =
     (if needs_file operation \<and> hal_file st = None then not_in_macro pos st
      else case operation of
        NGCFlowCtrl_If \<Rightarrow> flow_if o_label line_number line pos st
      | NGCFlowCtrl_ElseIf \<Rightarrow> flow_elseif o_label line pos st
      | NGCFlowCtrl_Else \<Rightarrow> flow_else o_label pos st
      | NGCFlowCtrl_EndIf \<Rightarrow> flow_endif o_label pos st
      | NGCFlowCtrl_Do \<Rightarrow> flow_do o_label line_number pos st
      | NGCFlowCtrl_While \<Rightarrow> flow_while mem o_label line_number line pos st
      | NGCFlowCtrl_EndWhile \<Rightarrow> flow_endwhile o_label pos st
      | NGCFlowCtrl_Repeat \<Rightarrow> flow_repeat o_label line_number line pos st
      | NGCFlowCtrl_EndRepeat \<Rightarrow> flow_endrepeat o_label pos st
      | NGCFlowCtrl_Break \<Rightarrow> flow_break o_label pos st
      | NGCFlowCtrl_Continue \<Rightarrow> flow_continue o_label pos st
      | NGCFlowCtrl_RaiseAlarm \<Rightarrow> flow_alarm line pos st
      | NGCFlowCtrl_RaiseError \<Rightarrow> flow_error line pos st
      | NGCFlowCtrl_Sub \<Rightarrow> flow_sub mem o_label line_number pos st
      | NGCFlowCtrl_EndSub \<Rightarrow> flow_endsub mem o_label line pos st
      | NGCFlowCtrl_Call \<Rightarrow> flow_call mem o_label line_number line pos st
      | NGCFlowCtrl_Return \<Rightarrow> flow_return mem o_label line pos st
      | NGCFlowCtrl_NoOp \<Rightarrow> Done (Status_FlowControlSyntaxError, pos, st))"

text \<open>An O-word line after its label: the status, the position, whether the lines that follow are to be
  skipped, and the new state. An unknown operation returns at once and leaves \<open>*skip\<close>, here \<open>None\<close>,
  as it was.\<close>

definition ngc_flowctrl ::
  "bool \<Rightarrow> u32 \<Rightarrow> line_number \<Rightarrow> string \<Rightarrow> nat \<Rightarrow> 'm flow \<Rightarrow>
    (status_code \<times> nat \<times> bool option \<times> 'm flow) outcome" where
  "ngc_flowctrl mem o_label line_number line pos st =
     (case read_command line pos of
        (status, pos, operation) \<Rightarrow>
          if status \<noteq> Status_OK then Done (status, pos, None, st)
          else bnd (flow_operation mem operation o_label line_number line pos st) (\<lambda>(status, pos, st).
            if status \<noteq> Status_OK
            then bnd (ngc_flowctrl_init st) (\<lambda>st.
                   Done (status, pos, Some False,
                     if g_debug_out (ee_machine (fl_env st)) then emit (Message line) st else st))
            else Done (Status_OK, pos, Some (skipping st), st)))"

end
