(* ===== verification/Ngc_Flow_Props.thy ===== *)
theory Ngc_Flow_Props
  imports Ngc_Flow
begin

text \<open>
  Properties of the O-word flow control: conditionals run the first true branch, REPEAT runs its
  body the given number of times, the stack and the call levels stay balanced and within their
  bounds, and the accesses outside the stack and to freed subroutines that the code makes.
\<close>

subsection \<open>Lines of a program\<close>

text \<open>Executing lines, as long as they succeed; the result is what each line says about skipping.\<close>

fun run_lines ::
  "bool \<Rightarrow> u32 \<Rightarrow> line_number \<Rightarrow> string list \<Rightarrow> 'm flow \<Rightarrow> (bool option list \<times> 'm flow) outcome" where
  "run_lines mem l n [] st = Done ([], st)"
| "run_lines mem l n (line # lines) st =
     bnd (ngc_flowctrl mem l n line 0 st) (\<lambda>(status, _, skip, st).
       if status \<noteq> Status_OK then Done ([skip], st)
       else bnd (run_lines mem l n lines st) (\<lambda>(skips, st). Done (skip # skips, st)))"

lemma bnd_Done [simp]: "bnd r Done = r"
  by (cases r) auto

lemma flowctrl_line:
  assumes "read_command line 0 = (Status_OK, p, operation)"
    and "flow_operation mem operation l n line p st = Done (Status_OK, q, st')"
  shows "ngc_flowctrl mem l n line 0 st = Done (Status_OK, q, Some (skipping st'), st')"
  using assms by (simp add: ngc_flowctrl_def)

lemma flow_operation_simps [simp]:
  "flow_operation mem NGCFlowCtrl_If l n line p st = flow_if l n line p st"
  "flow_operation mem NGCFlowCtrl_ElseIf l n line p st = flow_elseif l line p st"
  "flow_operation mem NGCFlowCtrl_Else l n line p st = flow_else l p st"
  "flow_operation mem NGCFlowCtrl_EndIf l n line p st = flow_endif l p st"
  "hal_file st \<noteq> None \<Longrightarrow> flow_operation mem NGCFlowCtrl_Repeat l n line p st = flow_repeat l n line p st"
  "hal_file st \<noteq> None \<Longrightarrow> flow_operation mem NGCFlowCtrl_EndRepeat l n line p st = flow_endrepeat l p st"
  "hal_file st \<noteq> None \<Longrightarrow> flow_operation mem NGCFlowCtrl_EndWhile l n line p st = flow_endwhile l p st"
  "hal_file st \<noteq> None \<Longrightarrow> flow_operation mem NGCFlowCtrl_Break l n line p st = flow_break l p st"
  "hal_file st \<noteq> None \<Longrightarrow> flow_operation mem NGCFlowCtrl_Continue l n line p st = flow_continue l p st"
  "hal_file st \<noteq> None \<Longrightarrow> flow_operation mem NGCFlowCtrl_Return l n line p st = flow_return mem l line p st"
  "hal_file st \<noteq> None \<Longrightarrow> flow_operation mem NGCFlowCtrl_EndSub l n line p st = flow_endsub mem l line p st"
  by (auto simp: flow_operation_def needs_file_def)

lemma skipping_stack [simp]:
  "fl_stack st = e # es \<Longrightarrow> skipping st \<longleftrightarrow> fl_skip_sub st \<or> se_skip e"
  by (simp add: skipping_def)

lemma last_op_stack [simp]: "fl_stack st = e # es \<Longrightarrow> last_op st = se_operation e"
  by (simp add: last_op_def)

lemma top_label_stack [simp]: "fl_stack st = e # es \<Longrightarrow> top_label l st \<longleftrightarrow> se_label e = l"
  by (simp add: top_label_def)

lemma upd_top_stack [simp]: "fl_stack st = e # es \<Longrightarrow> upd_top f st = st\<lparr>fl_stack := f e # es\<rparr>"
  by (simp add: upd_top_def)

text \<open>The statements of a conditional as text.\<close>

definition elseif_line :: "string \<Rightarrow> string" where
  "elseif_line c = ''ELSEIF'' @ c"

lemma read_flow_words:
  "read_command (''IF'' @ c) 0 = (Status_OK, 2, NGCFlowCtrl_If)"
  "read_command (elseif_line c) 0 = (Status_OK, 6, NGCFlowCtrl_ElseIf)"
  "read_command ''ELSE'' 0 = (Status_OK, 4, NGCFlowCtrl_Else)"
  "read_command ''ENDIF'' 0 = (Status_OK, 5, NGCFlowCtrl_EndIf)"
  "read_command (''REPEAT'' @ c) 0 = (Status_OK, 6, NGCFlowCtrl_Repeat)"
  "read_command ''ENDREPEAT'' 0 = (Status_OK, 9, NGCFlowCtrl_EndRepeat)"
  "read_command ''ENDWHILE'' 0 = (Status_OK, 8, NGCFlowCtrl_EndWhile)"
  "read_command ''BREAK'' 0 = (Status_OK, 5, NGCFlowCtrl_Break)"
  "read_command ''CONTINUE'' 0 = (Status_OK, 8, NGCFlowCtrl_Continue)"
  "read_command (''RETURN'' @ c) 0 = (Status_OK, 6, NGCFlowCtrl_Return)"
  "read_command (''ENDSUB'' @ c) 0 = (Status_OK, 6, NGCFlowCtrl_EndSub)"
  "read_command (''CALL'' @ c) 0 = (Status_OK, 4, NGCFlowCtrl_Call)"
  by (simp_all add: read_command_def cchar_def Let_def NUL_def elseif_line_def)

text \<open>What the text of a condition evaluates to.\<close>

definition evaluates :: "'m flow \<Rightarrow> string \<Rightarrow> nat \<Rightarrow> flt \<Rightarrow> bool" where
  "evaluates st line pos v \<longleftrightarrow>
     (\<exists>p. ngc_eval_expression (fl_env st) line pos (ee_junk (fl_env st)) = Done (Status_OK, p, v))"

subsection \<open>Conditionals\<close>

text \<open>The truth values of the conditions; those after the first true one are not evaluated.\<close>

fun chain_values :: "'m flow \<Rightarrow> bool \<Rightarrow> string list \<Rightarrow> bool list \<Rightarrow> bool" where
  "chain_values st handled [] [] \<longleftrightarrow> True"
| "chain_values st handled (c # cs) (b # bs) \<longleftrightarrow>
     (handled \<or> (\<exists>v. evaluates st (elseif_line c) 6 v \<and> b = (\<not> is_zero v))) \<and>
     chain_values st (handled \<or> b) cs bs"
| "chain_values st handled _ _ \<longleftrightarrow> False"

definition if_entry :: "u32 \<Rightarrow> bool \<Rightarrow> bool \<Rightarrow> ngc_stack_entry \<Rightarrow> bool" where
  "if_entry l handled skip e \<longleftrightarrow>
     se_label e = l \<and> se_skip e = skip \<and> se_handled e = handled \<and>
     se_operation e \<in> {NGCFlowCtrl_If, NGCFlowCtrl_ElseIf}"

lemma flow_if_step:
  assumes "\<not> skipping st" and "length (fl_stack st) < NGC_STACK_DEPTH"
    and "ngc_eval_expression (fl_env st) line q (ee_junk (fl_env st)) = Done (Status_OK, p, v)"
  obtains e where "flow_if l n line q st = Done (Status_OK, p, st\<lparr>fl_stack := e # fl_stack st\<rparr>)"
    and "se_label e = l" and "se_operation e = NGCFlowCtrl_If"
    and "se_skip e = is_zero v" and "se_handled e = (\<not> is_zero v)"
proof -
  let ?e = "\<lparr>se_label = l, se_operation = NGCFlowCtrl_If, se_sub = fl_exec_sub st,
    se_file = hal_file st, se_file_pos = 0, se_line_number = n, se_expr = None,
    se_repeats = 0, se_skip = is_zero v, se_handled = \<not> is_zero v, se_brk = False\<rparr>"
  have "flow_if l n line q st = Done (Status_OK, p, st\<lparr>fl_stack := ?e # fl_stack st\<rparr>)"
    using assms by (simp add: flow_if_def eval_then_def stack_push_def call_level_ok_def)
  then show thesis by (rule that) simp_all
qed

lemma flow_elseif_step:
  assumes "fl_stack st = e # es" and "if_entry l handled skip e" and "\<not> fl_skip_sub st"
    and "handled \<or> (\<exists>v. evaluates st line q v \<and> b = (\<not> is_zero v))"
  obtains p e' where "flow_elseif l line q st = Done (Status_OK, p, st\<lparr>fl_stack := e' # es\<rparr>)"
    and "if_entry l (handled \<or> b) (handled \<or> \<not> b) e'"
proof (cases handled)
  case True
  have e: "se_handled e" "se_label e = l" "se_operation e \<in> {NGCFlowCtrl_If, NGCFlowCtrl_ElseIf}"
    using assms(2) True by (simp_all add: if_entry_def)
  have "flow_elseif l line q st = Done (Status_OK, q, st\<lparr>fl_stack := e\<lparr>se_skip := True\<rparr> # es\<rparr>)"
    using assms(1) e by (auto simp: flow_elseif_def)
  then show thesis by (rule that) (use e True in \<open>simp add: if_entry_def\<close>)
next
  case False
  with assms(4) obtain v p where v: "b = (\<not> is_zero v)"
    "ngc_eval_expression (fl_env st) line q (ee_junk (fl_env st)) = Done (Status_OK, p, v)"
    by (auto simp: evaluates_def)
  have e: "\<not> se_handled e" "se_label e = l" "se_operation e \<in> {NGCFlowCtrl_If, NGCFlowCtrl_ElseIf}"
    using assms(2) False by (simp_all add: if_entry_def)
  let ?e = "if b then e\<lparr>se_skip := False, se_operation := NGCFlowCtrl_ElseIf, se_handled := True\<rparr>
            else e\<lparr>se_skip := True\<rparr>"
  have "flow_elseif l line q st = Done (Status_OK, p, st\<lparr>fl_stack := ?e # es\<rparr>)"
    using assms(1) e v by (auto simp: flow_elseif_def eval_then_def)
  then show thesis by (rule that) (use e False in \<open>auto simp: if_entry_def\<close>)
qed

lemma flow_else_step:
  assumes "fl_stack st = e # es" and "if_entry l handled skip e"
  obtains e' where "flow_else l q st = Done (Status_OK, q, st\<lparr>fl_stack := e' # es\<rparr>)"
    and "se_label e' = l" and "se_skip e' = handled"
    and "se_operation e' \<in> {NGCFlowCtrl_If, NGCFlowCtrl_ElseIf, NGCFlowCtrl_Else}"
  using assms
  by (auto simp: flow_else_def if_entry_def intro!: that [of "e\<lparr>se_skip := se_handled e,
               se_operation := (if se_handled e then se_operation e else NGCFlowCtrl_Else)\<rparr>"])

lemma flow_endif_step:
  assumes "fl_stack st = e # es" and "se_label e = l"
    and "se_operation e \<in> {NGCFlowCtrl_If, NGCFlowCtrl_ElseIf, NGCFlowCtrl_Else}"
  shows "flow_endif l q st = Done (Status_OK, q, st\<lparr>fl_stack := es\<rparr>)"
  using assms by (auto simp: flow_endif_def stack_pull_def)

text \<open>Which lines of a conditional are skipped: all but the branch of the first true condition, or
  ELSE when there is none.\<close>

definition first_true :: "bool list \<Rightarrow> nat" where
  "first_true bs = length (takeWhile Not bs)"

definition skips :: "bool \<Rightarrow> bool list \<Rightarrow> bool option list" where
  "skips handled bs = map (\<lambda>i. Some (handled \<or> i \<noteq> first_true bs)) [0..<length bs]"

lemma skips_Nil [simp]: "skips handled [] = []"
  by (simp add: skips_def)

lemma skips_Cons [simp]: "skips handled (b # bs) = Some (handled \<or> \<not> b) # skips (handled \<or> b) bs"
proof -
  have "[0..<length (b # bs)] = 0 # map Suc [0..<length bs]"
    by (simp add: map_Suc_upt upt_conv_Cons del: upt_Suc)
  then show ?thesis by (auto simp: skips_def first_true_def comp_def simp del: upt_Suc)
qed

lemma skips_else:
  "map (\<lambda>i. Some (i \<noteq> first_true bs)) [0..<length bs + 1] = skips False bs @ [Some (True \<in> set bs)]"
proof -
  have "length (takeWhile Not bs) = length bs \<longleftrightarrow> True \<notin> set bs" by (induction bs) auto
  then show ?thesis by (auto simp: skips_def first_true_def)
qed

lemma elseifs_run:
  assumes "fl_stack st = e # es" and "if_entry l handled skip e" and "\<not> fl_skip_sub st"
    and "chain_values st handled cs bs"
  shows "\<exists>e'. run_lines mem l n (map elseif_line cs @ rest) st =
      bnd (run_lines mem l n rest (st\<lparr>fl_stack := e' # es\<rparr>))
        (\<lambda>(ks, st). Done (skips handled bs @ ks, st)) \<and>
    if_entry l (handled \<or> True \<in> set bs) (se_skip e') e'"
  using assms
proof (induction cs arbitrary: st e handled skip bs)
  case Nil
  then have "bs = []" by (cases bs) auto
  moreover have "st\<lparr>fl_stack := e # es\<rparr> = st" using Nil.prems(1) by simp
  ultimately show ?case
    using Nil.prems(2) by (intro exI [of _ e]) (auto simp: if_entry_def)
next
  case (Cons c cs)
  obtain b bs' where bs: "bs = b # bs'" using Cons.prems(4) by (cases bs) auto
  have now: "handled \<or> (\<exists>v. evaluates st (elseif_line c) 6 v \<and> b = (\<not> is_zero v))"
    and later: "chain_values st (handled \<or> b) cs bs'"
    using Cons.prems(4) bs by auto
  obtain p e1 where step: "flow_elseif l (elseif_line c) 6 st = Done (Status_OK, p, st\<lparr>fl_stack := e1 # es\<rparr>)"
    and e1: "if_entry l (handled \<or> b) (handled \<or> \<not> b) e1"
    using Cons.prems(1,2,3) now by (rule flow_elseif_step)
  let ?st = "st\<lparr>fl_stack := e1 # es\<rparr>"
  have sk: "skipping ?st \<longleftrightarrow> handled \<or> \<not> b"
    using Cons.prems(3) e1 by (simp add: if_entry_def skipping_def)
  have line: "ngc_flowctrl mem l n (elseif_line c) 0 st = Done (Status_OK, p, Some (handled \<or> \<not> b), ?st)"
    using flowctrl_line [OF read_flow_words(2), of mem l n c st p ?st] step sk by simp
  have "chain_values ?st h cs bs' = chain_values st h cs bs'" for h
    by (induction ?st h cs bs' rule: chain_values.induct) (auto simp: evaluates_def)
  with Cons.IH [of ?st e1 "handled \<or> b" "handled \<or> \<not> b" bs'] e1 later Cons.prems(3)
  obtain e' where run: "run_lines mem l n (map elseif_line cs @ rest) ?st =
      bnd (run_lines mem l n rest (st\<lparr>fl_stack := e' # es\<rparr>))
        (\<lambda>(ks, st). Done (skips (handled \<or> b) bs' @ ks, st))"
    and e': "if_entry l ((handled \<or> b) \<or> True \<in> set bs') (se_skip e') e'"
    by auto
  with run line have "run_lines mem l n (map elseif_line (c # cs) @ rest) st =
      bnd (run_lines mem l n rest (st\<lparr>fl_stack := e' # es\<rparr>))
        (\<lambda>(ks, st). Done (skips handled bs @ ks, st))"
    by (simp add: bnd_assoc split_def bs)
  moreover have "((handled \<or> b) \<or> True \<in> set bs') = (handled \<or> True \<in> set bs)" using bs by auto
  ultimately show ?case using e' by auto
qed

text \<open>
  C6. A conditional IF, ELSEIF, ..., ELSE, ENDIF started while lines are executed, with room on the stack,
  runs exactly one branch: the one of the first true condition, or ELSE when there is none. The lines of
  the other branches are marked to be skipped, conditions after the first true one are not evaluated, and
  ENDIF puts the stack back as it was.
\<close>

theorem conditional_runs_first_true:
  fixes st :: "'m flow"
  defines "bs \<equiv> \<lambda>v bs'. (\<not> is_zero v) # bs'"
  assumes "\<not> skipping st" and "length (fl_stack st) < NGC_STACK_DEPTH"
    and "evaluates st (''IF'' @ c) 2 v" and "chain_values st (\<not> is_zero v) cs bs'"
  shows "run_lines mem l n ((''IF'' @ c) # map elseif_line cs @ [''ELSE'', ''ENDIF'']) st =
    Done (map (\<lambda>i. Some (i \<noteq> first_true (bs v bs'))) [0..<length (bs v bs') + 1] @ [Some False], st)"
proof -
  obtain p where ev: "ngc_eval_expression (fl_env st) (''IF'' @ c) 2 (ee_junk (fl_env st)) = Done (Status_OK, p, v)"
    using assms(4) by (auto simp: evaluates_def)
  obtain e where e: "flow_if l n (''IF'' @ c) 2 st = Done (Status_OK, p, st\<lparr>fl_stack := e # fl_stack st\<rparr>)"
    and lab: "se_label e = l" "se_operation e = NGCFlowCtrl_If" "se_skip e = is_zero v" "se_handled e = (\<not> is_zero v)"
    using assms(2,3) ev by (rule flow_if_step)
  let ?st = "st\<lparr>fl_stack := e # fl_stack st\<rparr>" and ?b = "\<not> is_zero v"
  have ns: "\<not> fl_skip_sub st" using assms(2) by (simp add: skipping_def)
  have "if_entry l ?b (is_zero v) e" using lab by (simp add: if_entry_def)
  moreover have "chain_values ?st h cs bs'' = chain_values st h cs bs''" for h bs''
    by (induction ?st h cs bs'' rule: chain_values.induct) (auto simp: evaluates_def)
  ultimately obtain e1 where run: "run_lines mem l n (map elseif_line cs @ [''ELSE'', ''ENDIF'']) ?st =
      bnd (run_lines mem l n [''ELSE'', ''ENDIF''] (st\<lparr>fl_stack := e1 # fl_stack st\<rparr>))
        (\<lambda>(ks, st). Done (skips ?b bs' @ ks, st))"
    and e1: "if_entry l (?b \<or> True \<in> set bs') (se_skip e1) e1"
    using elseifs_run [of ?st e "fl_stack st" l ?b "is_zero v" cs bs' mem n "[''ELSE'', ''ENDIF'']"] assms(5) ns
    by auto
  have one: "ngc_flowctrl mem l n (''IF'' @ c) 0 st = Done (Status_OK, p, Some (is_zero v), ?st)"
    using flowctrl_line [OF read_flow_words(1), of mem l n c st p ?st] e lab ns by (simp add: skipping_def)
  let ?st1 = "st\<lparr>fl_stack := e1 # fl_stack st\<rparr>"
  have "fl_stack ?st1 = e1 # fl_stack st" by simp
  from flow_else_step [OF this e1, of 4]
  obtain e2 where e2: "flow_else l 4 ?st1 = Done (Status_OK, 4, ?st1\<lparr>fl_stack := e2 # fl_stack st\<rparr>)"
    "se_label e2 = l" "se_skip e2 = (?b \<or> True \<in> set bs')"
    "se_operation e2 \<in> {NGCFlowCtrl_If, NGCFlowCtrl_ElseIf, NGCFlowCtrl_Else}" by blast
  let ?st2 = "st\<lparr>fl_stack := e2 # fl_stack st\<rparr>"
  have two: "ngc_flowctrl mem l n ''ELSE'' 0 ?st1 = Done (Status_OK, 4, Some (?b \<or> True \<in> set bs'), ?st2)"
    using flowctrl_line [OF read_flow_words(3), of mem l n ?st1 4 ?st2] e2 ns by (simp add: skipping_def)
  have "flow_endif l 5 ?st2 = Done (Status_OK, 5, ?st2\<lparr>fl_stack := fl_stack st\<rparr>)"
    by (rule flow_endif_step) (use e2 in auto)
  then have three: "ngc_flowctrl mem l n ''ENDIF'' 0 ?st2 = Done (Status_OK, 5, Some False, st)"
    using flowctrl_line [OF read_flow_words(4), of mem l n ?st2 5 st] assms(2) by simp
  from run one two three show ?thesis
    unfolding skips_else by (simp add: bs_def)
qed

subsection \<open>The stack and the call levels\<close>

definition is_call :: "ngc_stack_entry \<Rightarrow> bool" where
  "is_call e \<longleftrightarrow> se_operation e = NGCFlowCtrl_Call"

definition level :: "'m flow \<Rightarrow> int" where
  "level st = np_call_level (params_of st)"

text \<open>The stack holds at most twenty entries, and above a base level, that of the macros that called
  this program, there is one call level for every call on the stack.\<close>

definition flow_ok :: "int \<Rightarrow> 'm flow \<Rightarrow> bool" where
  "flow_ok b st \<longleftrightarrow> - 1 \<le> b \<and> length (fl_stack st) \<le> NGC_STACK_DEPTH \<and>
     level st = b + int (length (filter is_call (fl_stack st)))"

named_theorems frame \<comment> \<open>what leaves the stack and the call level alone\<close>

lemma level_simps [frame]:
  "params_of (set_params s st) = s"
  "fl_stack (set_params s st) = fl_stack st"
  "level (set_params s st) = np_call_level s"
  "level (emit e st) = level st" "fl_stack (emit e st) = fl_stack st"
  "level (on_streams f st) = level st" "fl_stack (on_streams f st) = fl_stack st"
  "level (upd_top g st) = level st"
  "level (clear_subs file st) = level st" "fl_stack (clear_subs file st) = fl_stack st"
  "level (st\<lparr>fl_stack := es\<rparr>) = level st" "level (st\<lparr>fl_exec_sub := p\<rparr>) = level st"
  "level (st\<lparr>fl_skip_sub := k\<rparr>) = level st" "level (st\<lparr>fl_streams := ss\<rparr>) = level st"
  by (simp_all add: level_def params_of_def set_params_def emit_def on_streams_def upd_top_def clear_subs_def
      split: list.splits)

lemma param_level [frame]:
  "np_call_level (snd (ngc_param_set mem i v s)) = np_call_level s"
  "np_call_level (ngc_string_param_delete l s) = np_call_level s"
  "ngc_named_param_set mem name v s = Some (ok, s') \<Longrightarrow> np_call_level s' = np_call_level s"
  by (auto simp: ngc_param_set_def ngc_string_param_delete_def ngc_named_param_set_def split: prod.splits
      option.splits if_splits)

lemma flow_ok_frame: "fl_stack st' = fl_stack st \<Longrightarrow> level st' = level st \<Longrightarrow> flow_ok b st' = flow_ok b st"
  by (simp add: flow_ok_def)

lemma flow_ok_simps [simp]:
  "flow_ok b (on_streams g st) = flow_ok b st" "flow_ok b (emit e st) = flow_ok b st"
  "flow_ok b (clear_subs file st) = flow_ok b st" "flow_ok b (st\<lparr>fl_exec_sub := p\<rparr>) = flow_ok b st"
  "flow_ok b (st\<lparr>fl_skip_sub := k\<rparr>) = flow_ok b st" "flow_ok b (st\<lparr>fl_streams := ss\<rparr>) = flow_ok b st"
  by (rule flow_ok_frame; simp add: frame)+

lemma flow_ok_set_params: "np_call_level s = level st \<Longrightarrow> flow_ok b (set_params s st) = flow_ok b st"
  by (rule flow_ok_frame) (simp_all add: frame)

lemma flow_ok_upd_top:
  "(\<And>e. se_operation (g e) = NGCFlowCtrl_Call \<longleftrightarrow> se_operation e = NGCFlowCtrl_Call) \<Longrightarrow>
     flow_ok b (upd_top g st) = flow_ok b st"
  by (cases "fl_stack st") (auto simp: flow_ok_def upd_top_def is_call_def level_def params_of_def)

lemma pop_level: "0 \<le> np_call_level s \<Longrightarrow> np_call_level (snd (snd (ngc_call_pop ar s))) = np_call_level s - 1"
  by (simp add: ngc_call_pop_def Let_def)

lemma push_level:
  "ngc_call_push c s = (ok, s') \<Longrightarrow> np_call_level s' = (if ok then np_call_level s + 1 else np_call_level s)"
  by (auto simp: ngc_call_push_def Let_def split: if_splits)

lemma call_pop_level: "0 \<le> level st \<Longrightarrow> level (call_pop st) = level st - 1" "fl_stack (call_pop st) = fl_stack st"
  using pop_level [of "params_of st" "fl_auto_restore st"]
  by (auto simp: call_pop_def Let_def frame level_def [of st] split: prod.splits option.splits)

lemma flow_ok_push:
  assumes "flow_ok b st" and "stack_push l n operation st = (status, st')"
  shows "flow_ok b st'"
proof -
  obtain ok s where c: "call_level_ok operation st = (ok, s)" by force
  then have s: "fl_stack s = fl_stack st"
    "level s = (if ok \<and> operation = NGCFlowCtrl_Call then level st + 1 else level st)"
    using push_level [of "length (fl_stack st)" "params_of st"]
    by (auto simp: call_level_ok_def frame level_def split: prod.splits if_splits)
  with assms c show ?thesis
    by (auto simp: stack_push_def flow_ok_def is_call_def frame split: if_splits)
qed

lemma flow_ok_pull: "flow_ok b st \<Longrightarrow> flow_ok b (snd (stack_pull st))"
  using call_pop_level [of st]
  by (auto simp: stack_pull_def flow_ok_def is_call_def frame Let_def split: list.splits)

text \<open>Results that keep the invariant.\<close>

definition keeps :: "int \<Rightarrow> 'm flow outcome \<Rightarrow> bool" where
  "keeps b r \<longleftrightarrow> (\<forall>st. r = Done st \<longrightarrow> flow_ok b st)"

definition keeps_result :: "int \<Rightarrow> 'm flow_result \<Rightarrow> bool" where
  "keeps_result b r \<longleftrightarrow> (\<forall>status pos st. r = Done (status, pos, st) \<longrightarrow> flow_ok b st)"

lemma keeps_simps [simp]:
  "keeps b (Done st) \<longleftrightarrow> flow_ok b st" "keeps b Overflow" "keeps b NoFuel"
  "keeps_result b (Done (status, pos, st)) \<longleftrightarrow> flow_ok b st" "keeps_result b Overflow" "keeps_result b NoFuel"
  by (simp_all add: keeps_def keeps_result_def)

lemma keeps_bnd:
  "keeps b r \<Longrightarrow> (\<And>st. flow_ok b st \<Longrightarrow> keeps b (f st)) \<Longrightarrow> keeps b (bnd r f)"
  "keeps b r \<Longrightarrow> (\<And>st. flow_ok b st \<Longrightarrow> keeps_result b (g st)) \<Longrightarrow> keeps_result b (bnd r g)"
  by (cases r; simp)+

lemma keeps_pull_until: "flow_ok b st \<Longrightarrow> keeps b (pull_until k P st)"
  by (induction k arbitrary: st) (auto intro: flow_ok_pull split: list.splits)

lemma keeps_pull_while: "flow_ok b st \<Longrightarrow> keeps b (pull_while_not P st)"
  by (simp add: pull_while_not_def keeps_pull_until del: pull_until.simps)

lemma keeps_init: "flow_ok b st \<Longrightarrow> keeps b (ngc_flowctrl_init st)"
  by (simp add: ngc_flowctrl_init_def keeps_pull_while)

lemma keeps_unwind: "flow_ok b st \<Longrightarrow> keeps b (ngc_flowctrl_unwind_stack file st)"
  by (simp add: ngc_flowctrl_unwind_stack_def keeps_pull_while)

lemma keeps_eval: "flow_ok b st \<Longrightarrow> (\<And>p v. keeps_result b (f p v)) \<Longrightarrow> keeps_result b (eval_then st line pos f)"
  unfolding eval_then_def
  by (cases "ngc_eval_expression (fl_env st) line pos (ee_junk (fl_env st))") auto

lemma keeps_reposition: "flow_ok b st \<Longrightarrow> keeps b (reposition file p n st)"
  by (simp add: reposition_def split: option.splits)

lemma keeps_reposition_top: "flow_ok b st \<Longrightarrow> keeps b (reposition_top st)"
  by (simp add: reposition_top_def keeps_reposition split: list.splits)

lemma keeps_set_named:
  assumes "flow_ok b st"
  shows "keeps b (set_named mem name v st)"
proof (cases "ngc_named_param_set mem name v (params_of st)")
  case (Some r)
  obtain ok s where r: "r = (ok, s)" by force
  with Some have "np_call_level s = level st" by (simp add: param_level(3) level_def)
  with Some r assms show ?thesis by (simp add: set_named_def flow_ok_set_params)
qed (simp add: set_named_def)

lemma keeps_return_value:
  assumes "flow_ok b st" and "\<And>p st. flow_ok b st \<Longrightarrow> keeps_result b (f (p, st))"
  shows "keeps_result b (bnd (return_value mem line pos st) f)"
proof -
  have *: "keeps_result b (bnd (bnd (set_named mem name v s) (\<lambda>st. Done (p, st))) f)" if "flow_ok b s" for name v p s
    using that by (simp add: bnd_assoc keeps_bnd keeps_set_named assms(2))
  have **: "keeps_result b (bnd (bnd (set_named mem name v s) (\<lambda>st. bnd (set_named mem name' v' st) (\<lambda>st. Done (p, st)))) f)"
    if "flow_ok b s" for name v name' v' p s
    using that * by (simp add: bnd_assoc keeps_bnd keeps_set_named)
  show ?thesis
    unfolding return_value_def using assms(1) * **
    by (cases "ngc_eval_expression (fl_env st) line pos (ee_junk (fl_env st))")
       (auto simp: bnd_assoc split: prod.splits)
qed

lemma keeps_unwind_sub:
  assumes "flow_ok b st"
  shows "keeps b (stack_unwind_sub l success st)"
proof -
  have leave: "keeps b (leave_sub l e st)" if ok: "flow_ok b st" for e and st :: "'a flow"
    using ok keeps_reposition [OF ok]
    by (auto simp: leave_sub_def Let_def flow_ok_set_params frame level_def split: prod.splits)
  have last: "keeps b (case Option.bind (se_sub e) (\<lambda>p. find_sub p st') of
      None \<Rightarrow> Overflow
    | Some sub \<Rightarrow>
        let st = snd (stack_pull st');
            st = (case sub_callback sub of None \<Rightarrow> st | Some cb \<Rightarrow> emit (CallbackRun cb l success) st)
        in Done (st\<lparr>fl_exec_sub := top_sub st\<rparr>))" if "flow_ok b st'" for e and st' :: "'a flow"
    using flow_ok_pull [OF that] by (auto simp: Let_def split: option.splits)
  show ?thesis
    unfolding stack_unwind_sub_def
    by (rule keeps_bnd(1) [OF keeps_pull_while [OF assms]])
       (auto intro: keeps_bnd(1) [OF leave last] split: list.split)
qed

lemma keeps_set_args:
  "flow_ok b st \<Longrightarrow> set_args mem i vs status st = (status', st') \<Longrightarrow> flow_ok b st'"
proof (induction vs arbitrary: i status st)
  case (Cons v vs)
  obtain ok s where p: "ngc_param_set mem i v (params_of st) = (ok, s)" by force
  then have "np_call_level s = level st" using param_level(1) [of mem i v "params_of st"] by (simp add: level_def)
  with Cons.prems p show ?case
    by (auto simp: flow_ok_set_params split: if_splits dest!: Cons.IH [rotated])
qed simp

text \<open>Every operation keeps the invariant.\<close>

lemma keeps_if: "flow_ok b st \<Longrightarrow> keeps_result b (flow_if l n line pos st)"
  by (auto simp: flow_if_def flow_ok_upd_top intro!: keeps_eval split: prod.splits dest: flow_ok_push)

lemma keeps_elseif:
  assumes "flow_ok b st"
  shows "keeps_result b (flow_elseif l line pos st)"
proof (cases "last_op st = NGCFlowCtrl_If \<or> last_op st = NGCFlowCtrl_ElseIf")
  case False
  with assms show ?thesis by (simp add: flow_elseif_def misplaced_def)
next
  case True
  let ?st = "upd_top (\<lambda>e. e\<lparr>se_skip := se_handled e\<rparr>) st"
  have ok: "flow_ok b ?st" using assms by (simp add: flow_ok_upd_top)
  have "flow_ok b (upd_top (\<lambda>e. e\<lparr>se_skip := False, se_operation := NGCFlowCtrl_ElseIf, se_handled := True\<rparr>) ?st)"
    using assms True
    by (cases "fl_stack st") (auto simp: flow_ok_def upd_top_def is_call_def level_def params_of_def last_op_def)
  with True assms ok show ?thesis
    by (auto simp: flow_elseif_def Let_def flow_ok_upd_top intro!: keeps_eval)
qed

lemma keeps_else: "flow_ok b st \<Longrightarrow> keeps_result b (flow_else l pos st)"
  by (cases "fl_stack st")
     (auto simp: flow_else_def misplaced_def flow_ok_def upd_top_def is_call_def level_def params_of_def)

lemma keeps_endif: "flow_ok b st \<Longrightarrow> keeps_result b (flow_endif l pos st)"
  by (auto simp: flow_endif_def misplaced_def intro: flow_ok_pull)

lemma keeps_do: "flow_ok b st \<Longrightarrow> keeps_result b (flow_do l n pos st)"
  by (auto simp: flow_do_def flow_ok_upd_top split: prod.splits dest: flow_ok_push)

lemma keeps_again: "flow_ok b st \<Longrightarrow> keeps_result b (bnd (reposition_top st) (\<lambda>st. Done (status, pos, st)))"
  by (rule keeps_bnd(2) [OF keeps_reposition_top]) simp_all

lemma keeps_while: "flow_ok b st \<Longrightarrow> keeps_result b (flow_while mem l n line pos st)"
  by (auto simp: flow_while_def Let_def flow_ok_upd_top loop_start_def keeps_again intro!: keeps_eval
      intro: flow_ok_pull split: prod.splits list.splits dest: flow_ok_push)

lemma keeps_pull_skipped: "flow_ok b st \<Longrightarrow> flow_ok b (pull_skipped st)"
  by (auto simp: pull_skipped_def intro: flow_ok_pull split: list.splits)

lemma keeps_while_again:
  assumes "flow_ok b st"
  shows "keeps_result b (bnd (while_again st) (\<lambda>(status, st). Done (status, pos, pull_skipped st)))"
proof (cases "fl_stack st")
  case (Cons e es)
  show ?thesis
  proof (cases "se_expr e")
    case None
    with assms Cons show ?thesis by (simp add: while_again_def keeps_pull_skipped)
  next
    case (Some x)
    have "keeps_result b (bnd (bnd (reposition_top (upd_top (\<lambda>e. e\<lparr>se_skip := False\<rparr>) st)) (\<lambda>st. Done (Status_OK, st)))
        (\<lambda>(status, st). Done (status, pos, pull_skipped st)))"
      unfolding bnd_assoc using assms
      by (intro keeps_bnd(2) [OF keeps_reposition_top]) (simp_all add: flow_ok_upd_top keeps_pull_skipped)
    with assms Cons Some show ?thesis
      by (cases "ngc_eval_expression (fl_env st) x 0 (ee_junk (fl_env st))")
         (auto simp: while_again_def keeps_pull_skipped flow_ok_upd_top simp del: upd_top_stack)
  qed
qed (simp add: while_again_def)

lemma keeps_endwhile: "flow_ok b st \<Longrightarrow> keeps_result b (flow_endwhile l pos st)"
  by (simp add: flow_endwhile_def misplaced_def keeps_while_again keeps_pull_skipped)

lemma keeps_repeat: "flow_ok b st \<Longrightarrow> keeps_result b (flow_repeat l n line pos st)"
  by (auto simp: flow_repeat_def Let_def flow_ok_upd_top loop_start_def intro!: keeps_eval
      split: prod.splits dest: flow_ok_push)

lemma keeps_more_repeats: "flow_ok b st \<Longrightarrow> flow_ok b (snd (more_repeats st))"
  by (simp add: more_repeats_def Let_def set_repeats_def flow_ok_upd_top)

lemma keeps_endrepeat: "flow_ok b st \<Longrightarrow> keeps_result b (flow_endrepeat l pos st)"
  using keeps_more_repeats [of b st]
  by (auto simp: flow_endrepeat_def misplaced_def keeps_again intro: flow_ok_pull split: prod.splits)

lemma keeps_break: "flow_ok b st \<Longrightarrow> keeps_result b (flow_break l pos st)"
  unfolding flow_break_def
  by (auto simp: flow_ok_upd_top simp del: upd_top_stack split: list.splits
      intro!: keeps_bnd(2) [OF keeps_pull_while])

lemma keeps_continue:
  assumes "flow_ok b st"
  shows "keeps_result b (flow_continue l pos st)"
proof -
  have "keeps_result b (case fl_stack st of
             [] \<Rightarrow> Overflow
           | e # _ \<Rightarrow>
               (case se_operation e of
                  NGCFlowCtrl_Repeat \<Rightarrow>
                    (case more_repeats st of
                       (again, st) \<Rightarrow>
                         if again then bnd (reposition_top st) (\<lambda>st. Done (Status_OK, pos, st))
                         else Done (Status_OK, pos, upd_top (\<lambda>e. e\<lparr>se_skip := True\<rparr>) st))
                | NGCFlowCtrl_Do \<Rightarrow> bnd (reposition_top st) (\<lambda>st. Done (Status_OK, pos, st))
                | NGCFlowCtrl_While \<Rightarrow> bnd (while_again st) (\<lambda>(status, st). Done (status, pos, pull_skipped st))
                | _ \<Rightarrow> Done (Status_FlowControlSyntaxError, pos, st)))" if "flow_ok b st" for st :: "'a flow"
    using that keeps_more_repeats [OF that]
    by (auto simp: flow_ok_upd_top keeps_again keeps_while_again simp del: upd_top_stack
        split: list.splits prod.splits ngc_cmd.splits)
  from keeps_bnd(2) [OF keeps_pull_while [OF assms] this] show ?thesis
    unfolding flow_continue_def using assms by auto
qed

lemma keeps_alarm: "flow_ok b st \<Longrightarrow> keeps_result b (flow_alarm line pos st)"
  by (cases "ngc_eval_expression (fl_env st) line pos (ee_junk (fl_env st))") (auto simp: flow_alarm_def)

lemma keeps_error: "flow_ok b st \<Longrightarrow> keeps_result b (flow_error line pos st)"
  by (cases "ngc_eval_expression (fl_env st) line pos (ee_junk (fl_env st))") (auto simp: flow_error_def)

lemma flow_ok_add_sub: "flow_ok b st \<Longrightarrow> add_sub mem l n file st = (r, st') \<Longrightarrow> flow_ok b st'"
  by (auto simp: add_sub_def Let_def flow_ok_def level_def params_of_def split: if_splits)

lemma keeps_sub: "flow_ok b st \<Longrightarrow> keeps_result b (flow_sub mem l n pos st)"
  by (auto simp: flow_sub_def not_in_macro_def Let_def split: option.splits prod.splits dest: flow_ok_add_sub)

lemma keeps_endsub: "flow_ok b st \<Longrightarrow> keeps_result b (flow_endsub mem l line pos st)"
  unfolding flow_endsub_def
  by (auto intro!: keeps_bnd(2) [OF keeps_unwind_sub] keeps_return_value)

lemma keeps_return:
  assumes "flow_ok b st"
  shows "keeps_result b (flow_return mem l line pos st)"
proof -
  have "keeps b (if fl_exec_sub st \<noteq> None then stack_unwind_sub l True st
      else if g then (case fl_stack st of [] \<Rightarrow> Overflow | e # _ \<Rightarrow> ngc_flowctrl_unwind_stack (se_file e) st)
      else Done st)" for g
    using assms by (auto simp: keeps_unwind_sub keeps_unwind split: list.splits)
  note * = this [of "fl_exec_sub st = None \<and> fl_macro_return st"]
  show ?thesis
  proof (cases "skipping st")
    case True
    with assms show ?thesis by (simp add: flow_return_def)
  next
    case False
    show ?thesis
      unfolding flow_return_def Let_def if_not_P [OF False]
      by (rule keeps_bnd(2) [OF *]) (auto intro!: keeps_return_value)
  qed
qed

lemma flow_ok_callee: "flow_ok b st \<Longrightarrow> callee mem l n st = (status, sub, st') \<Longrightarrow> flow_ok b st'"
  by (auto simp: callee_def open_macro_def split: if_splits option.splits prod.splits dest: flow_ok_add_sub [rotated])

lemma keeps_enter:
  assumes "flow_ok b st" and "fl_stack st = e # es" and "is_call e"
  shows "keeps_result b (bnd (enter_sub mem sub args st) (\<lambda>(status, st). Done (status, pos, st)))"
proof -
  let ?st = "upd_top (\<lambda>e. e\<lparr>se_sub := Some (sub_ptr sub), se_file := hal_file st,
      se_file_pos := tell (hal_file st) st, se_repeats := 1\<rparr>) (st\<lparr>fl_exec_sub := Some (sub_ptr sub)\<rparr>)"
  obtain status st' where a: "set_args mem 1 args Status_OK ?st = (status, st')" by force
  have "flow_ok b ?st" using assms(1) by (simp add: flow_ok_upd_top del: upd_top_stack)
  then have ok: "flow_ok b st'" using a by (rule keeps_set_args)
  have "keeps_result b (bnd (bnd (set_named mem ''_value'' f_zero st') (\<lambda>st.
               bnd (set_named mem ''_value_returned'' f_zero st) (\<lambda>st.
                 bnd (reposition (Some (sub_file sub)) (sub_file_pos sub) (sub_line_number sub) st)
                   (\<lambda>st. Done (Status_OK, st))))) (\<lambda>(status, st). Done (status, pos, st)))"
    unfolding bnd_assoc
    by (intro keeps_bnd(2) keeps_set_named ok keeps_reposition) (auto simp: keeps_set_named keeps_reposition)
  then show ?thesis
    using ok unfolding enter_sub_def Let_def a by simp
qed

lemma keeps_call:
  assumes "flow_ok b st"
  shows "keeps_result b (flow_call mem l n line pos st)"
proof -
  obtain status sub st1 where c: "callee mem l n st = (status, sub, st1)" by (metis prod_cases3)
  have ok: "flow_ok b st1" using assms c by (rule flow_ok_callee)
  have args: "keeps_result b (bnd (read_args 30 st1 line pos []) (\<lambda>(status, pos, args).
      if status \<noteq> Status_OK then Done (status, pos, st1)
      else let params = all_args st1 args
           in case stack_push l n NGCFlowCtrl_Call st1 of
                (status, st) \<Rightarrow>
                  if status \<noteq> Status_OK then Done (status, pos, st)
                  else bnd (enter_sub mem s params st) (\<lambda>(status, st). Done (status, pos, st))))" for s
  proof (cases "read_args 30 st1 line pos []")
    case (Done r)
    obtain k p a where r: "r = (k, p, a)" by (metis prod_cases3)
    obtain k' st2 where push: "stack_push l n NGCFlowCtrl_Call st1 = (k', st2)" by force
    have ok2: "flow_ok b st2" using ok push by (rule flow_ok_push)
    have "keeps_result b (bnd (enter_sub mem s x st2) (\<lambda>(status, st). Done (status, p, st)))"
      if k: "k' = Status_OK" for x
    proof -
      obtain e es where "fl_stack st2 = e # es" "is_call e"
        using push k by (auto simp: stack_push_def is_call_def status_defs split: if_splits prod.splits)
      with ok2 show ?thesis by (rule keeps_enter)
    qed
    with ok ok2 show ?thesis unfolding Done bnd.simps r push Let_def by simp
  qed simp_all
  show ?thesis
    unfolding flow_call_def c using assms ok args
    by (auto simp: not_in_macro_def split: option.split)
qed

lemma keeps_operation: "flow_ok b st \<Longrightarrow> keeps_result b (flow_operation mem operation l n line p st)"
  unfolding flow_operation_def
  by (cases operation)
     (simp_all add: not_in_macro_def keeps_if keeps_elseif keeps_else keeps_endif keeps_do keeps_while keeps_endwhile
       keeps_repeat keeps_endrepeat keeps_break keeps_continue keeps_alarm keeps_error keeps_sub keeps_endsub
       keeps_call keeps_return)

lemma pull_stack: "fl_stack (snd (stack_pull st)) = tl (fl_stack st)"
  by (auto simp: stack_pull_def Let_def split: list.split)

lemma pull_all:
  assumes "\<forall>e \<in> set (fl_stack st). \<not> P e"
  shows "\<exists>st'. pull_while_not P st = Done st' \<and> fl_stack st' = []"
proof -
  have "\<forall>e \<in> set (fl_stack st). \<not> P e \<Longrightarrow> length (fl_stack st) < k \<Longrightarrow>
      \<exists>st'. pull_until k P st = Done st' \<and> fl_stack st' = []" for k and st :: "'a flow"
  proof (induction k arbitrary: st)
    case (Suc k)
    show ?case
    proof (cases "fl_stack st")
      case (Cons e es)
      with Suc.IH [of "snd (stack_pull st)"] Suc.prems show ?thesis by (simp add: pull_stack)
    qed simp
  qed simp
  with assms show ?thesis by (simp add: pull_while_not_def del: pull_until.simps)
qed

lemma init_empties: "\<exists>st'. ngc_flowctrl_init st = Done st' \<and> fl_stack st' = []"
  unfolding ngc_flowctrl_init_def by (rule pull_all) simp

text \<open>
  C31. Every O-word line that completes, with success or with an error, leaves the stack within its twenty
  entries and, above the call level of the program, one parameter level for every call on the stack: what
  it returns from or aborts has dropped exactly the parameter levels that its calls added. After an error of
  an operation the stack is empty and the parameter level is that of the program. A line does not
  complete, and nothing is said of it, when it reads memory it may not read: ENDSUB and RETURN of a named
  subroutine, BREAK and CONTINUE with a label that is not on the stack, RETURN from a macro with nothing
  on the stack, and names too long for their buffer in an expression.
\<close>

theorem flow_levels_balanced:
  assumes "flow_ok b st" and "ngc_flowctrl mem l n line pos st = Done (status, pos', skip, st')"
  shows "flow_ok b st' \<and> (status \<noteq> Status_OK \<and> skip \<noteq> None \<longrightarrow> fl_stack st' = [] \<and> level st' = b)"
proof -
  obtain s p operation where r: "read_command line pos = (s, p, operation)" by (metis prod_cases3)
  show ?thesis
  proof (cases "s = Status_OK")
    case True
    with assms(2) r obtain k q st1 where op: "flow_operation mem operation l n line p st = Done (k, q, st1)"
      by (cases "flow_operation mem operation l n line p st") (auto simp: ngc_flowctrl_def)
    with keeps_operation [OF assms(1)] have ok: "flow_ok b st1" by (metis keeps_simps(4))
    obtain st2 where init: "ngc_flowctrl_init st1 = Done st2" "fl_stack st2 = []" using init_empties by blast
    with keeps_init [OF ok] have "flow_ok b st2" by simp
    with init assms(2) r True op ok show ?thesis
      by (auto simp: ngc_flowctrl_def split: if_splits) (auto simp: flow_ok_def frame)
  next
    case False
    with assms r show ?thesis by (simp add: ngc_flowctrl_def)
  qed
qed

subsection \<open>Every line ends\<close>

named_theorems ends \<comment> \<open>what does not run out of fuel\<close>

lemma eval_ends [ends]: "ngc_eval_expression env line pos old \<noteq> NoFuel"
proof -
  have "returns_after line pos (ngc_read_real_value (Suc (length line)) env)"
    unfolding returns_after_def by (auto intro: real_value_returns simp del: ngc_read_real_value.simps)
  then have "returns line pos (ngc_eval_expression env line pos old)"
    unfolding ngc_eval_expression_def by (rule eval_with_returns)
  then show ?thesis by auto
qed

lemma eval_then_ends [ends]: "(\<And>p v. f p v \<noteq> NoFuel) \<Longrightarrow> eval_then st line pos f \<noteq> NoFuel"
  unfolding eval_then_def by (simp add: bnd_ends ends split: prod.split)

lemma reposition_ends [ends]: "reposition file p n st \<noteq> NoFuel" "reposition_top st \<noteq> NoFuel"
  by (simp_all add: reposition_def reposition_top_def split: option.split list.split)

lemma set_named_ends [ends]: "set_named mem name v st \<noteq> NoFuel"
  by (simp add: set_named_def split: option.split prod.split)

lemma return_value_ends [ends]: "return_value mem line pos st \<noteq> NoFuel"
  unfolding return_value_def by (simp add: bnd_ends ends split: prod.split)

text \<open>Every pull takes an entry off the stack.\<close>

lemma pull_until_ends: "length (fl_stack st) < k \<Longrightarrow> pull_until k P st \<noteq> NoFuel"
proof (induction k arbitrary: st)
  case (Suc k)
  show ?case
  proof (cases "fl_stack st")
    case (Cons e es)
    with Suc.IH [of "snd (stack_pull st)"] Suc.prems show ?thesis by (simp add: pull_stack)
  qed simp
qed simp

lemma pull_while_ends [ends]:
  "pull_while_not P st \<noteq> NoFuel" "ngc_flowctrl_init st \<noteq> NoFuel" "ngc_flowctrl_unwind_stack file st \<noteq> NoFuel"
  by (simp_all add: ngc_flowctrl_init_def ngc_flowctrl_unwind_stack_def pull_while_not_def pull_until_ends
      del: pull_until.simps)

lemma unwind_sub_ends [ends]: "stack_unwind_sub l k st \<noteq> NoFuel"
  by (simp add: stack_unwind_sub_def leave_sub_def Let_def bnd_ends ends split: list.split option.split prod.split)

lemma while_again_ends [ends]: "while_again st \<noteq> NoFuel"
  unfolding while_again_def by (simp add: bnd_ends ends split: list.split option.split prod.split)

lemma read_args_ends [ends]: "read_args n st line pos args \<noteq> NoFuel"
proof (induction n arbitrary: pos args)
  case (Suc n)
  then show ?case by (simp add: bnd_ends ends split: prod.split)
qed simp

lemma enter_sub_ends [ends]: "enter_sub mem sub args st \<noteq> NoFuel"
  by (simp add: enter_sub_def Let_def bnd_ends ends split: prod.split)

lemma simple_ops_end [ends]:
  "flow_if l n line pos st \<noteq> NoFuel" "flow_elseif l line pos st \<noteq> NoFuel" "flow_else l pos st \<noteq> NoFuel"
  "flow_endif l pos st \<noteq> NoFuel" "flow_do l n pos st \<noteq> NoFuel" "flow_repeat l n line pos st \<noteq> NoFuel"
  by (simp_all add: flow_if_def flow_elseif_def flow_else_def flow_endif_def flow_do_def flow_repeat_def
      misplaced_def Let_def ends split: prod.split)

lemma loop_ops_end [ends]:
  "flow_while mem l n line pos st \<noteq> NoFuel" "flow_endwhile l pos st \<noteq> NoFuel" "flow_endrepeat l pos st \<noteq> NoFuel"
  "flow_break l pos st \<noteq> NoFuel" "flow_continue l pos st \<noteq> NoFuel"
  by (simp_all add: flow_while_def flow_endwhile_def flow_endrepeat_def flow_break_def flow_continue_def
      misplaced_def Let_def ends bnd_ends split: prod.split list.split ngc_cmd.split)

lemma sub_ops_end [ends]:
  "flow_alarm line pos st \<noteq> NoFuel" "flow_error line pos st \<noteq> NoFuel" "flow_sub mem l n pos st \<noteq> NoFuel"
  "flow_endsub mem l line pos st \<noteq> NoFuel" "flow_call mem l n line pos st \<noteq> NoFuel"
  "flow_return mem l line pos st \<noteq> NoFuel"
  by (simp_all add: flow_alarm_def flow_error_def flow_sub_def flow_endsub_def flow_call_def flow_return_def
      not_in_macro_def Let_def ends bnd_ends split: prod.split option.split list.split)

text \<open>
  C32. Executing an O-word line always ends: the evaluation of its expressions, the loops that pull entries
  off the stack, for a label or to empty it after an error, and the reading of its arguments.
\<close>

theorem flow_line_ends: "ngc_flowctrl mem l n line pos st \<noteq> NoFuel"
  by (simp add: ngc_flowctrl_def flow_operation_def not_in_macro_def Let_def ends bnd_ends
      split: prod.split ngc_cmd.split)

subsection \<open>Errors in nested named subroutines\<close>

lemma pull_length: "length (fl_stack (snd (stack_pull st))) = length (fl_stack st) - 1"
  by (auto simp: stack_pull_def Let_def split: list.split)

lemma pull_until_length: "pull_until k P st = Done st' \<Longrightarrow> length (fl_stack st') \<le> length (fl_stack st)"
proof (induction k arbitrary: st)
  case (Suc k)
  show ?case
  proof (cases "fl_stack st")
    case Nil
    with Suc.prems show ?thesis by simp
  next
    case (Cons e es)
    with Suc.IH [of "snd (stack_pull st)"] Suc.prems show ?thesis by (auto simp: pull_length split: if_splits)
  qed
qed simp

lemma leave_sub_stack: "leave_sub l e st = Done st' \<Longrightarrow> fl_stack st' = fl_stack st"
  by (auto simp: leave_sub_def reposition_def Let_def frame split: if_splits prod.splits option.splits)

lemma unwind_shrinks:
  assumes "stack_unwind_sub l k st = Done st'" and "fl_stack st \<noteq> []"
  shows "length (fl_stack st') < length (fl_stack st)"
proof -
  obtain st1 where p: "pull_while_not (\<lambda>e. se_label e = l) st = Done st1"
    using assms(1) by (cases "pull_while_not (\<lambda>e. se_label e = l) st") (auto simp: stack_unwind_sub_def)
  then have le: "length (fl_stack st1) \<le> length (fl_stack st)"
    unfolding pull_while_not_def by (rule pull_until_length)
  show ?thesis
  proof (cases "fl_stack st1")
    case Nil
    with assms p show ?thesis by (auto simp: stack_unwind_sub_def)
  next
    case (Cons e es)
    with assms(1) p obtain st2 where l1: "leave_sub l e st1 = Done st2"
      by (cases "leave_sub l e st1") (auto simp: stack_unwind_sub_def)
    with assms(1) Cons p have "length (fl_stack st') = length (fl_stack (snd (stack_pull st2)))"
      by (auto simp: stack_unwind_sub_def Let_def frame split: option.splits)
    with le Cons leave_sub_stack [OF l1] show ?thesis by (simp add: pull_length)
  qed
qed

lemma deliver_ends: "(\<And>s. named s st \<noteq> NoFuel) \<Longrightarrow> deliver_status ext named status st \<noteq> NoFuel"
  by (simp add: deliver_status_def split: status_target.split flow_handler.split)

text \<open>
  Reporting an error ends, however deep named subroutines are nested: each handler that is called
  takes its subroutine off the stack before it reports again.
\<close>

theorem report_status_ends: "report_status ext status st \<noteq> NoFuel"
proof -
  have main: "length (fl_stack st) < n \<Longrightarrow> onNamedSubError n ext s st \<noteq> NoFuel" for n s and st :: "'a flow"
  proof (induction n arbitrary: s st)
    case (Suc n)
    show ?case
    proof (cases "fl_stack st = [] \<or> file_sub st = None")
      case True
      then show ?thesis by (auto simp: bnd_ends ends)
    next
      case False
      then obtain sub where sub: "file_sub st = Some sub" by auto
      let ?st = "announce_error s (sub_label sub) st"
      have stack: "fl_stack ?st = fl_stack st"
        by (simp add: announce_error_def Let_def frame split: option.split)
      have "deliver_status ext (onNamedSubError n ext) s st' \<noteq> NoFuel"
        if u: "stack_unwind_sub (sub_label sub) False ?st = Done st'" for st'
        using unwind_shrinks [OF u] Suc.prems False stack by (intro deliver_ends Suc.IH) simp
      then show ?thesis
        using False sub by (simp add: Let_def bnd_ends ends split: prod.split)
    qed
  qed simp
  show ?thesis
    unfolding report_status_def by (rule deliver_ends) (rule main, simp)
qed

subsection \<open>Repetition\<close>

text \<open>The body of a loop stands between two positions of the file. Executing it, started at the first one,
  leaves the flow control as it was and the file at the second one.\<close>

definition body_between :: "nat \<Rightarrow> nat \<Rightarrow> ('m flow \<Rightarrow> 'm flow) \<Rightarrow> bool" where
  "body_between start stop B \<longleftrightarrow>
     (\<forall>st. hal_file st \<noteq> None \<and> tell (hal_file st) st = start \<longrightarrow>
        fl_stack (B st) = fl_stack st \<and> fl_skip_sub (B st) = fl_skip_sub st \<and> hal_file (B st) = hal_file st \<and>
        tell (hal_file (B st)) (B st) = stop)"

text \<open>Reading moves the position of the current file.\<close>

definition read_to :: "nat \<Rightarrow> 'm flow \<Rightarrow> 'm flow" where
  "read_to p st =
     (case hal_file st of
        None \<Rightarrow> st
      | Some f \<Rightarrow> on_streams (\<lambda>ss. ss\<lparr>ss_vfs := vfs_seek f p (ss_vfs ss)\<rparr>) st)"

text \<open>Executing the file from where it is: the body when the file is at its start, the line with ENDREPEAT,
  read up to the position after it, when the file is there; anywhere else the loop has been left. The
  result counts how often the body was executed.\<close>

fun run_from ::
  "nat \<Rightarrow> bool \<Rightarrow> u32 \<Rightarrow> line_number \<Rightarrow> nat \<times> nat \<times> nat \<Rightarrow> ('m flow \<Rightarrow> 'm flow) \<Rightarrow> 'm flow \<Rightarrow>
    (nat \<times> 'm flow) outcome" where
  "run_from 0 mem l n (start, stop, after) B st = NoFuel"
| "run_from (Suc k) mem l n (start, stop, after) B st =
     (if tell (hal_file st) st = start
      then bnd (run_from k mem l n (start, stop, after) B (B st)) (\<lambda>(c, st). Done (Suc c, st))
      else if tell (hal_file st) st = stop
      then bnd (ngc_flowctrl mem l n ''ENDREPEAT'' 0 (read_to after st)) (\<lambda>(_, _, _, st).
             run_from k mem l n (start, stop, after) B st)
      else Done (0, st))"

lemma hal_file_reposition [simp]: "hal_file (on_streams (stream_reposition f p n) st) = hal_file st"
  by (simp add: hal_file_def on_streams_def stream_reposition_def onLineNumberAssigned_def Let_def)

lemma tell_stack [simp]: "tell file (st\<lparr>fl_stack := es\<rparr>) = tell file st"
  by (simp add: tell_def split: option.split)

lemma hal_file_stack [simp]: "hal_file (st\<lparr>fl_stack := es\<rparr>) = hal_file st"
  by (simp add: hal_file_def)

lemma tell_seek: "vfs_tell f v \<noteq> 0 \<Longrightarrow> vfs_tell f (vfs_seek f p v) = p"
  by (auto simp: vfs_tell_def vfs_seek_def split: option.splits)

lemma tell_reposition:
  "tell (Some f) st \<noteq> 0 \<Longrightarrow> tell (Some f) (on_streams (stream_reposition f p n) st) = p"
  by (simp add: tell_def on_streams_def stream_reposition_def onLineNumberAssigned_def tell_seek Let_def)

lemma read_to_frame [simp]:
  "fl_stack (read_to p st) = fl_stack st" "fl_skip_sub (read_to p st) = fl_skip_sub st"
  "hal_file (read_to p st) = hal_file st"
  by (simp_all add: read_to_def on_streams_def hal_file_def split: option.split)

lemma tell_read_to: "tell (hal_file st) st \<noteq> 0 \<Longrightarrow> tell (hal_file st) (read_to p st) = p"
  by (cases "hal_file st") (simp_all add: tell_def read_to_def on_streams_def tell_seek)

lemma endrepeat_step:
  assumes "fl_stack st = e # es" and "se_label e = l" and "se_operation e = NGCFlowCtrl_Repeat"
    and "\<not> se_skip e" and "\<not> fl_skip_sub st" and "hal_file st = Some f" and "se_file e = Some f"
    and "se_repeats e \<noteq> 0" and "tell (Some f) st \<noteq> 0"
  shows "\<exists>st'. ngc_flowctrl mem l n ''ENDREPEAT'' 0 st = Done (Status_OK, 9, Some (skipping st'), st') \<and>
    fl_skip_sub st' = fl_skip_sub st \<and> hal_file st' = hal_file st \<and>
    (if se_repeats e = 1 then fl_stack st' = es \<and> tell (Some f) st' = tell (Some f) st
     else fl_stack st' = e\<lparr>se_repeats := se_repeats e - 1\<rparr> # es \<and> tell (Some f) st' = se_file_pos e)"
proof -
  let ?e = "e\<lparr>se_repeats := se_repeats e - 1\<rparr>"
  let ?st = "if se_repeats e = 1 then st\<lparr>fl_stack := es\<rparr>
    else on_streams (stream_reposition f (se_file_pos e) (se_line_number e)) (st\<lparr>fl_stack := ?e # es\<rparr>)"
  have "flow_endrepeat l 9 st = Done (Status_OK, 9, ?st)"
    using assms by (auto simp: flow_endrepeat_def more_repeats_def set_repeats_def stack_pull_def reposition_top_def
        reposition_def Let_def)
  then have "ngc_flowctrl mem l n ''ENDREPEAT'' 0 st = Done (Status_OK, 9, Some (skipping ?st), ?st)"
    using flowctrl_line [OF read_flow_words(6), of mem l n st 9 ?st] assms(6) by simp
  moreover have "fl_skip_sub ?st = fl_skip_sub st \<and> hal_file ?st = hal_file st \<and>
      (if se_repeats e = 1 then fl_stack ?st = es \<and> tell (Some f) ?st = tell (Some f) st
       else fl_stack ?st = ?e # es \<and> tell (Some f) ?st = se_file_pos e)"
    using assms(9) by (auto simp: tell_reposition) (simp_all add: on_streams_def)
  ultimately show ?thesis by blast
qed

lemma run_from_runs:
  assumes "body_between start stop B" and "0 < start" and "start < stop" and "stop < after"
    and "fl_stack st = e # es" and "se_label e = l" and "se_operation e = NGCFlowCtrl_Repeat" and "\<not> se_skip e"
    and "\<not> fl_skip_sub st" and "hal_file st = Some f" and "se_file e = Some f" and "se_file_pos e = start"
    and "se_repeats e \<noteq> 0" and "tell (Some f) st = start"
  shows "\<exists>st'. run_from (Suc (2 * unat (se_repeats e))) mem l n (start, stop, after) B st =
      Done (unat (se_repeats e), st') \<and> fl_stack st' = es \<and> hal_file st' = Some f \<and> tell (Some f) st' = after"
  using assms(5-14)
proof (induction "unat (se_repeats e)" arbitrary: st e)
  case 0
  then show ?case by (simp add: unat_eq_0)
next
  case (Suc k)
  let ?s = "read_to after (B st)"
  have b: "fl_stack (B st) = e # es" "fl_skip_sub (B st) = fl_skip_sub st" "hal_file (B st) = Some f"
    "tell (Some f) (B st) = stop"
    using Suc.prems(1,6,10) assms(1) by (auto simp: body_between_def)
  have s: "tell (Some f) ?s = after" using tell_read_to [of "B st" after] b assms(2,3) by simp
  obtain st' where st': "ngc_flowctrl mem l n ''ENDREPEAT'' 0 ?s = Done (Status_OK, 9, Some (skipping st'), st')"
    "fl_skip_sub st' = fl_skip_sub st" "hal_file st' = Some f"
    "if se_repeats e = 1 then fl_stack st' = es \<and> tell (Some f) st' = after
     else fl_stack st' = e\<lparr>se_repeats := se_repeats e - 1\<rparr> # es \<and> tell (Some f) st' = start"
    using endrepeat_step [of ?s e es l f mem n] b s Suc.prems assms(2-4) by auto
  have step: "run_from (Suc (Suc (Suc j))) mem l n (start, stop, after) B st =
      bnd (run_from (Suc j) mem l n (start, stop, after) B st') (\<lambda>(c, st). Done (Suc c, st))" for j
    using b st'(1) Suc.prems(6,10) assms(2,3) by simp
  have unat: "unat (se_repeats e) = Suc k" using Suc.hyps(2) by simp
  have fuel: "Suc (2 * Suc k) = Suc (Suc (Suc (2 * k)))" by simp
  show ?case
  proof (cases "se_repeats e = 1")
    case True
    with st' unat have "k = 0" by simp
    have "run_from (Suc (2 * k)) mem l n (start, stop, after) B st' = Done (0, st')"
      using st' True assms(2-4) by simp
    then have "run_from (Suc (Suc (Suc (2 * k)))) mem l n (start, stop, after) B st = Done (Suc k, st')"
      unfolding step using \<open>k = 0\<close> by (simp del: run_from.simps)
    moreover have "fl_stack st' = es \<and> hal_file st' = Some f \<and> tell (Some f) st' = after" using True st' by simp
    ultimately show ?thesis unfolding unat fuel by blast
  next
    case False
    let ?e = "e\<lparr>se_repeats := se_repeats e - 1\<rparr>"
    have k: "unat (se_repeats e - 1) = k"
      using Suc.hyps(2) Suc.prems(9) by (simp add: unat_minus_one)
    have "se_repeats e - 1 \<noteq> 0" using False by simp
    with Suc.hyps(1) [of ?e st'] st' False Suc.prems k
    obtain st2 where "run_from (Suc (2 * k)) mem l n (start, stop, after) B st' = Done (k, st2)"
      "fl_stack st2 = es" "hal_file st2 = Some f" "tell (Some f) st2 = after" by auto
    then have "run_from (Suc (Suc (Suc (2 * k)))) mem l n (start, stop, after) B st = Done (Suc k, st2) \<and>
        fl_stack st2 = es \<and> hal_file st2 = Some f \<and> tell (Some f) st2 = after"
      unfolding step by (simp del: run_from.simps)
    then show ?thesis unfolding unat fuel by blast
  qed
qed

text \<open>
  C11. A REPEAT line in a file, with a value that rounds to k, between 1 and 4294967295, has ENDREPEAT send
  the file back to the start of the body k - 1 times: executing the file from the position after the REPEAT
  line executes the body exactly k times, as long as each time it leaves the flow control as it found it and
  the file at the ENDREPEAT line; the file is then at the position after that line and the stack is as it was
  before the loop.
\<close>

theorem repeat_runs_body:
  assumes "\<not> skipping st" and "length (fl_stack st) < NGC_STACK_DEPTH" and "hal_file st = Some f"
    and "evaluates st (''REPEAT'' @ c) 6 (Fin a)" and "round_even a = of_nat k" and "0 < k" and "k < 2 ^ 32"
    and "tell (Some f) st = start" and "0 < start" and "start < stop" and "stop < after"
    and "body_between start stop B"
  shows "\<exists>p st1 st2. ngc_flowctrl mem l n (''REPEAT'' @ c) 0 st = Done (Status_OK, p, Some False, st1) \<and>
    run_from (2 * k + 1) mem l n (start, stop, after) B st1 = Done (k, st2) \<and>
    fl_stack st2 = fl_stack st \<and> hal_file st2 = Some f \<and> tell (Some f) st2 = after"
proof -
  obtain p where ev: "ngc_eval_expression (fl_env st) (''REPEAT'' @ c) 6 (ee_junk (fl_env st)) = Done (Status_OK, p, Fin a)"
    using assms(4) by (auto simp: evaluates_def)
  let ?fp = "ee_fp (fl_env st)"
  have conv: "f_to_u32 ?fp (Fin (of_nat k)) = of_nat k"
    using assms(7) by (simp add: f_to_u32_def f_to_int_def trunc_def)
  have pos: "\<not> f_le (Fin (of_nat k)) f_zero" using assms(6) by (simp add: f_le_def f_eq_def)
  let ?e = "\<lparr>se_label = l, se_operation = NGCFlowCtrl_Repeat, se_sub = fl_exec_sub st,
    se_file = hal_file st, se_file_pos = tell (hal_file st) st, se_line_number = n, se_expr = None,
    se_repeats = of_nat k, se_skip = False, se_handled = False, se_brk = False\<rparr>"
  let ?st = "st\<lparr>fl_stack := ?e # fl_stack st\<rparr>"
  have "flow_repeat l n (''REPEAT'' @ c) 6 st = Done (Status_OK, p, ?st)"
    unfolding flow_repeat_def eval_then_def ev using assms(1,2,5) conv pos
    by (simp add: stack_push_def call_level_ok_def loop_start_def hal_file_def tell_def Let_def split: option.split)
  then have "ngc_flowctrl mem l n (''REPEAT'' @ c) 0 st = Done (Status_OK, p, Some (skipping ?st), ?st)"
    using flowctrl_line [OF read_flow_words(5), of mem l n c st p ?st] assms(3) by simp
  moreover have ns: "\<not> fl_skip_sub st" using assms(1) by (simp add: skipping_def)
  moreover have k: "unat (of_nat k :: u32) = k" using assms(7) by (simp add: unat_of_nat)
  then have "(of_nat k :: u32) \<noteq> 0" using assms(6) by auto
  then have "\<exists>st2. run_from (2 * k + 1) mem l n (start, stop, after) B ?st = Done (k, st2) \<and>
      fl_stack st2 = fl_stack st \<and> hal_file st2 = Some f \<and> tell (Some f) st2 = after"
    using run_from_runs [OF assms(12,9-11), of ?st ?e "fl_stack st" l f mem n] assms(3,8) ns k by simp
  ultimately show ?thesis by auto
qed

subsection \<open>Where the code goes wrong\<close>

lemma pull_while_not_top [simp]: "fl_stack st = e # es \<Longrightarrow> P e \<Longrightarrow> pull_while_not P st = Done st"
  by (simp add: pull_while_not_def)

text \<open>
  CONTINUE in a WHILE loop whose condition has become false takes the loop off the stack but does not
  skip the rest of its body: the lines up to ENDWHILE are executed once more, and ENDWHILE then stops the
  program with a syntax error.
\<close>

theorem continue_leaves_while_early:
  assumes "hal_file st \<noteq> None" and "fl_stack st = w # es" and "se_label w = l"
    and "se_operation w = NGCFlowCtrl_While" and "\<not> se_skip w" and "se_expr w = Some x"
    and "evaluates st x 0 v" and "is_zero v"
    and "\<not> skipping (st\<lparr>fl_stack := es\<rparr>)" and "last_op (st\<lparr>fl_stack := es\<rparr>) \<noteq> NGCFlowCtrl_While"
  shows "ngc_flowctrl mem l n ''CONTINUE'' 0 st = Done (Status_OK, 8, Some False, st\<lparr>fl_stack := es\<rparr>) \<and>
    (\<exists>st'. ngc_flowctrl mem l n ''ENDWHILE'' 0 (st\<lparr>fl_stack := es\<rparr>) =
       Done (Status_FlowControlSyntaxError, 8, Some False, st'))"
proof
  obtain p where ev: "ngc_eval_expression (fl_env st) x 0 (ee_junk (fl_env st)) = Done (Status_OK, p, v)"
    using assms(7) by (auto simp: evaluates_def)
  have ns: "\<not> fl_skip_sub st" using assms(9) by (simp add: skipping_def)
  have "flow_continue l 8 st = Done (Status_OK, 8, st\<lparr>fl_stack := es\<rparr>)"
    using assms ns ev
    by (simp add: flow_continue_def while_again_def pull_skipped_def stack_pull_def Let_def)
  then show "ngc_flowctrl mem l n ''CONTINUE'' 0 st = Done (Status_OK, 8, Some False, st\<lparr>fl_stack := es\<rparr>)"
    using flowctrl_line [OF read_flow_words(9), of mem l n st 8 "st\<lparr>fl_stack := es\<rparr>"] assms(1,9) by simp
  have "hal_file (st\<lparr>fl_stack := es\<rparr>) \<noteq> None" using assms(1) by (simp add: hal_file_def)
  then show "\<exists>st'. ngc_flowctrl mem l n ''ENDWHILE'' 0 (st\<lparr>fl_stack := es\<rparr>) =
       Done (Status_FlowControlSyntaxError, 8, Some False, st')"
    using assms(9,10) init_empties [of "st\<lparr>fl_stack := es\<rparr>"]
    by (auto simp: ngc_flowctrl_def read_flow_words flow_endwhile_def misplaced_def status_defs)
qed

text \<open>
  BREAK and CONTINUE with a label that is not on the stack pull every entry and then read the label
  of the entry before the first one.
\<close>

theorem unknown_label_overruns_stack:
  assumes "hal_file st \<noteq> None" and "\<not> skipping st" and "\<forall>e \<in> set (fl_stack st). se_label e \<noteq> l"
  shows "ngc_flowctrl mem l n ''BREAK'' 0 st = Overflow \<and> ngc_flowctrl mem l n ''CONTINUE'' 0 st = Overflow"
  using assms pull_all [of st "\<lambda>e. se_label e = l"]
  by (auto simp: ngc_flowctrl_def read_flow_words flow_break_def flow_continue_def)

text \<open>
  RETURN at the top level of a macro, with nothing on the stack, reads the file of the entry before the
  first one.
\<close>

theorem macro_return_overruns_stack:
  assumes "hal_file st \<noteq> None" and "fl_exec_sub st = None" and "fl_macro_return st" and "fl_stack st = []"
    and "\<not> fl_skip_sub st"
  shows "ngc_flowctrl mem l n (''RETURN'' @ c) 0 st = Overflow"
proof -
  have "flow_return mem l (''RETURN'' @ c) 6 st = Overflow"
    using assms by (simp add: flow_return_def skipping_def)
  then show ?thesis
    unfolding ngc_flowctrl_def read_flow_words using assms(1) by simp
qed

text \<open>What a successful call of a named subroutine leaves on the stack.\<close>

lemma set_args_frame: "set_args mem i vs s st = (s', st') \<Longrightarrow>
    fl_stack st' = fl_stack st \<and> fl_subs st' = fl_subs st \<and> fl_skip_sub st' = fl_skip_sub st \<and> hal_file st' = hal_file st"
proof (induction vs arbitrary: i s st)
  case (Cons v vs)
  have "fl_stack (set_params s st) = fl_stack st \<and> fl_subs (set_params s st) = fl_subs st \<and>
      fl_skip_sub (set_params s st) = fl_skip_sub st \<and> hal_file (set_params s st) = hal_file st" for s
    by (simp add: set_params_def hal_file_def)
  with Cons show ?case by (fastforce split: if_splits prod.splits)
qed simp

lemma set_named_frame: "set_named mem name v st = Done st' \<Longrightarrow>
    fl_stack st' = fl_stack st \<and> fl_subs st' = fl_subs st \<and> fl_skip_sub st' = fl_skip_sub st \<and> hal_file st' = hal_file st"
  by (auto simp: set_named_def set_params_def hal_file_def split: option.splits)

lemma reposition_frame: "reposition f p n st = Done st' \<Longrightarrow>
    fl_stack st' = fl_stack st \<and> fl_subs st' = fl_subs st \<and> fl_skip_sub st' = fl_skip_sub st \<and> hal_file st' = hal_file st"
  by (auto simp: reposition_def on_streams_def split: option.splits) (simp add: hal_file_def stream_reposition_def
      onLineNumberAssigned_def Let_def)

lemma bnd_Done_iff: "bnd r f = Done y \<longleftrightarrow> (\<exists>x. r = Done x \<and> f x = Done y)"
  by (cases r) auto

lemma enter_sub_frame:
  assumes "enter_sub mem sub args st = Done (s, st')" and "fl_stack st = e # es"
  shows "fl_stack st' = e\<lparr>se_sub := Some (sub_ptr sub), se_file := hal_file st,
      se_file_pos := tell (hal_file st) st, se_repeats := 1\<rparr> # es \<and> fl_subs st' = fl_subs st \<and>
    fl_skip_sub st' = fl_skip_sub st \<and> hal_file st' = hal_file st"
proof -
  let ?st = "upd_top (\<lambda>e. e\<lparr>se_sub := Some (sub_ptr sub), se_file := hal_file st,
      se_file_pos := tell (hal_file st) st, se_repeats := 1\<rparr>) (st\<lparr>fl_exec_sub := Some (sub_ptr sub)\<rparr>)"
  obtain status st1 where a: "set_args mem 1 args Status_OK ?st = (status, st1)" by force
  have "fl_stack st' = fl_stack st1 \<and> fl_subs st' = fl_subs st1 \<and> fl_skip_sub st' = fl_skip_sub st1 \<and>
      hal_file st' = hal_file st1"
    using assms(1) a
    by (auto simp: enter_sub_def Let_def bnd_Done_iff dest!: set_named_frame reposition_frame split: if_splits)
  with set_args_frame [OF a] assms(2) show ?thesis by (simp add: hal_file_def)
qed

end
