(* ===== verification/Ngc_Flow_Subs.thy ===== *)
theory Ngc_Flow_Subs
  imports Ngc_Flow_Props
begin

text \<open>
  Calls of named subroutines: the memory of the subroutine that ENDSUB frees and then reads. The
  second part runs the flow control on a concrete program.
\<close>

subsection \<open>Leaving a named subroutine\<close>

lemma callee_named:
  assumes "callee mem l n st = (s, Some sub, st')" and "named_label l"
    and "\<forall>sub \<in> set (fl_subs st). sub_ptr sub < fl_next_sub st"
  shows "s = Status_OK \<and> fl_subs st' = fl_subs st @ [sub] \<and> sub_ptr sub = fl_next_sub st \<and>
    hal_file st' = Some (sub_file sub) \<and> fl_stack st' = fl_stack st \<and> fl_skip_sub st' = fl_skip_sub st"
  using assms
  by (auto simp: callee_def add_sub_def open_macro_def hal_file_def stream_redirect_read_def stream_set_type_def vfs_open_def Let_def
      split: option.splits prod.splits if_splits)

lemma push_frame:
  "stack_push l n operation st = (Status_OK, st') \<Longrightarrow>
     (\<exists>e. fl_stack st' = e # fl_stack st \<and> se_label e = l \<and> se_operation e = operation) \<and> fl_subs st' = fl_subs st \<and>
     fl_skip_sub st' = fl_skip_sub st \<and> hal_file st' = hal_file st"
  by (auto simp: stack_push_def call_level_ok_def set_params_def hal_file_def status_defs split: if_splits prod.splits)

lemma named_call_state:
  assumes "flow_call mem l n line pos st = Done (Status_OK, p, st')" and "named_label l" and "\<not> skipping st"
    and "\<forall>sub \<in> set (fl_subs st). sub_ptr sub < fl_next_sub st"
  obtains e sub where "fl_stack st' = e # fl_stack st" and "se_label e = l" and "se_sub e = Some (sub_ptr sub)"
    and "se_file e = Some (sub_file sub)" and "fl_subs st' = fl_subs st @ [sub]" and "sub_ptr sub = fl_next_sub st"
    and "se_operation e = NGCFlowCtrl_Call" and "hal_file st' = Some (sub_file sub)" and "fl_skip_sub st' = fl_skip_sub st"
proof -
  obtain s sub st1 where c: "callee mem l n st = (s, sub, st1)" by (metis prod_cases3)
  with assms(1,2,3) obtain sub' where sub: "sub = Some sub'"
    by (cases sub) (auto simp: flow_call_def status_defs split: if_splits)
  note cn = callee_named [OF c [unfolded sub] assms(2,4)]
  obtain q args where r: "read_args 30 st1 line pos [] = Done (Status_OK, q, args)"
    using assms(1,2,3) c sub
    by (cases "read_args 30 st1 line pos []") (auto simp: flow_call_def split: if_splits)
  obtain k st2 where push: "stack_push l n NGCFlowCtrl_Call st1 = (k, st2)" by force
  have k: "k = Status_OK"
    using assms(1,2,3) c sub r push by (auto simp: flow_call_def Let_def split: if_splits)
  obtain k' st3 where en: "enter_sub mem sub' (all_args st1 args) st2 = Done (k', st3)" "st3 = st'"
    using assms(1,2,3) c sub r push k
    by (cases "enter_sub mem sub' (all_args st1 args) st2") (auto simp: flow_call_def Let_def)
  from push_frame [OF push [unfolded k]] obtain e where e: "fl_stack st2 = e # fl_stack st1" "se_label e = l"
      "se_operation e = NGCFlowCtrl_Call" "fl_subs st2 = fl_subs st1" "hal_file st2 = hal_file st1"
      "fl_skip_sub st2 = fl_skip_sub st1" by auto
  let ?e = "e\<lparr>se_sub := Some (sub_ptr sub'), se_file := hal_file st2, se_file_pos := tell (hal_file st2) st2, se_repeats := 1\<rparr>"
  from enter_sub_frame [OF en(1) e(1)] en(2) e cn show thesis
    by (intro that [of ?e sub']) simp_all
qed

text \<open>
  C33. A named subroutine that has been called is freed when its ENDSUB closes its file, and its callback is
  then read from the freed memory, whatever its body did as long as it left the flow control as it found it.
\<close>

theorem named_endsub_use_after_free:
  assumes "flow_call mem l n line pos st = Done (Status_OK, p, st1)" and "named_label l" and "\<not> skipping st"
    and "\<forall>sub \<in> set (fl_subs st). sub_ptr sub < fl_next_sub st"
    and "fl_stack st2 = fl_stack st1" and "fl_subs st2 = fl_subs st1" and "hal_file st2 \<noteq> None" and "\<not> fl_skip_sub st2"
  shows "ngc_flowctrl mem l m (''ENDSUB'' @ c) 0 st2 = Overflow"
proof -
  obtain e sub where e: "fl_stack st1 = e # fl_stack st" "se_label e = l" "se_sub e = Some (sub_ptr sub)"
      "se_file e = Some (sub_file sub)" "fl_subs st1 = fl_subs st @ [sub]" "sub_ptr sub = fl_next_sub st"
    using assms(1-4) by (rule named_call_state)
  have gone: "find_sub (sub_ptr sub) (on_streams f (clear_subs (Some (sub_file sub)) s)) = None"
    if "fl_subs s = fl_subs st2" for f s
    using that e assms(4,6) by (auto simp: find_sub_def on_streams_def clear_subs_def sub_in_def find_None_iff)
  have "stack_unwind_sub l True st2 = Overflow"
    using e assms(2,5) gone [of st2] gone [of "set_params (ngc_string_param_delete l (params_of st2)) st2"]
    by (auto simp: stack_unwind_sub_def leave_sub_def set_params_def Let_def split: prod.split)
  then show ?thesis
    unfolding ngc_flowctrl_def read_flow_words using assms(7,8) by (simp add: flow_endsub_def)
qed

subsection \<open>A concrete program\<close>

definition demo_flow :: "machine \<Rightarrow> unit flow" where
  "demo_flow g = \<lparr>fl_env = demo_env g,
     fl_streams = \<lparr>ss_file = Some 0, ss_type = StreamType_File, ss_read = Stream_Read_File, ss_gc_file_stream = False,
       ss_line_number = 0, ss_eol_ok = False, ss_redirects = [], ss_hooked = False,
       ss_vfs = \<lparr>vf_files = (\<lambda>n. if n = ''/a.macro'' then Some ''G1'' else None),
                 vf_open = [0 \<mapsto> (''o1 if [1]'', 3)], vf_next = 1\<rparr>\<rparr>,
     fl_stack = [], fl_skip_sub = False, fl_subs = [], fl_exec_sub = None, fl_next_sub = 0, fl_macro_return = True,
     fl_closing = False, fl_fmt_digit = 0, fl_auto_restore = (\<lambda>_. False), fl_events = []\<rparr>"

lemma demo_flow_simps [simp]:
  "fl_env (demo_flow g) = demo_env g" "fl_stack (demo_flow g) = []" "\<not> fl_skip_sub (demo_flow g)"
  "hal_file (demo_flow g) = Some 0" "\<not> skipping (demo_flow g)" "fl_exec_sub (demo_flow g) = None"
  "fl_macro_return (demo_flow g)" "ee_fp (demo_env g) = exact_fpu" "ee_junk (demo_env g) = Fin 0"
  by (simp_all add: demo_flow_def hal_file_def skipping_def demo_env_def)

text \<open>A bracketed digit, wherever it stands.\<close>

lemma cchar_drop: "drop pos line = cs \<Longrightarrow> k < length cs \<Longrightarrow> cchar line (pos + k) = cs ! k"
  by (auto simp: cchar_def)

lemma bracketed_digit:
  assumes "drop pos line = CHR ''['' # d # CHR '']'' # rest" and "d \<in> {CHR ''0'', CHR ''1'', CHR ''2''}"
  shows "ngc_eval_expression (demo_env g) line pos old = Done (Status_OK, pos + 3, Fin (of_nat (digit_value d)))"
proof -
  have c: "cchar line pos = CHR ''[''" "cchar line (Suc pos) = d" "cchar line (Suc (Suc pos)) = CHR '']''"
    using cchar_drop [OF assms(1), of 0] cchar_drop [OF assms(1), of 1] cchar_drop [OF assms(1), of 2] by auto
  have r: "drop (Suc pos) line = d # CHR '']'' # rest"
    using assms(1) by (metis drop_Suc list.sel(3) tl_drop)
  have "read_float exact_fpu line (Suc pos) old = (True, Suc (Suc pos), Fin (of_nat (digit_value d)))" for old
    using assms(2) c r
    by (auto simp: read_float_def float_loop.simps exact_fpu_def f_of_int_def MAX_INT_DIGITS_def f_eq_def Let_def
        is_digit_def digit_value_def)
  then have "ngc_read_real_value (Suc n) (demo_env g) line (Suc pos) old =
      Done (Status_OK, Suc (Suc pos), Fin (of_nat (digit_value d)))" for n old
    using c assms(2)
    by (auto simp: real_step_def check_value_def f_isnan_def f_isinf_def sign_prefix_def NUL_def is_digit_def)
  then show ?thesis
    using c by (simp add: ngc_eval_expression_def eval_with_def read_operation_def eval_loop.simps MAX_STACK_def
      eval_nat_numeral del: ngc_read_real_value.simps)
qed

lemma digit_values: "digit_value CHR ''0'' = 0" "digit_value CHR ''1'' = 1" "digit_value CHR ''2'' = 2"
  by (simp_all add: digit_value_def)

lemma demo_evaluates [simp]:
  "evaluates (demo_flow g) ''IF[0]'' 2 f_zero" "evaluates (demo_flow g) ''ELSEIF[1]'' 6 f_one"
  "evaluates (demo_flow g) ''REPEAT[2]'' 6 (Fin 2)"
  using bracketed_digit [of 2 "''IF[0]''" "CHR ''0''" "[]"] bracketed_digit [of 6 "''ELSEIF[1]''" "CHR ''1''" "[]"]
    bracketed_digit [of 6 "''REPEAT[2]''" "CHR ''2''" "[]"]
  by (auto simp: evaluates_def digit_values)

lemma conditional_runs_first_true_witness:
  "\<forall>g. run_lines True 1 0 [''IF[0]'', ''ELSEIF[1]'', ''ELSE'', ''ENDIF''] (demo_flow g) =
     Done ([Some True, Some False, Some True, Some False], demo_flow g)"
proof
  fix g
  have z: "is_zero f_zero" "\<not> is_zero f_one" by (simp_all add: is_zero_def f_eq_def)
  have "chain_values (demo_flow g) (\<not> is_zero f_zero) [''[1]''] [True]"
    using demo_evaluates(2) [of g] z by (auto simp: elseif_line_def intro!: exI [of _ f_one] simp del: demo_evaluates)
  then show "run_lines True 1 0 [''IF[0]'', ''ELSEIF[1]'', ''ELSE'', ''ENDIF''] (demo_flow g) =
      Done ([Some True, Some False, Some True, Some False], demo_flow g)"
    using conditional_runs_first_true [of "demo_flow g" "''[0]''" f_zero "[''[1]'']" "[True]" True 1 0] z
    by (simp add: elseif_line_def first_true_def NGC_STACK_DEPTH_def)
qed

lemma repeat_runs_body_witness:
  "\<forall>g. \<exists>p st1 st2. ngc_flowctrl True 1 0 ''REPEAT[2]'' 0 (demo_flow g) = Done (Status_OK, p, Some False, st1) \<and>
     run_from 5 True 1 0 (3, 5, 7) (read_to 5) st1 = Done (2, st2) \<and> fl_stack st2 = [] \<and> tell (Some 0) st2 = 7"
proof
  fix g
  have b: "body_between 3 5 (read_to 5 :: unit flow \<Rightarrow> unit flow)"
    unfolding body_between_def
  proof (intro allI impI)
    fix st :: "unit flow"
    assume "hal_file st \<noteq> None \<and> tell (hal_file st) st = 3"
    then show "fl_stack (read_to 5 st) = fl_stack st \<and> fl_skip_sub (read_to 5 st) = fl_skip_sub st \<and>
        hal_file (read_to 5 st) = hal_file st \<and> tell (hal_file (read_to 5 st)) (read_to 5 st) = 5"
      using tell_read_to [of st 5] by simp
  qed
  have r: "round_even 2 = of_nat 2" by (simp add: round_even_def)
  have t: "tell (Some 0) (demo_flow g) = 3" by (simp add: demo_flow_def tell_def vfs_tell_def)
  have e: "evaluates (demo_flow g) (''REPEAT'' @ ''[2]'') 6 (Fin 2)" using demo_evaluates(3) [of g] by simp
  have room: "length (fl_stack (demo_flow g)) < NGC_STACK_DEPTH" by (simp add: NGC_STACK_DEPTH_def)
  show "\<exists>p st1 st2. ngc_flowctrl True 1 0 ''REPEAT[2]'' 0 (demo_flow g) = Done (Status_OK, p, Some False, st1) \<and>
     run_from 5 True 1 0 (3, 5, 7) (read_to 5) st1 = Done (2, st2) \<and> fl_stack st2 = [] \<and> tell (Some 0) st2 = 7"
    using repeat_runs_body [OF demo_flow_simps(5) room demo_flow_simps(4) e r _ _ t _ _ _ b, of 7 True 1 0]
    by (simp del: run_from.simps) blast
qed

lemma flow_levels_balanced_witness:
  "\<forall>g. \<exists>p st. ngc_flowctrl True 1 0 ''IF[0]'' 0 (demo_flow g) = Done (Status_OK, p, Some True, st) \<and> flow_ok (- 1) st"
proof
  fix g
  have ok: "flow_ok (- 1) (demo_flow g)"
    by (simp add: flow_ok_def level_def params_of_def demo_env_def demo_params_def ngc_params_start_def)
  have ev: "ngc_eval_expression (fl_env (demo_flow g)) ''IF[0]'' 2 (ee_junk (fl_env (demo_flow g))) = Done (Status_OK, 5, f_zero)"
    using bracketed_digit [of 2 "''IF[0]''" "CHR ''0''" "[]"] by (simp add: digit_values)
  have room: "length (fl_stack (demo_flow g)) < NGC_STACK_DEPTH" by (simp add: NGC_STACK_DEPTH_def)
  obtain e where e: "flow_if 1 0 ''IF[0]'' 2 (demo_flow g) = Done (Status_OK, 5, (demo_flow g)\<lparr>fl_stack := e # fl_stack (demo_flow g)\<rparr>)"
      "se_skip e = is_zero f_zero"
    using demo_flow_simps(5) room ev by (rule flow_if_step)
  let ?st = "(demo_flow g)\<lparr>fl_stack := [e]\<rparr>"
  have "ngc_flowctrl True 1 0 ''IF[0]'' 0 (demo_flow g) = Done (Status_OK, 5, Some True, ?st)"
    using flowctrl_line [OF read_flow_words(1), of True 1 0 "''[0]''" "demo_flow g" 5 ?st] e
    by (simp add: skipping_def is_zero_def f_eq_def)
  with flow_levels_balanced [OF ok this]
  show "\<exists>p st. ngc_flowctrl True 1 0 ''IF[0]'' 0 (demo_flow g) = Done (Status_OK, p, Some True, st) \<and> flow_ok (- 1) st"
    by blast
qed

definition demo_while :: ngc_stack_entry where
  "demo_while = \<lparr>se_label = 1, se_operation = NGCFlowCtrl_While, se_sub = None, se_file = Some 0, se_file_pos = 0,
     se_line_number = 0, se_expr = Some ''[0]'', se_repeats = 0, se_skip = False, se_handled = False, se_brk = False\<rparr>"

lemma continue_leaves_while_early_witness:
  "\<forall>g. ngc_flowctrl True 1 0 ''CONTINUE'' 0 ((demo_flow g)\<lparr>fl_stack := [demo_while]\<rparr>) =
     Done (Status_OK, 8, Some False, demo_flow g)"
proof
  fix g
  let ?st = "(demo_flow g)\<lparr>fl_stack := [demo_while]\<rparr>"
  have e: "evaluates ?st ''[0]'' 0 f_zero"
    using bracketed_digit [of 0 "''[0]''" "CHR ''0''" "[]"] by (auto simp: evaluates_def digit_values)
  have same: "?st\<lparr>fl_stack := []\<rparr> = demo_flow g" "hal_file ?st = Some 0" "last_op (demo_flow g) = NGCFlowCtrl_NoOp"
    by (simp_all add: demo_flow_def hal_file_def last_op_def)
  show "ngc_flowctrl True 1 0 ''CONTINUE'' 0 ?st = Done (Status_OK, 8, Some False, demo_flow g)"
    using continue_leaves_while_early [of ?st demo_while "[]" 1 "''[0]''" f_zero True 0] e
    unfolding same by (simp add: demo_while_def is_zero_def f_eq_def)
qed

lemma unknown_label_overruns_stack_witness:
  "\<forall>g. ngc_flowctrl True 2 0 ''BREAK'' 0 ((demo_flow g)\<lparr>fl_stack := [demo_while]\<rparr>) = Overflow"
  using unknown_label_overruns_stack [of "(demo_flow g)\<lparr>fl_stack := [demo_while]\<rparr>" 2 True 0 for g]
  by (simp add: demo_while_def hal_file_def demo_flow_def skipping_def)

lemma macro_return_overruns_stack_witness: "\<forall>g. ngc_flowctrl True 2 0 ''RETURN'' 0 (demo_flow g) = Overflow"
  using macro_return_overruns_stack [of "demo_flow g" True 2 0 "''''" for g] by simp

definition demo_named :: "machine \<Rightarrow> unit flow" where
  "demo_named g = (demo_flow g)\<lparr>fl_env := (demo_env g)\<lparr>ee_params :=
     ngc_params_start\<lparr>np_strings := [\<lparr>sp_id = 0xFFFFFFFE, sp_len = 1, sp_value = ''a''\<rparr>]\<rparr>\<rparr>\<rparr>"

lemma set_args_zero: "\<forall>v \<in> set vs. is_zero v \<Longrightarrow> set_args mem i vs status st = (status, st)"
  by (induction vs arbitrary: i) auto

lemma named_call_ok:
  "\<exists>p st1. flow_call True 0xFFFFFFFE 0 ''CALL'' 4 (demo_named g) = Done (Status_OK, p, st1)"
proof -
  have z: "is_zero (Fin 0)" by (simp add: is_zero_def f_eq_def)
  have args: "\<forall>v \<in> set (all_args st []). is_zero v" if "np_rw (params_of st) = []" "ee_junk (fl_env st) = Fin 0" for st :: "unit flow"
    using that z by (auto simp: all_args_def ngc_param_get_def ngc_param_is_rw_def store_value_def)
  let ?l = "0xFFFFFFFE :: u32" and ?st = "demo_named g"
  obtain sub st1 where c: "callee True ?l 0 ?st = (Status_OK, Some sub, st1)"
      "np_rw (params_of st1) = []" "np_named (params_of st1) = []" "np_call_level (params_of st1) = - 1"
      "fl_stack st1 = []" "fl_env st1 = fl_env ?st"
    by (simp add: callee_def demo_named_def demo_flow_def ngc_string_param_get_def params_of_def demo_env_def
        open_macro_def named_label_def NGC_MAX_PARAM_ID_def stream_redirect_read_def add_sub_def vfs_open_def
        stream_set_type_def Let_def ngc_params_start_def)
  have j: "ee_junk (fl_env ?st) = Fin 0" by (simp add: demo_named_def demo_env_def)
  obtain st2 where p: "stack_push ?l 0 NGCFlowCtrl_Call st1 = (Status_OK, st2)"
      "np_named (params_of st2) = []" "np_context (params_of st2) = Some 0"
      "fl_stack st2 \<noteq> []"
    using c by (simp add: stack_push_def call_level_ok_def NGC_STACK_DEPTH_def ngc_call_push_def params_of_def set_params_def
      NGC_MAX_CALL_LEVEL_def Let_def)
  have lower: "ngc_name_tolower ''_value'' = Some ''_value''" "ngc_name_tolower ''_value_returned'' = Some ''_value_returned''"
    by (simp_all add: ngc_name_tolower_def name_chars_def LCAPS_def NGC_MAX_PARAM_LENGTH_def)
  have sn: "\<exists>st'. set_named True n v st = Done st'" if "n = ''_value'' \<or> n = ''_value_returned''" for n v and st :: "unit flow"
    using that lower by (auto simp: set_named_def ngc_named_param_set_def split: prod.split)
  have en: "\<exists>st3. enter_sub True sub (all_args st1 []) st2 = Done (Status_OK, st3)"
  proof -
    have z: "\<forall>v \<in> set (all_args st1 []). is_zero v" using args [of st1] c j by simp
    let ?st = "upd_top (\<lambda>e. e\<lparr>se_sub := Some (sub_ptr sub), se_file := hal_file st2,
      se_file_pos := tell (hal_file st2) st2, se_repeats := 1\<rparr>) (st2\<lparr>fl_exec_sub := Some (sub_ptr sub)\<rparr>)"
    obtain st3 where "set_named True ''_value'' f_zero ?st = Done st3" using sn by blast
    moreover obtain st4 where "set_named True ''_value_returned'' f_zero st3 = Done st4" using sn by blast
    ultimately show ?thesis
      unfolding enter_sub_def Let_def set_args_zero [OF z] by (simp add: reposition_def)
  qed
  have "(30 :: nat) = Suc 29" by simp
  then have r: "read_args 30 st1 ''CALL'' 4 [] = Done (Status_OK, 4, [])"
    by (simp only: read_args.simps) (simp add: cchar_def)
  have n: "named_label ?l" "\<not> skipping ?st"
    by (simp_all add: named_label_def NGC_MAX_PARAM_ID_def demo_named_def demo_flow_def skipping_def)
  obtain st3 where "enter_sub True sub (all_args st1 []) st2 = Done (Status_OK, st3)" using en ..
  with c(1) p(1) n r show ?thesis by (simp add: flow_call_def del: read_args.simps)
qed

lemma named_endsub_use_after_free_witness:
  "\<forall>g. \<exists>p st. flow_call True 0xFFFFFFFE 0 ''CALL'' 4 (demo_named g) = Done (Status_OK, p, st) \<and>
     ngc_flowctrl True 0xFFFFFFFE 0 ''ENDSUB'' 0 st = Overflow"
proof
  fix g
  obtain p st where c: "flow_call True 0xFFFFFFFE 0 ''CALL'' 4 (demo_named g) = Done (Status_OK, p, st)"
    using named_call_ok by blast
  have l: "named_label 0xFFFFFFFE" by (simp add: named_label_def NGC_MAX_PARAM_ID_def)
  have s: "\<not> skipping (demo_named g)" "\<forall>sub \<in> set (fl_subs (demo_named g)). sub_ptr sub < fl_next_sub (demo_named g)"
    by (simp_all add: demo_named_def demo_flow_def skipping_def)
  from c l s have "hal_file st \<noteq> None" "\<not> fl_skip_sub st"
    by (rule named_call_state; simp add: demo_named_def demo_flow_def)+
  from named_endsub_use_after_free [OF c l s refl refl this, of 0 "''''"] c
  show "\<exists>p st. flow_call True 0xFFFFFFFE 0 ''CALL'' 4 (demo_named g) = Done (Status_OK, p, st) \<and>
     ngc_flowctrl True 0xFFFFFFFE 0 ''ENDSUB'' 0 st = Overflow" by auto
qed
end
