(* ===== verification/Planner.thy ===== *)
theory Planner
  imports Float32
begin

text \<open>
  The motion planner of \<open>grbl/planner.c\<close>: a ring of blocks, each a straight motion, whose entry speeds are
  planned so that the machine can always accelerate and brake within its limits. The doubly linked ring
  is an array of blocks and the links are index arithmetic modulo its length. The step generator, which
  holds a pointer to the block it executes and the speed it has reached, is represented by the
  fields \<open>st_pl_block\<close> and \<open>st_current_speed\<close>. Speeds are squared, in (mm/min)^2. The default configuration is
  modelled: three axes, no jerk limit, no kinematics, no backlash compensation.

  Positions are 32 bit in C and their overflow is undefined; here they are integers without bound.
\<close>

definition N_AXIS :: nat where "N_AXIS = 3"

text \<open>Nearest integer, halves away from zero: \<open>lroundf\<close>.\<close>

definition lround :: "real \<Rightarrow> int" where
  "lround a = (if a < 0 then - \<lfloor>1 / 2 - a\<rfloor> else \<lfloor>a + 1 / 2\<rfloor>)"

definition f_lround :: "fpu \<Rightarrow> flt \<Rightarrow> int" where
  "f_lround fp x = (case x of Fin a \<Rightarrow> lround a | _ \<Rightarrow> fp_cvt fp x)"

definition fmin :: "flt \<Rightarrow> flt \<Rightarrow> flt" where "fmin a b = (if f_lt a b then a else b)"
definition fmax :: "flt \<Rightarrow> flt \<Rightarrow> flt" where "fmax a b = (if f_lt b a then a else b)"
definition SOME_LARGE_VALUE :: "fpu \<Rightarrow> flt" where "SOME_LARGE_VALUE fp = fp_round fp (10 ^ 38)"
definition MINIMUM_JUNCTION_SPEED :: flt where "MINIMUM_JUNCTION_SPEED = Fin 0"
definition MINIMUM_FEED_RATE :: flt where "MINIMUM_FEED_RATE = Fin 1"

subsection \<open>Data\<close>

record planner_cond =
  rapid_motion :: bool
  system_motion :: bool
  jog_motion :: bool
  backlash_motion :: bool
  no_feed_override :: bool
  inverse_time :: bool
  units_per_rev :: bool
  is_rpm_rate_adjusted :: bool
  is_laser_ppi_mode :: bool
  target_valid :: bool
  target_validated :: bool

record css_data =
  css_surface_speed :: flt
  css_target_rpm :: flt
  css_delta_rpm :: flt
  css_max_rpm :: flt
  css_tool_offset :: flt
  css_axis :: nat

text \<open>The spindle of a block; \<open>ps_css\<close> points to shared data, \<open>ps_hal\<close> says which spindle it is.\<close>

record plan_spindle =
  ps_on :: bool
  ps_synchronized :: bool
  ps_css :: "nat option"
  ps_rpm :: flt
  ps_hal :: nat

record planner_block =
  pb_steps :: "nat list"
  pb_step_event_count :: nat
  pb_direction :: "bool list"
  pb_offset_id :: int
  pb_overrides :: u16
  pb_condition :: planner_cond
  pb_line_number :: u32
  pb_target_mm :: "flt list"
  pb_entry_speed_sqr :: flt
  pb_max_entry_speed_sqr :: flt
  pb_acceleration :: flt
  pb_millimeters :: flt
  pb_max_junction_speed_sqr :: flt
  pb_rapid_rate :: flt
  pb_programmed_rate :: flt
  pb_spindle :: plan_spindle
  pb_message :: "string option"
  pb_output_commands :: "nat option"

record plan_line_data =
  ld_feed_rate :: flt
  ld_spindle :: plan_spindle
  ld_condition :: planner_cond
  ld_overrides :: u16
  ld_offset_id :: int
  ld_line_number :: u32
  ld_message :: "string option"
  ld_output_commands :: "nat option"

text \<open>Settings and hardware the planner reads.\<close>

record plan_env =
  pe_fp :: fpu
  pe_steps_per_mm :: "flt list"
  pe_acceleration :: "flt list"
  pe_max_rate :: "flt list"
  pe_junction_deviation :: flt
  pe_buffer_blocks :: nat
  pe_sys_position :: "int list"
  pe_spindle_rpm :: "nat \<Rightarrow> flt" \<comment> \<open>\<open>get_data(SpindleData_RPM)->rpm\<close>\<close>

datatype plan_event =
    MessageFreed string | CommandsFreed nat | SizeReduced | FeedOverrideChanged | RapidOverrideChanged
  | OverridesReported | SyncVelocityScheduled nat

record planner =
  pl_size :: nat
  pl_blocks :: "planner_block list" \<comment> \<open>empty until they are allocated\<close>
  pl_linked :: bool \<comment> \<open>the link pointers are set\<close>
  pl_tail :: nat
  pl_head :: nat
  pl_next_head :: nat
  pl_planned :: nat
  pl_position :: "int list"
  pl_previous_unit_vec :: "flt list"
  pl_previous_nominal_speed :: flt
  pl_actual_rpm :: flt
  pl_feed_rate :: nat
  pl_rapid_rate :: nat
  pl_direction :: "bool list" \<comment> \<open>the static variable of \<open>plan_buffer_line\<close>\<close>
  pl_css :: "nat \<Rightarrow> css_data"
  st_pl_block :: "nat option"
  st_current_speed :: flt
  sys_feed_rate :: nat
  sys_rapid_rate :: nat
  sys_rates_disable :: bool
  pl_events :: "plan_event list"

definition next_block :: "planner \<Rightarrow> nat \<Rightarrow> nat" where
  "next_block s i = (if i = pl_size s then 0 else Suc i)"

definition prev_block :: "planner \<Rightarrow> nat \<Rightarrow> nat" where
  "prev_block s i = (if i = 0 then pl_size s else i - 1)"

definition upd_block :: "nat \<Rightarrow> (planner_block \<Rightarrow> planner_block) \<Rightarrow> planner \<Rightarrow> planner" where
  "upd_block i f s = s\<lparr>pl_blocks := (pl_blocks s)[i := f (pl_blocks s ! i)]\<rparr>"

definition set_entry_speed :: "nat \<Rightarrow> flt \<Rightarrow> planner \<Rightarrow> planner" where
  "set_entry_speed i v = upd_block i (\<lambda>b. b\<lparr>pb_entry_speed_sqr := v\<rparr>)"

definition entry_speed :: "planner \<Rightarrow> nat \<Rightarrow> flt" where
  "entry_speed s i = pb_entry_speed_sqr (pl_blocks s ! i)"

definition max_entry :: "planner \<Rightarrow> nat \<Rightarrow> flt" where
  "max_entry s i = pb_max_entry_speed_sqr (pl_blocks s ! i)"

text \<open>\<open>2.0f * acceleration * millimeters\<close>, what the square of the speed can gain or lose over a block.\<close>

definition speed_gain :: "fpu \<Rightarrow> planner_block \<Rightarrow> flt" where
  "speed_gain fp b = f_mul fp (f_mul fp (Fin 2) (pb_acceleration b)) (pb_millimeters b)"

definition gain :: "fpu \<Rightarrow> planner \<Rightarrow> nat \<Rightarrow> flt" where
  "gain fp s i = speed_gain fp (pl_blocks s ! i)"

text \<open>\<open>st_update_plan_block_parameters(false)\<close> of the step generator: the block being executed starts from
  the speed reached, and is loaded again.\<close>

definition st_update_plan_block_parameters :: "fpu \<Rightarrow> planner \<Rightarrow> planner" where
  "st_update_plan_block_parameters fp s =
     (case st_pl_block s of
        None \<Rightarrow> s
      | Some i \<Rightarrow> (set_entry_speed i (f_mul fp (st_current_speed s) (st_current_speed s)) s)\<lparr>st_pl_block := None\<rparr>)"

subsection \<open>Planning the entry speeds\<close>

text \<open>The reverse pass from the block before the newest down to the planned one, which it leaves alone. A
  ring of \<open>size + 1\<close> blocks has no longer walk than that; \<open>None\<close> stands for a walk that does not end.\<close>

definition reverse_step :: "fpu \<Rightarrow> nat \<Rightarrow> nat \<Rightarrow> planner \<Rightarrow> planner" where
  "reverse_step fp next current s =
     (if f_eq (entry_speed s current) (max_entry s current) then s
      else let entry_speed_sqr = f_add fp (entry_speed s next) (gain fp s current)
           in set_entry_speed current
                (if f_lt entry_speed_sqr (max_entry s current) then entry_speed_sqr else max_entry s current) s)"

fun reverse_pass :: "nat \<Rightarrow> fpu \<Rightarrow> nat \<Rightarrow> nat \<Rightarrow> planner \<Rightarrow> planner option" where
  "reverse_pass 0 fp current block s = None"
| "reverse_pass (Suc n) fp current block s =
     (if block = pl_planned s then Some s
      else
        let next = current; current = block; block = prev_block s block;
            s = (if block = pl_tail s then st_update_plan_block_parameters fp s else s)
        in reverse_pass n fp current block (reverse_step fp next current s))"

text \<open>The forward pass from the planned block on, which also moves the planned pointer.\<close>

definition forward_step :: "fpu \<Rightarrow> nat \<Rightarrow> nat \<Rightarrow> planner \<Rightarrow> planner" where
  "forward_step fp current next s =
     (let entry_speed_sqr = f_add fp (entry_speed s current) (gain fp s current);
          s = (if f_lt (entry_speed s current) (entry_speed s next) \<and> f_lt entry_speed_sqr (entry_speed s next)
               then (set_entry_speed next entry_speed_sqr s)\<lparr>pl_planned := next\<rparr> else s)
      in if f_eq (entry_speed s next) (max_entry s next) then s\<lparr>pl_planned := next\<rparr> else s)"

fun forward_pass :: "nat \<Rightarrow> fpu \<Rightarrow> nat \<Rightarrow> nat \<Rightarrow> planner \<Rightarrow> planner option" where
  "forward_pass 0 fp next block s = None"
| "forward_pass (Suc n) fp next block s =
     (if block = pl_head s then Some s
      else forward_pass n fp block (next_block s block) (forward_step fp next block s))"

definition planner_recalculate :: "fpu \<Rightarrow> planner \<Rightarrow> planner option" where
  "planner_recalculate fp s =
     (let fuel = Suc (Suc (pl_size s)); current = prev_block s (pl_head s)
      in if current = pl_planned s then Some s
         else
           let s = set_entry_speed current (fmin (max_entry s current) (gain fp s current)) s;
               block = prev_block s current
           in Option.bind
                (if block = pl_planned s
                 then Some (if block = pl_tail s then st_update_plan_block_parameters fp s else s)
                 else reverse_pass fuel fp current block s)
                (\<lambda>s. forward_pass fuel fp (pl_planned s) (next_block s (pl_planned s)) s))"

subsection \<open>The ring of blocks\<close>

text \<open>Freeing a block's message and output commands; the message pointer is cleared, that of the commands
  is not.\<close>

definition plan_cleanup :: "nat \<Rightarrow> planner \<Rightarrow> planner" where
  "plan_cleanup i s =
     (let b = pl_blocks s ! i;
          freed = (case pb_message b of None \<Rightarrow> [] | Some m \<Rightarrow> [MessageFreed m]) @
                  (case pb_output_commands b of None \<Rightarrow> [] | Some c \<Rightarrow> [CommandsFreed c])
      in upd_block i (\<lambda>b. b\<lparr>pb_message := None\<rparr>) (s\<lparr>pl_events := pl_events s @ freed\<rparr>))"

fun cleanup_loop :: "nat \<Rightarrow> planner \<Rightarrow> planner" where
  "cleanup_loop 0 s = s"
| "cleanup_loop (Suc n) s =
     (if pl_tail s = pl_head s then s
      else let s = plan_cleanup (pl_tail s) s in cleanup_loop n (s\<lparr>pl_tail := next_block s (pl_tail s)\<rparr>))"

definition plan_reset_buffer :: "bool \<Rightarrow> planner \<Rightarrow> planner" where
  "plan_reset_buffer init s =
     (let s = (if init then s\<lparr>pl_linked := True\<rparr> else cleanup_loop (Suc (pl_size s)) s);
          s = s\<lparr>pl_planned := 0, pl_tail := 0, pl_head := 0\<rparr>
      in s\<lparr>pl_next_head := next_block s 0\<rparr>)"

definition plan_get_buffer_size :: "planner \<Rightarrow> nat" where
  "plan_get_buffer_size s = pl_size s"

text \<open>The memory for the ring: fewer blocks are tried while there is not enough. \<open>mem n\<close> says whether
  n blocks can be allocated; their contents are not read before they are written.\<close>

function buffer_size :: "(nat \<Rightarrow> bool) \<Rightarrow> nat \<Rightarrow> bool \<times> nat" where
  "buffer_size mem n =
     (if mem (n + 1) then (True, n)
      else if 40 < n then buffer_size mem (n - (if 250 \<le> n then 100 else 10))
      else (False, n))"
  by auto
termination by (relation "measure snd") auto

declare buffer_size.simps [simp del]

definition no_cond :: planner_cond where
  "no_cond = \<lparr>rapid_motion = False, system_motion = False, jog_motion = False, backlash_motion = False,
     no_feed_override = False, inverse_time = False, units_per_rev = False,
     is_rpm_rate_adjusted = False, is_laser_ppi_mode = False, target_valid = False,
     target_validated = False\<rparr>"

definition zero_spindle :: plan_spindle where
  "zero_spindle = \<lparr>ps_on = False, ps_synchronized = False, ps_css = None, ps_rpm = f_zero, ps_hal = 0\<rparr>"

definition zero_block :: planner_block where
  "zero_block = \<lparr>pb_steps = replicate N_AXIS 0, pb_step_event_count = 0, pb_direction = replicate N_AXIS False,
     pb_offset_id = 0, pb_overrides = 0, pb_condition = no_cond, pb_line_number = 0,
     pb_target_mm = replicate N_AXIS f_zero, pb_entry_speed_sqr = f_zero, pb_max_entry_speed_sqr = f_zero,
     pb_acceleration = f_zero, pb_millimeters = f_zero, pb_max_junction_speed_sqr = f_zero,
     pb_rapid_rate = f_zero, pb_programmed_rate = f_zero, pb_spindle = zero_spindle, pb_message = None,
     pb_output_commands = None\<rparr>"

definition plan_reset :: "plan_env \<Rightarrow> (nat \<Rightarrow> bool) \<Rightarrow> planner \<Rightarrow> bool \<times> planner" where
  "plan_reset env mem s =
     (let s = (if pl_blocks s \<noteq> [] then s
               else case buffer_size mem (pe_buffer_blocks env) of
                 (ok, n) \<Rightarrow>
                   s\<lparr>pl_size := n, pl_blocks := (if ok then replicate (n + 1) zero_block else []),
                     pl_linked := False,
                     pl_events := pl_events s @ (if n \<noteq> pe_buffer_blocks env then [SizeReduced] else [])\<rparr>)
      in if pl_blocks s = [] then (False, s)
         else (True, plan_reset_buffer (\<not> pl_linked s)
           (s\<lparr>pl_position := replicate N_AXIS 0, pl_previous_unit_vec := replicate N_AXIS f_zero,
              pl_previous_nominal_speed := f_zero, pl_actual_rpm := f_zero,
              pl_feed_rate := sys_feed_rate s, pl_rapid_rate := sys_rapid_rate s\<rparr>)))"

definition plan_discard_current_block :: "planner \<Rightarrow> planner" where
  "plan_discard_current_block s =
     (if pl_tail s = pl_head s then s
      else
        let s = plan_cleanup (pl_tail s) s;
            next = next_block s (pl_tail s)
        in s\<lparr>pl_planned := (if pl_tail s = pl_planned s then next else pl_planned s), pl_tail := next\<rparr>)"

definition plan_get_system_motion_block :: "planner \<Rightarrow> nat" where
  "plan_get_system_motion_block s = pl_head s"

definition plan_get_current_block :: "planner \<Rightarrow> nat option" where
  "plan_get_current_block s = (if pl_head s = pl_tail s then None else Some (pl_tail s))"

definition plan_get_recent_block :: "planner \<Rightarrow> nat option" where
  "plan_get_recent_block s = (if pl_head s = pl_tail s then None else Some (prev_block s (pl_head s)))"

definition plan_get_exec_block_exit_speed_sqr :: "planner \<Rightarrow> flt" where
  "plan_get_exec_block_exit_speed_sqr s =
     (let block = next_block s (pl_tail s) in if block = pl_head s then f_zero else entry_speed s block)"

definition plan_check_full_buffer :: "planner \<Rightarrow> bool" where
  "plan_check_full_buffer s \<longleftrightarrow> pl_tail s = pl_next_head s"

definition plan_get_block_buffer_available :: "planner \<Rightarrow> nat" where
  "plan_get_block_buffer_available s =
     (if pl_tail s \<le> pl_head s then pl_size s - (pl_head s - pl_tail s) else pl_tail s - pl_head s - 1)"

subsection \<open>Speeds of a block\<close>

definition percent :: "fpu \<Rightarrow> nat \<Rightarrow> flt" where
  "percent fp n = f_mul fp (fp_round fp 0.01) (f_of_int fp (int n))"

definition plan_compute_profile_nominal_speed :: "plan_env \<Rightarrow> planner_block \<Rightarrow> planner \<Rightarrow> flt \<times> planner" where
  "plan_compute_profile_nominal_speed env b s =
     (let fp = pe_fp env; cond = pb_condition b;
          (nominal_speed, s) =
            (if units_per_rev cond \<or> ps_synchronized (pb_spindle b)
             then let rpm = pe_spindle_rpm env (ps_hal (pb_spindle b))
                  in (f_mul fp (pb_programmed_rate b) rpm, s\<lparr>pl_actual_rpm := rpm\<rparr>)
             else (pb_programmed_rate b, s));
          limit = (\<lambda>v. if f_lt (pb_rapid_rate b) v then pb_rapid_rate b else v);
          nominal_speed =
            (if rapid_motion cond then f_mul fp nominal_speed (percent fp (pl_rapid_rate s))
             else limit
               (if pl_feed_rate s \<noteq> 100 \<and> \<not> no_feed_override cond
                then f_mul fp (limit nominal_speed) (percent fp (pl_feed_rate s))
                else nominal_speed))
      in (if f_lt MINIMUM_FEED_RATE nominal_speed then nominal_speed else MINIMUM_FEED_RATE, s))"

definition plan_compute_profile_parameters :: "fpu \<Rightarrow> flt \<Rightarrow> flt \<Rightarrow> planner_block \<Rightarrow> planner_block" where
  "plan_compute_profile_parameters fp nominal_speed prev_nominal_speed b =
     (let m = (if f_lt prev_nominal_speed nominal_speed then f_mul fp prev_nominal_speed prev_nominal_speed
               else f_mul fp nominal_speed nominal_speed)
      in b\<lparr>pb_max_entry_speed_sqr :=
             (if f_lt (pb_max_junction_speed_sqr b) m then pb_max_junction_speed_sqr b else m)\<rparr>)"

text \<open>Loops over the axes run from the last one down.\<close>

definition axes_down :: "nat list" where "axes_down = rev [0..<N_AXIS]"

definition limit_by_axis :: "fpu \<Rightarrow> flt list \<Rightarrow> flt list \<Rightarrow> flt" where
  "limit_by_axis fp limits unit_vec =
     foldl (\<lambda>limit_value idx.
        if f_eq (unit_vec ! idx) f_zero then limit_value
        else fmin limit_value (f_abs (f_div fp (limits ! idx) (unit_vec ! idx))))
      (SOME_LARGE_VALUE fp) axes_down"

definition limit_acceleration_by_axis_maximum :: "plan_env \<Rightarrow> flt list \<Rightarrow> flt" where
  "limit_acceleration_by_axis_maximum env = limit_by_axis (pe_fp env) (pe_acceleration env)"

definition limit_max_rate_by_axis_maximum :: "plan_env \<Rightarrow> flt list \<Rightarrow> flt" where
  "limit_max_rate_by_axis_maximum env = limit_by_axis (pe_fp env) (pe_max_rate env)"

text \<open>From \<open>grbl/nuts_bolts.c\<close>; the length and the vector divided by it.\<close>

definition convert_delta_vector_to_unit_vector :: "fpu \<Rightarrow> flt list \<Rightarrow> flt \<times> flt list" where
  "convert_delta_vector_to_unit_vector fp vec =
     (let sum = foldl (\<lambda>m idx. if f_eq (vec ! idx) f_zero then m else f_add fp m (f_mul fp (vec ! idx) (vec ! idx)))
                  f_zero axes_down;
          magnitude = f_sqrt fp sum;
          inv_magnitude = f_div fp (Fin 1) magnitude
      in (magnitude, map (\<lambda>v. f_mul fp v inv_magnitude) vec))"

subsection \<open>Adding a motion\<close>

text \<open>The steps of one axis: target position, position before, and the block under construction with the
  vector of the motion and the direction bits.\<close>

record motion =
  mo_block :: planner_block
  mo_target_steps :: "int list"
  mo_unit_vec :: "flt list"
  mo_direction :: "bool list"

definition axis_motion :: "plan_env \<Rightarrow> flt list \<Rightarrow> int list \<Rightarrow> motion \<Rightarrow> nat \<Rightarrow> motion" where
  "axis_motion env target position_steps m idx =
     (let fp = pe_fp env; spm = pe_steps_per_mm env ! idx;
          target_steps = f_lround fp (f_mul fp (target ! idx) spm);
          delta_steps = target_steps - position_steps ! idx;
          b = mo_block m;
          m = m\<lparr>mo_target_steps := (mo_target_steps m)[idx := target_steps]\<rparr>
      in if delta_steps \<noteq> 0
         then m\<lparr>mo_block := b\<lparr>pb_steps := (pb_steps b)[idx := nat \<bar>delta_steps\<bar>],
                              pb_step_event_count := max (pb_step_event_count b) (nat \<bar>delta_steps\<bar>)\<rparr>,
                mo_unit_vec := (mo_unit_vec m)[idx := f_div fp (f_of_int fp delta_steps) spm],
                mo_direction := (mo_direction m)[idx := delta_steps < 0]\<rparr>
         else m\<lparr>mo_block := b\<lparr>pb_steps := (pb_steps b)[idx := 0]\<rparr>,
                mo_unit_vec := (mo_unit_vec m)[idx := f_zero]\<rparr>)"

text \<open>The block before its motion is known.\<close>

definition new_block :: "flt list \<Rightarrow> plan_line_data \<Rightarrow> planner_block" where
  "new_block target pl_data =
     zero_block\<lparr>pb_spindle := ld_spindle pl_data, pb_condition := ld_condition pl_data,
       pb_overrides := ld_overrides pl_data, pb_line_number := ld_line_number pl_data,
       pb_offset_id := ld_offset_id pl_data, pb_output_commands := ld_output_commands pl_data,
       pb_message := ld_message pl_data, pb_target_mm := target\<rparr>"

text \<open>The speed of the spindle for a constant surface speed.\<close>

definition css_rpm :: "fpu \<Rightarrow> css_data \<Rightarrow> flt \<Rightarrow> flt" where
  "css_rpm fp c pos =
     (if f_lt f_zero pos
      then let rpm = f_div fp (css_surface_speed c) (f_mul fp pos (fp_round fp (2 * pi)))
           in if f_lt (css_max_rpm c) rpm then css_max_rpm c else rpm
      else css_max_rpm c)"

definition plan_css :: "plan_env \<Rightarrow> flt list \<Rightarrow> int list \<Rightarrow> planner_block \<Rightarrow> planner \<Rightarrow> planner_block \<times> planner" where
  "plan_css env target position_steps b s =
     (case ps_css (pb_spindle b) of
        None \<Rightarrow> (b, s)
      | Some p \<Rightarrow>
          let fp = pe_fp env; c = pl_css s p; axis = css_axis c;
              rpm = css_rpm fp c (f_sub fp (f_div fp (f_of_int fp (position_steps ! axis)) (pe_steps_per_mm env ! axis))
                                    (css_tool_offset c));
              target_rpm = css_rpm fp c (f_sub fp (target ! axis) (css_tool_offset c))
          in (b\<lparr>pb_spindle := (pb_spindle b)\<lparr>ps_rpm := rpm\<rparr>\<rparr>,
              s\<lparr>pl_css := (pl_css s)(p := c\<lparr>css_target_rpm := target_rpm, css_delta_rpm := f_sub fp target_rpm rpm\<rparr>)\<rparr>))"

text \<open>The greatest speed at the junction with the previous motion.\<close>

definition max_junction_speed_sqr :: "plan_env \<Rightarrow> flt list \<Rightarrow> flt list \<Rightarrow> flt" where
  "max_junction_speed_sqr env previous_unit_vec unit_vec =
     (let fp = pe_fp env;
          least = f_mul fp MINIMUM_JUNCTION_SPEED MINIMUM_JUNCTION_SPEED;
          junction_cos_theta =
            foldl (\<lambda>c idx. f_sub fp c (f_mul fp (previous_unit_vec ! idx) (unit_vec ! idx))) f_zero axes_down
      in if f_lt (fp_round fp 0.999999) junction_cos_theta then least
         else if f_lt junction_cos_theta (fp_round fp (- 0.999999)) then SOME_LARGE_VALUE fp
         else
           let junction_unit_vec = map2 (f_sub fp) unit_vec previous_unit_vec;
               (_, v) = convert_delta_vector_to_unit_vector fp junction_unit_vec;
               junction_acceleration = limit_acceleration_by_axis_maximum env v;
               sin_theta_d2 = f_sqrt fp (f_mul fp (fp_round fp 0.5) (f_sub fp (Fin 1) junction_cos_theta))
           in fmax least
                (f_div fp (f_mul fp (f_mul fp junction_acceleration (pe_junction_deviation env)) sin_theta_d2)
                   (f_sub fp (Fin 1) sin_theta_d2)))"

text \<open>Pushing the block at the head and planning again.\<close>

definition plan_push :: "planner \<Rightarrow> planner" where
  "plan_push s = (let s = s\<lparr>pl_head := pl_next_head s\<rparr> in s\<lparr>pl_next_head := next_block s (pl_head s)\<rparr>)"

text \<open>The block with its limits; the vector becomes a unit vector.\<close>

definition limit_block :: "plan_env \<Rightarrow> plan_line_data \<Rightarrow> flt list \<Rightarrow> planner_block \<Rightarrow> planner_block \<times> flt list" where
  "limit_block env pl_data unit_vec b =
     (let fp = pe_fp env;
          (mm, unit_vec) = convert_delta_vector_to_unit_vector fp unit_vec;
          rapid = limit_max_rate_by_axis_maximum env unit_vec;
          rate = (if rapid_motion (pb_condition b) then rapid
                  else if inverse_time (pb_condition b) then f_mul fp (ld_feed_rate pl_data) mm
                  else ld_feed_rate pl_data)
      in (b\<lparr>pb_millimeters := mm, pb_acceleration := limit_acceleration_by_axis_maximum env unit_vec,
            pb_rapid_rate := rapid, pb_programmed_rate := rate\<rparr>, unit_vec))"

definition plan_buffer_line ::
  "plan_env \<Rightarrow> flt list \<Rightarrow> plan_line_data \<Rightarrow> planner \<Rightarrow> (bool \<times> plan_line_data \<times> planner) option" where
  "plan_buffer_line env target pl_data s =
     (let fp = pe_fp env;
          sysm = system_motion (ld_condition pl_data);
          position_steps = (if sysm then pe_sys_position env else pl_position s);
          m = foldl (axis_motion env target position_steps)
                \<lparr>mo_block = new_block target pl_data, mo_target_steps = replicate N_AXIS 0,
                 mo_unit_vec = replicate N_AXIS f_zero, mo_direction = pl_direction s\<rparr> axes_down;
          (b, s) = plan_css env target position_steps ((mo_block m)\<lparr>pb_direction := mo_direction m\<rparr>)
                     (s\<lparr>pl_direction := mo_direction m\<rparr>);
          put = (\<lambda>b s. upd_block (pl_head s) (\<lambda>_. b) s)
      in if pb_step_event_count b = 0 then Some (False, pl_data, put b s)
         else
           let pl_data = pl_data\<lparr>ld_message := None, ld_output_commands := None\<rparr>;
               (b, unit_vec) = limit_block env pl_data (mo_unit_vec m) b;
               b = b\<lparr>pb_max_junction_speed_sqr :=
                 (if pl_head s = pl_tail s \<or> sysm then f_zero
                  else max_junction_speed_sqr env (pl_previous_unit_vec s) unit_vec)\<rparr>
           in if sysm then Some (True, pl_data, put b s)
              else
                let (nominal, s) = plan_compute_profile_nominal_speed env b s;
                    s = put (plan_compute_profile_parameters fp nominal (pl_previous_nominal_speed s) b) s;
                    s = s\<lparr>pl_previous_nominal_speed := nominal\<rparr>;
                    s = (if backlash_motion (ld_condition pl_data) then s
                         else s\<lparr>pl_previous_unit_vec := unit_vec, pl_position := mo_target_steps m\<rparr>)
                in map_option (\<lambda>s. (True, pl_data, s)) (planner_recalculate fp (plan_push s)))"

subsection \<open>Replanning\<close>

definition plan_get_position :: "plan_env \<Rightarrow> planner \<Rightarrow> flt list" where
  "plan_get_position env s =
     map (\<lambda>idx. f_div (pe_fp env) (f_of_int (pe_fp env) (pl_position s ! idx)) (pe_steps_per_mm env ! idx)) [0..<N_AXIS]"

definition plan_sync_position :: "plan_env \<Rightarrow> planner \<Rightarrow> planner" where
  "plan_sync_position env s = s\<lparr>pl_position := pe_sys_position env\<rparr>"

definition plan_cycle_reinitialize :: "fpu \<Rightarrow> planner \<Rightarrow> planner option" where
  "plan_cycle_reinitialize fp s =
     (let s = st_update_plan_block_parameters fp s; s = s\<lparr>pl_planned := pl_tail s\<rparr>
      in if pl_planned s \<noteq> pl_head s then planner_recalculate fp s else Some s)"

text \<open>New limits for the blocks from the tail to the head.\<close>

fun update_profiles :: "nat \<Rightarrow> plan_env \<Rightarrow> nat \<Rightarrow> flt \<Rightarrow> planner \<Rightarrow> flt \<times> planner" where
  "update_profiles 0 env block prev_nominal_speed s = (prev_nominal_speed, s)"
| "update_profiles (Suc n) env block prev_nominal_speed s =
     (if block = pl_head s then (prev_nominal_speed, s)
      else
        let (nominal, s) = plan_compute_profile_nominal_speed env (pl_blocks s ! block) s;
            s = upd_block block (plan_compute_profile_parameters (pe_fp env) nominal prev_nominal_speed) s
        in update_profiles n env (next_block s block) nominal s)"

definition plan_update_velocity_profile_parameters :: "plan_env \<Rightarrow> planner \<Rightarrow> bool \<times> planner" where
  "plan_update_velocity_profile_parameters env s =
     (if pl_tail s \<noteq> pl_head s
      then let (prev_nominal_speed, s) = update_profiles (Suc (pl_size s)) env (pl_tail s) (SOME_LARGE_VALUE (pe_fp env)) s
           in (True, s\<lparr>pl_previous_nominal_speed := prev_nominal_speed\<rparr>)
      else (False, s))"

definition replan :: "plan_env \<Rightarrow> planner \<Rightarrow> planner option" where
  "replan env s =
     (let (changed, s) = plan_update_velocity_profile_parameters env s
      in if changed then plan_cycle_reinitialize (pe_fp env) s else Some s)"

text \<open>The \<open>rpm\<close> comparison is \<open>!=\<close> on floats.\<close>

definition plan_sync_velocity :: "plan_env \<Rightarrow> nat \<Rightarrow> planner \<Rightarrow> planner option" where
  "plan_sync_velocity env block s =
     (let rpm = pe_spindle_rpm env (ps_hal (pb_spindle (pl_blocks s ! block)))
      in if \<not> f_eq (pl_actual_rpm s) rpm then replan env (s\<lparr>pl_actual_rpm := rpm\<rparr>)
         else Some (s\<lparr>pl_events := pl_events s @ [SyncVelocityScheduled block]\<rparr>))"

text \<open>\<open>_plan_feed_override\<close>; the second comparison is made only when the first finds no change.\<close>

definition plan_feed_override_core :: "plan_env \<Rightarrow> nat \<Rightarrow> nat \<Rightarrow> planner \<Rightarrow> planner option" where
  "plan_feed_override_core env feed_rate rapid_rate s =
     (let feed_changed = feed_rate \<noteq> pl_feed_rate s;
          rapid_changed = \<not> feed_changed \<and> rapid_rate \<noteq> pl_rapid_rate s
      in if feed_changed \<or> rapid_changed
         then map_option (\<lambda>s. s\<lparr>pl_events := pl_events s @
                  (if feed_changed then [FeedOverrideChanged] else []) @
                  (if rapid_changed then [RapidOverrideChanged] else [])\<rparr>)
                (replan env (s\<lparr>pl_feed_rate := feed_rate, pl_rapid_rate := rapid_rate\<rparr>))
         else Some s)"

definition constrain :: "nat \<Rightarrow> nat \<Rightarrow> nat \<Rightarrow> nat" where
  "constrain v lo hi = (if v < lo then lo else if hi < v then hi else v)"

definition plan_feed_override :: "plan_env \<Rightarrow> nat \<Rightarrow> nat \<Rightarrow> planner \<Rightarrow> planner option" where
  "plan_feed_override env feed rapid s =
     (let feed = (if feed = 0 then sys_feed_rate s else constrain feed 10 200);
          rapid = (if rapid = 0 then sys_rapid_rate s else constrain rapid 5 100);
          s = (if feed \<noteq> sys_feed_rate s \<or> rapid \<noteq> sys_rapid_rate s
               then s\<lparr>sys_feed_rate := feed, sys_rapid_rate := rapid, pl_events := pl_events s @ [OverridesReported]\<rparr>
               else s)
      in if sys_rates_disable s then plan_feed_override_core env 100 100 s
         else plan_feed_override_core env (sys_feed_rate s) (sys_rapid_rate s) s)"

text \<open>The defaults of a motion: the spindle of the parser, its offset, and whether soft limits need checking.\<close>

definition plan_data_init :: "int \<Rightarrow> nat \<Rightarrow> bool \<Rightarrow> planner \<Rightarrow> plan_line_data" where
  "plan_data_init offset_id hal no_soft_limits s =
     \<lparr>ld_feed_rate = f_zero, ld_spindle = zero_spindle\<lparr>ps_hal := hal\<rparr>,
      ld_condition = no_cond\<lparr>no_feed_override := sys_rates_disable s, target_validated := no_soft_limits,
        target_valid := no_soft_limits\<rparr>,
      ld_overrides = 0, ld_offset_id = offset_id, ld_line_number = 0, ld_message = None, ld_output_commands = None\<rparr>"

end
