(* ===== verification/Planner_Ring.thy ===== *)
theory Planner_Ring
  imports Planner
begin

text \<open>
  The ring of the planner as a list: the blocks from the tail to the head. The passes of
  \<open>planner_recalculate\<close> walk over that list.
\<close>

subsection \<open>Positions in the ring\<close>

definition ring_ok :: "planner \<Rightarrow> bool" where
  "ring_ok s \<longleftrightarrow> length (pl_blocks s) = Suc (pl_size s) \<and> pl_tail s \<le> pl_size s \<and> pl_head s \<le> pl_size s \<and>
     pl_next_head s = next_block s (pl_head s)"

definition slot :: "planner \<Rightarrow> nat \<Rightarrow> nat" where
  "slot s j = (pl_tail s + j) mod Suc (pl_size s)"

definition ring_len :: "planner \<Rightarrow> nat" where
  "ring_len s = ring_count (Suc (pl_size s)) (pl_head s) (pl_tail s)"

definition queue :: "planner \<Rightarrow> planner_block list" where
  "queue s = ring_list (pl_blocks s) (pl_head s) (pl_tail s)"

definition planned_at :: "nat \<Rightarrow> planner \<Rightarrow> bool" where
  "planned_at p s \<longleftrightarrow> pl_planned s = slot s p \<and> (p < ring_len s \<or> p = 0 \<and> ring_len s = 0)"

lemma at_blocks [simp]: "slot (s\<lparr>pl_blocks := bl\<rparr>) = slot s" "slot (s\<lparr>pl_planned := q\<rparr>) = slot s"
  "ring_len (s\<lparr>pl_blocks := bl\<rparr>) = ring_len s" "ring_len (s\<lparr>pl_planned := q\<rparr>) = ring_len s" "queue (s\<lparr>pl_planned := q\<rparr>) = queue s"
  "queue (s\<lparr>pl_planned := q, pl_blocks := bl\<rparr>) = queue (s\<lparr>pl_blocks := bl\<rparr>)"
  "next_block (s\<lparr>pl_blocks := bl\<rparr>) = next_block s" "prev_block (s\<lparr>pl_blocks := bl\<rparr>) = prev_block s"
  "next_block (s\<lparr>pl_planned := q\<rparr>) = next_block s" "prev_block (s\<lparr>pl_planned := q\<rparr>) = prev_block s"
  by (auto simp: slot_def ring_len_def queue_def next_block_def prev_block_def fun_eq_iff)

lemma ring_ok_blocks [simp]:
  "length bl = length (pl_blocks s) \<Longrightarrow> ring_ok (s\<lparr>pl_blocks := bl\<rparr>) \<longleftrightarrow> ring_ok s"
  "ring_ok (s\<lparr>pl_planned := q\<rparr>) \<longleftrightarrow> ring_ok s"
  by (auto simp: ring_ok_def)

lemma next_at: "next_block s (slot s j) = slot s (Suc j)"
  by (simp add: next_block_def slot_def mod_Suc)

lemma prev_at: "prev_block s (slot s (Suc j)) = slot s j"
  by (simp add: prev_block_def slot_def mod_Suc)

lemma queued_le: "ring_len s \<le> pl_size s"
  unfolding ring_len_def using ring_count_less [of "Suc (pl_size s)"] by (simp add: less_Suc_eq_le)

lemma tail_at: "ring_ok s \<Longrightarrow> slot s 0 = pl_tail s"
  by (simp add: slot_def ring_ok_def)

lemma head_at: "ring_ok s \<Longrightarrow> slot s (ring_len s) = pl_head s"
  by (auto simp: slot_def ring_len_def ring_ok_def ring_count_cases simp flip: add_Suc_right)

lemma at_inj:
  assumes "ring_ok s" and "j \<le> pl_size s" and "k \<le> pl_size s"
  shows "slot s j = slot s k \<longleftrightarrow> j = k"
  using assms by (auto simp: slot_def ring_ok_def mod_if split: if_splits)

lemma at_less: "slot s j < Suc (pl_size s)"
  by (simp add: slot_def)

lemma length_queue [simp]: "ring_ok s \<Longrightarrow> length (queue s) = ring_len s"
  by (simp add: queue_def ring_len_def ring_ok_def length_ring_list)

lemma queue_nth: "ring_ok s \<Longrightarrow> j < ring_len s \<Longrightarrow> queue s ! j = pl_blocks s ! slot s j"
  by (simp add: queue_def ring_len_def ring_list_def slot_def ring_ok_def)

lemma queue_update:
  assumes "ring_ok s" and "j < ring_len s"
  shows "queue (s\<lparr>pl_blocks := (pl_blocks s)[slot s j := b]\<rparr>) = (queue s)[j := b]"
proof (rule nth_equalityI)
  show "length (queue (s\<lparr>pl_blocks := (pl_blocks s)[slot s j := b]\<rparr>)) = length ((queue s)[j := b])"
    using assms by simp
next
  fix i assume "i < length (queue (s\<lparr>pl_blocks := (pl_blocks s)[slot s j := b]\<rparr>))"
  then have i: "i < ring_len s" using assms by simp
  then have "slot s i = slot s j \<longleftrightarrow> i = j"
    using assms queued_le [of s] by (intro at_inj) auto
  then show "queue (s\<lparr>pl_blocks := (pl_blocks s)[slot s j := b]\<rparr>) ! i = (queue s)[j := b] ! i"
    using assms i at_less [of s j] by (auto simp: queue_nth nth_list_update ring_ok_def)
qed

lemma upd_block_eq: "upd_block i f s = s\<lparr>pl_blocks := (pl_blocks s)[i := f (pl_blocks s ! i)]\<rparr>"
  by (simp add: upd_block_def)

lemma upd_block_id: "i < length (pl_blocks s) \<Longrightarrow> f (pl_blocks s ! i) = pl_blocks s ! i \<Longrightarrow> upd_block i f s = s"
  by (simp add: upd_block_def)

subsection \<open>The passes over the list\<close>

definition set_speed :: "flt \<Rightarrow> planner_block \<Rightarrow> planner_block" where
  "set_speed v b = b\<lparr>pb_entry_speed_sqr := v\<rparr>"

definition braked :: "fpu \<Rightarrow> planner_block \<Rightarrow> planner_block \<Rightarrow> planner_block" where
  "braked fp next b =
     (if f_eq (pb_entry_speed_sqr b) (pb_max_entry_speed_sqr b) then b
      else let v = f_add fp (pb_entry_speed_sqr next) (speed_gain fp b)
           in set_speed (if f_lt v (pb_max_entry_speed_sqr b) then v else pb_max_entry_speed_sqr b) b)"

fun back_pass :: "fpu \<Rightarrow> nat \<Rightarrow> nat \<Rightarrow> planner_block list \<Rightarrow> planner_block list" where
  "back_pass fp p 0 q = q"
| "back_pass fp p (Suc j) q =
     (if Suc j \<le> p then q else back_pass fp p j (q[Suc j := braked fp (q ! Suc (Suc j)) (q ! Suc j)]))"

definition accelerated :: "fpu \<Rightarrow> planner_block \<Rightarrow> planner_block \<Rightarrow> planner_block" where
  "accelerated fp b next =
     (let v = f_add fp (pb_entry_speed_sqr b) (speed_gain fp b)
      in if f_lt (pb_entry_speed_sqr b) (pb_entry_speed_sqr next) \<and> f_lt v (pb_entry_speed_sqr next)
         then set_speed v next else next)"

definition is_breakpoint :: "fpu \<Rightarrow> planner_block \<Rightarrow> planner_block \<Rightarrow> bool" where
  "is_breakpoint fp b next \<longleftrightarrow>
     (let v = f_add fp (pb_entry_speed_sqr b) (speed_gain fp b);
          low = f_lt (pb_entry_speed_sqr b) (pb_entry_speed_sqr next) \<and> f_lt v (pb_entry_speed_sqr next)
      in low \<or> f_eq (pb_entry_speed_sqr (accelerated fp b next)) (pb_max_entry_speed_sqr next))"

fun forth_pass :: "nat \<Rightarrow> fpu \<Rightarrow> nat \<Rightarrow> nat \<Rightarrow> planner_block list \<Rightarrow> planner_block list \<times> nat" where
  "forth_pass 0 fp p j q = (q, p)"
| "forth_pass (Suc n) fp p j q =
     forth_pass n fp (if is_breakpoint fp (q ! j) (q ! Suc j) then Suc j else p) (Suc j)
       (q[Suc j := accelerated fp (q ! j) (q ! Suc j)])"

lemma reverse_step_queue:
  assumes "ring_ok s" and "Suc j < ring_len s"
  shows "\<exists>bl. reverse_step fp (slot s (Suc j)) (slot s j) s = s\<lparr>pl_blocks := bl\<rparr> \<and> length bl = length (pl_blocks s) \<and>
    queue (s\<lparr>pl_blocks := bl\<rparr>) = (queue s)[j := braked fp (queue s ! Suc j) (queue s ! j)]"
proof (cases "f_eq (entry_speed s (slot s j)) (max_entry s (slot s j))")
  case True
  with assms have "reverse_step fp (slot s (Suc j)) (slot s j) s = s\<lparr>pl_blocks := pl_blocks s\<rparr>"
    "braked fp (queue s ! Suc j) (queue s ! j) = queue s ! j"
    by (simp_all add: reverse_step_def braked_def entry_speed_def max_entry_def queue_nth)
  then show ?thesis using assms by (intro exI [of _ "pl_blocks s"]) simp
next
  case False
  let ?b = "braked fp (queue s ! Suc j) (queue s ! j)"
  have "reverse_step fp (slot s (Suc j)) (slot s j) s = s\<lparr>pl_blocks := (pl_blocks s)[slot s j := ?b]\<rparr>"
    using False assms
    by (simp add: reverse_step_def braked_def entry_speed_def max_entry_def queue_nth set_entry_speed_def upd_block_def gain_def
        set_speed_def Let_def)
  then show ?thesis using queue_update [of s j ?b] assms by (intro exI) auto
qed

lemma update_early:
  assumes "ring_ok s" and "p \<le> k" and "k < ring_len s" and "st_pl_block s = None \<or> 0 < p"
  shows "(if slot s k = pl_tail s then st_update_plan_block_parameters fp s else s) = s"
  using assms at_inj [of s k 0] tail_at [of s] queued_le [of s] by (auto simp: st_update_plan_block_parameters_def)

lemma reverse_pass_queue:
  assumes "ring_ok s" and "planned_at p s" and "p \<le> j" and "Suc j < ring_len s" and "st_pl_block s = None \<or> 0 < p"
    and "j - p < n"
  shows "\<exists>bl. reverse_pass n fp (slot s (Suc j)) (slot s j) s = Some (s\<lparr>pl_blocks := bl\<rparr>) \<and>
    length bl = length (pl_blocks s) \<and> queue (s\<lparr>pl_blocks := bl\<rparr>) = back_pass fp p j (queue s)"
  using assms
proof (induction n arbitrary: j s)
  case (Suc n)
  have le: "ring_len s \<le> pl_size s" by (rule queued_le)
  have pl: "pl_planned s = slot s p" using Suc.prems(2) by (simp add: planned_at_def)
  show ?case
  proof (cases "j = p")
    case True
    have "back_pass fp p j (queue s) = queue s" using True by (cases j) auto
    with True pl show ?thesis by (intro exI [of _ "pl_blocks s"]) simp
  next
    case False
    then obtain k where j: "j = Suc k" "p \<le> k" using Suc.prems(3) by (cases j) auto
    have ne: "slot s j \<noteq> slot s p"
      using False Suc.prems le by (subst at_inj) auto
    have upd: "(if slot s k = pl_tail s then st_update_plan_block_parameters fp s else s) = s"
      using update_early [OF Suc.prems(1) j(2) _ Suc.prems(5)] Suc.prems(4) j by simp
    obtain bl where bl: "reverse_step fp (slot s (Suc j)) (slot s j) s = s\<lparr>pl_blocks := bl\<rparr>"
        "length bl = length (pl_blocks s)"
        "queue (s\<lparr>pl_blocks := bl\<rparr>) = (queue s)[j := braked fp (queue s ! Suc j) (queue s ! j)]"
      using reverse_step_queue [OF Suc.prems(1,4)] by blast
    let ?s = "s\<lparr>pl_blocks := bl\<rparr>"
    have step: "reverse_pass (Suc n) fp (slot s (Suc j)) (slot s j) s = reverse_pass n fp (slot ?s (Suc k)) (slot ?s k) ?s"
      using ne pl bl upd by (simp add: j prev_at Let_def)
    have "planned_at p ?s" using Suc.prems(2) by (simp add: planned_at_def)
    then obtain bl' where "reverse_pass n fp (slot ?s (Suc k)) (slot ?s k) ?s = Some (?s\<lparr>pl_blocks := bl'\<rparr>)"
        "length bl' = length (pl_blocks ?s)" "queue (?s\<lparr>pl_blocks := bl'\<rparr>) = back_pass fp p k (queue ?s)"
      using Suc.IH [of ?s k] Suc.prems j bl(2) by (auto simp: Suc_diff_le)
    with step bl j show ?thesis by (intro exI [of _ bl']) simp
  qed
qed simp

lemma forward_step_queue:
  assumes "ring_ok s" and "Suc j < ring_len s"
  shows "\<exists>bl. forward_step fp (slot s j) (slot s (Suc j)) s =
      s\<lparr>pl_blocks := bl, pl_planned := (if is_breakpoint fp (queue s ! j) (queue s ! Suc j) then slot s (Suc j) else pl_planned s)\<rparr> \<and>
    length bl = length (pl_blocks s) \<and>
    queue (s\<lparr>pl_blocks := bl\<rparr>) = (queue s)[Suc j := accelerated fp (queue s ! j) (queue s ! Suc j)]"
proof -
  let ?b = "accelerated fp (queue s ! j) (queue s ! Suc j)"
  have less: "slot s (Suc j) < length (pl_blocks s)" using assms(1) at_less [of s "Suc j"] by (simp add: ring_ok_def)
  have q: "queue s ! j = pl_blocks s ! slot s j" "queue s ! Suc j = pl_blocks s ! slot s (Suc j)"
    using assms by (simp_all add: queue_nth)
  have same: "(pl_blocks s)[slot s (Suc j) := pl_blocks s ! slot s (Suc j)] = pl_blocks s" by simp
  have "forward_step fp (slot s j) (slot s (Suc j)) s =
      s\<lparr>pl_blocks := (pl_blocks s)[slot s (Suc j) := ?b],
        pl_planned := (if is_breakpoint fp (queue s ! j) (queue s ! Suc j) then slot s (Suc j) else pl_planned s)\<rparr>"
    using less
    by (auto simp: forward_step_def is_breakpoint_def accelerated_def entry_speed_def max_entry_def q set_entry_speed_def
        upd_block_def gain_def set_speed_def Let_def same)
  then show ?thesis using queue_update [OF assms, of ?b] by (intro exI) auto
qed

lemma forward_pass_queue:
  assumes "ring_ok s" and "planned_at p s" and "Suc j + n = ring_len s" and "n < m"
    and "forth_pass n fp p j (queue s) = (q, p')"
  shows "\<exists>bl. forward_pass m fp (slot s j) (slot s (Suc j)) s = Some (s\<lparr>pl_blocks := bl, pl_planned := slot s p'\<rparr>) \<and>
    length bl = length (pl_blocks s) \<and> queue (s\<lparr>pl_blocks := bl\<rparr>) = q"
  using assms
proof (induction n arbitrary: m j s p)
  case 0
  then obtain m' where m: "m = Suc m'" by (cases m) auto
  have "slot s (Suc j) = pl_head s" using 0 head_at [of s] by simp
  with 0 m show ?case by (intro exI [of _ "pl_blocks s"]) (simp add: planned_at_def)
next
  case (Suc n)
  then obtain m' where m: "m = Suc m'" by (cases m) auto
  have ne: "slot s (Suc j) \<noteq> pl_head s"
    using Suc.prems(1,3) queued_le [of s] head_at [of s] at_inj [of s "Suc j" "ring_len s"] by simp
  obtain bl where bl: "forward_step fp (slot s j) (slot s (Suc j)) s =
      s\<lparr>pl_blocks := bl, pl_planned := (if is_breakpoint fp (queue s ! j) (queue s ! Suc j) then slot s (Suc j) else pl_planned s)\<rparr>"
      "length bl = length (pl_blocks s)"
      "queue (s\<lparr>pl_blocks := bl\<rparr>) = (queue s)[Suc j := accelerated fp (queue s ! j) (queue s ! Suc j)]"
    using forward_step_queue [of s j fp] Suc.prems by auto
  let ?p = "if is_breakpoint fp (queue s ! j) (queue s ! Suc j) then Suc j else p"
  let ?s = "s\<lparr>pl_blocks := bl, pl_planned := slot s ?p\<rparr>"
  have s: "forward_step fp (slot s j) (slot s (Suc j)) s = ?s"
    using bl(1) Suc.prems(2) by (simp add: planned_at_def)
  have "ring_ok ?s" "planned_at ?p ?s" "Suc (Suc j) + n = ring_len ?s" "n < m'"
    using Suc.prems bl(2) m by (auto simp: planned_at_def)
  moreover have "forth_pass n fp ?p (Suc j) (queue ?s) = (q, p')"
    using Suc.prems(5) bl(3) by simp
  ultimately obtain bl' where "forward_pass m' fp (slot ?s (Suc j)) (slot ?s (Suc (Suc j))) ?s =
      Some (?s\<lparr>pl_blocks := bl', pl_planned := slot ?s p'\<rparr>)" "length bl' = length (pl_blocks ?s)"
      "queue (?s\<lparr>pl_blocks := bl'\<rparr>) = q"
    using Suc.IH by blast
  with m ne s bl(2) show ?case by (intro exI [of _ bl']) (simp add: next_at)
qed

definition replan_list :: "fpu \<Rightarrow> nat \<Rightarrow> planner_block list \<Rightarrow> planner_block list \<times> nat" where
  "replan_list fp p q =
     (let c = length q - 1;
          q = q[c := set_speed (fmin (pb_max_entry_speed_sqr (q ! c)) (speed_gain fp (q ! c))) (q ! c)]
      in forth_pass (c - p) fp p p (back_pass fp p (c - 1) q))"

lemma set_entry_speed_queue:
  assumes "ring_ok s" and "j < ring_len s"
  shows "set_entry_speed (slot s j) v s = s\<lparr>pl_blocks := (pl_blocks s)[slot s j := set_speed v (queue s ! j)]\<rparr>"
  using assms by (simp add: set_entry_speed_def upd_block_def set_speed_def queue_nth)

lemma recalculate_queue:
  assumes "ring_ok s" and "planned_at p s" and "st_pl_block s = None \<or> 0 < p" and "0 < ring_len s"
    and "(q, p') = (if p = ring_len s - 1 then (queue s, p) else replan_list fp p (queue s))"
  shows "\<exists>bl. planner_recalculate fp s = Some (s\<lparr>pl_blocks := bl, pl_planned := slot s p'\<rparr>) \<and>
    length bl = length (pl_blocks s) \<and> queue (s\<lparr>pl_blocks := bl\<rparr>) = q"
proof -
  obtain c where c: "ring_len s = Suc c" using assms(4) by (cases "ring_len s") auto
  have cur: "prev_block s (pl_head s) = slot s c"
    using head_at [OF assms(1)] c by (metis prev_at)
  have pl: "pl_planned s = slot s p" and p: "p \<le> c" using assms(2) c by (auto simp: planned_at_def)
  have le: "ring_len s \<le> pl_size s" by (rule queued_le)
  have eq: "slot s c = slot s p \<longleftrightarrow> c = p" using p c le assms(1) by (intro at_inj) auto
  show ?thesis
  proof (cases "c = p")
    case True
    with assms(5) c have "q = queue s" "p' = p" by auto
    with True cur pl show ?thesis by (intro exI [of _ "pl_blocks s"]) (simp add: planner_recalculate_def Let_def)
  next
    case False
    then obtain d where d: "c = Suc d" "p \<le> d" using p by (cases c) auto
    let ?v = "fmin (pb_max_entry_speed_sqr (queue s ! c)) (speed_gain fp (queue s ! c))"
    let ?bl = "(pl_blocks s)[slot s c := set_speed ?v (queue s ! c)]"
    let ?s = "s\<lparr>pl_blocks := ?bl\<rparr>"
    have v: "fmin (max_entry s (slot s c)) (gain fp s (slot s c)) = ?v"
      using assms(1) c by (simp add: max_entry_def gain_def queue_nth)
    have s1: "set_entry_speed (slot s c) ?v s = ?s" using assms(1) c by (intro set_entry_speed_queue) auto
    have ok: "ring_ok ?s" "planned_at p ?s" "Suc d < ring_len ?s" "st_pl_block ?s = None \<or> 0 < p" "d - p < Suc (Suc (pl_size s))"
      using assms c d le by (auto simp: planned_at_def)
    obtain bl1 where bl1: "reverse_pass (Suc (Suc (pl_size s))) fp (slot s c) (slot s d) ?s = Some (?s\<lparr>pl_blocks := bl1\<rparr>)"
        "length bl1 = length (pl_blocks ?s)" "queue (?s\<lparr>pl_blocks := bl1\<rparr>) = back_pass fp p d (queue ?s)"
      using reverse_pass_queue [OF ok(1,2) d(2) ok(3-5), of fp] d by auto
    have stop: "reverse_pass (Suc (Suc (pl_size s))) fp (slot s c) (slot s d) ?s = Some ?s" if "slot s d = slot s p"
      using that pl by simp
    have back_q: "queue ?s = (queue s)[c := set_speed ?v (queue s ! c)]"
      using queue_update [OF assms(1), of c] c by simp
    obtain q2 p2 where f: "forth_pass (c - p) fp p p (back_pass fp p d (queue ?s)) = (q2, p2)" by force
    with assms(5) False c d back_q have res: "q = q2" "p' = p2"
      using assms(1) by (auto simp: replan_list_def Let_def)
    let ?s1 = "s\<lparr>pl_blocks := bl1\<rparr>"
    have ok1: "ring_ok ?s1" "planned_at p ?s1" "Suc p + (c - p) = ring_len ?s1" "c - p < Suc (Suc (pl_size s))"
      using assms(1,2) bl1(2) c p le by (auto simp: planned_at_def)
    obtain bl2 where bl2: "forward_pass (Suc (Suc (pl_size s))) fp (slot s p) (slot s (Suc p)) ?s1 =
        Some (?s1\<lparr>pl_blocks := bl2, pl_planned := slot ?s1 p2\<rparr>)" "length bl2 = length (pl_blocks ?s1)"
        "queue (?s1\<lparr>pl_blocks := bl2\<rparr>) = q2"
      using forward_pass_queue [OF ok1, of fp q2 p2] f bl1(3) by auto
    have "(if slot ?s d = pl_tail ?s then st_update_plan_block_parameters fp ?s else ?s) = ?s"
      using update_early [OF ok(1) d(2) _ ok(4)] ok(3) by simp
    moreover have "prev_block ?s (slot s c) = slot s d" using d by (simp add: prev_at)
    moreover have "bl1 = ?bl" if "slot s d = slot s p"
    proof -
      have "?s\<lparr>pl_blocks := bl1\<rparr> = ?s" using stop [OF that] bl1(1) by (metis option.inject)
      then have "pl_blocks (?s\<lparr>pl_blocks := bl1\<rparr>) = pl_blocks ?s" by (simp only:)
      then show ?thesis by simp
    qed
    ultimately have "planner_recalculate fp s =
        forward_pass (Suc (Suc (pl_size s))) fp (slot s p) (slot s (Suc p)) ?s1"
      using eq False bl1(1) unfolding planner_recalculate_def Let_def cur v s1
      by (cases "slot s d = slot s p") (auto simp: pl simp flip: next_at simp del: reverse_pass.simps forward_pass.simps)
    with bl2 bl1(2) res show ?thesis by (intro exI [of _ bl2]) simp
  qed
qed

text \<open>Only speeds change.\<close>

lemma map_update: "g (f x) = g x \<Longrightarrow> x = xs ! i \<Longrightarrow> map g (xs[i := f x]) = map g xs"
  by (cases "i < length xs") (simp_all add: map_update list_update_same_conv list_update_beyond)

lemma speed_only: "set_speed v (braked fp n b) = set_speed v b" "set_speed v (accelerated fp b n) = set_speed v n"
  by (simp_all add: braked_def accelerated_def set_speed_def Let_def)

lemma back_pass_only: "map (set_speed v) (back_pass fp p j q) = map (set_speed v) q"
  by (induction fp p j q rule: back_pass.induct) (simp_all add: map_update speed_only)

lemma forth_pass_only: "map (set_speed v) (fst (forth_pass n fp p j q)) = map (set_speed v) q"
  by (induction n fp p j q rule: forth_pass.induct) (simp_all add: map_update speed_only)

lemma replan_list_only: "map (set_speed v) (fst (replan_list fp p q)) = map (set_speed v) q"
  unfolding replan_list_def Let_def forth_pass_only back_pass_only
  by (rule map_update) (simp_all add: set_speed_def)

end
