(* ===== verification/Lookahead.thy ===== *)
theory Lookahead
  imports Main
begin

text \<open>
  The look-ahead problem of a motion planner, over any linear order of speeds: blocks are passed one
  after the other, \<open>limit b\<close> bounds the speed at the entry of block b, and over b the speed can change from x to
  at most \<open>reach b x\<close>, upwards when accelerating and, seen backwards, when braking. A plan that starts at a
  given speed and comes to rest at the end is followed by at most \<open>top_speeds\<close>, two passes over
  the blocks. The locale \<open>lookahead\<close> states what arithmetic has to promise.
\<close>

subsection \<open>Plans\<close>

text \<open>The greatest speeds from which the machine can brake to x after the last block.\<close>

fun braking :: "('b \<Rightarrow> 'v \<Rightarrow> 'v) \<Rightarrow> ('b \<Rightarrow> 'v) \<Rightarrow> 'v::linorder \<Rightarrow> 'b list \<Rightarrow> 'v list" where
  "braking R L x [] = []"
| "braking R L x (b # bs) = (let rs = braking R L x bs in min (L b) (R b (hd (rs @ [x]))) # rs)"

text \<open>Those of them that can be reached from speed e at the entry of block b.\<close>

fun reached :: "('b \<Rightarrow> 'v \<Rightarrow> 'v) \<Rightarrow> 'v::linorder \<Rightarrow> 'b \<Rightarrow> 'b list \<Rightarrow> 'v list \<Rightarrow> 'v list" where
  "reached R e b (c # cs) (r # rs) = (let f = min r (R b e) in f # reached R f c cs rs)"
| "reached R e b _ _ = []"

definition top_speeds :: "('b \<Rightarrow> 'v \<Rightarrow> 'v) \<Rightarrow> ('b \<Rightarrow> 'v) \<Rightarrow> 'v::linorder \<Rightarrow> 'v \<Rightarrow> 'b \<Rightarrow> 'b list \<Rightarrow> 'v list" where
  "top_speeds R L x e b bs = reached R e b bs (braking R L x bs)"

text \<open>Speeds within the limits from which the machine can brake to the next one, and speeds it can reach.\<close>

fun can_brake :: "('b \<Rightarrow> 'v \<Rightarrow> 'v) \<Rightarrow> ('b \<Rightarrow> 'v) \<Rightarrow> 'v::linorder \<Rightarrow> 'b list \<Rightarrow> 'v list \<Rightarrow> bool" where
  "can_brake R L x [] [] \<longleftrightarrow> True"
| "can_brake R L x (c # cs) (f # fs) \<longleftrightarrow> f \<le> L c \<and> f \<le> R c (hd (fs @ [x])) \<and> can_brake R L x cs fs"
| "can_brake R L x _ _ \<longleftrightarrow> False"

fun can_reach :: "('b \<Rightarrow> 'v \<Rightarrow> 'v) \<Rightarrow> 'v::linorder \<Rightarrow> 'b \<Rightarrow> 'b list \<Rightarrow> 'v list \<Rightarrow> bool" where
  "can_reach R e b [] [] \<longleftrightarrow> True"
| "can_reach R e b (c # cs) (f # fs) \<longleftrightarrow> f \<le> R b e \<and> can_reach R f c cs fs"
| "can_reach R e b _ _ \<longleftrightarrow> False"

definition feasible :: "('b \<Rightarrow> 'v \<Rightarrow> 'v) \<Rightarrow> ('b \<Rightarrow> 'v) \<Rightarrow> 'v::linorder \<Rightarrow> 'v \<Rightarrow> 'b \<Rightarrow> 'b list \<Rightarrow> 'v list \<Rightarrow> bool" where
  "feasible R L x e b bs es \<longleftrightarrow> can_brake R L x bs es \<and> can_reach R e b bs es"

lemma length_braking [simp]: "length (braking R L x bs) = length bs"
  by (induction bs) (simp_all add: Let_def)

lemma length_reached [simp]: "length (reached R e b bs rs) = min (length bs) (length rs)"
  by (induction R e b bs rs rule: reached.induct) (simp_all add: Let_def)

lemma length_top_speeds [simp]: "length (top_speeds R L x e b bs) = length bs"
  by (simp add: top_speeds_def)

lemma top_speeds_Nil [simp]: "top_speeds R L x e b [] = []"
  by (simp add: top_speeds_def)

lemma can_brake_length: "can_brake R L x bs es \<Longrightarrow> length es = length bs"
  by (induction R L x bs es rule: can_brake.induct) auto

lemma can_brake_append:
  "length es = length bs \<Longrightarrow> can_brake R L x (bs @ cs) (es @ fs) \<longleftrightarrow>
     can_brake R L (hd (fs @ [x])) bs es \<and> can_brake R L x cs fs"
  by (induction bs es rule: list_induct2') (auto simp: hd_append)

lemma can_reach_append:
  "length es = length bs \<Longrightarrow> can_reach R e b (bs @ cs) (es @ fs) \<longleftrightarrow>
     can_reach R e b bs es \<and> can_reach R (last (e # es)) (last (b # bs)) cs fs"
  by (induction bs es arbitrary: e b rule: list_induct2') auto

lemma braking_append:
  "braking R L x (bs @ cs) = braking R L (hd (braking R L x cs @ [x])) bs @ braking R L x cs"
  by (induction bs) (auto simp: Let_def hd_append)

lemma reached_append:
  assumes "length rs = length bs"
  shows "reached R e b (bs @ cs) (rs @ ss) =
    reached R e b bs rs @ reached R (last (e # reached R e b bs rs)) (last (b # bs)) cs ss"
  using assms
proof (induction bs arbitrary: e b rs)
  case (Cons c bs)
  then obtain r rs' where "rs = r # rs'" by (cases rs) auto
  with Cons show ?case by (simp add: Let_def)
qed simp

text \<open>A plan split at a block: what follows a block is planned from its entry speed.\<close>

lemma top_speeds_append:
  "top_speeds R L x e b (bs @ cs) =
     (let xs = top_speeds R L (hd (braking R L x cs @ [x])) e b bs
      in xs @ top_speeds R L x (last (e # xs)) (last (b # bs)) cs)"
  by (simp add: top_speeds_def braking_append reached_append Let_def)

locale lookahead =
  fixes R :: "'b \<Rightarrow> 'v::linorder \<Rightarrow> 'v"
    and L :: "'b \<Rightarrow> 'v"
    and zero :: 'v
    and V :: "'v set"
    and ok :: "'b \<Rightarrow> bool"
  assumes zero_V: "zero \<in> V"
    and zero_least: "x \<in> V \<Longrightarrow> zero \<le> x"
    and limit_V: "ok b \<Longrightarrow> L b \<in> V"
    and reach_V: "ok b \<Longrightarrow> x \<in> V \<Longrightarrow> R b x \<in> V"
    and reach_mono: "ok b \<Longrightarrow> x \<in> V \<Longrightarrow> y \<in> V \<Longrightarrow> x \<le> y \<Longrightarrow> R b x \<le> R b y"
    and reach_ge: "ok b \<Longrightarrow> x \<in> V \<Longrightarrow> x \<le> R b x"
begin

lemma min_V: "x \<in> V \<Longrightarrow> y \<in> V \<Longrightarrow> min x y \<in> V"
  by (simp add: min_def)

lemma braking_V: "x \<in> V \<Longrightarrow> \<forall>b \<in> set bs. ok b \<Longrightarrow> set (braking R L x bs) \<subseteq> V"
proof (induction bs)
  case (Cons b bs)
  then have "hd (braking R L x bs @ [x]) \<in> V" by (cases "braking R L x bs") auto
  with Cons show ?case by (simp add: Let_def min_V limit_V reach_V)
qed simp

lemma hd_braking_V: "x \<in> V \<Longrightarrow> \<forall>b \<in> set bs. ok b \<Longrightarrow> hd (braking R L x bs @ [x]) \<in> V"
  using braking_V [of x bs] by (cases "braking R L x bs") auto

lemma reached_V:
  "e \<in> V \<Longrightarrow> ok b \<Longrightarrow> \<forall>b \<in> set bs. ok b \<Longrightarrow> set rs \<subseteq> V \<Longrightarrow> set (reached R e b bs rs) \<subseteq> V"
proof (induction bs arbitrary: e b rs)
  case (Cons c cs)
  then show ?case by (cases rs) (simp_all add: Let_def min_V reach_V)
qed simp

lemma top_speeds_V:
  "x \<in> V \<Longrightarrow> e \<in> V \<Longrightarrow> ok b \<Longrightarrow> \<forall>b \<in> set bs. ok b \<Longrightarrow> set (top_speeds R L x e b bs) \<subseteq> V"
  by (simp add: top_speeds_def reached_V braking_V)

text \<open>No plan is faster.\<close>

lemma below_braking:
  "can_brake R L x bs es \<Longrightarrow> x \<in> V \<Longrightarrow> set es \<subseteq> V \<Longrightarrow> \<forall>b \<in> set bs. ok b \<Longrightarrow>
     list_all2 (\<le>) es (braking R L x bs)"
proof (induction bs arbitrary: es)
  case Nil
  then show ?case by (cases es) auto
next
  case (Cons c cs)
  then obtain f fs where es: "es = f # fs" by (cases es) auto
  with Cons have le: "list_all2 (\<le>) fs (braking R L x cs)" by auto
  then have "hd (fs @ [x]) \<le> hd (braking R L x cs @ [x])" by (cases fs; cases "braking R L x cs") auto
  moreover have "hd (fs @ [x]) \<in> V" using Cons.prems es by (cases fs) auto
  moreover have "hd (braking R L x cs @ [x]) \<in> V" using Cons.prems by (simp add: hd_braking_V)
  ultimately have "R c (hd (fs @ [x])) \<le> R c (hd (braking R L x cs @ [x]))"
    using Cons.prems by (simp add: reach_mono)
  with Cons.prems es le show ?case by (auto simp: Let_def)
qed

lemma below_reached:
  "can_reach R e b bs es \<Longrightarrow> list_all2 (\<le>) es rs \<Longrightarrow> e \<le> e' \<Longrightarrow> e \<in> V \<Longrightarrow> e' \<in> V \<Longrightarrow> set es \<subseteq> V \<Longrightarrow> set rs \<subseteq> V \<Longrightarrow>
     ok b \<Longrightarrow> \<forall>b \<in> set bs. ok b \<Longrightarrow> list_all2 (\<le>) es (reached R e' b bs rs)"
proof (induction bs arbitrary: e e' b es rs)
  case Nil
  then show ?case by (cases es) auto
next
  case (Cons c cs)
  then obtain f fs where es: "es = f # fs" by (cases es) auto
  with Cons.prems(2) obtain r rs' where rs: "rs = r # rs'" by (auto simp: list_all2_Cons1)
  have "R b e \<le> R b e'" using Cons.prems by (simp add: reach_mono)
  then have f: "f \<le> min r (R b e')" using Cons.prems es rs by auto
  have "min r (R b e') \<in> V" using Cons.prems rs by (simp add: min_V reach_V)
  with Cons.IH [of f c fs rs' "min r (R b e')"] Cons.prems es rs f show ?case by (simp add: Let_def)
qed

lemma below_top_speeds:
  assumes "feasible R L x e b bs es" and "e \<le> e'" and "x \<in> V" and "e \<in> V" and "e' \<in> V" and "set es \<subseteq> V"
    and "ok b" and "\<forall>b \<in> set bs. ok b"
  shows "list_all2 (\<le>) es (top_speeds R L x e' b bs)"
proof -
  have "list_all2 (\<le>) es (braking R L x bs)" using assms by (auto simp: feasible_def intro: below_braking)
  with assms below_reached [of e b bs es "braking R L x bs" e'] show ?thesis
    by (simp add: feasible_def top_speeds_def braking_V)
qed

text \<open>The greatest plan is a plan.\<close>

lemma top_can_reach:
  "length rs = length bs \<Longrightarrow> can_reach R e b bs (reached R e b bs rs)"
  by (induction bs arbitrary: e b rs) (auto simp: Let_def length_Suc_conv)

lemma reached_can_brake:
  "x \<in> V \<Longrightarrow> e \<in> V \<Longrightarrow> ok b \<Longrightarrow> \<forall>b \<in> set bs. ok b \<Longrightarrow> can_brake R L x bs (reached R e b bs (braking R L x bs))"
proof (induction bs arbitrary: e b)
  case (Cons c cs)
  let ?rs = "braking R L x cs"
  let ?f = "min (min (L c) (R c (hd (?rs @ [x])))) (R b e)"
  have rV: "hd (?rs @ [x]) \<in> V" and fV: "?f \<in> V"
    using Cons.prems by (simp_all add: hd_braking_V min_V limit_V reach_V)
  have "?f \<le> R c (hd (reached R ?f c cs ?rs @ [x]))"
  proof (cases cs)
    case (Cons d ds)
    then have g: "hd (reached R ?f c cs ?rs @ [x]) = min (hd (?rs @ [x])) (R c ?f)"
      by (simp add: Let_def)
    have "?f \<le> R c ?f" "R c ?f \<le> R c (R c ?f)"
      using Cons.prems fV by (simp_all add: reach_ge reach_V)
    then show ?thesis unfolding g by (cases "hd (?rs @ [x]) \<le> R c ?f") (auto simp: min_def)
  qed (simp add: min.coboundedI1)
  moreover have "can_brake R L x cs (reached R ?f c cs ?rs)"
    using Cons fV by simp
  ultimately show ?case by (simp add: Let_def min.coboundedI1)
qed simp

lemma top_speeds_feasible:
  "x \<in> V \<Longrightarrow> e \<in> V \<Longrightarrow> ok b \<Longrightarrow> \<forall>b \<in> set bs. ok b \<Longrightarrow> feasible R L x e b bs (top_speeds R L x e b bs)"
  by (simp add: feasible_def top_speeds_def top_can_reach reached_can_brake)

text \<open>A higher speed at the end or at the start allows no lower speeds.\<close>

lemma can_brake_mono:
  "can_brake R L x bs es \<Longrightarrow> x \<le> y \<Longrightarrow> x \<in> V \<Longrightarrow> y \<in> V \<Longrightarrow> set es \<subseteq> V \<Longrightarrow> \<forall>b \<in> set bs. ok b \<Longrightarrow> can_brake R L y bs es"
proof (induction bs arbitrary: es)
  case Nil
  then show ?case by (cases es) auto
next
  case (Cons c cs)
  then obtain f fs where es: "es = f # fs" by (cases es) auto
  have "R c (hd (fs @ [x])) \<le> R c (hd (fs @ [y]))"
    using Cons.prems es by (cases fs) (auto intro: reach_mono)
  with Cons es show ?case by auto
qed

lemma top_speeds_mono:
  assumes "x \<le> y" and "x \<in> V" and "y \<in> V" and "e \<in> V" and "ok b" and "\<forall>b \<in> set bs. ok b"
  shows "list_all2 (\<le>) (top_speeds R L x e b bs) (top_speeds R L y e b bs)"
proof -
  have f: "feasible R L x e b bs (top_speeds R L x e b bs)" using assms by (simp add: top_speeds_feasible)
  have V: "set (top_speeds R L x e b bs) \<subseteq> V" using assms by (simp add: top_speeds_V)
  have "feasible R L y e b bs (top_speeds R L x e b bs)"
    using f can_brake_mono [OF _ assms(1-3) V assms(6)] by (simp add: feasible_def)
  then show ?thesis using V assms by (intro below_top_speeds [where e = e]) auto
qed

text \<open>The speeds before a block depend on what follows through the speed at its entry alone.\<close>

lemma top_speeds_cut:
  assumes "top_speeds R L x e b (as @ c # cs) = xs @ f # ys" and "length xs = length as"
    and "x \<in> V" and "e \<in> V" and "ok b" and "\<forall>b \<in> set (as @ c # cs). ok b"
  shows "xs = top_speeds R L f e b as"
proof -
  let ?zs = "top_speeds R L f e b as"
  have all: "feasible R L x e b (as @ c # cs) (xs @ f # ys)" and V: "set (xs @ f # ys) \<subseteq> V"
    using top_speeds_feasible [OF assms(3-6)] top_speeds_V [OF assms(3-6)] unfolding assms(1) by simp_all
  have oka: "\<forall>b \<in> set as. ok b" and f: "f \<in> V" using assms(6) V by auto
  from all have parts: "feasible R L f e b as xs" "f \<le> R (last (b # as)) (last (e # xs))" "f \<le> L c"
      "f \<le> R c (hd (ys @ [x]))" "can_brake R L x cs ys" "can_reach R f c cs ys"
    by (auto simp: feasible_def can_brake_append can_reach_append assms(2))
  have le: "list_all2 (\<le>) xs ?zs"
    using parts(1) V f oka assms by (intro below_top_speeds [where e = e]) auto
  have zs: "feasible R L f e b as ?zs" and zV: "set ?zs \<subseteq> V"
    using f oka assms by (simp_all add: top_speeds_feasible top_speeds_V)
  have "f \<le> R (last (b # as)) (last (e # ?zs))"
  proof -
    have "last (e # xs) \<le> last (e # ?zs)"
      using list_all2_lengthD [OF le] le
      by (cases xs rule: rev_cases; cases ?zs rule: rev_cases) (auto simp: list_all2_append)
    moreover have "last (e # xs) \<in> V" "last (e # ?zs) \<in> V" using V zV assms(4) by (auto simp: last_in_set subset_iff)
    moreover have "ok (last (b # as))" using oka assms(5) by auto
    ultimately show ?thesis using parts(2) reach_mono by (meson order_trans)
  qed
  with zs parts have "feasible R L x e b (as @ c # cs) (?zs @ f # ys)"
    by (auto simp: feasible_def can_brake_append can_reach_append)
  then have "list_all2 (\<le>) (?zs @ f # ys) (xs @ f # ys)"
    unfolding assms(1) [symmetric] using V zV assms by (intro below_top_speeds [where e = e]) auto
  then have "list_all2 (\<le>) ?zs xs" using assms(2) by (simp add: list_all2_append)
  with le show ?thesis by (intro list_all2_antisym) auto
qed

text \<open>An entry is fixed when no motion added later can change it.\<close>

definition fixed :: "'v \<Rightarrow> 'b \<Rightarrow> 'b list \<Rightarrow> nat \<Rightarrow> bool" where
  "fixed e b bs i \<longleftrightarrow>
     (\<forall>x \<in> V. (e # top_speeds R L x e b bs) ! i = (e # top_speeds R L zero e b bs) ! i)"

lemma fixed_0 [simp]: "fixed e b bs 0"
  by (simp add: fixed_def)

lemma fixed_prefix:
  assumes "fixed e b bs i" and "i \<le> length bs" and "x \<in> V" and "e \<in> V" and "ok b" and "\<forall>b \<in> set bs. ok b"
  shows "take i (top_speeds R L x e b bs) = take i (top_speeds R L zero e b bs)"
proof (cases i)
  case (Suc k)
  let ?f = "top_speeds R L zero e b bs ! k"
  have k: "k < length bs" using Suc assms(2) by simp
  then have bs: "bs = take k bs @ bs ! k # drop (Suc k) bs" by (rule id_take_nth_drop)
  have f: "top_speeds R L y e b bs ! k = ?f" if "y \<in> V" for y
    using assms(1) Suc that by (simp add: fixed_def)
  have "take k (top_speeds R L y e b bs) = top_speeds R L ?f e b (take k bs)" if y: "y \<in> V" for y
  proof -
    have "top_speeds R L y e b bs = take k (top_speeds R L y e b bs) @ ?f # drop (Suc k) (top_speeds R L y e b bs)"
      using f [OF y] k by (metis id_take_nth_drop length_top_speeds)
    then show ?thesis
      using k assms y bs by (intro top_speeds_cut [of y e b "take k bs" "bs ! k" "drop (Suc k) bs"]) auto
  qed
  with f [OF assms(3)] k show ?thesis
    using zero_V assms(3) Suc by (simp add: take_Suc_conv_app_nth)
qed simp

lemma braking_nth:
  "i < length bs \<Longrightarrow> braking R L x bs ! i = min (L (bs ! i)) (R (bs ! i) ((braking R L x bs @ [x]) ! Suc i))"
proof (induction bs arbitrary: i)
  case (Cons b bs)
  then show ?case by (cases i) (auto simp: Let_def hd_conv_nth)
qed simp

lemma reached_nth:
  "i < length bs \<Longrightarrow> length rs = length bs \<Longrightarrow>
     reached R e b bs rs ! i = min (rs ! i) (R ((b # bs) ! i) ((e # reached R e b bs rs) ! i))"
proof (induction bs arbitrary: e b rs i)
  case (Cons c bs)
  then obtain r rs' where "rs = r # rs'" by (cases rs) auto
  with Cons show ?case by (cases i) (auto simp: Let_def)
qed simp

lemma top_speeds_nth:
  "i < length bs \<Longrightarrow> top_speeds R L x e b bs ! i =
     min (braking R L x bs ! i) (R ((b # bs) ! i) ((e # top_speeds R L x e b bs) ! i))"
  by (simp add: top_speeds_def reached_nth)

text \<open>What makes an entry fixed: it is at its limit, or full acceleration leads there and is not enough.\<close>

lemma fixed_limit:
  assumes "i < length bs" and "top_speeds R L zero e b bs ! i = L (bs ! i)" and "e \<in> V" and "ok b" and "\<forall>b \<in> set bs. ok b"
  shows "fixed e b bs (Suc i)"
  unfolding fixed_def
proof
  fix x assume x: "x \<in> V"
  have "top_speeds R L zero e b bs ! i \<le> top_speeds R L x e b bs ! i"
    using top_speeds_mono [of zero x e b bs] x zero_V zero_least [OF x] assms
    by (auto simp: list_all2_conv_all_nth)
  moreover have "top_speeds R L x e b bs ! i \<le> L (bs ! i)"
    using assms(1) by (simp add: top_speeds_nth braking_nth min.coboundedI1)
  ultimately show "(e # top_speeds R L x e b bs) ! Suc i = (e # top_speeds R L zero e b bs) ! Suc i"
    using assms(2) by simp
qed

lemma fixed_accelerated:
  assumes "fixed e b bs i" and "i < length bs" and "e \<in> V" and "ok b" and "\<forall>b \<in> set bs. ok b"
    and "top_speeds R L zero e b bs ! i = R ((b # bs) ! i) ((e # top_speeds R L zero e b bs) ! i)"
  shows "fixed e b bs (Suc i)"
  unfolding fixed_def
proof
  fix x assume x: "x \<in> V"
  have "top_speeds R L zero e b bs ! i \<le> top_speeds R L x e b bs ! i"
    using top_speeds_mono [of zero x e b bs] x zero_V zero_least [OF x] assms
    by (auto simp: list_all2_conv_all_nth)
  moreover have "top_speeds R L x e b bs ! i \<le> R ((b # bs) ! i) ((e # top_speeds R L x e b bs) ! i)"
    using assms(2) by (simp add: top_speeds_nth)
  moreover have "(e # top_speeds R L x e b bs) ! i = (e # top_speeds R L zero e b bs) ! i"
    using assms(1) x by (simp add: fixed_def)
  ultimately show "(e # top_speeds R L x e b bs) ! Suc i = (e # top_speeds R L zero e b bs) ! Suc i"
    using assms(6) by simp
qed

lemma accelerating_fixed:
  assumes "i < length bs" and "e \<in> V" and "ok b" and "\<forall>b \<in> set bs. ok b"
    and "R ((b # bs) ! i) ((e # top_speeds R L zero e b bs) ! i) < braking R L zero bs ! i"
  shows "fixed e b bs (Suc i)"
  using assms
proof (induction i)
  case 0
  then show ?case
    by (intro fixed_accelerated) (auto simp: top_speeds_nth)
next
  case (Suc i)
  let ?t = "top_speeds R L zero e b bs" and ?r = "braking R L zero bs"
  have i: "i < length bs" and okc: "ok (bs ! i)" using Suc.prems by (auto simp: nth_mem)
  have V: "?t ! i \<in> V" "?r ! Suc i \<in> V"
    using top_speeds_V [of zero e b bs] braking_V [of zero bs] zero_V Suc.prems i nth_mem [of i ?t] nth_mem [of "Suc i" ?r]
    by auto
  have now: "R (bs ! i) (?t ! i) < ?r ! Suc i" using Suc.prems(5) by simp
  moreover have "?t ! i \<le> R (bs ! i) (?t ! i)" "?r ! Suc i \<le> R (bs ! i) (?r ! Suc i)"
    using okc V by (simp_all add: reach_ge)
  ultimately have slow: "?t ! i < R (bs ! i) (?r ! Suc i)" by order
  have ti: "?t ! i = min (?r ! i) (R ((b # bs) ! i) ((e # ?t) ! i))" by (rule top_speeds_nth [OF i])
  have ri: "?r ! i = min (L (bs ! i)) (R (bs ! i) (?r ! Suc i))"
    using braking_nth [OF i, of zero] Suc.prems(1) by (simp add: nth_append)
  have "fixed e b bs (Suc i)"
  proof (cases "R ((b # bs) ! i) ((e # ?t) ! i) < ?r ! i")
    case True
    show ?thesis by (rule Suc.IH [OF i Suc.prems(2-4) True])
  next
    case False
    with ti have "?t ! i = ?r ! i" by (simp only: min_def not_less if_True)
    with ri slow have "?t ! i = L (bs ! i)" by (auto simp: min_def split: if_splits)
    then show ?thesis by (rule fixed_limit [OF i _ Suc.prems(2-4)])
  qed
  moreover have "?t ! Suc i = R ((b # bs) ! Suc i) ((e # ?t) ! Suc i)"
    using Suc.prems(1,5) by (subst top_speeds_nth) (auto simp: min_def)
  ultimately show ?case by (rule fixed_accelerated [OF _ Suc.prems(1-4)])
qed

text \<open>Planning again from a fixed entry on is planning again from the start.\<close>

lemma fixed_append:
  assumes "fixed e b bs p" and "p \<le> length bs" and "e \<in> V" and "ok b" and "\<forall>b \<in> set (bs @ cs). ok b"
    and "xs = take p (top_speeds R L zero e b bs)"
  shows "top_speeds R L zero e b (bs @ cs) =
    xs @ top_speeds R L zero (last (e # xs)) (last (b # take p bs)) (drop p bs @ cs)"
proof -
  let ?y = "hd (braking R L zero cs @ [zero])"
  have y: "?y \<in> V" using assms(5) zero_V by (intro hd_braking_V) auto
  have "take p (top_speeds R L zero e b (bs @ cs)) = take p (top_speeds R L ?y e b bs)"
    using assms(2) by (simp add: top_speeds_append [of R L zero e b bs cs] Let_def)
  also have "\<dots> = xs"
    using fixed_prefix [OF assms(1,2) y assms(3,4)] assms(5,6) by simp
  finally have t: "take p (top_speeds R L zero e b (bs @ cs)) = xs" .
  have split: "bs @ cs = take p bs @ (drop p bs @ cs)" by simp
  obtain zs where zs: "top_speeds R L zero e b (bs @ cs) =
      zs @ top_speeds R L zero (last (e # zs)) (last (b # take p bs)) (drop p bs @ cs)" and "length zs = p"
    unfolding split top_speeds_append [of R L zero e b "take p bs"] Let_def
    using assms(2) by (metis length_take length_top_speeds min.absorb2)
  then have "zs = xs" using t by (metis append_eq_conv_conj)
  with zs show ?thesis by simp
qed

text \<open>A fixed entry stays fixed when blocks are added, and when the first block has been passed.\<close>

lemma fixed_extend:
  assumes "fixed e b bs i" and "i \<le> length bs" and "e \<in> V" and "ok b" and "\<forall>b \<in> set (bs @ cs). ok b"
  shows "fixed e b (bs @ cs) i"
proof -
  have "take i (top_speeds R L x e b (bs @ cs)) = take i (top_speeds R L zero e b bs)" if x: "x \<in> V" for x
  proof -
    let ?y = "hd (braking R L x cs @ [x])"
    have "?y \<in> V" using assms(5) x by (intro hd_braking_V) auto
    from fixed_prefix [OF assms(1,2) this assms(3,4)] assms(2,5) show ?thesis
      by (simp add: top_speeds_append [of R L x e b bs cs] Let_def)
  qed
  then have "take (Suc i) (e # top_speeds R L x e b (bs @ cs)) = take (Suc i) (e # top_speeds R L zero e b (bs @ cs))"
    if "x \<in> V" for x using that zero_V by simp
  then show ?thesis unfolding fixed_def by (metis lessI nth_take)
qed

lemma top_speeds_Cons:
  "top_speeds R L x e b (c # cs) =
     (let f = min (braking R L x (c # cs) ! 0) (R b e) in f # top_speeds R L x f c cs)"
  by (simp add: top_speeds_def Let_def)

lemma fixed_tl:
  assumes "fixed e b (c # cs) i" and "i \<le> Suc (length cs)" and "e \<in> V" and "ok b" and "\<forall>b \<in> set (c # cs). ok b"
    and "top_speeds R L zero e b (c # cs) = f # fs"
  shows "top_speeds R L zero f c cs = fs" and "fixed f c cs (i - 1)"
proof -
  show "top_speeds R L zero f c cs = fs"
    using assms(6) unfolding top_speeds_Cons Let_def by auto
  show "fixed f c cs (i - 1)"
  proof (cases i)
    case (Suc k)
    have "top_speeds R L x e b (c # cs) = f # top_speeds R L x f c cs" if x: "x \<in> V" for x
    proof -
      have "take i (top_speeds R L x e b (c # cs)) = take i (top_speeds R L zero e b (c # cs))"
        using assms(1-5) x by (intro fixed_prefix) auto
      then have "top_speeds R L x e b (c # cs) ! 0 = f" using assms(6) Suc by (metis nth_Cons_0 nth_take zero_less_Suc)
      moreover obtain g where "top_speeds R L x e b (c # cs) = g # top_speeds R L x g c cs"
        by (rule that [OF top_speeds_Cons [unfolded Let_def]])
      ultimately show ?thesis by simp
    qed
    then have "(e # top_speeds R L x e b (c # cs)) ! Suc k = (f # top_speeds R L x f c cs) ! k" if "x \<in> V" for x
      using that by simp
    then show ?thesis using assms(1) zero_V unfolding fixed_def Suc by (metis diff_Suc_1)
  qed simp
qed

end

end
