(* ===== verification/Float_Order.thy ===== *)
theory Float_Order
  imports Float32 Lookahead
begin

text \<open>
  The linear order of single precision numbers, with not a number above all others, and what a rounding
  of IEEE 754 promises: it is monotone, leaves representable numbers alone and never gives
  not a number.
\<close>

fun flt_key :: "flt \<Rightarrow> nat \<times> real" where
  "flt_key (Fin a) = (1, a)"
| "flt_key (Infty s) = (if s then 0 else 2, 0)"
| "flt_key NaN = (3, 0)"

instantiation flt :: linorder
begin

definition less_eq_flt :: "flt \<Rightarrow> flt \<Rightarrow> bool" where
  "x \<le> y \<longleftrightarrow> fst (flt_key x) < fst (flt_key y) \<or> fst (flt_key x) = fst (flt_key y) \<and> snd (flt_key x) \<le> snd (flt_key y)"

definition less_flt :: "flt \<Rightarrow> flt \<Rightarrow> bool" where
  "x < y \<longleftrightarrow> x \<le> y \<and> \<not> y \<le> (x :: flt)"

instance
proof
  fix x y z :: flt
  show "x < y \<longleftrightarrow> x \<le> y \<and> \<not> y \<le> x" by (rule less_flt_def)
  show "x \<le> x" "x \<le> y \<or> y \<le> x" by (auto simp: less_eq_flt_def)
  show "x \<le> y \<Longrightarrow> y \<le> z \<Longrightarrow> x \<le> z" by (auto simp: less_eq_flt_def)
  show "x \<le> y \<Longrightarrow> y \<le> x \<Longrightarrow> x = y"
    by (cases x; cases y) (auto simp: less_eq_flt_def split: if_splits)
qed

end

lemma flt_order [simp]:
  "Fin a \<le> Fin b \<longleftrightarrow> a \<le> b" "Fin a < Fin b \<longleftrightarrow> a < b" "Fin a \<le> Infty False" "x \<le> NaN"
  "\<not> Infty False \<le> Fin a" "\<not> NaN \<le> Fin a" "\<not> Fin a \<le> Infty True"
  by (auto simp: less_eq_flt_def less_flt_def) (cases x; auto split: if_splits)+

lemma f_lt_order: "f_lt x y \<longleftrightarrow> x < y \<and> y \<noteq> NaN"
  by (cases x; cases y) (auto simp: less_eq_flt_def less_flt_def)

text \<open>Proper quantities: non-negative and representable, or infinite.\<close>

definition proper :: "fpu \<Rightarrow> flt set" where
  "proper fp = {v. v = Infty False \<or> (\<exists>a \<ge> 0. v = Fin a \<and> fp_round fp a = Fin a)}"

definition ieee :: "fpu \<Rightarrow> bool" where
  "ieee fp \<longleftrightarrow> (\<forall>a b. a \<le> b \<longrightarrow> fp_round fp a \<le> fp_round fp b) \<and>
     (\<forall>a c. fp_round fp a = Fin c \<longrightarrow> fp_round fp c = Fin c) \<and>
     (\<forall>a. fp_round fp a \<noteq> NaN) \<and> fp_round fp 0 = Fin 0"

lemma ieee_exact [simp]: "ieee exact_fpu"
  by (simp add: ieee_def exact_fpu_def)

lemma ieee_mono: "ieee fp \<Longrightarrow> a \<le> b \<Longrightarrow> fp_round fp a \<le> fp_round fp b"
  by (simp add: ieee_def)

lemma proper_zero: "ieee fp \<Longrightarrow> f_zero \<in> proper fp"
  by (simp add: ieee_def proper_def)

lemma proper_round: "ieee fp \<Longrightarrow> 0 \<le> a \<Longrightarrow> fp_round fp a \<in> proper fp"
  using ieee_mono [of fp 0 a]
  by (cases "fp_round fp a") (auto simp: ieee_def proper_def split: bool.splits)

lemma proper_ge_zero: "v \<in> proper fp \<Longrightarrow> f_zero \<le> v"
  by (auto simp: proper_def)

lemma proper_not_NaN: "v \<in> proper fp \<Longrightarrow> v \<noteq> NaN"
  by (auto simp: proper_def)

lemma proper_cases:
  assumes "v \<in> proper fp"
  obtains "v = Infty False" | a where "v = Fin a" and "0 \<le> a" and "fp_round fp a = Fin a"
  using assms by (auto simp: proper_def)

lemma proper_add: "ieee fp \<Longrightarrow> x \<in> proper fp \<Longrightarrow> y \<in> proper fp \<Longrightarrow> f_add fp x y \<in> proper fp"
  by (erule proper_cases; erule proper_cases) (auto simp: proper_round, auto simp: proper_def)

lemma proper_add_ge: "ieee fp \<Longrightarrow> x \<in> proper fp \<Longrightarrow> y \<in> proper fp \<Longrightarrow> x \<le> f_add fp x y"
proof (erule proper_cases [of x]; erule proper_cases)
  fix a b assume "ieee fp" "x = Fin a" "0 \<le> a" "fp_round fp a = Fin a" "y = Fin b" "0 \<le> b"
  then show "x \<le> f_add fp x y" using ieee_mono [of fp a "a + b"] by simp
qed auto

lemma proper_le_inf: "v \<in> proper fp \<Longrightarrow> v \<le> Infty False"
  by (auto simp: proper_def)

lemma proper_add_mono:
  assumes "ieee fp" and "x \<in> proper fp" and "y \<in> proper fp" and "z \<in> proper fp" and "x \<le> y"
  shows "f_add fp x z \<le> f_add fp y z"
proof (cases "y = Infty False \<or> z = Infty False")
  case True
  then have "f_add fp y z = Infty False" using assms(3,4) by (auto elim!: proper_cases)
  then show ?thesis using proper_le_inf [OF proper_add] assms by simp
next
  case False
  with assms(3,4) obtain b c where yz: "y = Fin b" "z = Fin c" by (auto elim!: proper_cases)
  with assms(2,5) obtain a where "x = Fin a" by (auto elim!: proper_cases)
  with yz assms(1,5) show ?thesis by (simp add: ieee_mono)
qed

lemma proper_add_zero: "x \<in> proper fp \<Longrightarrow> f_add fp f_zero x = x"
  by (erule proper_cases) auto

end
