(* ===== verification/Planner_Plan.thy ===== *)
theory Planner_Plan
  imports Planner_Ring Float_Order
begin

text \<open>
  What the passes of the planner compute: the greatest plan of the look-ahead problem whose arithmetic
  is single precision.
\<close>

definition reach :: "fpu \<Rightarrow> planner_block \<Rightarrow> flt \<Rightarrow> flt" where
  "reach fp b x = f_add fp x (speed_gain fp b)"

definition block_ok :: "fpu \<Rightarrow> planner_block \<Rightarrow> bool" where
  "block_ok fp b \<longleftrightarrow> speed_gain fp b \<in> proper fp \<and> pb_max_entry_speed_sqr b \<in> proper fp"

abbreviation speeds :: "planner_block list \<Rightarrow> flt list" where
  "speeds q \<equiv> map pb_entry_speed_sqr q"

abbreviation set_speeds :: "flt list \<Rightarrow> planner_block list \<Rightarrow> planner_block list" where
  "set_speeds es q \<equiv> map2 set_speed es q"

locale rounding =
  fixes fp :: fpu
  assumes rounds: "ieee fp"

sublocale rounding \<subseteq> lookahead "reach fp" pb_max_entry_speed_sqr f_zero "proper fp" "block_ok fp"
  using rounds by unfold_locales (auto simp: block_ok_def reach_def proper_zero proper_ge_zero proper_add proper_add_ge
      proper_add_mono)

interpretation exact: rounding exact_fpu
  by unfold_locales simp

lemma set_speed_simps [simp]:
  "pb_entry_speed_sqr (set_speed v b) = v" "pb_max_entry_speed_sqr (set_speed v b) = pb_max_entry_speed_sqr b"
  "speed_gain fp (set_speed v b) = speed_gain fp b" "reach fp (set_speed v b) = reach fp b"
  "block_ok fp (set_speed v b) = block_ok fp b" "set_speed (pb_entry_speed_sqr b) b = b"
  "set_speed v (set_speed w b) = set_speed v b"
  by (simp_all add: set_speed_def speed_gain_def reach_def block_ok_def fun_eq_iff)

lemma speeds_set_speeds [simp]: "length es = length q \<Longrightarrow> speeds (set_speeds es q) = es"
  by (induction es q rule: list_induct2) auto

lemma set_speeds_speeds [simp]: "set_speeds (speeds q) q = q"
  by (induction q) auto

lemma set_speeds_twice [simp]:
  "length es = length q \<Longrightarrow> length fs = length q \<Longrightarrow> set_speeds fs (set_speeds es q) = set_speeds fs q"
  by (induction q arbitrary: es fs) (auto simp: length_Suc_conv)

lemma braking_set_speeds [simp]:
  "length es = length q \<Longrightarrow> braking (reach fp) pb_max_entry_speed_sqr x (set_speeds es q) = braking (reach fp) pb_max_entry_speed_sqr x q"
  by (induction es q rule: list_induct2) auto

lemma reached_set_speed [simp]:
  "reached (reach fp) e (set_speed v b) q rs = reached (reach fp) e b q rs"
  by (cases q; cases rs) (auto simp: Let_def)

lemma reached_set_speeds [simp]:
  "length es = length q \<Longrightarrow> reached (reach fp) e b (set_speeds es q) rs = reached (reach fp) e b q rs"
proof (induction es q arbitrary: e b rs rule: list_induct2)
  case (Cons v es c q)
  then show ?case by (cases rs) (auto simp: Let_def)
qed simp

lemma top_speeds_set_speeds [simp]:
  "length es = length q \<Longrightarrow> top_speeds (reach fp) pb_max_entry_speed_sqr x e (set_speed v b) (set_speeds es q) =
     top_speeds (reach fp) pb_max_entry_speed_sqr x e b q"
  "top_speeds (reach fp) pb_max_entry_speed_sqr x e (set_speed v b) q = top_speeds (reach fp) pb_max_entry_speed_sqr x e b q"
  "length es = length q \<Longrightarrow> top_speeds (reach fp) pb_max_entry_speed_sqr x e b (set_speeds es q) =
     top_speeds (reach fp) pb_max_entry_speed_sqr x e b q"
  by (simp_all add: top_speeds_def)

lemma least_eq: "v \<noteq> NaN \<Longrightarrow> m \<noteq> NaN \<Longrightarrow> (if f_lt v m then v else m) = min m v"
  by (auto simp: f_lt_order min_def)

lemma back_pass_same [simp]: "back_pass fp p p q = q"
  by (cases p) simp_all

context rounding
begin

lemma braked_eq:
  assumes "block_ok fp b" and "pb_entry_speed_sqr n \<in> proper fp"
    and "pb_entry_speed_sqr b = pb_max_entry_speed_sqr b \<Longrightarrow> pb_max_entry_speed_sqr b \<le> reach fp b (pb_entry_speed_sqr n)"
  shows "braked fp n b = set_speed (min (pb_max_entry_speed_sqr b) (reach fp b (pb_entry_speed_sqr n))) b"
proof (cases "f_eq (pb_entry_speed_sqr b) (pb_max_entry_speed_sqr b)")
  case True
  then have e: "pb_entry_speed_sqr b = pb_max_entry_speed_sqr b" by (simp add: f_eq_def)
  then have "min (pb_max_entry_speed_sqr b) (reach fp b (pb_entry_speed_sqr n)) = pb_entry_speed_sqr b"
    using assms(3) by (simp add: min_def)
  with True show ?thesis by (simp add: braked_def)
next
  case False
  have "pb_max_entry_speed_sqr b \<noteq> NaN" "reach fp b (pb_entry_speed_sqr n) \<noteq> NaN"
    using limit_V [OF assms(1)] reach_V [OF assms(1,2)] by (auto dest: proper_not_NaN)
  with False least_eq show ?thesis by (simp add: braked_def Let_def reach_def)
qed

text \<open>The reverse pass gives the braking speeds, when the speeds it starts from allow braking.\<close>

lemma back_pass_braking:
  assumes "length as = p" and "j = p + length xs" and "ys \<noteq> []"
    and "can_brake (reach fp) pb_max_entry_speed_sqr z xs (speeds xs)" and "z \<le> pb_entry_speed_sqr (hd ys)"
    and "z \<in> proper fp" and "pb_entry_speed_sqr (hd ys) \<in> proper fp"
    and "\<forall>b \<in> set xs. block_ok fp b \<and> pb_entry_speed_sqr b \<in> proper fp"
  shows "back_pass fp p j (as @ b # xs @ ys) =
    as @ b # set_speeds (braking (reach fp) pb_max_entry_speed_sqr (pb_entry_speed_sqr (hd ys)) xs) xs @ ys"
  using assms
proof (induction xs arbitrary: j ys z rule: rev_induct)
  case Nil
  then show ?case by simp
next
  case (snoc x xs)
  let ?z = "pb_entry_speed_sqr (hd ys)"
  let ?v = "min (pb_max_entry_speed_sqr x) (reach fp x ?z)"
  have ok: "block_ok fp x" and xV: "pb_entry_speed_sqr x \<in> proper fp" using snoc.prems(8) by auto
  have brake: "can_brake (reach fp) pb_max_entry_speed_sqr (pb_entry_speed_sqr x) xs (speeds xs)"
    "pb_entry_speed_sqr x \<le> pb_max_entry_speed_sqr x" "pb_entry_speed_sqr x \<le> reach fp x z"
    using snoc.prems(4) can_brake_append [of "speeds xs" xs "reach fp" _ z "[x]" "speeds [x]"] by simp_all
  have "reach fp x z \<le> reach fp x ?z" using ok snoc.prems by (intro reach_mono) auto
  with brake have le: "pb_entry_speed_sqr x \<le> ?v" "pb_entry_speed_sqr x \<le> reach fp x ?z" by auto
  obtain y ys' where ys: "ys = y # ys'" using snoc.prems(3) by (cases ys) auto
  have j: "j = Suc (p + length xs)" using snoc.prems by simp
  let ?q = "as @ b # (xs @ [x]) @ ys"
  have at_j: "?q ! j = x" "?q ! Suc j = y" "?q[j := w] = as @ b # xs @ w # ys" for w
    using snoc.prems(1) by (simp_all add: j ys nth_append list_update_append)
  have br: "braked fp y x = set_speed ?v x"
    using braked_eq [OF ok, of y] snoc.prems(7) le ys by auto
  have "back_pass fp p j ?q = back_pass fp p (p + length xs) (?q[j := braked fp (?q ! Suc j) (?q ! j)])"
    by (simp add: j)
  also have "\<dots> = back_pass fp p (p + length xs) (as @ b # xs @ set_speed ?v x # ys)"
    unfolding at_j br ..
  also have "\<dots> = as @ b # set_speeds (braking (reach fp) pb_max_entry_speed_sqr ?v xs) xs @ set_speed ?v x # ys"
    using snoc.IH [of "p + length xs" "set_speed ?v x # ys" "pb_entry_speed_sqr x"] snoc.prems brake(1) le xV ok
    by (simp add: min_V limit_V reach_V)
  finally show ?case by (simp add: braking_append)
qed

lemma accelerated_eq:
  assumes "block_ok fp b" and "pb_entry_speed_sqr b \<in> proper fp" and "pb_entry_speed_sqr n \<in> proper fp"
  defines "v \<equiv> reach fp b (pb_entry_speed_sqr b)"
  shows "accelerated fp b n = set_speed (min (pb_entry_speed_sqr n) v) n"
    and "is_breakpoint fp b n \<longleftrightarrow> v < pb_entry_speed_sqr n \<or> min (pb_entry_speed_sqr n) v = pb_max_entry_speed_sqr n"
proof -
  have v: "v \<in> proper fp" "pb_entry_speed_sqr b \<le> v"
    using assms by (simp_all add: reach_V reach_ge v_def)
  have nn: "pb_entry_speed_sqr n \<noteq> NaN" "v \<noteq> NaN" using assms(3) v by (auto dest: proper_not_NaN)
  have low: "f_lt (pb_entry_speed_sqr b) (pb_entry_speed_sqr n) \<and> f_lt v (pb_entry_speed_sqr n) \<longleftrightarrow> v < pb_entry_speed_sqr n"
    using v nn by (auto simp: f_lt_order)
  show acc: "accelerated fp b n = set_speed (min (pb_entry_speed_sqr n) v) n"
    using low nn by (auto simp: accelerated_def Let_def min_def reach_def v_def)
  have "min (pb_entry_speed_sqr n) v \<noteq> NaN" using nn by (simp add: min_def)
  then show "is_breakpoint fp b n \<longleftrightarrow> v < pb_entry_speed_sqr n \<or> min (pb_entry_speed_sqr n) v = pb_max_entry_speed_sqr n"
    unfolding is_breakpoint_def Let_def acc using low by (simp add: f_eq_def reach_def v_def)
qed

text \<open>The forward pass lowers the speeds to those that can be reached, and moves the planned pointer to the last
  entry where the block before accelerates all the way or that is at its limit.\<close>

lemma forth_pass_reached:
  assumes "length as = j" and "n = length bs" and "forth_pass n fp p j (as @ b # bs) = (q, p')"
    and "e = pb_entry_speed_sqr b" and "e \<in> proper fp" and "block_ok fp b" and "\<forall>b \<in> set bs. block_ok fp b \<and> pb_entry_speed_sqr b \<in> proper fp"
  shows "q = as @ b # set_speeds (reached (reach fp) e b bs (speeds bs)) bs"
    and "p' = p \<or> (\<exists>i < n. p' = j + Suc i \<and>
       (reach fp ((b # bs) ! i) ((e # reached (reach fp) e b bs (speeds bs)) ! i) < speeds bs ! i \<or>
        reached (reach fp) e b bs (speeds bs) ! i = pb_max_entry_speed_sqr (bs ! i)))"
proof -
  have "q = as @ b # set_speeds (reached (reach fp) e b bs (speeds bs)) bs \<and>
    (p' = p \<or> (\<exists>i < n. p' = j + Suc i \<and>
       (reach fp ((b # bs) ! i) ((e # reached (reach fp) e b bs (speeds bs)) ! i) < speeds bs ! i \<or>
        reached (reach fp) e b bs (speeds bs) ! i = pb_max_entry_speed_sqr (bs ! i))))"
    using assms
  proof (induction bs arbitrary: as b j n p e)
    case (Cons c bs)
    let ?f = "min (pb_entry_speed_sqr c) (reach fp b e)" and ?c = "accelerated fp b c"
    let ?p = "if is_breakpoint fp b c then Suc j else p"
    have okb: "block_ok fp b" "e \<in> proper fp" "pb_entry_speed_sqr c \<in> proper fp" "block_ok fp c"
      using Cons.prems by auto
    have c: "?c = set_speed ?f c"
        "is_breakpoint fp b c \<longleftrightarrow> reach fp b e < pb_entry_speed_sqr c \<or> ?f = pb_max_entry_speed_sqr c"
      using accelerated_eq [of b c] okb Cons.prems(4) by auto
    have f: "?f \<in> proper fp" using okb by (simp add: min_V reach_V)
    have "(as @ b # c # bs) ! j = b" "(as @ b # c # bs) ! Suc j = c" "(as @ b # c # bs)[Suc j := w] = (as @ [b]) @ w # bs" for w
      using Cons.prems(1) by (auto simp: nth_append list_update_append)
    then have run: "forth_pass (length bs) fp ?p (Suc j) ((as @ [b]) @ ?c # bs) = (q, p')"
      using Cons.prems(2,3) by simp
    have IH: "q = (as @ [b]) @ ?c # set_speeds (reached (reach fp) ?f ?c bs (speeds bs)) bs \<and>
      (p' = ?p \<or> (\<exists>i < length bs. p' = Suc j + Suc i \<and>
       (reach fp ((?c # bs) ! i) ((?f # reached (reach fp) ?f ?c bs (speeds bs)) ! i) < speeds bs ! i \<or>
        reached (reach fp) ?f ?c bs (speeds bs) ! i = pb_max_entry_speed_sqr (bs ! i))))"
      by (rule Cons.IH [OF _ refl run]) (use Cons.prems okb c(1) f in auto)
    have q: "q = as @ b # set_speeds (reached (reach fp) e b (c # bs) (speeds (c # bs))) (c # bs)"
      using IH c(1) by (simp add: Let_def)
    have re: "reach fp ((?c # bs) ! i) = reach fp ((c # bs) ! i)" for i
      using c(1) by (cases i) auto
    consider "p' = p" | "p' = Suc j" "is_breakpoint fp b c"
      | i where "i < length bs" "p' = j + Suc (Suc i)"
        "reach fp ((c # bs) ! i) ((?f # reached (reach fp) ?f c bs (speeds bs)) ! i) < speeds bs ! i \<or>
         reached (reach fp) ?f c bs (speeds bs) ! i = pb_max_entry_speed_sqr (bs ! i)"
      using IH c(1) unfolding re by (auto split: if_splits)
    then show ?case
    proof cases
      case 1
      with q show ?thesis by simp
    next
      case 2
      then have "reach fp b e < pb_entry_speed_sqr c \<or> ?f = pb_max_entry_speed_sqr c" using c(2) by blast
      with 2(1) q Cons.prems(2) show ?thesis
        by (intro conjI, simp, intro disjI2 [of _ "p' = p"] exI [of _ 0]) (simp add: Let_def)
    next
      case (3 i)
      with q Cons.prems(2) show ?thesis
        by (intro conjI, simp, intro disjI2 [of _ "p' = p"] exI [of _ "Suc i"]) (auto simp: Let_def)
    qed
  qed simp
  then show "q = as @ b # set_speeds (reached (reach fp) e b bs (speeds bs)) bs"
    and "p' = p \<or> (\<exists>i < n. p' = j + Suc i \<and>
       (reach fp ((b # bs) ! i) ((e # reached (reach fp) e b bs (speeds bs)) ! i) < speeds bs ! i \<or>
        reached (reach fp) e b bs (speeds bs) ! i = pb_max_entry_speed_sqr (bs ! i)))"
    by blast+
qed

text \<open>Planning again from the planned block on gives the greatest plan from there.\<close>

abbreviation plan :: "flt \<Rightarrow> planner_block \<Rightarrow> planner_block list \<Rightarrow> flt list" where
  "plan e b bs \<equiv> top_speeds (reach fp) pb_max_entry_speed_sqr f_zero e b bs"

lemma plan_greatest:
  assumes "e \<in> proper fp" and "block_ok fp b" and "\<forall>c \<in> set bs. block_ok fp c"
  shows "feasible (reach fp) pb_max_entry_speed_sqr f_zero e b bs (plan e b bs)"
    and "feasible (reach fp) pb_max_entry_speed_sqr f_zero e b bs fs \<Longrightarrow> set fs \<subseteq> proper fp \<Longrightarrow> list_all2 (\<le>) fs (plan e b bs)"
  using assms zero_V by (auto intro: top_speeds_feasible below_top_speeds)

lemma first_speed:
  assumes "block_ok fp c"
  shows "fmin (pb_max_entry_speed_sqr c) (speed_gain fp c) = min (pb_max_entry_speed_sqr c) (reach fp c f_zero)"
proof -
  have "reach fp c f_zero = speed_gain fp c"
    using assms by (simp add: reach_def block_ok_def proper_add_zero)
  moreover have "pb_max_entry_speed_sqr c \<noteq> NaN" "speed_gain fp c \<noteq> NaN"
    using assms by (auto simp: block_ok_def dest: proper_not_NaN)
  ultimately show ?thesis by (auto simp: fmin_def f_lt_order min_def)
qed

lemma replan_list_plan:
  assumes "q = as @ b # bs" and "bs \<noteq> []" and "p = length as" and "replan_list fp p q = (q', p')"
    and "e = pb_entry_speed_sqr b" and "e \<in> proper fp" and "block_ok fp b"
    and "\<forall>b \<in> set bs. block_ok fp b" and "\<forall>b \<in> set (butlast bs). pb_entry_speed_sqr b \<in> proper fp"
    and "can_brake (reach fp) pb_max_entry_speed_sqr f_zero (butlast bs) (speeds (butlast bs))"
  shows "q' = as @ b # set_speeds (plan e b bs) bs"
    and "p' = p \<or> (\<exists>i < length bs. p' = p + Suc i \<and>
      (reach fp ((b # bs) ! i) ((e # plan e b bs) ! i) < braking (reach fp) pb_max_entry_speed_sqr f_zero bs ! i \<or>
       plan e b bs ! i = pb_max_entry_speed_sqr (bs ! i)))"
proof -
  let ?br = "braking (reach fp) pb_max_entry_speed_sqr f_zero bs"
  obtain xs c where bs: "bs = xs @ [c]" using assms(2) by (cases bs rule: rev_cases) auto
  let ?v = "min (pb_max_entry_speed_sqr c) (reach fp c f_zero)"
  have okc: "block_ok fp c" using assms(8) bs by simp
  have last_at: "length q - 1 = Suc (p + length xs)" "q ! Suc (p + length xs) = c"
    "q[Suc (p + length xs) := w] = as @ b # xs @ [w]" for w
    using assms(1,3) bs by (auto simp: nth_append list_update_append)
  have v: "?v \<in> proper fp" using okc by (simp add: min_V limit_V reach_V zero_V)
  have back_q: "back_pass fp p (p + length xs) (as @ b # xs @ [set_speed ?v c]) = as @ b # set_speeds ?br bs"
    using back_pass_braking [of as p "p + length xs" xs "[set_speed ?v c]" f_zero b] assms(3,8-10) v zero_V zero_least [OF v] bs
    by (auto simp: braking_append)
  have "forth_pass (length bs) fp p p (as @ b # set_speeds ?br bs) = (q', p')"
    using assms(4) back_q bs unfolding replan_list_def Let_def last_at first_speed [OF okc]
    by (simp del: forth_pass.simps)
  note forth = forth_pass_reached [OF assms(3) [symmetric] _ this assms(5-7)]
  have "\<forall>c \<in> set (set_speeds ?br bs). block_ok fp c \<and> pb_entry_speed_sqr c \<in> proper fp"
  proof
    fix d assume "d \<in> set (set_speeds ?br bs)"
    then obtain i where "i < length bs" "d = set_speed (?br ! i) (bs ! i)"
      by (auto simp: in_set_conv_nth)
    then show "block_ok fp d \<and> pb_entry_speed_sqr d \<in> proper fp"
      using assms(8) braking_V [of f_zero bs] zero_V nth_mem [of i bs] nth_mem [of i ?br] by auto
  qed
  note forth = forth [OF _ this]
  have sp: "speeds (set_speeds ?br bs) = ?br" by (rule speeds_set_speeds) simp
  show "q' = as @ b # set_speeds (plan e b bs) bs"
    using forth(1) sp by (simp add: top_speeds_def)
  have re: "reach fp ((b # set_speeds ?br bs) ! i) = reach fp ((b # bs) ! i)" if "i < length bs" for i
    using that by (cases i) auto
  show "p' = p \<or> (\<exists>i < length bs. p' = p + Suc i \<and>
      (reach fp ((b # bs) ! i) ((e # plan e b bs) ! i) < ?br ! i \<or> plan e b bs ! i = pb_max_entry_speed_sqr (bs ! i)))"
    using forth(2) re unfolding sp by (auto simp: top_speeds_def)
qed

end

end
