(* ===== verification/Planner_Stream.thy ===== *)
theory Planner_Stream
  imports Planner_Plan
begin

text \<open>
  The planner while motions are added and executed: the queued blocks always carry the greatest plan that
  ends at rest, although only the blocks behind the planned one are planned again.
\<close>

context rounding
begin

definition planned_ok :: "planner_block \<Rightarrow> planner_block list \<Rightarrow> nat \<Rightarrow> bool" where
  "planned_ok b bs p \<longleftrightarrow> pb_entry_speed_sqr b \<in> proper fp \<and> block_ok fp b \<and> (\<forall>c \<in> set bs. block_ok fp c) \<and>
     pb_entry_speed_sqr b \<le> reach fp b (hd (speeds bs @ [f_zero])) \<and>
     speeds bs = plan (pb_entry_speed_sqr b) b bs \<and> p \<le> length bs \<and> fixed (pb_entry_speed_sqr b) b bs p"

lemma planned_speeds:
  assumes "planned_ok b bs p"
  shows "set (speeds bs) \<subseteq> proper fp" and "can_brake (reach fp) pb_max_entry_speed_sqr f_zero bs (speeds bs)"
    and "can_reach (reach fp) (pb_entry_speed_sqr b) b bs (speeds bs)"
proof -
  have eq: "speeds bs = plan (pb_entry_speed_sqr b) b bs" using assms by (simp add: planned_ok_def)
  show "set (speeds bs) \<subseteq> proper fp"
    unfolding eq using assms zero_V by (intro top_speeds_V) (auto simp: planned_ok_def)
  have "feasible (reach fp) pb_max_entry_speed_sqr f_zero (pb_entry_speed_sqr b) b bs (speeds bs)"
    unfolding eq using assms zero_V by (intro top_speeds_feasible) (auto simp: planned_ok_def)
  then show "can_brake (reach fp) pb_max_entry_speed_sqr f_zero bs (speeds bs)"
    "can_reach (reach fp) (pb_entry_speed_sqr b) b bs (speeds bs)"
    by (simp_all add: feasible_def)
qed

lemma set_speeds_append:
  "length es = length q \<Longrightarrow> set_speeds (es @ fs) (q @ r) = set_speeds es q @ set_speeds fs r"
  by simp

lemma nth_add: "xs = ys @ zs \<Longrightarrow> length ys = p \<Longrightarrow> xs ! (p + i) = zs ! i"
  by auto

lemma set_speeds_ok:
  "length es = length q \<Longrightarrow> (\<forall>d \<in> set (set_speeds es q). block_ok fp d) \<longleftrightarrow> (\<forall>d \<in> set q. block_ok fp d)"
  by (induction es q rule: list_induct2) auto

lemma can_brake_drop:
  "can_brake R L x bs es \<Longrightarrow> can_brake R L x (drop n bs) (drop n es)"
proof (induction n arbitrary: bs es)
  case (Suc n)
  then show ?case by (cases bs; cases es) auto
qed simp

text \<open>More motions make no entry slower, so the first block can still brake.\<close>

lemma planned_add_brake:
  assumes "planned_ok b bs p" and "block_ok fp c"
  shows "pb_entry_speed_sqr b \<le> reach fp b (hd (plan (pb_entry_speed_sqr b) b (bs @ [c]) @ [f_zero]))"
proof -
  let ?e = "pb_entry_speed_sqr b" and ?y = "hd (braking (reach fp) pb_max_entry_speed_sqr f_zero [c] @ [f_zero])"
  let ?t = "plan ?e b (bs @ [c])"
  have e: "?e \<in> proper fp" "block_ok fp b" "\<forall>d \<in> set bs. block_ok fp d" "\<forall>d \<in> set (bs @ [c]). block_ok fp d"
    and sp: "speeds bs = plan ?e b bs"
    using assms by (auto simp: planned_ok_def)
  have y: "?y \<in> proper fp" using assms(2) zero_V by (intro hd_braking_V) auto
  have tV: "set ?t \<subseteq> proper fp" using e zero_V by (intro top_speeds_V) auto
  have "hd (speeds bs @ [f_zero]) \<le> hd (?t @ [f_zero])"
  proof (cases bs)
    case Nil
    have "hd (?t @ [f_zero]) \<in> proper fp" using tV zero_V by (cases ?t) auto
    then show ?thesis using Nil zero_least by simp
  next
    case (Cons d ds)
    have ne: "top_speeds (reach fp) pb_max_entry_speed_sqr x ?e b bs \<noteq> []" for x
      using Cons by (metis length_0_conv length_top_speeds list.distinct(1))
    have "list_all2 (\<le>) (plan ?e b bs) (top_speeds (reach fp) pb_max_entry_speed_sqr ?y ?e b bs)"
      using e y zero_V zero_least [OF y] by (intro top_speeds_mono) auto
    moreover have "hd (?t @ [f_zero]) = hd (top_speeds (reach fp) pb_max_entry_speed_sqr ?y ?e b bs)"
      using ne unfolding top_speeds_append [of _ _ _ _ _ bs "[c]"] Let_def by simp
    ultimately show ?thesis unfolding sp using ne [of f_zero] ne [of ?y] by (auto simp: neq_Nil_conv)
  qed
  moreover have "hd (speeds bs @ [f_zero]) \<in> proper fp"
    using planned_speeds(1) [OF assms(1)] zero_V by (cases bs) auto
  moreover have "hd (?t @ [f_zero]) \<in> proper fp" using tV zero_V by (cases ?t) auto
  ultimately have "reach fp b (hd (speeds bs @ [f_zero])) \<le> reach fp b (hd (?t @ [f_zero]))"
    using e by (intro reach_mono) auto
  then show ?thesis using assms(1) by (auto simp: planned_ok_def)
qed

lemma planned_add:
  assumes "planned_ok b bs p" and "block_ok fp c" and "replan_list fp p (b # bs @ [c]) = (q', p')"
  shows "q' = b # set_speeds (plan (pb_entry_speed_sqr b) b (bs @ [c])) (bs @ [c])"
    and "planned_ok b (set_speeds (plan (pb_entry_speed_sqr b) b (bs @ [c])) (bs @ [c])) p'"
proof -
  let ?e = "pb_entry_speed_sqr b" and ?b = "(b # bs) ! p" and ?as = "take p (b # bs)" and ?bs = "drop p bs @ [c]"
  let ?e' = "pb_entry_speed_sqr ?b" and ?t = "plan (pb_entry_speed_sqr b) b (bs @ [c])"
  have p: "p \<le> length bs" and e: "?e \<in> proper fp" and okb: "block_ok fp b" and ok: "\<forall>d \<in> set (bs @ [c]). block_ok fp d"
    and sp: "speeds bs = plan ?e b bs" and fx: "fixed ?e b bs p"
    using assms(1,2) by (auto simp: planned_ok_def)
  note V = planned_speeds(1) [OF assms(1)] and brake = planned_speeds(2) [OF assms(1)]
  let ?es = "take p (?e # plan ?e b bs)"
  have q: "b # bs @ [c] = ?as @ ?b # ?bs" and as: "p = length ?as" and bas: "b # take p bs = ?as @ [?b]"
    and et: "?e # take p (speeds bs) = take p (speeds (b # bs)) @ [?e']"
    using p id_take_nth_drop [of p "b # bs"] take_Suc_conv_app_nth [of p "b # bs"]
      take_Suc_conv_app_nth [of p "speeds (b # bs)"] nth_map [of p "b # bs" pb_entry_speed_sqr] by (auto simp: take_map)
  have bs': "\<forall>d \<in> set ?bs. block_ok fp d" "?bs \<noteq> []" "\<forall>d \<in> set (butlast ?bs). pb_entry_speed_sqr d \<in> proper fp"
      "can_brake (reach fp) pb_max_entry_speed_sqr f_zero (butlast ?bs) (speeds (butlast ?bs))"
    using ok V can_brake_drop [OF brake, of p] by (auto simp: butlast_append drop_map dest: in_set_dropD)
  have b': "?e' \<in> proper fp" "block_ok fp ?b"
    using e okb ok V p by (auto simp: nth_Cons' image_subset_iff)
  note re = replan_list_plan [OF q bs'(2) as assms(3) refl b' bs'(1,3,4)]
  have "last (?e # take p (speeds bs)) = ?e'" "last (b # take p bs) = ?b"
    unfolding et bas by simp_all
  with fixed_append [OF fx p e okb ok, of "take p (speeds bs)"] sp
  have t: "?t = take p (speeds bs) @ plan ?e' ?b ?bs" by simp
  show q': "q' = b # set_speeds ?t (bs @ [c])"
  proof -
    have "set_speeds ?t (bs @ [c]) = set_speeds (take p (speeds bs) @ plan ?e' ?b ?bs) (take p bs @ ?bs)"
      unfolding t by (simp only: append_assoc [symmetric] append_take_drop_id)
    also have "\<dots> = take p bs @ set_speeds (plan ?e' ?b ?bs) ?bs"
      by (subst set_speeds_append) (simp_all add: take_map)
    finally have "b # set_speeds ?t (bs @ [c]) = (?as @ [?b]) @ set_speeds (plan ?e' ?b ?bs) ?bs"
      unfolding bas [symmetric] by simp
    with re(1) show ?thesis by simp
  qed
  have "fixed ?e b (bs @ [c]) p'"
    using re(2)
  proof (elim disjE exE conjE)
    assume "p' = p"
    then show ?thesis using fixed_extend [OF fx p e okb ok] by simp
  next
    fix i
    let ?br = "braking (reach fp) pb_max_entry_speed_sqr f_zero"
    have split: "bs @ [c] = take p bs @ ?bs" by simp
    have t': "?e # ?t = take p (speeds (b # bs)) @ ?e' # plan ?e' ?b ?bs" using t et by simp
    have br: "?br (bs @ [c]) = braking (reach fp) pb_max_entry_speed_sqr (hd (?br ?bs @ [f_zero])) (take p bs) @ ?br ?bs"
      by (subst split) (rule braking_append)
    have "length (take p (speeds (b # bs))) = p" "length ?as = p" "length (take p bs) = p" "length (take p (speeds bs)) = p"
      using p by (simp_all add: min_def)
    then have at_i: "(b # bs @ [c]) ! (p + i) = (?b # ?bs) ! i" "(bs @ [c]) ! (p + i) = ?bs ! i"
      "(?e # ?t) ! (p + i) = (?e' # plan ?e' ?b ?bs) ! i" "?t ! (p + i) = plan ?e' ?b ?bs ! i"
      "?br (bs @ [c]) ! (p + i) = ?br ?bs ! i"
      by (simp_all only: nth_add [OF q] nth_add [OF split] nth_add [OF t] nth_add [OF t'] nth_add [OF br] length_braking)
    assume i: "i < length ?bs" "p' = p + Suc i"
    then have less: "p + i < length (bs @ [c])" using p by simp
    {
      assume "reach fp ((?b # ?bs) ! i) ((?e' # plan ?e' ?b ?bs) ! i) < braking (reach fp) pb_max_entry_speed_sqr f_zero ?bs ! i"
      then show ?thesis unfolding at_i [symmetric] using accelerating_fixed [OF less e okb ok] i by simp
    next
      assume "plan ?e' ?b ?bs ! i = pb_max_entry_speed_sqr (?bs ! i)"
      then show ?thesis unfolding at_i [symmetric] using fixed_limit [OF less _ e okb ok] i by simp
    }
  qed
  moreover have "p' \<le> length (bs @ [c])" using re(2) p by auto
  moreover have "fixed ?e b (set_speeds ?t (bs @ [c])) p' = fixed ?e b (bs @ [c]) p'" unfolding fixed_def by simp
  moreover have "speeds (set_speeds ?t (bs @ [c])) = ?t" by (rule speeds_set_speeds) simp
  moreover have "?e \<le> reach fp b (hd (?t @ [f_zero]))" by (rule planned_add_brake [OF assms(1,2)])
  moreover have "\<forall>d \<in> set (set_speeds ?t (bs @ [c])). block_ok fp d"
    using ok by (subst set_speeds_ok) simp_all
  ultimately show "planned_ok b (set_speeds ?t (bs @ [c])) p'"
    using e okb unfolding planned_ok_def by simp
qed

lemma planned_discard:
  assumes "planned_ok b (c # bs) p"
  shows "planned_ok c bs (p - 1)"
proof -
  let ?e = "pb_entry_speed_sqr b"
  have eq: "plan ?e b (c # bs) = pb_entry_speed_sqr c # speeds bs" and fx: "fixed ?e b (c # bs) p"
    using assms by (simp_all add: planned_ok_def)
  have "p \<le> Suc (length bs)" "?e \<in> proper fp" "block_ok fp b" "\<forall>d \<in> set (c # bs). block_ok fp d"
    using assms by (auto simp: planned_ok_def)
  with fixed_tl [OF fx this eq] planned_speeds(1,2) [OF assms] show ?thesis
    by (auto simp: planned_ok_def)
qed

text \<open>
  The weaker property that also holds while the first block is executed: from the current speed the machine
  can follow the entry speeds of the blocks and come to rest.
\<close>

definition followed :: "flt \<Rightarrow> planner_block \<Rightarrow> planner_block list \<Rightarrow> bool" where
  "followed e b bs \<longleftrightarrow> e \<in> proper fp \<and> block_ok fp b \<and> (\<forall>c \<in> set bs. block_ok fp c) \<and> set (speeds bs) \<subseteq> proper fp \<and>
     e \<le> reach fp b (hd (speeds bs @ [f_zero])) \<and>
     feasible (reach fp) pb_max_entry_speed_sqr f_zero e b bs (speeds bs)"

lemma followed_set_speed [simp]: "followed e (set_speed v b) bs = followed e b bs"
proof -
  have "can_reach (reach fp) e (set_speed v b) bs es = can_reach (reach fp) e b bs es" for es
    by (cases bs; cases es) auto
  then show ?thesis by (simp add: followed_def feasible_def)
qed

lemma can_brake_set_speeds [simp]:
  "length vs = length q \<Longrightarrow> can_brake (reach fp) pb_max_entry_speed_sqr x (set_speeds vs q) es = can_brake (reach fp) pb_max_entry_speed_sqr x q es"
proof (induction vs q arbitrary: es rule: list_induct2)
  case (Cons v vs c q)
  then show ?case by (cases es) auto
qed simp

lemma can_reach_set_speeds [simp]:
  "length vs = length q \<Longrightarrow> can_reach (reach fp) e b (set_speeds vs q) es = can_reach (reach fp) e b q es"
proof (induction vs q arbitrary: e b es rule: list_induct2)
  case (Cons v vs c q)
  have "can_reach (reach fp) f (set_speed v c) q es = can_reach (reach fp) f c q es" for f es
    by (cases q; cases es) auto
  with Cons show ?case by (cases es) auto
qed simp

lemma extended_plan:
  assumes "followed e b bs" and "block_ok fp c"
  shows "hd (speeds bs @ [f_zero]) \<le> hd (plan e b (bs @ [c]))" and "e \<le> reach fp b (hd (plan e b (bs @ [c]) @ [f_zero]))"
proof -
  let ?es = "speeds bs @ [f_zero]" and ?t = "plan e b (bs @ [c])"
  have f: "feasible (reach fp) pb_max_entry_speed_sqr f_zero e b bs (speeds bs)" and e: "e \<in> proper fp" "block_ok fp b"
      "\<forall>d \<in> set (bs @ [c]). block_ok fp d" "set ?es \<subseteq> proper fp"
    using assms zero_V by (auto simp: followed_def)
  have last_V: "last (e # speeds bs) \<in> proper fp" "block_ok fp (last (b # bs))"
    using e by (auto simp: last_map)
  have "feasible (reach fp) pb_max_entry_speed_sqr f_zero e b (bs @ [c]) ?es"
    using f assms(2) zero_least [OF reach_V [OF last_V(2,1)]] zero_least [OF limit_V] zero_least [OF reach_V] zero_V
    by (simp add: feasible_def can_brake_append can_reach_append)
  then have le: "list_all2 (\<le>) ?es ?t" using e zero_V by (intro below_top_speeds [where e = e]) auto
  then show hd_le: "hd ?es \<le> hd ?t" by (cases "speeds bs"; cases ?t) auto
  have "set ?t \<subseteq> proper fp" using e zero_V by (intro top_speeds_V) auto
  moreover have "?t \<noteq> []" by (metis Nil_is_append_conv length_0_conv length_top_speeds not_Cons_self2)
  moreover have "hd ?es \<in> proper fp" using e(4) by (cases "speeds bs") auto
  ultimately have "reach fp b (hd ?es) \<le> reach fp b (hd (?t @ [f_zero]))"
    using e(1,2) hd_le by (intro reach_mono) (auto simp: subset_iff hd_append)
  then show "e \<le> reach fp b (hd (?t @ [f_zero]))" using assms(1) by (auto simp: followed_def)
qed

lemma followed_drop:
  assumes "followed e b (xs @ ys)"
  shows "followed (last (e # speeds xs)) (last (b # xs)) ys"
proof (cases xs rule: rev_cases)
  case (snoc zs z)
  from assms have "can_brake (reach fp) pb_max_entry_speed_sqr f_zero (zs @ z # ys) (speeds zs @ pb_entry_speed_sqr z # speeds ys)"
    "can_reach (reach fp) e b (xs @ ys) (speeds xs @ speeds ys)"
    using snoc by (simp_all add: followed_def feasible_def)
  then show ?thesis
    using assms snoc by (simp add: followed_def feasible_def can_brake_append can_reach_append)
qed (use assms in simp)

lemma followed_add:
  assumes "followed e b (xs @ ys)" and "block_ok fp c"
  defines "zs \<equiv> set_speeds (plan (last (e # speeds xs)) (last (b # xs)) (ys @ [c])) (ys @ [c])"
  shows "followed e b (xs @ zs)"
proof -
  let ?e = "last (e # speeds xs)" and ?b = "last (b # xs)"
  let ?t = "plan ?e ?b (ys @ [c])"
  have old: "followed ?e ?b ys" using followed_drop [OF assms(1)] .
  have sp: "speeds zs = ?t" unfolding zs_def by (rule speeds_set_speeds) simp
  have ok: "?e \<in> proper fp" "block_ok fp ?b" "\<forall>d \<in> set (ys @ [c]). block_ok fp d"
    using old assms(2) by (auto simp: followed_def)
  have tV: "set ?t \<subseteq> proper fp" using ok zero_V by (intro top_speeds_V) auto
  have "feasible (reach fp) pb_max_entry_speed_sqr f_zero ?e ?b (ys @ [c]) ?t"
    using ok zero_V by (intro top_speeds_feasible) auto
  then have feas: "can_brake (reach fp) pb_max_entry_speed_sqr f_zero zs ?t" "can_reach (reach fp) ?e ?b zs ?t"
    by (simp_all add: feasible_def zs_def)
  have ne: "?t \<noteq> []" by (metis Nil_is_append_conv length_0_conv length_top_speeds not_Cons_self2)
  note ext = extended_plan [OF old assms(2)]
  from assms(1) have xs: "can_brake (reach fp) pb_max_entry_speed_sqr (hd (speeds ys @ [f_zero])) xs (speeds xs)"
    "can_reach (reach fp) e b xs (speeds xs)" "set (speeds xs) \<subseteq> proper fp" "\<forall>d \<in> set xs. block_ok fp d"
    "e \<in> proper fp" "block_ok fp b" "e \<le> reach fp b (hd (speeds xs @ speeds ys @ [f_zero]))"
    by (simp_all add: followed_def feasible_def can_brake_append can_reach_append)
  have "can_brake (reach fp) pb_max_entry_speed_sqr (hd ?t) xs (speeds xs)"
  proof (rule can_brake_mono [OF xs(1)])
    show "hd (speeds ys @ [f_zero]) \<le> hd ?t" by (rule ext(1))
    show "hd (speeds ys @ [f_zero]) \<in> proper fp" using old zero_V by (cases ys) (auto simp: followed_def)
  qed (use xs tV ne in auto)
  moreover have "e \<le> reach fp b (hd (speeds xs @ ?t @ [f_zero]))"
    using ext(2) xs(7) by (cases xs) simp_all
  moreover have "\<forall>d \<in> set zs. block_ok fp d"
    unfolding zs_def using ok by (subst set_speeds_ok) simp_all
  ultimately show ?thesis
    using xs feas tV ne by (simp add: followed_def feasible_def can_brake_append can_reach_append sp ball_Un)
qed

lemma followed_discard:
  assumes "followed e b (c # bs)"
  shows "followed (pb_entry_speed_sqr c) c bs"
  using followed_drop [of e b "[c]" bs] assms by simp

lemma followed_replan:
  assumes "followed e b bs" and "block_ok fp c" and "p \<le> length bs" and "p = 0 \<Longrightarrow> v = e" and "b0 = set_speed v b"
    and "replan_list fp p (b0 # bs @ [c]) = (q', p')"
  shows "\<exists>bs'. q' = b0 # bs' \<and> length bs' = Suc (length bs) \<and> followed e b0 bs' \<and> p' \<le> length bs'"
proof -
  let ?xs = "take p bs" and ?ys = "drop p bs"
  let ?e = "last (e # speeds ?xs)" and ?b = "last (b0 # ?xs)" and ?as = "take p (b0 # bs)"
  have f: "followed e b0 (?xs @ ?ys)" using assms(1,5) by simp
  have split: "b0 # ?xs = ?as @ [?b]"
    using assms(3) by (cases p) (auto simp: take_Suc_conv_app_nth)
  have q: "b0 # bs @ [c] = ?as @ ?b # (?ys @ [c])"
    using split by (metis append_Cons append_assoc append_take_drop_id append.simps(1))
  have e: "pb_entry_speed_sqr ?b = ?e"
  proof (cases "p = 0")
    case False
    then show ?thesis using assms(3) by (cases bs) (auto simp: last_map)
  qed (use assms(4,5) in simp)
  have old: "followed ?e ?b ?ys" using followed_drop [OF f] by simp
  have as: "p = length ?as" using assms(3) by simp
  have ys: "?ys @ [c] \<noteq> []" "\<forall>d \<in> set (?ys @ [c]). block_ok fp d" "\<forall>d \<in> set (butlast (?ys @ [c])). pb_entry_speed_sqr d \<in> proper fp"
    "can_brake (reach fp) pb_max_entry_speed_sqr f_zero (butlast (?ys @ [c])) (speeds (butlast (?ys @ [c])))"
    "?e \<in> proper fp" "block_ok fp ?b"
    using old assms(2) by (auto simp: followed_def feasible_def)
  note re = replan_list_plan [OF q ys(1) as assms(6) e [symmetric] ys(5,6,2,3,4)]
  let ?zs = "set_speeds (plan ?e ?b (?ys @ [c])) (?ys @ [c])"
  have "q' = b0 # ?xs @ ?zs" using re(1) split by (metis append_Cons append_assoc append.simps(1))
  moreover have "followed e b0 (?xs @ ?zs)" by (rule followed_add [OF f assms(2)])
  moreover have "length (?xs @ ?zs) = Suc (length bs)" using assms(3) by simp
  moreover have "p' \<le> Suc (length bs)" using re(2) assms(3) by auto
  ultimately show ?thesis by auto
qed

text \<open>The blocks behind the planned one get the greatest plan from its speed.\<close>

lemma replan_greatest:
  assumes "followed e b bs" and "block_ok fp c" and "p \<le> length bs" and "p = 0 \<Longrightarrow> v = e" and "b0 = set_speed v b"
    and "replan_list fp p (b0 # bs @ [c]) = (q', p')"
  defines "d \<equiv> (b0 # bs) ! p" and "ds \<equiv> drop p bs @ [c]"
  shows "q' = take p (b0 # bs) @ d # set_speeds (plan (pb_entry_speed_sqr d) d ds) ds"
    and "feasible (reach fp) pb_max_entry_speed_sqr f_zero (pb_entry_speed_sqr d) d ds (plan (pb_entry_speed_sqr d) d ds)"
    and "feasible (reach fp) pb_max_entry_speed_sqr f_zero (pb_entry_speed_sqr d) d ds fs \<Longrightarrow> set fs \<subseteq> proper fp \<Longrightarrow>
      list_all2 (\<le>) fs (plan (pb_entry_speed_sqr d) d ds)"
proof -
  have f: "followed e b0 (take p bs @ drop p bs)" using assms(1,5) by simp
  have d: "last (b0 # take p bs) = d" using assms(3) by (cases p) (auto simp: d_def last_conv_nth)
  have sp: "pb_entry_speed_sqr d = last (e # speeds (take p bs))"
  proof (cases "p = 0")
    case False
    then show ?thesis using assms(3) d by (cases bs) (auto simp: last_map)
  qed (use assms(4,5) in \<open>simp add: d_def\<close>)
  have old: "followed (pb_entry_speed_sqr d) d (drop p bs)" using followed_drop [OF f] d sp by simp
  have q: "b0 # bs @ [c] = take p (b0 # bs) @ d # ds"
    using assms(3) id_take_nth_drop [of p "b0 # bs"] by (auto simp: d_def ds_def)
  have ds: "ds \<noteq> []" "\<forall>d \<in> set ds. block_ok fp d" "\<forall>d \<in> set (butlast ds). pb_entry_speed_sqr d \<in> proper fp"
    "can_brake (reach fp) pb_max_entry_speed_sqr f_zero (butlast ds) (speeds (butlast ds))"
    "pb_entry_speed_sqr d \<in> proper fp" "block_ok fp d"
    using old assms(2) by (auto simp: ds_def followed_def feasible_def)
  show "q' = take p (b0 # bs) @ d # set_speeds (plan (pb_entry_speed_sqr d) d ds) ds"
    by (rule replan_list_plan(1) [OF q ds(1) _ assms(6) refl ds(5,6,2,3,4)]) (use assms(3) in simp)
  show "feasible (reach fp) pb_max_entry_speed_sqr f_zero (pb_entry_speed_sqr d) d ds (plan (pb_entry_speed_sqr d) d ds)"
    by (rule plan_greatest(1) [OF ds(5,6,2)])
  show "list_all2 (\<le>) fs (plan (pb_entry_speed_sqr d) d ds)"
    if "feasible (reach fp) pb_max_entry_speed_sqr f_zero (pb_entry_speed_sqr d) d ds fs" "set fs \<subseteq> proper fp"
    by (rule plan_greatest(2) [OF ds(5,6,2) that])
qed

end

end
