(* ===== verification/Planner_State.thy ===== *)
theory Planner_State
  imports Planner_Stream
begin

text \<open>
  The operations of the planner on the ring: what they do to the list of queued blocks.
\<close>

subsection \<open>The ring under the operations\<close>

definition same_ring :: "planner \<Rightarrow> planner \<Rightarrow> bool" where
  "same_ring s t \<longleftrightarrow> pl_size t = pl_size s \<and> pl_blocks t = pl_blocks s \<and> pl_tail t = pl_tail s \<and> pl_head t = pl_head s \<and>
     pl_next_head t = pl_next_head s \<and> pl_planned t = pl_planned s \<and> st_pl_block t = st_pl_block s \<and>
     st_current_speed t = st_current_speed s"

lemma same_ring_refl [simp]: "same_ring s s"
  by (simp add: same_ring_def)

lemma same_ring_trans [trans]: "same_ring s t \<Longrightarrow> same_ring t u \<Longrightarrow> same_ring s u"
  by (simp add: same_ring_def)

lemma same_ring_simps [simp]:
  "same_ring s (t\<lparr>pl_direction := a\<rparr>) = same_ring s t" "same_ring s (t\<lparr>pl_css := b\<rparr>) = same_ring s t"
  "same_ring s (t\<lparr>pl_actual_rpm := c\<rparr>) = same_ring s t" "same_ring s (t\<lparr>pl_previous_nominal_speed := c\<rparr>) = same_ring s t"
  "same_ring s (t\<lparr>pl_previous_unit_vec := d\<rparr>) = same_ring s t" "same_ring s (t\<lparr>pl_position := g\<rparr>) = same_ring s t"
  "same_ring s (t\<lparr>pl_events := h\<rparr>) = same_ring s t"
  by (simp_all add: same_ring_def)

lemma same_ring_upd: "same_ring s t \<Longrightarrow> same_ring (upd_block i f s) (upd_block i f t)"
  by (simp add: same_ring_def upd_block_def)

lemma same_ring_eqs:
  assumes "same_ring s t"
  shows "ring_ok t = ring_ok s" "slot t = slot s" "ring_len t = ring_len s" "queue t = queue s" "planned_at p t = planned_at p s"
    "plan_check_full_buffer t = plan_check_full_buffer s"
  using assms by (auto simp: same_ring_def ring_ok_def next_block_def slot_def ring_len_def queue_def planned_at_def
      plan_check_full_buffer_def fun_eq_iff)

lemma plan_css_ring: "same_ring s (snd (plan_css env target pos b s))"
  by (simp add: plan_css_def Let_def split: option.split)

lemma nominal_ring: "same_ring s (snd (plan_compute_profile_nominal_speed env b s))"
  by (simp add: plan_compute_profile_nominal_speed_def Let_def)

lemma motions_entry:
  "pb_entry_speed_sqr (mo_block (foldl (axis_motion env target pos) m xs)) = pb_entry_speed_sqr (mo_block m)"
  by (induction xs arbitrary: m) (simp_all add: axis_motion_def Let_def)

lemma block_entry:
  "pb_entry_speed_sqr (fst (plan_css env target pos b s)) = pb_entry_speed_sqr b"
  "pb_entry_speed_sqr (fst (limit_block env d uv b)) = pb_entry_speed_sqr b"
  "pb_entry_speed_sqr (plan_compute_profile_parameters fp v w b) = pb_entry_speed_sqr b"
  "pb_entry_speed_sqr (new_block target d) = f_zero"
  by (simp_all add: plan_css_def limit_block_def plan_compute_profile_parameters_def new_block_def zero_block_def Let_def
      split: option.split prod.split)

text \<open>The steps of a block, with their signs, and where they lead.\<close>

definition block_steps :: "planner_block \<Rightarrow> nat \<Rightarrow> int" where
  "block_steps b i = (if pb_direction b ! i then - int (pb_steps b ! i) else int (pb_steps b ! i))"

text \<open>The signed steps of all queued blocks along an axis.\<close>

definition queue_steps :: "planner_block list \<Rightarrow> nat \<Rightarrow> int" where
  "queue_steps q i = (\<Sum>b \<leftarrow> q. block_steps b i)"

definition target_steps :: "plan_env \<Rightarrow> flt list \<Rightarrow> nat \<Rightarrow> int" where
  "target_steps env target i = f_lround (pe_fp env) (f_mul (pe_fp env) (target ! i) (pe_steps_per_mm env ! i))"

lemma axis_motion_steps:
  fixes env target pos
  assumes "distinct xs" and "i \<in> set xs" and "i < length (mo_target_steps m)" and "i < length (pb_steps (mo_block m))"
    and "i < length (mo_direction m)"
  defines "n \<equiv> foldl (axis_motion env target pos) m xs"
  shows "mo_target_steps n ! i = target_steps env target i"
    and "pb_steps (mo_block n) ! i = nat \<bar>target_steps env target i - pos ! i\<bar>"
    and "target_steps env target i \<noteq> pos ! i \<Longrightarrow> mo_direction n ! i \<longleftrightarrow> target_steps env target i < pos ! i"
proof -
  have keep: "mo_target_steps (foldl (axis_motion env target pos) m xs) ! i = mo_target_steps m ! i \<and>
      pb_steps (mo_block (foldl (axis_motion env target pos) m xs)) ! i = pb_steps (mo_block m) ! i \<and>
      mo_direction (foldl (axis_motion env target pos) m xs) ! i = mo_direction m ! i" if "i \<notin> set xs" for m xs
    using that by (induction xs arbitrary: m) (simp_all add: axis_motion_def Let_def)
  have "mo_target_steps n ! i = target_steps env target i \<and>
      pb_steps (mo_block n) ! i = nat \<bar>target_steps env target i - pos ! i\<bar> \<and>
      (target_steps env target i \<noteq> pos ! i \<longrightarrow> mo_direction n ! i = (target_steps env target i < pos ! i))"
    unfolding n_def using assms(1-5)
  proof (induction xs arbitrary: m)
    case (Cons a xs)
    show ?case
    proof (cases "i = a")
      case True
      let ?m = "axis_motion env target pos m a"
      have "mo_target_steps ?m ! i = target_steps env target i" "pb_steps (mo_block ?m) ! i = nat \<bar>target_steps env target i - pos ! i\<bar>"
        "target_steps env target i \<noteq> pos ! i \<longrightarrow> mo_direction ?m ! i = (target_steps env target i < pos ! i)"
        using True Cons.prems by (simp_all add: axis_motion_def target_steps_def Let_def)
      moreover have "i \<notin> set xs" using True Cons.prems by simp
      ultimately show ?thesis using keep [of xs ?m] by simp
    next
      case False
      then show ?thesis using Cons.prems by (simp, intro Cons.IH) (simp_all add: axis_motion_def Let_def)
    qed
  qed simp
  then show "mo_target_steps n ! i = target_steps env target i"
    and "pb_steps (mo_block n) ! i = nat \<bar>target_steps env target i - pos ! i\<bar>"
    and "target_steps env target i \<noteq> pos ! i \<Longrightarrow> mo_direction n ! i \<longleftrightarrow> target_steps env target i < pos ! i" by simp_all
qed

lemma line_steps:
  fixes env target pos d
  assumes "length (pl_direction s) = N_AXIS" and "i < N_AXIS"
  defines "m \<equiv> foldl (axis_motion env target pos)
      \<lparr>mo_block = new_block target d, mo_target_steps = replicate N_AXIS 0, mo_unit_vec = replicate N_AXIS f_zero,
       mo_direction = pl_direction s\<rparr> axes_down"
  shows "mo_target_steps m ! i = target_steps env target i"
    and "block_steps ((mo_block m)\<lparr>pb_direction := mo_direction m\<rparr>) i = target_steps env target i - pos ! i"
proof -
  have "distinct axes_down" "i \<in> set axes_down" using assms(2) by (auto simp: axes_down_def)
  note steps = axis_motion_steps [OF this, where env = env and target = target and pos = pos and
      m = "\<lparr>mo_block = new_block target d, mo_target_steps = replicate N_AXIS 0, mo_unit_vec = replicate N_AXIS f_zero,
       mo_direction = pl_direction s\<rparr>", folded m_def]
  have "i < length (pb_steps (new_block target d))" using assms(2) by (simp add: new_block_def zero_block_def)
  with steps assms(1,2) show "mo_target_steps m ! i = target_steps env target i"
    and "block_steps ((mo_block m)\<lparr>pb_direction := mo_direction m\<rparr>) i = target_steps env target i - pos ! i"
    by (simp_all, cases "target_steps env target i = pos ! i") (auto simp: block_steps_def)
qed

lemma block_steps_kept:
  "block_steps (fst (plan_css env target pos b s)) = block_steps b"
  "block_steps (fst (limit_block env d uv b)) = block_steps b"
  "block_steps (plan_compute_profile_parameters fp v w b) = block_steps b"
  "block_steps (b\<lparr>pb_max_junction_speed_sqr := v\<rparr>) = block_steps b"
  by (simp_all add: plan_css_def limit_block_def plan_compute_profile_parameters_def block_steps_def fun_eq_iff Let_def
      split: option.split prod.split)

lemma position_kept:
  "pl_position (snd (plan_css env target pos b s)) = pl_position s"
  "pl_position (snd (plan_compute_profile_nominal_speed env b s)) = pl_position s"
  "pl_position (upd_block i f s) = pl_position s"
  by (simp_all add: plan_css_def plan_compute_profile_nominal_speed_def upd_block_def Let_def split: option.split)

text \<open>The step counts of a block that is queued.\<close>

definition counts_ok :: "planner_block \<Rightarrow> bool" where
  "counts_ok b \<longleftrightarrow> length (pb_steps b) = N_AXIS \<and> length (pb_direction b) = N_AXIS \<and>
     (\<forall>i < N_AXIS. pb_steps b ! i \<le> pb_step_event_count b)"

lemma axis_motion_counts:
  assumes "counts_ok (mo_block m)" and "length (mo_direction m) = N_AXIS"
  shows "counts_ok (mo_block (foldl (axis_motion env target pos) m xs))"
    and "length (mo_direction (foldl (axis_motion env target pos) m xs)) = N_AXIS"
proof -
  have "counts_ok (mo_block (foldl (axis_motion env target pos) m xs)) \<and>
    length (mo_direction (foldl (axis_motion env target pos) m xs)) = N_AXIS"
    using assms
  proof (induction xs arbitrary: m)
    case (Cons a xs)
    have upd: "(ns[a := v]) ! i \<le> k" if "i < length ns" "ns ! i \<le> k" "v \<le> k" for ns v i and k :: nat
      using that by (cases "a = i") auto
    have "counts_ok (mo_block (axis_motion env target pos m a))" "length (mo_direction (axis_motion env target pos m a)) = N_AXIS"
      using Cons.prems by (auto simp: counts_ok_def axis_motion_def Let_def intro!: upd)
    then show ?case using Cons.IH by simp
  qed simp
  then show "counts_ok (mo_block (foldl (axis_motion env target pos) m xs))"
    and "length (mo_direction (foldl (axis_motion env target pos) m xs)) = N_AXIS" by simp_all
qed

lemma line_counts:
  fixes env target pos d
  assumes "length (pl_direction s) = N_AXIS"
  defines "m \<equiv> foldl (axis_motion env target pos)
      \<lparr>mo_block = new_block target d, mo_target_steps = replicate N_AXIS 0, mo_unit_vec = replicate N_AXIS f_zero,
       mo_direction = pl_direction s\<rparr> axes_down"
  shows "counts_ok ((mo_block m)\<lparr>pb_direction := mo_direction m\<rparr>)"
proof -
  have "counts_ok (new_block target d)" by (simp add: counts_ok_def new_block_def zero_block_def)
  then show ?thesis
    using axis_motion_counts [of "\<lparr>mo_block = new_block target d, mo_target_steps = replicate N_AXIS 0,
        mo_unit_vec = replicate N_AXIS f_zero, mo_direction = pl_direction s\<rparr>" env target pos axes_down] assms
    by (simp add: counts_ok_def)
qed

lemma counts_kept:
  "counts_ok (fst (plan_css env target pos b s)) = counts_ok b"
  "counts_ok (fst (limit_block env d uv b)) = counts_ok b"
  "counts_ok (plan_compute_profile_parameters fp v w b) = counts_ok b"
  "counts_ok (b\<lparr>pb_max_junction_speed_sqr := u\<rparr>) = counts_ok b"
  "pb_step_event_count (fst (plan_css env target pos b s)) = pb_step_event_count b"
  "pb_step_event_count (fst (limit_block env d uv b)) = pb_step_event_count b"
  "pb_step_event_count (plan_compute_profile_parameters fp v w b) = pb_step_event_count b"
  by (simp_all add: plan_css_def limit_block_def plan_compute_profile_parameters_def counts_ok_def Let_def
      split: option.split prod.split)

definition moved :: "plan_env \<Rightarrow> flt list \<Rightarrow> plan_line_data \<Rightarrow> planner \<Rightarrow> planner_block \<Rightarrow> planner \<Rightarrow> bool" where
  "moved env target d s b t \<longleftrightarrow> (length (pl_direction s) = N_AXIS \<longrightarrow> counts_ok b \<and> 0 < pb_step_event_count b \<and>
     (\<forall>i < N_AXIS. pl_position s ! i + block_steps b i = target_steps env target i \<and>
       (\<not> backlash_motion (ld_condition d) \<longrightarrow> pl_position t ! i = target_steps env target i)))"

text \<open>Adding a line writes the block at the head; then it is dropped, left for a system motion, or pushed.\<close>

lemma plan_buffer_line_cases:
  "\<exists>b t d'. same_ring (upd_block (pl_head s) (\<lambda>_. b) s) t \<and> pb_entry_speed_sqr b = f_zero \<and>
     (plan_buffer_line env target d s = Some (False, d, t) \<and> pl_position t = pl_position s \<or>
      system_motion (ld_condition d) \<and> plan_buffer_line env target d s = Some (True, d', t) \<and> pl_position t = pl_position s \<or>
      \<not> system_motion (ld_condition d) \<and> plan_buffer_line env target d s =
        map_option (\<lambda>u. (True, d', u)) (planner_recalculate (pe_fp env) (plan_push t)) \<and> moved env target d s b t)"
proof -
  let ?sysm = "system_motion (ld_condition d)"
  let ?pos = "if ?sysm then pe_sys_position env else pl_position s"
  let ?m = "foldl (axis_motion env target ?pos)
    \<lparr>mo_block = new_block target d, mo_target_steps = replicate N_AXIS 0,
     mo_unit_vec = replicate N_AXIS f_zero, mo_direction = pl_direction s\<rparr> axes_down"
  obtain b s1 where css: "plan_css env target ?pos ((mo_block ?m)\<lparr>pb_direction := mo_direction ?m\<rparr>)
      (s\<lparr>pl_direction := mo_direction ?m\<rparr>) = (b, s1)" by force
  have s1: "same_ring s s1"
  proof -
    have "same_ring s (s\<lparr>pl_direction := mo_direction ?m\<rparr>)" by (simp only: same_ring_simps same_ring_refl)
    also have "same_ring \<dots> s1"
      using plan_css_ring [of "s\<lparr>pl_direction := mo_direction ?m\<rparr>" env target ?pos "(mo_block ?m)\<lparr>pb_direction := mo_direction ?m\<rparr>"]
      unfolding css snd_conv .
    finally show ?thesis .
  qed
  then have head: "pl_head s1 = pl_head s" by (simp add: same_ring_def)
  let ?d = "d\<lparr>ld_message := None, ld_output_commands := None\<rparr>"
  have pos1: "pl_position s1 = pl_position s"
    using position_kept(1) [of env target ?pos "(mo_block ?m)\<lparr>pb_direction := mo_direction ?m\<rparr>" "s\<lparr>pl_direction := mo_direction ?m\<rparr>"]
    unfolding css by simp
  obtain b1 uv where lim: "limit_block env ?d (mo_unit_vec ?m) b = (b1, uv)" by force
  let ?b = "b1\<lparr>pb_max_junction_speed_sqr := if pl_head s1 = pl_tail s1 \<or> ?sysm then f_zero
    else max_junction_speed_sqr env (pl_previous_unit_vec s1) uv\<rparr>"
  obtain nominal s2 where nom: "plan_compute_profile_nominal_speed env ?b s1 = (nominal, s2)" by force
  have s2: "same_ring s s2"
    using nominal_ring [of s1 env ?b] nom s1 by (auto intro: same_ring_trans)
  then have head2: "pl_head s2 = pl_head s" by (simp add: same_ring_def)
  have e: "pb_entry_speed_sqr b = f_zero" "pb_entry_speed_sqr ?b = f_zero"
    using block_entry(1) [of env target ?pos "(mo_block ?m)\<lparr>pb_direction := mo_direction ?m\<rparr>" "s\<lparr>pl_direction := mo_direction ?m\<rparr>"]
      block_entry(2) [of env ?d "mo_unit_vec ?m" b] css lim motions_entry block_entry(4) by simp_all
  consider "pb_step_event_count b = 0" | "pb_step_event_count b \<noteq> 0" "?sysm" | "pb_step_event_count b \<noteq> 0" "\<not> ?sysm"
    by blast
  then show ?thesis
  proof cases
    case 1
    then have "plan_buffer_line env target d s = Some (False, d, upd_block (pl_head s) (\<lambda>_. b) s1)"
      using css head by (simp add: plan_buffer_line_def Let_def)
    moreover have "pl_position (upd_block (pl_head s) (\<lambda>_. b) s1) = pl_position s" using pos1 position_kept(3) by simp
    ultimately show ?thesis using same_ring_upd [OF s1] e by blast
  next
    case 2
    then have "plan_buffer_line env target d s = Some (True, ?d, upd_block (pl_head s) (\<lambda>_. ?b) s1)"
      using css head lim by (simp add: plan_buffer_line_def Let_def)
    moreover have "pl_position (upd_block (pl_head s) (\<lambda>_. ?b) s1) = pl_position s" using pos1 position_kept(3) by simp
    ultimately show ?thesis using 2 same_ring_upd [OF s1] e by blast
  next
    case 3
    let ?b2 = "plan_compute_profile_parameters (pe_fp env) nominal (pl_previous_nominal_speed s2) ?b"
    let ?t = "(upd_block (pl_head s) (\<lambda>_. ?b2) s2)\<lparr>pl_previous_nominal_speed := nominal\<rparr>"
    let ?u = "if backlash_motion (ld_condition d) then ?t else ?t\<lparr>pl_previous_unit_vec := uv, pl_position := mo_target_steps ?m\<rparr>"
    have "plan_buffer_line env target d s = map_option (\<lambda>u. (True, ?d, u)) (planner_recalculate (pe_fp env) (plan_push ?u))"
      using 3 css head head2 lim nom by (simp add: plan_buffer_line_def Let_def)
    moreover have "same_ring (upd_block (pl_head s) (\<lambda>_. ?b2) s) ?u"
      using same_ring_upd [OF s2] by simp
    moreover have "pb_entry_speed_sqr ?b2 = f_zero" using e(2) block_entry(3) by simp
    moreover have "moved env target d s ?b2 ?u"
    proof -
      let ?b0 = "(mo_block ?m)\<lparr>pb_direction := mo_direction ?m\<rparr>"
      have pos: "0 < pb_step_event_count ?b2"
        using 3(1) counts_kept(6) [of env ?d "mo_unit_vec ?m" b] unfolding lim by (simp add: counts_kept(7))
      have counts: "counts_ok ?b2" if len: "length (pl_direction s) = N_AXIS"
        using line_counts [OF len, of env target ?pos d]
          counts_kept(1) [of env target ?pos ?b0 "s\<lparr>pl_direction := mo_direction ?m\<rparr>"]
          counts_kept(2) [of env ?d "mo_unit_vec ?m" b] unfolding css lim by (simp add: counts_kept(3,4))
      have "pl_position s ! i + block_steps ?b2 i = target_steps env target i \<and>
          (\<not> backlash_motion (ld_condition d) \<longrightarrow> pl_position ?u ! i = target_steps env target i)"
        if i: "length (pl_direction s) = N_AXIS" "i < N_AXIS" for i
      proof -
        have "?pos = pl_position s" using 3(2) by simp
        moreover have "block_steps ?b2 = block_steps ((mo_block ?m)\<lparr>pb_direction := mo_direction ?m\<rparr>)"
        using block_steps_kept(1) [of env target ?pos "(mo_block ?m)\<lparr>pb_direction := mo_direction ?m\<rparr>" "s\<lparr>pl_direction := mo_direction ?m\<rparr>"]
          block_steps_kept(2) [of env ?d "mo_unit_vec ?m" b] unfolding css lim by (simp add: block_steps_kept(3,4))
      ultimately show "pl_position s ! i + block_steps ?b2 i = target_steps env target i \<and>
          (\<not> backlash_motion (ld_condition d) \<longrightarrow> pl_position ?u ! i = target_steps env target i)"
        using line_steps [OF i, of env target ?pos d] by simp
      qed
      with pos counts show ?thesis unfolding moved_def by blast
    qed
    ultimately show ?thesis using 3(2) by blast
  qed
qed

lemma queue_head:
  assumes "ring_ok s"
  shows "queue (upd_block (pl_head s) f s) = queue s"
proof (rule nth_equalityI)
  have ok: "ring_ok (upd_block (pl_head s) f s)" "ring_len (upd_block (pl_head s) f s) = ring_len s"
    "slot (upd_block (pl_head s) f s) = slot s"
    using assms by (auto simp: upd_block_def ring_ok_def slot_def ring_len_def next_block_def fun_eq_iff)
  show "length (queue (upd_block (pl_head s) f s)) = length (queue s)" using assms ok by simp
  fix i assume "i < length (queue (upd_block (pl_head s) f s))"
  then have i: "i < ring_len s" using ok by simp
  have "slot s i \<noteq> pl_head s"
    using at_inj [of s i "ring_len s"] head_at [of s] queued_le [of s] i assms by auto
  then show "queue (upd_block (pl_head s) f s) ! i = queue s ! i"
    using i assms ok by (simp add: queue_nth upd_block_def)
qed

lemma pushed:
  assumes "ring_ok s" and "\<not> plan_check_full_buffer s" and "same_ring (upd_block (pl_head s) (\<lambda>_. b) s) t"
  shows "ring_ok (plan_push t)" and "slot (plan_push t) = slot s" and "ring_len (plan_push t) = Suc (ring_len s)"
    and "queue (plan_push t) = queue s @ [b]" and "planned_at p s \<Longrightarrow> planned_at p (plan_push t)"
    and "st_pl_block (plan_push t) = st_pl_block s" and "pl_size (plan_push t) = pl_size s"
    and "st_current_speed (plan_push t) = st_current_speed s" and "pl_tail (plan_push t) = pl_tail s"
proof -
  have h: "pl_head (plan_push t) = Suc (pl_head s) mod Suc (pl_size s)" "pl_tail (plan_push t) = pl_tail s"
    "pl_blocks (plan_push t) = (pl_blocks s)[pl_head s := b]" "pl_planned (plan_push t) = pl_planned s"
    using assms(1,3) by (auto simp: plan_push_def same_ring_def upd_block_def ring_ok_def next_block_def mod_Suc Let_def)
  show size: "pl_size (plan_push t) = pl_size s" and "st_pl_block (plan_push t) = st_pl_block s"
    and "st_current_speed (plan_push t) = st_current_speed s" and "pl_tail (plan_push t) = pl_tail s"
    using assms(3) by (simp_all add: plan_push_def same_ring_def upd_block_def Let_def)
  show "ring_ok (plan_push t)"
    using assms(1,3) by (auto simp: ring_ok_def plan_push_def same_ring_def upd_block_def next_block_def Let_def)
  show slot: "slot (plan_push t) = slot s" using h size by (simp add: slot_def fun_eq_iff)
  have room: "Suc (pl_head s) mod Suc (pl_size s) \<noteq> pl_tail s"
    using assms(1,2) by (auto simp: plan_check_full_buffer_def ring_ok_def next_block_def mod_Suc)
  show q: "ring_len (plan_push t) = Suc (ring_len s)"
    using h size room assms(1) by (simp add: ring_len_def ring_count_push ring_ok_def less_Suc_eq_le)
  show "queue (plan_push t) = queue s @ [b]"
    unfolding queue_def h using assms(1) room
    by (metis (no_types, lifting) less_Suc_eq_le ring_list_push ring_ok_def)
  show "planned_at p s \<Longrightarrow> planned_at p (plan_push t)"
    using q slot h by (auto simp: planned_at_def)
qed

lemma discarded:
  assumes "ring_ok s" and "planned_at p s"
  defines "t \<equiv> plan_discard_current_block s"
  shows "ring_ok t" and "queue t = tl (queue s)" and "planned_at (p - 1) t" and "st_pl_block t = st_pl_block s"
    and "pl_size t = pl_size s"
proof -
  have "ring_ok t \<and> queue t = tl (queue s) \<and> planned_at (p - 1) t \<and> st_pl_block t = st_pl_block s \<and> pl_size t = pl_size s"
  proof (cases "pl_tail s = pl_head s")
    case True
    then have "queue s = []" "ring_len s = 0" by (simp_all add: queue_def ring_len_def ring_simps ring_count_def)
    with True assms show ?thesis by (simp add: plan_discard_current_block_def planned_at_def)
  next
    case False
    let ?n = "Suc (pl_tail s) mod Suc (pl_size s)"
    let ?c = "plan_cleanup (pl_tail s) s"
    have c: "pl_size ?c = pl_size s" "pl_tail ?c = pl_tail s" "pl_head ?c = pl_head s" "pl_planned ?c = pl_planned s"
        "pl_next_head ?c = pl_next_head s" "st_pl_block ?c = st_pl_block s" "next_block ?c = next_block s"
        "pl_blocks ?c = (pl_blocks s)[pl_tail s := (pl_blocks s ! pl_tail s)\<lparr>pb_message := None\<rparr>]"
      by (simp_all add: plan_cleanup_def upd_block_def Let_def next_block_def fun_eq_iff)
    have nxt: "next_block s (pl_tail s) = ?n" using assms(1) by (auto simp: next_block_def ring_ok_def mod_Suc)
    have t: "t = ?c\<lparr>pl_planned := (if pl_tail s = pl_planned s then ?n else pl_planned s), pl_tail := ?n\<rparr>"
      unfolding t_def plan_discard_current_block_def Let_def c nxt using False by simp
    have slot_t: "slot t j = slot s (Suc j)" for j
      using c by (simp add: t slot_def mod_simps)
    have q: "ring_len s = Suc (ring_len t)"
      unfolding ring_len_def t using assms(1) False c by (simp add: ring_count_pop ring_ok_def less_Suc_eq_le)
    have ok: "ring_ok t" using assms(1) c by (simp add: t ring_ok_def next_block_def less_Suc_eq_le [symmetric])
    have "queue t = tl (queue s)"
    proof (rule nth_equalityI)
      show "length (queue t) = length (tl (queue s))" using ok assms(1) q by simp
      fix i assume "i < length (queue t)"
      then have i: "i < ring_len t" using ok by simp
      have "slot s (Suc i) \<noteq> pl_tail s"
        using at_inj [of s "Suc i" 0] tail_at [of s] queued_le [of s] i q assms(1) by auto
      then show "queue t ! i = tl (queue s) ! i"
        using i q ok assms(1) slot_t [of i] c by (simp add: queue_nth nth_tl t)
    qed
    moreover have "planned_at (p - 1) t"
    proof (cases p)
      case 0
      then have "pl_planned s = pl_tail s" using assms(1,2) tail_at [of s] by (simp add: planned_at_def)
      moreover have "slot t 0 = ?n" by (simp add: t slot_def c)
      ultimately show ?thesis using 0 by (auto simp: planned_at_def) (simp_all add: t)
    next
      case (Suc k)
      then have "pl_planned s \<noteq> pl_tail s"
        using assms(1,2) tail_at [of s] at_inj [of s p 0] queued_le [of s] by (auto simp: planned_at_def)
      then have "pl_planned t = pl_planned s" by (simp add: t)
      then show ?thesis using Suc assms(2) slot_t [of k] q by (auto simp: planned_at_def)
    qed
    ultimately show ?thesis using ok c by (simp add: t)
  qed
  then show "ring_ok t" and "queue t = tl (queue s)" and "planned_at (p - 1) t" and "st_pl_block t = st_pl_block s"
    and "pl_size t = pl_size s" by simp_all
qed

subsection \<open>Planning while a block is executed\<close>

text \<open>When the plan is made from the tail on, its block starts from the speed the step generator has reached.\<close>

lemma update_eq:
  "st_pl_block s = Some (pl_tail s) \<Longrightarrow> st_update_plan_block_parameters fp s =
     s\<lparr>pl_blocks := (pl_blocks s)[pl_tail s := set_speed (f_mul fp (st_current_speed s) (st_current_speed s)) (pl_blocks s ! pl_tail s)],
       st_pl_block := None\<rparr>"
  by (simp add: st_update_plan_block_parameters_def set_entry_speed_def upd_block_def set_speed_def)

lemma update_twice:
  "st_update_plan_block_parameters fp (st_update_plan_block_parameters fp s) = st_update_plan_block_parameters fp s"
  by (auto simp: st_update_plan_block_parameters_def set_entry_speed_def upd_block_def split: option.split)

lemma update_set_entry:
  assumes "i \<noteq> pl_tail s" and "st_pl_block s = Some (pl_tail s)"
  shows "st_update_plan_block_parameters fp (set_entry_speed i v s) = set_entry_speed i v (st_update_plan_block_parameters fp s)"
  using assms by (simp add: update_eq set_entry_speed_def upd_block_def list_update_swap)

lemma update_reverse_step:
  assumes "i \<noteq> pl_tail s" and "j \<noteq> pl_tail s" and "st_pl_block s = Some (pl_tail s)"
  shows "reverse_step fp i j (st_update_plan_block_parameters fp s) = st_update_plan_block_parameters fp (reverse_step fp i j s)"
proof -
  have "entry_speed (st_update_plan_block_parameters fp s) k = entry_speed s k" "max_entry (st_update_plan_block_parameters fp s) k = max_entry s k"
    "gain fp (st_update_plan_block_parameters fp s) k = gain fp s k" if "k \<noteq> pl_tail s" for k
    using that assms(3) by (simp_all add: update_eq entry_speed_def max_entry_def gain_def)
  with assms show ?thesis by (simp add: reverse_step_def Let_def update_set_entry)
qed

lemma reverse_pass_update:
  assumes "ring_ok s" and "planned_at 0 s" and "st_pl_block s = Some (pl_tail s)" and "0 < j" and "Suc j < ring_len s"
  shows "reverse_pass n fp (slot s (Suc j)) (slot s j) s =
    reverse_pass n fp (slot s (Suc j)) (slot s j) (st_update_plan_block_parameters fp s)"
  using assms
proof (induction n arbitrary: j s)
  case (Suc n)
  obtain k where j: "j = Suc k" using Suc.prems(4) by (cases j) auto
  have tail: "slot s 0 = pl_tail s" "pl_planned s = pl_tail s"
    using Suc.prems(1,2) tail_at [of s] by (auto simp: planned_at_def)
  have at_tail: "slot s i = pl_tail s \<longleftrightarrow> i = 0" if "i < ring_len s" for i
    using at_inj [of s i 0] that queued_le [of s] Suc.prems(1) tail by simp
  let ?u = "st_update_plan_block_parameters fp s" and ?r = "reverse_step fp (slot s (Suc j)) (slot s j) s"
  have u: "pl_planned ?u = pl_planned s" "pl_tail ?u = pl_tail s" "prev_block ?u = prev_block s"
    using Suc.prems(3) by (simp_all add: update_eq prev_block_def fun_eq_iff)
  show ?case
  proof (cases k)
    case 0
    then show ?thesis using u update_twice [of fp s] at_tail [of j] Suc.prems tail prev_at [of s 0] by (simp add: j Let_def)
  next
    case (Suc k')
    obtain bl where r: "?r = s\<lparr>pl_blocks := bl\<rparr>" "length bl = length (pl_blocks s)"
      using reverse_step_queue [OF Suc.prems(1,5)] by blast
    have "reverse_pass n fp (slot ?r (Suc k)) (slot ?r k) ?r =
        reverse_pass n fp (slot ?r (Suc k)) (slot ?r k) (st_update_plan_block_parameters fp ?r)"
      using Suc.prems r Suc j by (intro Suc.IH) (auto simp: planned_at_def)
    moreover have "st_update_plan_block_parameters fp ?r = reverse_step fp (slot s (Suc j)) (slot s j) ?u"
      using update_reverse_step at_tail [of j] at_tail [of "Suc j"] Suc.prems by simp
    ultimately show ?thesis
      using u at_tail [of j] at_tail [of k] Suc.prems tail prev_at [of s k] r Suc by (simp add: j Let_def)
  qed
qed simp

lemma recalculate_update:
  assumes "ring_ok s" and "planned_at 0 s" and "st_pl_block s = Some (pl_tail s)" and "1 < ring_len s"
  shows "planner_recalculate fp s = planner_recalculate fp (st_update_plan_block_parameters fp s)"
proof -
  obtain c where c: "ring_len s = Suc (Suc c)" using less_imp_Suc_add [OF assms(4)] by auto
  have cur: "prev_block s (pl_head s) = slot s (Suc c)" using head_at [OF assms(1)] c by (metis prev_at)
  have tail: "slot s 0 = pl_tail s" "pl_planned s = pl_tail s"
    using assms(1,2) tail_at [of s] by (auto simp: planned_at_def)
  have at_tail: "slot s i = pl_tail s \<longleftrightarrow> i = 0" if "i < ring_len s" for i
    using at_inj [of s i 0] that queued_le [of s] assms(1) tail by simp
  let ?u = "st_update_plan_block_parameters fp s"
  have u: "pl_planned ?u = pl_planned s" "pl_tail ?u = pl_tail s" "pl_head ?u = pl_head s" "pl_size ?u = pl_size s"
      "prev_block ?u = prev_block s" "next_block ?u = next_block s"
    using assms(3) by (simp_all add: update_eq prev_block_def next_block_def fun_eq_iff)
  have ne: "slot s (Suc c) \<noteq> pl_tail s" using at_tail c by simp
  have same: "max_entry ?u (slot s (Suc c)) = max_entry s (slot s (Suc c))" "gain fp ?u (slot s (Suc c)) = gain fp s (slot s (Suc c))"
    using ne assms(3) by (simp_all add: update_eq max_entry_def gain_def)
  let ?v = "fmin (max_entry s (slot s (Suc c))) (gain fp s (slot s (Suc c)))"
  let ?s = "set_entry_speed (slot s (Suc c)) ?v s"
  have s: "set_entry_speed (slot s (Suc c)) ?v ?u = st_update_plan_block_parameters fp ?s"
    using ne assms(3) by (simp add: update_set_entry)
  have eqs: "ring_ok ?s" "planned_at 0 ?s" "st_pl_block ?s = Some (pl_tail ?s)" "ring_len ?s = ring_len s" "slot ?s = slot s"
      "pl_planned ?s = pl_planned s" "pl_tail ?s = pl_tail s" "pl_head ?s = pl_head s" "pl_size ?s = pl_size s" "prev_block ?s = prev_block s"
    using assms by (auto simp: set_entry_speed_def upd_block_def planned_at_def)
  have us: "pl_planned (st_update_plan_block_parameters fp ?s) = pl_planned s" "pl_tail (st_update_plan_block_parameters fp ?s) = pl_tail s"
      "prev_block (st_update_plan_block_parameters fp ?s) = prev_block s"
    using eqs by (simp_all add: update_eq prev_block_def fun_eq_iff)
  have pass: "reverse_pass n fp (slot s (Suc c)) (slot s c) ?s =
      reverse_pass n fp (slot s (Suc c)) (slot s c) (st_update_plan_block_parameters fp ?s)" if "slot s c \<noteq> pl_tail s" for n
    using reverse_pass_update [of ?s c] eqs c tail that by (cases c) auto
  show ?thesis
    unfolding planner_recalculate_def Let_def u cur same s
    using ne eqs(5-) us tail prev_at [of s c] update_twice [of fp ?s] pass
    by (cases "slot s c = pl_tail s") (simp_all del: reverse_pass.simps forward_pass.simps)
qed

end
