(* ===== verification/Planner_Motions.thy ===== *)
theory Planner_Motions
  imports Planner_State
begin

text \<open>
  The planner as its clients use it: lines are added, executed and finished. Invariants of the states
  reached from a reset.
\<close>

subsection \<open>Definitions\<close>

text \<open>From speed e at the entry of the first block: every entry speed is within its limit, can be reached
  from the one before, and allows braking to the next; after the last block the machine is at rest.\<close>

fun follows :: "fpu \<Rightarrow> flt \<Rightarrow> planner_block list \<Rightarrow> bool" where
  "follows fp e [] \<longleftrightarrow> True"
| "follows fp e [b] \<longleftrightarrow> e \<le> f_add fp f_zero (speed_gain fp b)"
| "follows fp e (b # c # bs) \<longleftrightarrow>
     (let n = pb_entry_speed_sqr c
      in e \<le> f_add fp n (speed_gain fp b) \<and> n \<le> f_add fp e (speed_gain fp b) \<and> n \<le> pb_max_entry_speed_sqr c \<and>
         follows fp n (c # bs))"

definition current_speed_sqr :: "fpu \<Rightarrow> planner \<Rightarrow> flt" where
  "current_speed_sqr fp s =
     (if st_pl_block s = None then entry_speed s (pl_tail s) else f_mul fp (st_current_speed s) (st_current_speed s))"

definition fresh :: "planner \<Rightarrow> bool" where
  "fresh s \<longleftrightarrow> pl_blocks s = [] \<and> st_pl_block s = None"

text \<open>
  The calls of the planner by its clients. A line is added when there is room (\<open>mc_line\<close> waits for it). The step
  generator executes the block at the tail: the distance left shrinks and the speed changes, so that it can still
  brake to the exit speed \<open>plan_get_exec_block_exit_speed_sqr\<close> and reach it. At the end it discards the block.
\<close>

inductive motions :: "plan_env \<Rightarrow> planner \<Rightarrow> planner \<Rightarrow> bool" for env s where
  motions_start: "motions env s s"
| motions_line:
    "motions env s t \<Longrightarrow> \<not> plan_check_full_buffer t \<Longrightarrow> plan_buffer_line env target d t = Some (added, d', u) \<Longrightarrow>
     block_ok (pe_fp env) (pl_blocks u ! pl_head t) \<Longrightarrow> motions env s u"
| motions_execute:
    "motions env s t \<Longrightarrow> pl_tail t \<noteq> pl_head t \<Longrightarrow> b = (pl_blocks t ! pl_tail t)\<lparr>pb_millimeters := mm\<rparr> \<Longrightarrow>
     block_ok (pe_fp env) b \<Longrightarrow> v2 = f_mul (pe_fp env) v v \<Longrightarrow> v2 \<in> proper (pe_fp env) \<Longrightarrow>
     n = plan_get_exec_block_exit_speed_sqr t \<Longrightarrow> v2 \<le> f_add (pe_fp env) n (speed_gain (pe_fp env) b) \<Longrightarrow>
     n \<le> f_add (pe_fp env) v2 (speed_gain (pe_fp env) b) \<Longrightarrow>
     motions env s (t\<lparr>pl_blocks := (pl_blocks t)[pl_tail t := b], st_pl_block := Some (pl_tail t), st_current_speed := v\<rparr>)"
| motions_finish:
    "motions env s t \<Longrightarrow> motions env s (plan_discard_current_block (t\<lparr>st_pl_block := None\<rparr>))"

subsection \<open>The state\<close>


lemma recalculate_state:
  assumes "ring_ok s" and "planned_at p s" and "st_pl_block s = None \<or> st_pl_block s = Some (pl_tail s)"
    and "queue s = b # bs" and "bs \<noteq> []" and "p < length bs"
    and "v = (if p = 0 then current_speed_sqr fp s else pb_entry_speed_sqr b)"
    and "replan_list fp p (set_speed v b # bs) = (q, p')"
  shows "\<exists>u. planner_recalculate fp s = Some u \<and> queue u = q \<and> ring_ok u \<and> pl_tail u = pl_tail s \<and> pl_size u = pl_size s \<and>
    pl_head u = pl_head s \<and> pl_planned u = slot s p' \<and> st_pl_block u = (if p = 0 then None else st_pl_block s) \<and>
    st_current_speed u = st_current_speed s \<and> pl_position u = pl_position s"
proof -
  have n: "ring_len s = Suc (length bs)" using length_queue [OF assms(1)] assms(4) by simp
  have tail: "pl_tail s < length (pl_blocks s)" "slot s 0 = pl_tail s" "pl_blocks s ! pl_tail s = b"
    using assms(1,4) n tail_at [of s] queue_nth [of s 0] by (auto simp: ring_ok_def)
  show ?thesis
  proof (cases "p = 0 \<and> st_pl_block s \<noteq> None")
    case True
    then have st: "st_pl_block s = Some (pl_tail s)" using assms(3) by auto
    let ?bl = "(pl_blocks s)[pl_tail s := set_speed v b]"
    let ?u = "s\<lparr>pl_blocks := ?bl, st_pl_block := None\<rparr>"
    have u: "st_update_plan_block_parameters fp s = ?u"
      using update_eq [OF st, of fp] st True assms(7) tail by (simp add: current_speed_sqr_def)
    have "queue ?u = queue (s\<lparr>pl_blocks := ?bl\<rparr>)" by (simp add: queue_def)
    then have qu: "queue ?u = set_speed v b # bs"
      using queue_update [of s 0 "set_speed v b"] assms(1,4) n tail by simp
    have "ring_ok ?u" "planned_at p ?u" "st_pl_block ?u = None \<or> 0 < p" "0 < ring_len ?u" "ring_len ?u = ring_len s" "slot ?u = slot s"
      using assms(1,2) n by (auto simp: ring_ok_def planned_at_def slot_def ring_len_def next_block_def fun_eq_iff)
    moreover from this have "(q, p') = (if p = ring_len ?u - 1 then (queue ?u, p) else replan_list fp p (queue ?u))"
      using assms(6,8) n qu by simp
    ultimately obtain bl where "planner_recalculate fp ?u = Some (?u\<lparr>pl_blocks := bl, pl_planned := slot ?u p'\<rparr>)"
        "length bl = length (pl_blocks ?u)" "queue (?u\<lparr>pl_blocks := bl\<rparr>) = q"
      using recalculate_queue [of ?u p q p' fp] by blast
    moreover have "planner_recalculate fp s = planner_recalculate fp ?u"
      unfolding u [symmetric] using assms True st n by (intro recalculate_update) auto
    ultimately show ?thesis using True assms(1)
      by (auto simp: ring_ok_def queue_def slot_def next_block_def)
  next
    case False
    have "v = pb_entry_speed_sqr b" using False assms(7) tail by (auto simp: current_speed_sqr_def entry_speed_def)
    then have "(q, p') = (if p = ring_len s - 1 then (queue s, p) else replan_list fp p (queue s))"
      using assms(4,6,8) n by simp
    moreover have "st_pl_block s = None \<or> 0 < p" using False by auto
    ultimately obtain bl where "planner_recalculate fp s = Some (s\<lparr>pl_blocks := bl, pl_planned := slot s p'\<rparr>)"
        "length bl = length (pl_blocks s)" "queue (s\<lparr>pl_blocks := bl\<rparr>) = q"
      using recalculate_queue [OF assms(1,2), of q p' fp] n by auto
    with False assms(1) show ?thesis
      by (auto simp: ring_ok_def queue_def next_block_def)
  qed
qed

text \<open>What \<open>plan_buffer_line\<close> does to a well-formed ring.\<close>

lemma line_state:
  assumes "ring_ok s" and "planned_at p s" and "st_pl_block s = None \<or> st_pl_block s = Some (pl_tail s)"
    and "queue s = [] \<Longrightarrow> st_pl_block s = None" and "\<not> plan_check_full_buffer s"
    and v: "v = (if p = 0 then current_speed_sqr (pe_fp env) s else pb_entry_speed_sqr (hd (queue s)))"
  obtains (unchanged) added d' u where "plan_buffer_line env target d s = Some (added, d', u)" "queue u = queue s" "ring_ok u"
      "planned_at p u" "st_pl_block u = st_pl_block s" "pl_tail u = pl_tail s" "st_current_speed u = st_current_speed s"
      "pl_position u = pl_position s" "system_motion (ld_condition d) \<or> \<not> added"
    | (first) d' u c where "plan_buffer_line env target d s = Some (True, d', u)" "queue s = []" "queue u = [c]"
      "pb_entry_speed_sqr c = f_zero" "ring_ok u" "planned_at 0 u" "st_pl_block u = None" "pl_blocks u ! pl_head s = c"
      "moved env target d s c u" "\<not> system_motion (ld_condition d)"
    | (planned) d' u c p' where "plan_buffer_line env target d s = Some (True, d', u)" "queue s \<noteq> []"
      "replan_list (pe_fp env) p (set_speed v (hd (queue s)) # tl (queue s) @ [c]) = (queue u, p')"
      "ring_ok u" "pl_planned u = slot u p'" "st_pl_block u = (if p = 0 then None else st_pl_block s)" "pl_tail u = pl_tail s"
      "st_current_speed u = st_current_speed s" "block_ok (pe_fp env) (pl_blocks u ! pl_head s) = block_ok (pe_fp env) c"
      "ring_len u = Suc (ring_len s)" "moved env target d s c u" "\<not> system_motion (ld_condition d)"
proof -
  obtain b t d' where t: "same_ring (upd_block (pl_head s) (\<lambda>_. b) s) t" and b: "pb_entry_speed_sqr b = f_zero"
    and res: "plan_buffer_line env target d s = Some (False, d, t) \<and> pl_position t = pl_position s \<or>
      system_motion (ld_condition d) \<and> plan_buffer_line env target d s = Some (True, d', t) \<and> pl_position t = pl_position s \<or>
      \<not> system_motion (ld_condition d) \<and> plan_buffer_line env target d s =
        map_option (\<lambda>u. (True, d', u)) (planner_recalculate (pe_fp env) (plan_push t)) \<and> moved env target d s b t"
    using plan_buffer_line_cases [of s env target d] by blast
  have eqs: "queue t = queue s" "ring_ok t" "planned_at p t" "st_pl_block t = st_pl_block s" "pl_tail t = pl_tail s"
      "st_current_speed t = st_current_speed s"
    using same_ring_eqs [OF t] assms(1,2) queue_head [OF assms(1)] t
    by (auto simp: upd_block_def planned_at_def same_ring_def)
  let ?t = "plan_push t"
  note push = pushed [OF assms(1,5) t]
  have head: "pl_head s = slot s (ring_len s)" using head_at [OF assms(1)] by simp
  have pos: "moved env target d s b u = moved env target d s b t" if "pl_position u = pl_position ?t" for u
    using that by (simp add: moved_def plan_push_def Let_def)
  consider (un) added d'' where "plan_buffer_line env target d s = Some (added, d'', t)" "pl_position t = pl_position s"
      "system_motion (ld_condition d) \<or> \<not> added"
    | (push) "plan_buffer_line env target d s = map_option (\<lambda>u. (True, d', u)) (planner_recalculate (pe_fp env) ?t)"
      "moved env target d s b t" "\<not> system_motion (ld_condition d)"
    using res by blast
  then show thesis
  proof cases
    case un
    then show thesis using unchanged eqs by blast
  next
    case push': push
    show thesis
    proof (cases "queue s")
      case Nil
      then have n: "ring_len s = 0" using length_queue [OF assms(1)] by simp
      then have p: "p = 0" using assms(2) by (simp add: planned_at_def)
      have "\<exists>bl. planner_recalculate (pe_fp env) ?t = Some (?t\<lparr>pl_blocks := bl, pl_planned := slot ?t 0\<rparr>) \<and>
          length bl = length (pl_blocks ?t) \<and> queue (?t\<lparr>pl_blocks := bl\<rparr>) = queue ?t"
        using push assms(2,4) Nil n p by (intro recalculate_queue) auto
      then obtain bl where u: "planner_recalculate (pe_fp env) ?t = Some (?t\<lparr>pl_blocks := bl, pl_planned := slot ?t 0\<rparr>)"
          "length bl = length (pl_blocks ?t)" "queue (?t\<lparr>pl_blocks := bl\<rparr>) = [b]"
        using push Nil by auto
      let ?u = "?t\<lparr>pl_blocks := bl, pl_planned := slot ?t 0\<rparr>"
      have ok: "ring_ok ?u" "ring_len ?u = 1" "queue ?u = [b]" "slot ?u = slot s" "st_pl_block ?u = None"
        using push u n assms(4) Nil by (auto simp: ring_ok_def next_block_def ring_len_def queue_def slot_def fun_eq_iff)
      then have "pl_blocks ?u ! pl_head s = b" using queue_nth [of ?u 0] head n by simp
      moreover have "planned_at 0 ?u" using ok push by (simp add: planned_at_def)
      ultimately show thesis using first [of d' ?u b] push' u(1) ok b Nil pos [of ?u] by simp
    next
      case (Cons a as)
      have n: "ring_len s = Suc (length as)" using length_queue [OF assms(1)] Cons by simp
      have p: "p < length (as @ [b])" using assms(2) n by (auto simp: planned_at_def)
      have "pl_blocks ?t ! pl_tail s = pl_blocks s ! pl_tail s"
      proof -
        have "pl_tail s \<noteq> pl_head s" using at_inj [of s 0 "ring_len s"] queued_le [of s] n tail_at [of s] head assms(1) by auto
        then show ?thesis using t by (simp add: plan_push_def same_ring_def upd_block_def Let_def)
      qed
      then have cur: "current_speed_sqr (pe_fp env) ?t = current_speed_sqr (pe_fp env) s"
        using push by (simp add: current_speed_sqr_def entry_speed_def)
      obtain q p' where re: "replan_list (pe_fp env) p (set_speed v a # as @ [b]) = (q, p')" by force
      have "st_pl_block ?t = None \<or> st_pl_block ?t = Some (pl_tail ?t)" using push assms(3) by simp
      have "v = (if p = 0 then current_speed_sqr (pe_fp env) ?t else pb_entry_speed_sqr a)" "as @ [b] \<noteq> []"
        using v cur Cons by simp_all
      from recalculate_state [OF push(1) push(5) [OF assms(2)] \<open>st_pl_block ?t = None \<or> _\<close> _ this(2) p this(1) re]
      obtain u where u: "planner_recalculate (pe_fp env) ?t = Some u" "queue u = q" "ring_ok u" "pl_tail u = pl_tail ?t"
          "pl_size u = pl_size ?t" "pl_head u = pl_head ?t" "pl_planned u = slot ?t p'"
          "st_pl_block u = (if p = 0 then None else st_pl_block ?t)" "st_current_speed u = st_current_speed ?t" "pl_position u = pl_position ?t"
        using push(4) Cons by auto
      have slots: "slot u = slot s" and nu: "ring_len u = Suc (ring_len s)"
        using u push by (auto simp: slot_def ring_len_def fun_eq_iff)
      have "map (set_speed f_zero) q = map (set_speed f_zero) (set_speed v a # as @ [b])"
        using replan_list_only [of f_zero "pe_fp env" p "set_speed v a # as @ [b]"] re by simp
      then have "set_speed f_zero (queue u ! ring_len s) = set_speed f_zero b"
        using u(2) n by (metis append_Cons length_Cons length_append_singleton lessI nth_append_length nth_map length_map)
      then have "block_ok (pe_fp env) (pl_blocks u ! pl_head s) = block_ok (pe_fp env) b"
        using queue_nth [OF u(3), of "ring_len s"] nu slots head by (metis lessI set_speed_simps(5))
      then show thesis using planned [of d' u b p'] push' u push Cons re slots nu pos [of u] by simp
    qed
  qed
qed

lemma queue_Nil:
  assumes "ring_ok s"
  shows "queue s = [] \<longleftrightarrow> pl_tail s = pl_head s"
proof -
  have "queue s = [] \<longleftrightarrow> ring_len s = 0" using length_queue [OF assms] by (metis length_0_conv)
  also have "\<dots> \<longleftrightarrow> pl_head s = pl_tail s"
    unfolding ring_len_def using assms by (intro ring_count_0) (simp_all add: ring_ok_def)
  finally show ?thesis by auto
qed

lemma queue_Cons:
  assumes "ring_ok s" and "queue s = b # bs"
  shows "pl_blocks s ! pl_tail s = b" and "plan_get_exec_block_exit_speed_sqr s = hd (speeds bs @ [f_zero])"
    and "ring_len s = Suc (length bs)"
proof -
  show n: "ring_len s = Suc (length bs)" using length_queue [OF assms(1)] assms(2) by simp
  show "pl_blocks s ! pl_tail s = b" using queue_nth [OF assms(1), of 0] assms(2) n tail_at [OF assms(1)] by simp
  have nxt: "next_block s (pl_tail s) = slot s 1" using next_at [of s 0] tail_at [OF assms(1)] by simp
  show "plan_get_exec_block_exit_speed_sqr s = hd (speeds bs @ [f_zero])"
  proof (cases bs)
    case Nil
    then show ?thesis using nxt head_at [OF assms(1)] n by (simp add: plan_get_exec_block_exit_speed_sqr_def)
  next
    case (Cons c cs)
    then have "slot s 1 \<noteq> pl_head s"
      using at_inj [OF assms(1), of 1 "ring_len s"] head_at [OF assms(1)] queued_le [of s] n by simp
    then show ?thesis using Cons nxt queue_nth [OF assms(1), of 1] assms(2) n
      by (simp add: plan_get_exec_block_exit_speed_sqr_def entry_speed_def)
  qed
qed

context rounding
begin

definition safe :: "planner \<Rightarrow> bool" where
  "safe s \<longleftrightarrow> ring_ok s \<and> (st_pl_block s = None \<or> st_pl_block s = Some (pl_tail s)) \<and> (\<exists>p. planned_at p s) \<and>
     (case queue s of [] \<Rightarrow> st_pl_block s = None | b # bs \<Rightarrow> followed (current_speed_sqr fp s) b bs)"

lemma safe_line:
  assumes "safe s" and "\<not> plan_check_full_buffer s" and "plan_buffer_line env target d s = Some (added, d', u)"
    and "pe_fp env = fp" and "block_ok fp (pl_blocks u ! pl_head s)"
  shows "safe u"
proof -
  obtain p where p: "planned_at p s" and s: "ring_ok s" "st_pl_block s = None \<or> st_pl_block s = Some (pl_tail s)"
      "queue s = [] \<Longrightarrow> st_pl_block s = None"
    using assms(1) by (auto simp: safe_def split: list.splits)
  let ?v = "if p = 0 then current_speed_sqr (pe_fp env) s else pb_entry_speed_sqr (hd (queue s))"
  show ?thesis
  proof (rule line_state [where env = env and target = target and d = d and v = ?v, OF s(1) p s(2,3) assms(2) refl], goal_cases)
    case 1
    then show ?case .
  next
    case unchanged: (2 a d'' t)
    then have "t = u" using assms(3) by simp
    have "current_speed_sqr fp u = current_speed_sqr fp s" if "queue s = b # bs" for b bs
      using that unchanged queue_Cons(1) [OF s(1) that] queue_Cons(1) [of u b bs] \<open>t = u\<close>
      by (simp add: current_speed_sqr_def entry_speed_def)
    then show ?thesis using assms(1) unchanged \<open>t = u\<close> by (auto simp: safe_def split: list.splits)
  next
    case first: (3 d'' t c)
    then have "t = u" using assms(3) by simp
    with first queue_Cons(1) [of u c "[]"] have "current_speed_sqr fp u = f_zero"
      by (simp add: current_speed_sqr_def entry_speed_def)
    moreover have "followed f_zero c []"
      using assms(5) first \<open>t = u\<close> zero_V zero_least [OF reach_V] by (simp add: followed_def feasible_def)
    ultimately show ?thesis using first \<open>t = u\<close> by (auto simp: safe_def)
  next
    case planned: (4 d'' t c p')
    then have "t = u" using assms(3) by simp
    obtain b bs where q: "queue s = b # bs" using planned(2) by (cases "queue s") auto
    have f: "followed (current_speed_sqr fp s) b bs" using assms(1) q by (simp add: safe_def)
    have len: "p \<le> length bs" using p queue_Cons(3) [OF s(1) q] by (auto simp: planned_at_def)
    have "block_ok fp c" using planned assms(4,5) \<open>t = u\<close> by simp
    from followed_replan [OF f this len, of ?v "set_speed ?v b" "queue u" p'] planned q assms(4) \<open>t = u\<close>
    obtain bs' where bs': "queue u = set_speed ?v b # bs'" "length bs' = Suc (length bs)"
        "followed (current_speed_sqr fp s) (set_speed ?v b) bs'" "p' \<le> length bs'" by auto
    have "current_speed_sqr fp u = current_speed_sqr fp s"
    proof (cases "p = 0 \<or> st_pl_block s = None")
      case True
      moreover have "?v = current_speed_sqr fp s"
        using True q queue_Cons(1) [OF s(1) q] assms(4) by (auto simp: current_speed_sqr_def entry_speed_def)
      ultimately show ?thesis using planned \<open>t = u\<close> queue_Cons(1) [OF _ bs'(1)]
        by (auto simp: current_speed_sqr_def entry_speed_def)
    next
      case False
      then show ?thesis using planned \<open>t = u\<close> by (auto simp: current_speed_sqr_def)
    qed
    moreover have "planned_at p' u" using planned \<open>t = u\<close> bs'(2,4) queue_Cons(3) [OF _ bs'(1)]
      by (simp add: planned_at_def)
    ultimately show ?thesis using planned \<open>t = u\<close> bs' s(2) by (auto simp: safe_def)
  qed
qed

lemma safe_execute:
  assumes "safe s" and "pl_tail s \<noteq> pl_head s" and "block_ok fp b" and "v2 = f_mul fp v v" and "v2 \<in> proper fp"
    and "n = plan_get_exec_block_exit_speed_sqr s" and "v2 \<le> reach fp b n" and "n \<le> reach fp b v2"
  shows "safe (s\<lparr>pl_blocks := (pl_blocks s)[pl_tail s := b], st_pl_block := Some (pl_tail s), st_current_speed := v\<rparr>)"
    (is "safe ?t")
proof -
  have s: "ring_ok s" using assms(1) by (simp add: safe_def)
  obtain c bs where q: "queue s = c # bs" using queue_Nil [OF s] assms(2) by (cases "queue s") auto
  have "queue ?t = queue (s\<lparr>pl_blocks := (pl_blocks s)[slot s 0 := b]\<rparr>)" using tail_at [OF s] by (simp add: queue_def)
  then have qt: "queue ?t = b # bs" using queue_update [OF s, of 0 b] queue_Cons(3) [OF s q] q by simp
  have "followed (current_speed_sqr fp s) c bs" using assms(1) q by (simp add: safe_def)
  then have "followed v2 b bs"
    using assms(3,5-8) queue_Cons(2) [OF s q] by (cases bs) (auto simp: followed_def feasible_def)
  moreover have "current_speed_sqr fp ?t = v2" using assms(4) by (simp add: current_speed_sqr_def)
  moreover have "ring_ok ?t" "\<exists>p. planned_at p ?t"
    using assms(1) by (auto simp: safe_def ring_ok_def planned_at_def slot_def ring_len_def next_block_def)
  ultimately show ?thesis using qt by (simp add: safe_def)
qed

lemma safe_finish:
  assumes "safe s"
  shows "safe (plan_discard_current_block (s\<lparr>st_pl_block := None\<rparr>))"
proof -
  let ?s = "s\<lparr>st_pl_block := None\<rparr>"
  obtain p where p: "planned_at p ?s" and s: "ring_ok ?s" and q: "queue ?s = queue s"
    using assms by (auto simp: safe_def ring_ok_def planned_at_def slot_def ring_len_def next_block_def queue_def)
  note d = discarded [OF s p]
  let ?t = "plan_discard_current_block ?s"
  show ?thesis
  proof (cases "tl (queue s)")
    case Nil
    then show ?thesis using d q by (auto simp: safe_def)
  next
    case (Cons c cs)
    then obtain b where qs: "queue s = b # c # cs" by (cases "queue s") auto
    then have "followed (current_speed_sqr fp s) b (c # cs)" using assms by (simp add: safe_def)
    then have "followed (pb_entry_speed_sqr c) c cs" by (rule followed_discard)
    moreover have qt: "queue ?t = c # cs" using d(2) q Cons by simp
    moreover have "current_speed_sqr fp ?t = pb_entry_speed_sqr c"
      using queue_Cons(1) [OF d(1) qt] d(4) by (simp add: current_speed_sqr_def entry_speed_def)
    ultimately show ?thesis using d by (auto simp: safe_def)
  qed
qed

lemma followed_follows: "followed e b bs \<Longrightarrow> follows fp e (b # bs)"
proof (induction bs arbitrary: e b)
  case Nil
  then show ?case by (simp add: followed_def feasible_def reach_def)
next
  case (Cons c bs)
  have "follows fp (pb_entry_speed_sqr c) (c # bs)" by (rule Cons.IH [OF followed_discard [OF Cons.prems]])
  with Cons.prems show ?case by (simp add: followed_def feasible_def reach_def Let_def)
qed

lemma safe_follows: "safe s \<Longrightarrow> follows fp (current_speed_sqr fp s) (queue s)"
  by (auto simp: safe_def followed_follows split: list.splits)

end

lemma reset_state:
  assumes "plan_reset env mem z = (True, s)" and "fresh z"
  shows "ring_ok s" and "queue s = []" and "planned_at 0 s" and "st_pl_block s = None"
proof -
  obtain ok n where b: "buffer_size mem (pe_buffer_blocks env) = (ok, n)" by force
  with assms have s: "pl_blocks s = replicate (n + 1) zero_block" "pl_size s = n" "pl_tail s = 0" "pl_head s = 0" "pl_planned s = 0"
      "st_pl_block s = None" "pl_next_head s = next_block s 0"
    by (auto simp: plan_reset_def fresh_def plan_reset_buffer_def next_block_def Let_def split: if_splits)
  show "ring_ok s" using s by (simp add: ring_ok_def)
  show "queue s = []" using s by (simp add: queue_def ring_list_empty)
  show "planned_at 0 s" using s by (simp add: planned_at_def slot_def ring_len_def ring_count_def)
  show "st_pl_block s = None" by (rule s)
qed

lemma motions_safe:
  assumes "plan_reset env mem z = (True, s)" and "fresh z" and "ieee (pe_fp env)" and "motions env s t"
  shows "rounding.safe (pe_fp env) t"
proof -
  have r: "rounding (pe_fp env)" using assms(3) by (rule rounding.intro)
  from assms(4) show ?thesis
  proof induction
    case motions_start
    have "\<exists>p. planned_at p s" using reset_state(3) [OF assms(1,2)] by blast
    then show ?case unfolding rounding.safe_def [OF r] using reset_state [OF assms(1,2)] by simp
  next
    case (motions_line t target d added d' u)
    show ?case
      by (rule rounding.safe_line [OF r motions_line.IH motions_line.hyps(2,3) refl motions_line.hyps(4)])
  next
    case (motions_execute t b mm v2 v n)
    show ?case
      by (rule rounding.safe_execute [OF r motions_execute.IH motions_execute.hyps(2,4,5,6,7)])
        (use motions_execute.hyps in \<open>simp_all add: reach_def\<close>)
  next
    case (motions_finish t)
    show ?case by (rule rounding.safe_finish [OF r motions_finish.IH])
  qed
qed

subsection \<open>Without execution: the greatest plan\<close>

inductive line_stream :: "plan_env \<Rightarrow> planner \<Rightarrow> planner \<Rightarrow> bool" for env s where
  line_stream_start: "line_stream env s s"
| line_stream_line:
    "line_stream env s t \<Longrightarrow> \<not> plan_check_full_buffer t \<Longrightarrow> plan_buffer_line env target d t = Some (added, d', u) \<Longrightarrow>
     block_ok (pe_fp env) (pl_blocks u ! pl_head t) \<Longrightarrow> line_stream env s u"
| line_stream_discard: "line_stream env s t \<Longrightarrow> line_stream env s (plan_discard_current_block t)"

context rounding
begin

definition streaming :: "planner \<Rightarrow> bool" where
  "streaming s \<longleftrightarrow> ring_ok s \<and> st_pl_block s = None \<and>
     (\<exists>p. planned_at p s \<and> (case queue s of [] \<Rightarrow> True | b # bs \<Rightarrow> planned_ok b bs p))"

lemma streaming_line:
  assumes "streaming s" and "\<not> plan_check_full_buffer s" and "plan_buffer_line env target d s = Some (added, d', u)"
    and "pe_fp env = fp" and "block_ok fp (pl_blocks u ! pl_head s)"
  shows "streaming u"
proof -
  obtain p where p: "planned_at p s" and s: "ring_ok s" "st_pl_block s = None"
      and ok: "case queue s of [] \<Rightarrow> True | b # bs \<Rightarrow> planned_ok b bs p"
    using assms(1) by (auto simp: streaming_def)
  let ?v = "if p = 0 then current_speed_sqr (pe_fp env) s else pb_entry_speed_sqr (hd (queue s))"
  show ?thesis
  proof (rule line_state [where env = env and target = target and d = d and v = ?v, OF s(1) p disjI1 [OF s(2)] s(2) assms(2) refl],
      goal_cases)
    case unchanged: (1 a d'' t)
    then show ?case using assms(3) ok s by (auto simp: streaming_def)
  next
    case first: (2 d'' t c)
    then have "t = u" using assms(3) by simp
    have "planned_ok c [] 0"
      using assms(5) first \<open>t = u\<close> zero_V zero_least [OF reach_V] by (simp add: planned_ok_def)
    then show ?case using first \<open>t = u\<close> by (auto simp: streaming_def)
  next
    case planned: (3 d'' t c p')
    then have "t = u" using assms(3) by simp
    obtain b bs where q: "queue s = b # bs" using planned(2) by (cases "queue s") auto
    have "?v = pb_entry_speed_sqr b"
      using q queue_Cons(1) [OF s(1) q] s(2) by (simp add: current_speed_sqr_def entry_speed_def)
    then have re: "replan_list fp p (b # bs @ [c]) = (queue u, p')"
      using planned(3) q \<open>t = u\<close> assms(4) by simp
    have okb: "planned_ok b bs p" and okc: "block_ok fp c" using ok q planned assms(4,5) \<open>t = u\<close> by simp_all
    note add = planned_add [OF okb okc re]
    have "length (tl (queue u)) = Suc (length bs)" unfolding add(1) by simp
    then have "planned_at p' u"
      using planned \<open>t = u\<close> add(2) queue_Cons(3) [OF _ add(1)] by (auto simp: planned_at_def planned_ok_def)
    then show ?case using planned \<open>t = u\<close> add s(2) by (auto simp: streaming_def)
  qed
qed

lemma streaming_discard:
  assumes "streaming s"
  shows "streaming (plan_discard_current_block s)"
proof -
  obtain p where p: "planned_at p s" and s: "ring_ok s" and ok: "case queue s of [] \<Rightarrow> True | b # bs \<Rightarrow> planned_ok b bs p"
    using assms by (auto simp: streaming_def)
  note d = discarded [OF s p]
  have "case queue (plan_discard_current_block s) of [] \<Rightarrow> True | b # bs \<Rightarrow> planned_ok b bs (p - 1)"
    using d(2) ok planned_discard by (auto split: list.splits)
  moreover have "st_pl_block s = None" using assms by (simp add: streaming_def)
  ultimately show ?thesis using d(1,3,4) unfolding streaming_def by metis
qed

end

lemma line_stream_streaming:
  assumes "plan_reset env mem z = (True, s)" and "fresh z" and "ieee (pe_fp env)" and "line_stream env s t"
  shows "rounding.streaming (pe_fp env) t"
proof -
  have r: "rounding (pe_fp env)" using assms(3) by (rule rounding.intro)
  from assms(4) show ?thesis
  proof induction
    case line_stream_start
    have "\<exists>p. planned_at p s" using reset_state(3) [OF assms(1,2)] by blast
    then show ?case unfolding rounding.streaming_def [OF r] using reset_state [OF assms(1,2)] by simp
  next
    case (line_stream_line t target d added d' u)
    show ?case
      by (rule rounding.streaming_line [OF r line_stream_line.IH line_stream_line.hyps(2,3) refl line_stream_line.hyps(4)])
  next
    case (line_stream_discard t)
    show ?case by (rule rounding.streaming_discard [OF r line_stream_discard.IH])
  qed
qed

end
