(* ===== verification/Planner_Demo.thy ===== *)
theory Planner_Demo
  imports Planner_Motions
begin

text \<open>A small machine and a few motions on it, for the examples of the planner's properties.\<close>

definition mill_env :: plan_env where
  "mill_env = \<lparr>pe_fp = exact_fpu, pe_steps_per_mm = [Fin 100, Fin 100, Fin 100], pe_acceleration = [Fin 1000, Fin 1000, Fin 1000],
     pe_max_rate = [Fin 600, Fin 600, Fin 600], pe_junction_deviation = Fin 1, pe_buffer_blocks = 3,
     pe_sys_position = [0, 0, 0], pe_spindle_rpm = (\<lambda>_. f_zero)\<rparr>"

definition demo_planner :: planner where
  "demo_planner = \<lparr>pl_size = 0, pl_blocks = [], pl_linked = False, pl_tail = 0, pl_head = 0, pl_next_head = 0, pl_planned = 0,
     pl_position = [0, 0, 0], pl_previous_unit_vec = [f_zero, f_zero, f_zero], pl_previous_nominal_speed = f_zero,
     pl_actual_rpm = f_zero, pl_feed_rate = 100, pl_rapid_rate = 100, pl_direction = [False, False, False],
     pl_css = (\<lambda>_. \<lparr>css_surface_speed = f_zero, css_target_rpm = f_zero, css_delta_rpm = f_zero, css_max_rpm = f_zero,
       css_tool_offset = f_zero, css_axis = 0\<rparr>),
     st_pl_block = None, st_current_speed = f_zero, sys_feed_rate = 100, sys_rapid_rate = 100, sys_rates_disable = False,
     pl_events = []\<rparr>"

definition demo_data :: plan_line_data where
  "demo_data = (plan_data_init 0 0 True demo_planner)\<lparr>ld_feed_rate := Fin 100\<rparr>"

definition demo0 :: planner where "demo0 = snd (plan_reset mill_env (\<lambda>_. True) demo_planner)"

lemmas demo_defs = mill_env_def demo_planner_def demo_data_def

lemma demo0: "plan_reset mill_env (\<lambda>_. True) demo_planner = (True, demo0)"
  by (simp add: demo0_def plan_reset_def mill_env_def demo_planner_def buffer_size.simps plan_reset_buffer_def Let_def)

lemma demo0_eq: "demo0 = demo_planner\<lparr>pl_size := 3, pl_blocks := [zero_block, zero_block, zero_block, zero_block], pl_linked := True, pl_next_head := 1\<rparr>"
  by (simp add: demo0_def plan_reset_def mill_env_def demo_planner_def buffer_size.simps plan_reset_buffer_def Let_def
    next_block_def N_AXIS_def eval_nat_numeral)


lemma axes: "axes_down = [Suc (Suc 0), Suc 0, 0]" by (simp add: axes_down_def N_AXIS_def upt_rec)
lemma naxis: "N_AXIS = Suc (Suc (Suc 0))" by (simp add: N_AXIS_def)
lemma lround_simps [simp]: "lround (numeral n) = numeral n" "lround 0 = 0"
proof -
  have "\<lfloor>of_int (numeral n) + (1/2::real)\<rfloor> = numeral n" by linarith
  then show "lround (numeral n) = numeral n" by (simp add: lround_def)
qed (simp add: lround_def)

lemma exact_simps [simp]: "fp_round exact_fpu = Fin"
  by (simp add: exact_fpu_def)

lemma sqrt100 [simp]: "sqrt 100 = 10" by (rule real_sqrt_unique) simp_all

lemma plan_buffer_line_eval:
  assumes "foldl (axis_motion env target (pl_position s))
      \<lparr>mo_block = new_block target d, mo_target_steps = replicate N_AXIS 0, mo_unit_vec = replicate N_AXIS f_zero,
       mo_direction = pl_direction s\<rparr> axes_down = m"
    and "\<not> system_motion (ld_condition d)" and "ps_css (pb_spindle (mo_block m)) = None" and "pb_step_event_count (mo_block m) \<noteq> 0"
    and "limit_block env (d\<lparr>ld_message := None, ld_output_commands := None\<rparr>) (mo_unit_vec m)
      ((mo_block m)\<lparr>pb_direction := mo_direction m\<rparr>) = (b, uv)"
    and "b' = b\<lparr>pb_max_junction_speed_sqr := (if pl_head s = pl_tail s then f_zero
      else max_junction_speed_sqr env (pl_previous_unit_vec s) uv)\<rparr>"
    and "plan_compute_profile_nominal_speed env b' (s\<lparr>pl_direction := mo_direction m\<rparr>) = (nominal, s')"
    and "\<not> backlash_motion (ld_condition d)"
    and "b'' = plan_compute_profile_parameters (pe_fp env) nominal (pl_previous_nominal_speed s') b'"
  shows "plan_buffer_line env target d s = map_option (\<lambda>s. (True, d\<lparr>ld_message := None, ld_output_commands := None\<rparr>, s))
    (planner_recalculate (pe_fp env) (plan_push ((upd_block (pl_head s') (\<lambda>_. b'') s')
      \<lparr>pl_previous_nominal_speed := nominal, pl_previous_unit_vec := uv, pl_position := mo_target_steps m\<rparr>)))"
  using assms by (cases "pl_head s = pl_tail s") (simp_all add: plan_buffer_line_def plan_css_def Let_def)

lemmas demo_eval = axes naxis mill_env_def demo_data_def demo_planner_def Let_def axis_motion_def f_lround_def f_of_int_def new_block_def
  zero_block_def plan_data_init_def no_cond_def zero_spindle_def plan_css_def f_eq_def f_sqrt_def f_fun_def f_sub_def fmin_def
  limit_block_def convert_delta_vector_to_unit_vector_def limit_max_rate_by_axis_maximum_def limit_acceleration_by_axis_maximum_def
  limit_by_axis_def SOME_LARGE_VALUE_def plan_compute_profile_nominal_speed_def plan_compute_profile_parameters_def
  MINIMUM_FEED_RATE_def upd_block_def plan_push_def next_block_def prev_block_def planner_recalculate_def

definition demo_block :: "real \<Rightarrow> flt \<Rightarrow> flt \<Rightarrow> flt \<Rightarrow> planner_block" where
  "demo_block x junction limit e = (new_block [Fin x, f_zero, f_zero] demo_data)\<lparr>pb_steps := [1000, 0, 0],
     pb_step_event_count := 1000, pb_millimeters := Fin 10, pb_acceleration := Fin 1000, pb_rapid_rate := Fin 600,
     pb_programmed_rate := Fin 100, pb_max_junction_speed_sqr := junction, pb_max_entry_speed_sqr := limit, pb_entry_speed_sqr := e\<rparr>"

definition demo1 :: planner where
  "demo1 = demo0\<lparr>pl_blocks := [demo_block 10 f_zero f_zero f_zero, zero_block, zero_block, zero_block], pl_head := 1,
     pl_next_head := Suc 1, pl_previous_nominal_speed := Fin 100, pl_previous_unit_vec := [f_one, f_zero, f_zero],
     pl_position := [1000, 0, 0]\<rparr>"

definition demo2 :: planner where
  "demo2 = demo1\<lparr>pl_blocks := [demo_block 10 f_zero f_zero f_zero, demo_block 20 (Fin (10 ^ 38)) (Fin 10000) (Fin 10000), zero_block,
     zero_block], pl_head := Suc 1, pl_next_head := Suc (Suc 1), pl_planned := 1, pl_position := [2000, 0, 0]\<rparr>"

lemma pass_numeral:
  "forward_pass (numeral k) fp a b s =
     (if b = pl_head s then Some s else forward_pass (pred_numeral k) fp b (next_block s b) (forward_step fp a b s))"
  "reverse_pass (numeral k) fp a b s =
     (if b = pl_planned s then Some s
      else reverse_pass (pred_numeral k) fp b (prev_block s b)
        (reverse_step fp a b (if prev_block s b = pl_tail s then st_update_plan_block_parameters fp s else s)))"
  by (simp_all add: numeral_eq_Suc Let_def)

lemmas plan_eval = pass_numeral planner_recalculate_def prev_block_def next_block_def entry_speed_def max_entry_def gain_def speed_gain_def set_entry_speed_def
  upd_block_def reverse_step_def forward_step_def st_update_plan_block_parameters_def

lemma demo_line1: "plan_buffer_line mill_env [Fin 10, f_zero, f_zero] demo_data demo0 = Some (True, demo_data, demo1)"
  by (subst plan_buffer_line_eval, simp add: demo_eval demo0_eq demo1_def max_junction_speed_sqr_def, simp add: demo_eval demo0_eq demo1_def max_junction_speed_sqr_def, simp add: demo_eval demo0_eq demo1_def max_junction_speed_sqr_def, simp add: demo_eval demo0_eq demo1_def max_junction_speed_sqr_def, simp add: demo_eval demo0_eq demo1_def max_junction_speed_sqr_def, rule refl, simp add: demo_eval demo0_eq demo1_def max_junction_speed_sqr_def, simp add: demo_eval demo0_eq demo1_def max_junction_speed_sqr_def, rule refl,
    simp add: demo_eval plan_eval demo_block_def demo0_eq demo1_def max_junction_speed_sqr_def)

lemma demo_line2: "plan_buffer_line mill_env [Fin 20, f_zero, f_zero] demo_data demo1 = Some (True, demo_data, demo2)"
  by (subst plan_buffer_line_eval, simp add: demo_eval demo0_eq demo1_def demo2_def max_junction_speed_sqr_def, simp add: demo_eval demo0_eq demo1_def demo2_def max_junction_speed_sqr_def, simp add: demo_eval demo0_eq demo1_def demo2_def max_junction_speed_sqr_def, simp add: demo_eval demo0_eq demo1_def demo2_def max_junction_speed_sqr_def, simp add: demo_eval demo0_eq demo1_def demo2_def max_junction_speed_sqr_def, rule refl, simp add: demo_eval demo0_eq demo1_def demo2_def max_junction_speed_sqr_def, simp add: demo_eval demo0_eq demo1_def demo2_def max_junction_speed_sqr_def, rule refl,
    simp add: demo_eval plan_eval demo_block_def demo0_eq demo1_def demo2_def max_junction_speed_sqr_def)

text \<open>Two rapid motions and a feed motion, all at 600 mm/min; the second is short.\<close>

definition rapid_data :: plan_line_data where
  "rapid_data = demo_data\<lparr>ld_condition := (ld_condition demo_data)\<lparr>rapid_motion := True\<rparr>\<rparr>"

definition feed_data :: plan_line_data where
  "feed_data = demo_data\<lparr>ld_feed_rate := Fin 600\<rparr>"

definition rapid_block :: "plan_line_data \<Rightarrow> real \<Rightarrow> real \<Rightarrow> flt \<Rightarrow> flt \<Rightarrow> flt \<Rightarrow> planner_block" where
  "rapid_block d x mm junction limit e = (new_block [Fin x, f_zero, f_zero] d)\<lparr>pb_steps := [nat \<lfloor>100 * mm\<rfloor>, 0, 0],
     pb_step_event_count := nat \<lfloor>100 * mm\<rfloor>, pb_millimeters := Fin mm, pb_acceleration := Fin 1000, pb_rapid_rate := Fin 600,
     pb_programmed_rate := Fin 600, pb_max_junction_speed_sqr := junction, pb_max_entry_speed_sqr := limit, pb_entry_speed_sqr := e\<rparr>"

abbreviation large :: flt where "large \<equiv> Fin (10 ^ 38)"

definition rapid1 :: planner where
  "rapid1 = demo0\<lparr>pl_blocks := [rapid_block rapid_data 200 200 f_zero f_zero f_zero, zero_block, zero_block, zero_block], pl_head := 1,
     pl_next_head := Suc 1, pl_previous_nominal_speed := Fin 600, pl_previous_unit_vec := [f_one, f_zero, f_zero],
     pl_position := [20000, 0, 0]\<rparr>"

definition rapid2 :: planner where
  "rapid2 = rapid1\<lparr>pl_blocks := [rapid_block rapid_data 200 200 f_zero f_zero f_zero,
     rapid_block rapid_data 210 10 large (Fin 360000) (Fin 20000), zero_block, zero_block], pl_head := Suc 1,
     pl_next_head := Suc (Suc 1), pl_position := [21000, 0, 0]\<rparr>"

definition rapid3 :: planner where
  "rapid3 = rapid2\<lparr>pl_blocks := [rapid_block rapid_data 200 200 f_zero f_zero f_zero,
     rapid_block rapid_data 210 10 large (Fin 360000) (Fin 360000), rapid_block feed_data 410 200 large (Fin 360000) (Fin 360000), zero_block],
     pl_head := Suc (Suc 1), pl_next_head := 0, pl_planned := Suc (Suc 0), pl_position := [41000, 0, 0]\<rparr>"

lemma sqrt40000 [simp]: "sqrt 40000 = 200" by (rule real_sqrt_unique) simp_all

lemmas rapid_defs = demo0_eq rapid_data_def feed_data_def rapid_block_def rapid1_def rapid2_def rapid3_def percent_def

lemma rapid_line1: "plan_buffer_line mill_env [Fin 200, f_zero, f_zero] rapid_data demo0 = Some (True, rapid_data, rapid1)"
  by (subst plan_buffer_line_eval, simp add: demo_eval rapid_defs max_junction_speed_sqr_def, simp add: demo_eval rapid_defs max_junction_speed_sqr_def, simp add: demo_eval rapid_defs max_junction_speed_sqr_def, simp add: demo_eval rapid_defs max_junction_speed_sqr_def, simp add: demo_eval rapid_defs max_junction_speed_sqr_def, rule refl, simp add: demo_eval rapid_defs max_junction_speed_sqr_def, simp add: demo_eval rapid_defs max_junction_speed_sqr_def, rule refl,
    simp add: demo_eval plan_eval rapid_defs max_junction_speed_sqr_def)

lemma rapid_line2: "plan_buffer_line mill_env [Fin 210, f_zero, f_zero] rapid_data rapid1 = Some (True, rapid_data, rapid2)"
  by (subst plan_buffer_line_eval, simp add: demo_eval rapid_defs max_junction_speed_sqr_def, simp add: demo_eval rapid_defs max_junction_speed_sqr_def, simp add: demo_eval rapid_defs max_junction_speed_sqr_def, simp add: demo_eval rapid_defs max_junction_speed_sqr_def, simp add: demo_eval rapid_defs max_junction_speed_sqr_def, rule refl, simp add: demo_eval rapid_defs max_junction_speed_sqr_def, simp add: demo_eval rapid_defs max_junction_speed_sqr_def, rule refl,
    simp add: demo_eval plan_eval rapid_defs max_junction_speed_sqr_def)

lemma rapid_line3: "plan_buffer_line mill_env [Fin 410, f_zero, f_zero] feed_data rapid2 = Some (True, feed_data, rapid3)"
  by (subst plan_buffer_line_eval, simp add: demo_eval rapid_defs max_junction_speed_sqr_def, simp add: demo_eval rapid_defs max_junction_speed_sqr_def, simp add: demo_eval rapid_defs max_junction_speed_sqr_def, simp add: demo_eval rapid_defs max_junction_speed_sqr_def, simp add: demo_eval rapid_defs max_junction_speed_sqr_def, rule refl, simp add: demo_eval rapid_defs max_junction_speed_sqr_def, simp add: demo_eval rapid_defs max_junction_speed_sqr_def, rule refl,
    simp add: demo_eval plan_eval rapid_defs max_junction_speed_sqr_def)

lemma demo_fresh: "fresh demo_planner"
  by (simp add: fresh_def demo_planner_def)

lemma exact_ok: "block_ok exact_fpu b \<longleftrightarrow> (case speed_gain exact_fpu b of Fin g \<Rightarrow> 0 \<le> g | Infty s \<Rightarrow> \<not> s | NaN \<Rightarrow> False) \<and>
    (case pb_max_entry_speed_sqr b of Fin m \<Rightarrow> 0 \<le> m | Infty s \<Rightarrow> \<not> s | NaN \<Rightarrow> False)"
  by (auto simp: block_ok_def proper_def split: flt.splits)

lemma demo_line_stream: "line_stream mill_env demo0 demo2"
proof -
  have "line_stream mill_env demo0 demo1"
    by (rule line_stream_line [OF line_stream_start _ demo_line1])
      (simp_all add: demo0_eq demo1_def demo_block_def mill_env_def demo_planner_def plan_check_full_buffer_def exact_ok speed_gain_def)
  then show ?thesis
    by (rule line_stream_line [OF _ _ demo_line2])
      (simp_all add: demo0_eq demo1_def demo2_def demo_block_def mill_env_def demo_planner_def plan_check_full_buffer_def exact_ok
        speed_gain_def)
qed

lemma rapid2_motions: "motions mill_env demo0 rapid2"
proof -
  have "motions mill_env demo0 rapid1"
    by (rule motions_line [OF motions_start _ rapid_line1])
      (simp_all add: rapid_defs mill_env_def demo_planner_def plan_check_full_buffer_def exact_ok speed_gain_def)
  then show ?thesis
    by (rule motions_line [OF _ _ rapid_line2])
      (simp_all add: rapid_defs mill_env_def demo_planner_def plan_check_full_buffer_def exact_ok speed_gain_def)
qed

lemma rapid_motions: "motions mill_env demo0 rapid3"
  by (rule motions_line [OF rapid2_motions _ rapid_line3])
    (simp_all add: rapid_defs mill_env_def demo_planner_def plan_check_full_buffer_def exact_ok speed_gain_def)

text \<open>The first of the rapid motions is half way, at 500 mm/min.\<close>

definition rapid_half :: planner where
  "rapid_half = rapid3\<lparr>pl_blocks := (pl_blocks rapid3)[pl_tail rapid3 := (pl_blocks rapid3 ! pl_tail rapid3)\<lparr>pb_millimeters := Fin 100\<rparr>],
     st_pl_block := Some (pl_tail rapid3), st_current_speed := Fin 500\<rparr>"

lemma rapid_half: "motions mill_env demo0 rapid_half"
  unfolding rapid_half_def
  by (rule motions_execute [OF rapid_motions])
    (auto simp: rapid_defs mill_env_def demo_planner_def exact_ok speed_gain_def proper_def plan_get_exec_block_exit_speed_sqr_def
      next_block_def entry_speed_def)

text \<open>The three motions after a feed override of 50 percent: the last entry speed is slower, the one before it is not.\<close>

definition slowed :: planner where
  "slowed = rapid3\<lparr>pl_blocks := [rapid_block rapid_data 200 200 f_zero f_zero f_zero,
     rapid_block rapid_data 210 10 large (Fin 360000) (Fin 360000), rapid_block feed_data 410 200 large (Fin 90000) (Fin 90000), zero_block],
     pl_previous_nominal_speed := Fin 300, pl_feed_rate := 50, sys_feed_rate := 50, pl_events := [OverridesReported, FeedOverrideChanged]\<rparr>"

lemma profiles_numeral:
  "update_profiles (numeral k) env i v s =
     (if i = pl_head s then (v, s)
      else case plan_compute_profile_nominal_speed env (pl_blocks s ! i) s of (w, s) \<Rightarrow>
        (case upd_block i (plan_compute_profile_parameters (pe_fp env) w v) s of s \<Rightarrow>
          update_profiles (pred_numeral k) env (next_block s i) w s))"
  by (simp add: numeral_eq_Suc Let_def)

lemma slowed: "plan_feed_override mill_env 50 0 rapid3 = Some slowed"
  apply (simp add: plan_feed_override_def rapid_defs demo_eval plan_eval plan_feed_override_core_def constrain_def replan_def
    plan_update_velocity_profile_parameters_def profiles_numeral slowed_def plan_cycle_reinitialize_def)
  done

end
