(* ===== verification/Planner_Props.thy ===== *)
theory Planner_Props
  imports Planner_Demo
begin

text \<open>
  The properties of the planner: whatever motions are added, executed and finished, the machine can follow
  the planned speeds and stop at the end of the last one; what a feed override breaks.
\<close>

text \<open>
  C3. Whatever lines are added, executed and finished after a reset, the planned speeds can be followed from
  the current speed: each is within the limit of its block and within reach of its neighbours, and the
  machine comes to rest at the end of the last block.\<close>

theorem planned_motion_stops:
  assumes "plan_reset env mem z = (True, s)" and "fresh z" and "ieee (pe_fp env)" and "motions env s t"
  shows "follows (pe_fp env) (current_speed_sqr (pe_fp env) t) (queue t)"
  using rounding.safe_follows [OF rounding.intro [OF assms(3)] motions_safe [OF assms]] .

theorem planned_motion_stops_witness:
  "motions mill_env demo0 rapid_half \<and> length (queue rapid_half) = 3 \<and> current_speed_sqr exact_fpu rapid_half = Fin 250000 \<and>
   follows exact_fpu (Fin 250000) (queue rapid_half)"
proof -
  have fp: "pe_fp mill_env = exact_fpu" by (simp add: mill_env_def)
  have v: "current_speed_sqr exact_fpu rapid_half = Fin 250000"
    by (simp add: current_speed_sqr_def rapid_half_def)
  have "length (queue rapid_half) = 3"
    by (simp add: rapid_half_def rapid_defs demo_planner_def queue_def ring_list_def ring_count_def)
  with rapid_half v show ?thesis
    using planned_motion_stops [OF demo0 demo_fresh _ rapid_half] unfolding fp by simp
qed

text \<open>
  C8. Take any state reached from a reset by adding, executing and finishing lines (no feed override: after one the
  speeds queued need not be within the limits any more), with room for a line. When a line is added, its planning ends,
  leaves the blocks in front of the planned one and gives the blocks behind it, with the new block, the greatest entry
  speeds of all plans that start with the speed of the planned block, respect the limits, can brake and accelerate
  between neighbours and end at rest. When the planned block is the one being executed, that speed is the current speed.\<close>

theorem recalculate_greatest_plan:
  assumes "plan_reset env mem z = (True, s)" and "fresh z" and "ieee (pe_fp env)" and "motions env s t"
    and "\<not> plan_check_full_buffer t" and "queue t \<noteq> []" and "\<not> system_motion (ld_condition d)"
    and "plan_buffer_line env target d t = Some (True, d', u)" and "block_ok (pe_fp env) (pl_blocks u ! pl_head t)"
  shows "\<exists>as b bs c e es. queue t = as @ b # bs \<and> planned_at (length as) t \<and>
    e = (if as = [] then current_speed_sqr (pe_fp env) t else pb_entry_speed_sqr b) \<and>
    queue u = as @ set_speed e b # set_speeds es (bs @ [c]) \<and>
    feasible (reach (pe_fp env)) pb_max_entry_speed_sqr f_zero e (set_speed e b) (bs @ [c]) es \<and>
    (\<forall>fs. feasible (reach (pe_fp env)) pb_max_entry_speed_sqr f_zero e (set_speed e b) (bs @ [c]) fs \<and>
      set fs \<subseteq> proper (pe_fp env) \<longrightarrow> list_all2 (\<le>) fs es)"
proof -
  have r: "rounding (pe_fp env)" using assms(3) by (rule rounding.intro)
  obtain a as where q: "queue t = a # as" using assms(6) by (cases "queue t") auto
  obtain p where p: "planned_at p t" and t: "ring_ok t" "st_pl_block t = None \<or> st_pl_block t = Some (pl_tail t)"
      "queue t = [] \<Longrightarrow> st_pl_block t = None" and f: "rounding.followed (pe_fp env) (current_speed_sqr (pe_fp env) t) a as"
    using motions_safe [OF assms(1-4)] q by (auto simp: rounding.safe_def [OF r])
  let ?v = "if p = 0 then current_speed_sqr (pe_fp env) t else pb_entry_speed_sqr (hd (queue t))"
  let ?a = "set_speed ?v a" and ?b = "(a # as) ! p"
  have len: "p \<le> length as" using p queue_Cons(3) [OF t(1) q] by (auto simp: planned_at_def)
  obtain c p' where re: "replan_list (pe_fp env) p (?a # as @ [c]) = (queue u, p')" and c: "block_ok (pe_fp env) c"
    by (rule line_state [where env = env and target = target and d = d and v = ?v, OF t(1) p t(2,3) assms(5) refl])
      (use assms(7-9) q in auto)
  have a: "?a = a" if "0 < p" using that q by simp
  have front: "take p (?a # as) = take p (a # as)" using a by (cases "p = 0") simp_all
  have old: "queue t = take p (a # as) @ ?b # drop p as" using q len id_take_nth_drop [of p "a # as"] by simp
  have at: "length (take p (a # as)) = p" "take p (a # as) = [] \<longleftrightarrow> p = 0" using len by auto
  note greatest = rounding.replan_greatest [OF r f c len _ refl re]
  define e where "e = (if p = 0 then current_speed_sqr (pe_fp env) t else pb_entry_speed_sqr ?b)"
  have b: "(?a # as) ! p = set_speed e ?b" by (cases p) (simp_all add: e_def)
  have e: "e = (if take p (a # as) = [] then current_speed_sqr (pe_fp env) t else pb_entry_speed_sqr ?b)" "pb_entry_speed_sqr (set_speed e ?b) = e"
    using at by (simp_all add: e_def)
  have pl: "planned_at (length (take p (a # as))) t" using p at by simp
  note g = greatest [unfolded b front e(2)]
  show ?thesis
    by (intro exI conjI, rule old, rule pl, rule e(1), rule g(1), simp, rule g(2)) (use g(3) in auto)
qed

theorem recalculate_greatest_plan_witness:
  "\<exists>c e es. e = Fin 0 \<and> queue rapid3 = set_speed e (pl_blocks rapid2 ! 0) # set_speeds es [pl_blocks rapid2 ! 1, c] \<and>
    feasible (reach exact_fpu) pb_max_entry_speed_sqr f_zero e (set_speed e (pl_blocks rapid2 ! 0)) [pl_blocks rapid2 ! 1, c] es"
proof -
  have q: "queue rapid2 = [pl_blocks rapid2 ! 0, pl_blocks rapid2 ! 1]"
    by (simp add: rapid_defs demo_planner_def queue_def ring_list_def ring_count_def upt_rec)
  have room: "\<not> plan_check_full_buffer rapid2" and m: "\<not> system_motion (ld_condition feed_data)"
    and ok: "block_ok exact_fpu (pl_blocks rapid3 ! pl_head rapid2)"
    by (simp_all add: rapid_defs demo_data_def plan_data_init_def no_cond_def demo_planner_def plan_check_full_buffer_def exact_ok speed_gain_def)
  have at: "as = []" if "planned_at (length as) rapid2" for as :: "planner_block list"
    using that by (auto simp: planned_at_def slot_def rapid_defs demo_planner_def ring_len_def ring_count_def)
  have v: "current_speed_sqr exact_fpu rapid2 = Fin 0"
    by (simp add: current_speed_sqr_def rapid_defs demo_planner_def entry_speed_def new_block_def zero_block_def)
  have fp: "pe_fp mill_env = exact_fpu" by (simp add: mill_env_def)
  from recalculate_greatest_plan [OF demo0 demo_fresh _ rapid2_motions room _ m rapid_line3, unfolded fp, OF ieee_exact _ ok] q
  obtain as b bs c e es where "[pl_blocks rapid2 ! 0, pl_blocks rapid2 ! 1] = as @ b # bs" and p: "planned_at (length as) rapid2"
    and "e = (if as = [] then current_speed_sqr exact_fpu rapid2 else pb_entry_speed_sqr b)"
    and "queue rapid3 = as @ set_speed e b # set_speeds es (bs @ [c])"
    and "feasible (reach exact_fpu) pb_max_entry_speed_sqr f_zero e (set_speed e b) (bs @ [c]) es"
    by auto
  then show ?thesis using at [OF p] v by (intro exI [of _ c] exI [of _ e] exI [of _ es]) auto
qed

text \<open>
  C4. Planning only behind the planned block loses nothing: while lines are added and finished after a reset, the
  queued blocks carry the greatest plan for the whole queue from the speed of its first block.\<close>

theorem incremental_plan_optimal:
  assumes "plan_reset env mem z = (True, s)" and "fresh z" and "ieee (pe_fp env)" and "line_stream env s t" and "queue t = b # bs"
  shows "speeds bs = top_speeds (reach (pe_fp env)) pb_max_entry_speed_sqr f_zero (pb_entry_speed_sqr b) b bs"
proof -
  have r: "rounding (pe_fp env)" using assms(3) by (rule rounding.intro)
  from line_stream_streaming [OF assms(1-4)] assms(5) show ?thesis
    by (auto simp: rounding.streaming_def [OF r] rounding.planned_ok_def [OF r])
qed

theorem incremental_plan_optimal_witness:
  "line_stream mill_env demo0 demo2 \<and> (\<exists>b c. queue demo2 = [b, c] \<and>
    [pb_entry_speed_sqr c] = top_speeds (reach exact_fpu) pb_max_entry_speed_sqr f_zero f_zero b [c] \<and> pb_entry_speed_sqr c = Fin 10000)"
proof -
  let ?b = "pl_blocks demo2 ! 0" and ?c = "pl_blocks demo2 ! 1"
  have q: "queue demo2 = [?b, ?c]"
    by (simp add: demo2_def demo1_def demo0_eq demo_planner_def queue_def ring_list_def ring_count_def upt_rec)
  have e: "pb_entry_speed_sqr ?b = f_zero" "pb_entry_speed_sqr ?c = Fin 10000" by (simp_all add: demo2_def demo_block_def new_block_def zero_block_def)
  have "pe_fp mill_env = exact_fpu" by (simp add: mill_env_def)
  then show ?thesis
    using incremental_plan_optimal [OF demo0 demo_fresh _ demo_line_stream q] demo_line_stream q e by (metis ieee_exact list.simps(8,9))
qed

text \<open>
  C37. Adding a line returns: in every state reached from a reset both passes of the planner end.\<close>

theorem buffer_line_returns:
  assumes "plan_reset env mem z = (True, s)" and "fresh z" and "ieee (pe_fp env)" and "motions env s t" and "\<not> plan_check_full_buffer t"
  shows "\<exists>r. plan_buffer_line env target d t = Some r"
proof -
  have r: "rounding (pe_fp env)" using assms(3) by (rule rounding.intro)
  obtain p where p: "planned_at p t" and t: "ring_ok t" "st_pl_block t = None \<or> st_pl_block t = Some (pl_tail t)"
      "queue t = [] \<Longrightarrow> st_pl_block t = None"
    using motions_safe [OF assms(1-4)] by (auto simp: rounding.safe_def [OF r] split: list.splits)
  show ?thesis
    by (rule line_state [where env = env and target = target and d = d, OF t(1) p t(2,3) assms(5) refl]) auto
qed

theorem buffer_line_returns_witness:
  "\<exists>r. plan_buffer_line mill_env [Fin 1, Fin 2, Fin 3] demo_data demo1 = Some r"
proof -
  have "motions mill_env demo0 demo1"
    by (rule motions_line [OF motions_start _ demo_line1])
      (simp_all add: demo0_eq demo1_def demo_block_def mill_env_def demo_planner_def plan_check_full_buffer_def exact_ok speed_gain_def)
  moreover have "\<not> plan_check_full_buffer demo1"
    by (simp add: demo0_eq demo1_def demo_planner_def plan_check_full_buffer_def)
  ultimately show ?thesis
    using buffer_line_returns [OF demo0 demo_fresh] ieee_exact by (simp add: mill_env_def)
qed

text \<open>
  C36. The queue is first in first out and its room is known: the available blocks are those not ring_len, a line that is
  pushed comes last with nothing but speeds changed before it, and a discarded block was the first.\<close>

theorem planner_queue_fifo:
  assumes "plan_reset env mem z = (True, s)" and "fresh z" and "ieee (pe_fp env)" and "motions env s t"
  shows "plan_get_block_buffer_available t = pl_size t - length (queue t) \<and>
    (plan_check_full_buffer t \<longleftrightarrow> length (queue t) = pl_size t) \<and>
    plan_get_current_block t = (if queue t = [] then None else Some (pl_tail t)) \<and>
    queue (plan_discard_current_block t) = tl (queue t) \<and>
    (\<not> plan_check_full_buffer t \<and> plan_buffer_line env target d t = Some (added, d', u) \<longrightarrow>
      (\<exists>c. map (set_speed f_zero) (queue u) = map (set_speed f_zero)
         (queue t @ (if added \<and> \<not> system_motion (ld_condition d) then [c] else []))))"
proof -
  have r: "rounding (pe_fp env)" using assms(3) by (rule rounding.intro)
  obtain p where p: "planned_at p t" and t: "ring_ok t" "st_pl_block t = None \<or> st_pl_block t = Some (pl_tail t)"
      "queue t = [] \<Longrightarrow> st_pl_block t = None"
    using motions_safe [OF assms(1-4)] by (auto simp: rounding.safe_def [OF r] split: list.splits)
  have len: "length (queue t) = ring_len t" using t(1) by simp
  have "plan_get_block_buffer_available t = pl_size t - length (queue t)"
    unfolding len using t(1)
    by (auto simp: plan_get_block_buffer_available_def ring_len_def ring_count_cases ring_ok_def less_Suc_eq_le)
  moreover have "plan_check_full_buffer t \<longleftrightarrow> length (queue t) = pl_size t"
    unfolding len using t(1)
    by (auto simp: plan_check_full_buffer_def ring_len_def ring_count_cases ring_ok_def less_Suc_eq_le next_block_def)
  moreover have "plan_get_current_block t = (if queue t = [] then None else Some (pl_tail t))"
    using queue_Nil [OF t(1)] by (auto simp: plan_get_current_block_def)
  moreover have "queue (plan_discard_current_block t) = tl (queue t)" by (rule discarded(2) [OF t(1) p])
  moreover have "\<exists>c. map (set_speed f_zero) (queue u) = map (set_speed f_zero)
      (queue t @ (if added \<and> \<not> system_motion (ld_condition d) then [c] else []))"
    if full: "\<not> plan_check_full_buffer t" and line: "plan_buffer_line env target d t = Some (added, d', u)"
  proof (rule line_state [where env = env and target = target and d = d, OF t(1) p t(2,3) full refl], goal_cases)
    case (2 a d'' v)
    then show ?case using line by auto
  next
    case (3 d'' v c)
    then show ?case using line by (intro exI [of _ c]) simp
  next
    case (4 d'' v c p')
    then have "v = u" and ne: "queue t \<noteq> []" using line by simp_all
    have "map (set_speed f_zero) (queue u) = map (set_speed f_zero) (queue t @ [c])"
      using replan_list_only [of f_zero "pe_fp env" p] 4(3) ne unfolding \<open>v = u\<close>
      by (metis (no_types, lifting) append_Cons fst_conv list.collapse list.simps(9) set_speed_simps(7))
    then show ?case using 4 line by (intro exI [of _ c]) simp
  qed
  ultimately show ?thesis by blast
qed

theorem planner_queue_fifo_witness:
  "plan_get_block_buffer_available rapid3 = 0 \<and> plan_check_full_buffer rapid3 \<and>
   queue (plan_discard_current_block rapid3) = tl (queue rapid3)"
proof -
  have fp: "ieee (pe_fp mill_env)" by (simp add: mill_env_def)
  have "length (queue rapid3) = 3" "pl_size rapid3 = 3"
    by (simp_all add: rapid_defs demo_planner_def queue_def ring_list_def ring_count_def)
  then show ?thesis using planner_queue_fifo [OF demo0 demo_fresh fp rapid_motions] by simp
qed

text \<open>
  C9. No step is lost: a line leaves the position of the machine at the tail of the queue alone, the planner's position less the
  signed steps of all queued blocks, whatever is rounded. Lines that take up backlash are left out, they
  do not move the position.\<close>

theorem no_steps_lost:
  assumes "plan_reset env mem z = (True, s)" and "fresh z" and "ieee (pe_fp env)" and "motions env s t"
    and "\<not> plan_check_full_buffer t" and "plan_buffer_line env target d t = Some (added, d', u)"
    and "\<not> backlash_motion (ld_condition d)" and "length (pl_direction t) = N_AXIS" and "i < N_AXIS"
  shows "pl_position u ! i - queue_steps (queue u) i = pl_position t ! i - queue_steps (queue t) i \<and>
    (added \<and> \<not> system_motion (ld_condition d) \<longrightarrow> pl_position u ! i = target_steps env target i)"
proof -
  have r: "rounding (pe_fp env)" using assms(3) by (rule rounding.intro)
  obtain p where p: "planned_at p t" and t: "ring_ok t" "st_pl_block t = None \<or> st_pl_block t = Some (pl_tail t)"
      "queue t = [] \<Longrightarrow> st_pl_block t = None"
    using motions_safe [OF assms(1-4)] by (auto simp: rounding.safe_def [OF r] split: list.splits)
  have same: "queue_steps q i = queue_steps q' i" if "map (set_speed f_zero) q = map (set_speed f_zero) q'" for q q'
  proof -
    have "(\<lambda>b. block_steps b i) = (\<lambda>b. block_steps (set_speed f_zero b) i)"
      by (simp add: block_steps_def set_speed_def fun_eq_iff)
    then have "queue_steps q i = sum_list (map (\<lambda>b. block_steps b i) (map (set_speed f_zero) q))" for q
      unfolding queue_steps_def by (simp add: comp_def)
    with that show ?thesis by metis
  qed
  show ?thesis
  proof (rule line_state [where env = env and target = target and d = d, OF t(1) p t(2,3) assms(5) refl], goal_cases)
    case (2 a d'' v)
    then show ?case using assms(6) by auto
  next
    case (3 d'' v c)
    then show ?case using assms(6-9) by (auto simp: moved_def queue_steps_def)
  next
    case (4 d'' v c p')
    then have "v = u" and ne: "queue t \<noteq> []" using assms(6) by simp_all
    have "map (set_speed f_zero) (queue u) = map (set_speed f_zero) (queue t @ [c])"
      using replan_list_only [of f_zero "pe_fp env" p] 4(3) ne unfolding \<open>v = u\<close>
      by (metis (no_types, lifting) append_Cons fst_conv list.collapse list.simps(9) set_speed_simps(7))
    from same [OF this] show ?case using 4 assms(6-9) \<open>v = u\<close> by (auto simp: moved_def queue_steps_def)
  qed
qed

theorem no_steps_lost_witness:
  "\<exists>u. plan_buffer_line mill_env [Fin 210, f_zero, f_zero] rapid_data rapid1 = Some (True, rapid_data, u) \<and>
    pl_position u ! 0 = 21000 \<and> queue_steps (queue u) 0 = 21000"
proof -
  have fp: "ieee (pe_fp mill_env)" by (simp add: mill_env_def)
  have m: "motions mill_env demo0 rapid1"
    by (rule motions_line [OF motions_start _ rapid_line1])
      (simp_all add: rapid_defs mill_env_def demo_planner_def plan_check_full_buffer_def exact_ok speed_gain_def)
  have "\<not> plan_check_full_buffer rapid1" "\<not> backlash_motion (ld_condition rapid_data)" "length (pl_direction rapid1) = N_AXIS"
    "0 < N_AXIS" "\<not> system_motion (ld_condition rapid_data)"
    "target_steps mill_env [Fin 210, f_zero, f_zero] 0 = 21000"
    by (simp_all add: rapid_defs demo_eval plan_check_full_buffer_def target_steps_def)
  moreover have "pl_position rapid1 ! 0 = 20000" "queue_steps (queue rapid1) 0 = 20000"
    by (simp_all add: rapid_defs demo_planner_def queue_steps_def block_steps_def queue_def ring_list_def ring_count_def
      new_block_def zero_block_def N_AXIS_def)
  ultimately show ?thesis
    using no_steps_lost [OF demo0 demo_fresh fp m _ rapid_line2, of 0] rapid_line2 by auto
qed

text \<open>
  C38. A feed override can leave a plan that cannot be followed. Two rapid motions, not subject to it, are followed by a feed motion
  whose entry limit the override lowers; the entry speed of the short rapid motion before it stays at its limit,
  because the reverse pass skips every block whose entry speed equals its limit.\<close>

theorem feed_override_breaks_plan:
  "\<exists>u. motions mill_env demo0 rapid3 \<and> follows exact_fpu (current_speed_sqr exact_fpu rapid3) (queue rapid3) \<and>
     plan_feed_override mill_env 50 0 rapid3 = Some u \<and> \<not> follows exact_fpu (current_speed_sqr exact_fpu u) (queue u)"
proof -
  have "follows exact_fpu (current_speed_sqr exact_fpu rapid3) (queue rapid3)"
    by (simp add: rapid_defs demo_planner_def current_speed_sqr_def entry_speed_def speed_gain_def queue_def ring_list_def ring_count_def
      upt_rec new_block_def zero_block_def Let_def)
  moreover have "plan_feed_override mill_env 50 0 rapid3 = Some slowed"
    by (rule slowed)
  moreover have "\<not> follows exact_fpu (current_speed_sqr exact_fpu slowed) (queue slowed)"
    by (simp add: slowed_def rapid_defs demo_planner_def current_speed_sqr_def entry_speed_def speed_gain_def queue_def ring_list_def
      ring_count_def upt_rec new_block_def zero_block_def Let_def)
  ultimately show ?thesis using rapid_motions by blast
qed

end
