(* ===== verification/Stepper.thy ===== *)
theory Stepper
  imports Planner StateMachine
begin

text \<open>
  The step generator of \<open>grbl/stepper.c\<close>. The main program cuts the first block of the planner into segments
  of constant rate (\<open>st_prep_buffer\<close>), the timer interrupt executes them step by step
  (\<open>stepper_driver_interrupt_handler\<close>). Between them is a ring of segments; the data of the block a segment
  belongs to is in a second ring, so that the planner's block can be discarded when it is cut up. Pointers
  into a ring are indices. The default configuration is modelled: three axes, step smoothing (AMASS) on,
  no spindle synchronisation, jerk limit, kinematics or backlash compensation. Machine integers of the
  interrupt have their width; positions are integers without bound.

  The system state (state, flags, step control) is that of the machine state machine, the planner that of
  the motion planner, whose fields \<open>st_pl_block\<close> and \<open>st_current_speed\<close> are \<open>pl_block\<close> and
  \<open>prep.current_speed\<close> of this module.
\<close>

definition SEGMENT_BUFFER_SIZE :: nat where "SEGMENT_BUFFER_SIZE = 10"
definition MAX_AMASS_LEVEL :: nat where "MAX_AMASS_LEVEL = 3"
definition ACCELERATION_TICKS_PER_SECOND :: nat where "ACCELERATION_TICKS_PER_SECOND = 100"

definition DT_SEGMENT :: "fpu \<Rightarrow> flt" where
  "DT_SEGMENT fp = f_div fp (Fin 1) (f_mul fp (f_of_int fp (int ACCELERATION_TICKS_PER_SECOND)) (Fin 60))"

definition REQ_MM_INCREMENT_SCALAR :: flt where "REQ_MM_INCREMENT_SCALAR = Fin 1.25"

subsection \<open>Data\<close>

datatype ramp_type = Ramp_Accel | Ramp_Cruise | Ramp_Decel | Ramp_DecelOverride

record st_block =
  sb_steps :: "u32 list"
  sb_step_event_count :: u32
  sb_steps_per_mm :: flt
  sb_millimeters :: flt
  sb_programmed_rate :: flt
  sb_message :: "string option"
  sb_output_commands :: "nat option"
  sb_direction :: "bool list"
  sb_overrides :: u16
  sb_backlash_motion :: bool
  sb_dynamic_rpm :: bool
  sb_offset_id :: int
  sb_spindle :: nat

record segment =
  sg_exec_block :: nat
  sg_cycles_per_tick :: u32
  sg_current_rate :: flt
  sg_target_position :: flt
  sg_n_step :: u32
  sg_spindle_pwm :: nat
  sg_spindle_rpm :: flt
  sg_ramp_type :: ramp_type
  sg_spindle_sync :: bool
  sg_cruising :: bool
  sg_amass_level :: nat
  sg_update_pwm :: bool \<comment> \<open>the function pointer is set\<close>
  sg_update_rpm :: bool

record stepper =
  sx_new_block :: bool
  sx_dir_changed :: "bool list"
  sx_step_out :: "bool list"
  sx_dir_out :: "bool list"
  sx_amass_level :: nat
  sx_step_count :: u32
  sx_step_event_count :: u32
  sx_steps :: "u32 list"
  sx_counter :: "u32 list"
  sx_exec_block :: "nat option"
  sx_exec_segment :: "nat option"

record prep_flags =
  velocity_profile :: bool
  hold_partial_block :: bool
  parking_flag :: bool
  decel_override :: bool

record prep =
  pr_recalculate :: prep_flags
  pr_ramp_type :: ramp_type
  pr_dt_remainder :: flt
  pr_steps_remaining :: u32
  pr_steps_per_mm :: flt
  pr_req_mm_increment :: flt
  pr_last_st_block :: "nat option"
  pr_last_steps_remaining :: u32
  pr_last_steps_per_mm :: flt
  pr_last_dt_remainder :: flt
  pr_mm_complete :: flt
  pr_maximum_speed :: flt
  pr_exit_speed :: flt
  pr_accelerate_until :: flt
  pr_decelerate_after :: flt
  pr_target_position :: flt
  pr_target_feed :: flt
  pr_inv_feedrate :: flt
  pr_current_spindle_rpm :: flt

text \<open>An output to switch together with a motion, and the spindle's data.\<close>

record output_command =
  oc_is_digital :: bool
  oc_port :: nat
  oc_value :: int

record spindle_param =
  sq_rpm :: flt
  sq_rpm_overridden :: flt
  sq_override_pct :: nat
  sq_option_override_disable :: bool
  sq_state_override_disable :: bool

record spindle_hal =
  sh_laser :: bool
  sh_rpm_min :: flt
  sh_rpm_max :: flt
  sh_get_pwm :: "(flt \<Rightarrow> nat) option"
  sh_pwm_off_value :: nat

datatype step_task = Task_deenergize | Task_sync_velocity

datatype step_event =
    PulseStart "bool list" "bool list" \<comment> \<open>the step and the direction signals\<close>
  | CyclesPerTick u32
  | DriverGoIdle bool
  | DriverWakeUp
  | SteppersEnable "bool list" bool
  | DelayMs nat
  | RealtimeWCO
  | DigitalOut nat bool
  | AnalogOut nat flt
  | FreedCommandsRead nat \<comment> \<open>a list of output commands is read after it was freed\<close>
  | MessageQueued string
  | MessageDropped string
  | SpindlePwm nat nat
  | SpindleRpm nat flt
  | ProbeConfigure
  | TaskDeleted step_task
  | TaskDelayed step_task nat

record step_env =
  se_plan :: plan_env
  se_f_step_timer :: u32
  se_idle_lock_time :: nat
  se_energize :: "bool list"
  se_enable_invert :: "bool list"
  se_enable_delay :: nat
  se_parking_enabled :: bool
  se_probe_configure :: bool
  se_probe_triggered :: bool
  se_task_ok :: bool \<comment> \<open>a task could be queued\<close>
  se_spindle :: "nat \<Rightarrow> spindle_hal"

record stepgen =
  g_pl :: planner
  g_sys :: sm
  g_st :: stepper
  g_blocks :: "st_block list" \<comment> \<open>\<open>st_block_buffer\<close>\<close>
  g_segments :: "segment list"
  g_head :: nat
  g_tail :: nat
  g_prep :: prep
  g_prep_block :: nat \<comment> \<open>\<open>st_prep_block\<close>\<close>
  g_hold_block :: st_block
  g_stepping :: bool
  g_fast_hold :: bool \<comment> \<open>\<open>exec_fast_hold\<close>\<close>
  g_isr_cycles :: u32 \<comment> \<open>the static variable of the interrupt handler\<close>
  g_amass :: "u32 \<times> u32 \<times> u32"
  g_cycles_per_min :: flt
  g_position :: "int list" \<comment> \<open>\<open>sys.position\<close>\<close>
  g_probe_position :: "int list"
  g_probing_active :: bool
  g_homing_axis_lock :: "bool list"
  g_steppers_enabled :: bool
  g_override_control :: u16
  g_commands :: "nat \<Rightarrow> output_command list" \<comment> \<open>the lists of output commands in memory\<close>
  g_spindles :: "nat \<Rightarrow> spindle_param"
  g_events :: "step_event list"

abbreviation sfp :: "step_env \<Rightarrow> fpu" where "sfp env \<equiv> pe_fp (se_plan env)"

definition g_log :: "step_event list \<Rightarrow> stepgen \<Rightarrow> stepgen" where
  "g_log es s = s\<lparr>g_events := g_events s @ es\<rparr>"

definition on_st :: "(stepper \<Rightarrow> stepper) \<Rightarrow> stepgen \<Rightarrow> stepgen" where
  "on_st f s = s\<lparr>g_st := f (g_st s)\<rparr>"

definition on_prep :: "(prep \<Rightarrow> prep) \<Rightarrow> stepgen \<Rightarrow> stepgen" where
  "on_prep f s = s\<lparr>g_prep := f (g_prep s)\<rparr>"

definition on_pl :: "(planner \<Rightarrow> planner) \<Rightarrow> stepgen \<Rightarrow> stepgen" where
  "on_pl f s = s\<lparr>g_pl := f (g_pl s)\<rparr>"

definition on_step_control :: "(step_control \<Rightarrow> step_control) \<Rightarrow> stepgen \<Rightarrow> stepgen" where
  "on_step_control f s = s\<lparr>g_sys := (g_sys s)\<lparr>s_step_control := f (s_step_control (g_sys s))\<rparr>\<rparr>"

definition on_recalculate :: "(prep_flags \<Rightarrow> prep_flags) \<Rightarrow> stepgen \<Rightarrow> stepgen" where
  "on_recalculate f = on_prep (\<lambda>p. p\<lparr>pr_recalculate := f (pr_recalculate p)\<rparr>)"

lemmas on_defs = g_log_def on_st_def on_prep_def on_pl_def on_step_control_def on_recalculate_def

text \<open>The rings are circular linked lists; the element after the last is the first.\<close>

definition next_segment :: "nat \<Rightarrow> nat" where
  "next_segment i = (if i = SEGMENT_BUFFER_SIZE - 1 then 0 else Suc i)"

definition next_st_block :: "nat \<Rightarrow> nat" where
  "next_st_block i = (if i = SEGMENT_BUFFER_SIZE - 2 then 0 else Suc i)"

subsection \<open>Enabling and shutting down\<close>

definition st_deenergize :: "step_env \<Rightarrow> stepgen \<Rightarrow> stepgen" where
  "st_deenergize env s =
     (if s_steppers_deenergize (g_sys s)
      then (g_log [SteppersEnable (se_energize env) True] s)\<lparr>g_sys := (g_sys s)\<lparr>s_steppers_deenergize := False\<rparr>\<rparr>
      else s)"

definition st_wake_up :: "step_env \<Rightarrow> stepgen \<Rightarrow> stepgen" where
  "st_wake_up env s =
     (let s = on_st (\<lambda>t. t\<lparr>sx_dir_out := replicate N_AXIS False\<rparr>) (s\<lparr>g_stepping := True\<rparr>);
          s = g_log [DriverGoIdle True] (s\<lparr>g_sys := (g_sys s)\<lparr>s_steppers_deenergize := False\<rparr>\<rparr>);
          s = (if \<not> g_steppers_enabled s \<and> se_enable_delay env \<noteq> 0
               then g_log [SteppersEnable (replicate N_AXIS True) False, DelayMs (se_enable_delay env)] s else s)
      in g_log [DriverWakeUp] s)"

definition st_go_idle :: "step_env \<Rightarrow> stepgen \<Rightarrow> stepgen" where
  "st_go_idle env s =
     (let state = s_state (g_sys s);
          s = g_log [DriverGoIdle False, TaskDeleted Task_sync_velocity] (s\<lparr>g_stepping := False\<rparr>)
      in if (se_idle_lock_time env \<noteq> 255 \<or> s_rt_exec_alarm (g_sys s) \<noteq> Alarm_None \<or> state = STATE_SLEEP) \<and> state \<noteq> STATE_HOMING
         then if se_idle_lock_time env = 0 \<or> state = STATE_SLEEP
              then g_log [SteppersEnable (replicate N_AXIS False) True] s
              else (g_log ([TaskDeleted Task_deenergize] @ (if se_task_ok env then [TaskDelayed Task_deenergize (se_idle_lock_time env)] else [])) s)
                     \<lparr>g_sys := (g_sys s)\<lparr>s_steppers_deenergize := se_task_ok env\<rparr>\<rparr>
         else g_log [SteppersEnable (if se_idle_lock_time env = 255 then replicate N_AXIS True else se_energize env) True] s)"

definition st_is_stepping :: "stepgen \<Rightarrow> bool" where
  "st_is_stepping s \<longleftrightarrow> g_stepping s \<and> sx_exec_block (g_st s) \<noteq> None"

subsection \<open>The stepper interrupt\<close>

text \<open>The pulses computed by the interrupt before are put out first.\<close>

definition isr_pulse :: "stepgen \<Rightarrow> stepgen" where
  "isr_pulse s =
     (if sx_exec_block (g_st s) = None then s
      else
        let s = g_log [PulseStart (sx_step_out (g_st s)) (sx_dir_out (g_st s))] s;
            s = on_st (\<lambda>t. t\<lparr>sx_new_block := False\<rparr>) s
        in if sx_step_count (g_st s) = 0 then on_st (\<lambda>t. t\<lparr>sx_exec_segment := None\<rparr>) s else s)"

definition command_event :: "fpu \<Rightarrow> output_command \<Rightarrow> step_event" where
  "command_event fp c =
     (if oc_is_digital c then DigitalOut (oc_port c) (oc_value c \<noteq> 0) else AnalogOut (oc_port c) (f_of_int fp (oc_value c)))"

text \<open>The output commands of a block. The list may have been freed with the planner's block.\<close>

definition isr_commands :: "fpu \<Rightarrow> st_block \<Rightarrow> stepgen \<Rightarrow> step_event list" where
  "isr_commands fp b s =
     (case sb_output_commands b of
        None \<Rightarrow> []
      | Some p \<Rightarrow> if CommandsFreed p \<in> set (pl_events (g_pl s)) then [FreedCommandsRead p]
                 else map (command_event fp) (g_commands s p))"

definition isr_message :: "step_env \<Rightarrow> st_block \<Rightarrow> step_event list" where
  "isr_message env b =
     (case sb_message b of None \<Rightarrow> [] | Some m \<Rightarrow> if se_task_ok env then [MessageQueued m] else [MessageDropped m])"

definition OVERRIDE_SYNC :: u16 where "OVERRIDE_SYNC = 0x4000"

definition isr_new_block :: "step_env \<Rightarrow> nat \<Rightarrow> stepgen \<Rightarrow> stepgen" where
  "isr_new_block env i s =
     (let b = g_blocks s ! i; st = g_st s;
          changed = map2 (\<noteq>) (sx_dir_out st) (sb_direction b);
          wco = (case sx_exec_block st of None \<Rightarrow> [] | Some j \<Rightarrow>
                   if sb_offset_id (g_blocks s ! j) \<noteq> sb_offset_id b then [RealtimeWCO] else []);
          s = g_log wco (on_st (\<lambda>t. t\<lparr>sx_dir_changed := changed,
                sx_dir_out := (if True \<in> set changed then sb_direction b else sx_dir_out t),
                sx_exec_block := Some i, sx_step_event_count := sb_step_event_count b, sx_new_block := True\<rparr>) s);
          s = (if sb_overrides b AND OVERRIDE_SYNC \<noteq> 0 then s\<lparr>g_override_control := sb_overrides b\<rparr> else s);
          s = g_log (isr_commands (sfp env) b s @ isr_message env b) s;
          s = s\<lparr>g_blocks := (g_blocks s)[i := b\<lparr>sb_output_commands := None, sb_message := None\<rparr>]\<rparr>
      in on_st (\<lambda>t. t\<lparr>sx_counter := replicate N_AXIS (drop_bit 1 (sx_step_event_count t))\<rparr>) s)"

definition isr_load :: "step_env \<Rightarrow> stepgen \<Rightarrow> stepgen" where
  "isr_load env s =
     (let seg = g_segments s ! g_tail s;
          s = on_st (\<lambda>t. t\<lparr>sx_exec_segment := Some (g_tail s)\<rparr>) s;
          s = (if sg_cycles_per_tick seg \<noteq> g_isr_cycles s
               then (g_log [CyclesPerTick (sg_cycles_per_tick seg)] s)\<lparr>g_isr_cycles := sg_cycles_per_tick seg\<rparr> else s);
          s = on_st (\<lambda>t. t\<lparr>sx_step_count := sg_n_step seg\<rparr>) s;
          s = (if sx_exec_block (g_st s) \<noteq> Some (sg_exec_block seg) then isr_new_block env (sg_exec_block seg) s else s);
          b = g_blocks s ! sg_exec_block seg;
          s = on_st (\<lambda>t. t\<lparr>sx_amass_level := sg_amass_level seg,
                sx_steps := map (\<lambda>idx. drop_bit (sg_amass_level seg) (sb_steps b ! idx)) [0..<N_AXIS]\<rparr>) s
      in if sg_update_pwm seg then g_log [SpindlePwm (sb_spindle b) (sg_spindle_pwm seg)] s
         else if sg_update_rpm seg then g_log [SpindleRpm (sb_spindle b) (sg_spindle_rpm seg)] s
         else s)"

definition isr_shutdown :: "step_env \<Rightarrow> stepgen \<Rightarrow> stepgen" where
  "isr_shutdown env s =
     (let s = st_go_idle env s;
          s = (case sx_exec_block (g_st s) of None \<Rightarrow> s | Some i \<Rightarrow>
                 let b = g_blocks s ! i; sp = sb_spindle b
                 in if sb_dynamic_rpm b \<and> sh_laser (se_spindle env sp)
                    then g_log [SpindlePwm sp (sh_pwm_off_value (se_spindle env sp))]
                           (on_prep (\<lambda>p. p\<lparr>pr_current_spindle_rpm := f_zero\<rparr>) s)
                    else s)
      in on_st (\<lambda>t. t\<lparr>sx_exec_block := None\<rparr>)
           (s\<lparr>g_isr_cycles := 0, g_sys := set_exec_state_flag EXEC_CYCLE_COMPLETE (g_sys s)\<rparr>))"

definition isr_probe :: "step_env \<Rightarrow> stepgen \<Rightarrow> stepgen" where
  "isr_probe env s =
     (if g_probing_active s \<and> se_probe_triggered env
      then s\<lparr>g_probing_active := False, g_probe_position := g_position s,
             g_sys := set_exec_state_flag EXEC_MOTION_CANCEL (g_sys s)\<rparr>
      else s)"

text \<open>One axis of the Bresenham line algorithm: whether it steps, and its counter. The Z axis is skipped when it
  does not move.\<close>

definition bresenham :: "u32 \<Rightarrow> u32 \<Rightarrow> u32 \<Rightarrow> bool \<times> u32" where
  "bresenham event_count steps counter =
     (let counter = counter + steps in if event_count < counter then (True, counter - event_count) else (False, counter))"

definition axis_tick :: "nat \<Rightarrow> u32 \<Rightarrow> u32 \<Rightarrow> u32 \<Rightarrow> bool \<times> u32" where
  "axis_tick idx event_count steps counter =
     (if idx = 2 \<and> steps = 0 then (False, counter) else bresenham event_count steps counter)"

definition isr_step :: "stepgen \<Rightarrow> stepgen" where
  "isr_step s =
     (let st = g_st s;
          ticks = map (\<lambda>idx. axis_tick idx (sx_step_event_count st) (sx_steps st ! idx) (sx_counter st ! idx)) [0..<N_AXIS];
          step_out = map fst ticks;
          position = map (\<lambda>idx. g_position s ! idx + (if step_out ! idx then if sx_dir_out st ! idx then - 1 else 1 else 0)) [0..<N_AXIS];
          count = (if sx_step_count st = 0 then 0 else sx_step_count st - 1);
          s = on_st (\<lambda>t. t\<lparr>sx_counter := map snd ticks,
                sx_step_out := (if s_is_homing (g_sys s) then map2 (\<and>) step_out (g_homing_axis_lock s) else step_out),
                sx_step_count := count\<rparr>) (s\<lparr>g_position := position\<rparr>)
      in if count = 0 then s\<lparr>g_tail := next_segment (g_tail s)\<rparr> else s)"

definition stepper_driver_interrupt_handler :: "step_env \<Rightarrow> stepgen \<Rightarrow> stepgen" where
  "stepper_driver_interrupt_handler env s =
     (let s = isr_pulse s
      in if sx_exec_segment (g_st s) \<noteq> None then isr_step (isr_probe env s)
         else if g_tail s \<noteq> g_head s then isr_step (isr_probe env (isr_load env s))
         else isr_shutdown env s)"

subsection \<open>Reset and changes of the plan\<close>

definition zero_stepper :: stepper where
  "zero_stepper = \<lparr>sx_new_block = False, sx_dir_changed = replicate N_AXIS False, sx_step_out = replicate N_AXIS False,
     sx_dir_out = replicate N_AXIS False, sx_amass_level = 0, sx_step_count = 0, sx_step_event_count = 0,
     sx_steps = replicate N_AXIS 0, sx_counter = replicate N_AXIS 0, sx_exec_block = None, sx_exec_segment = None\<rparr>"

definition no_recalculate :: prep_flags where
  "no_recalculate = \<lparr>velocity_profile = False, hold_partial_block = False, parking_flag = False, decel_override = False\<rparr>"

definition zero_prep :: prep where
  "zero_prep = \<lparr>pr_recalculate = no_recalculate, pr_ramp_type = Ramp_Accel, pr_dt_remainder = f_zero, pr_steps_remaining = 0,
     pr_steps_per_mm = f_zero, pr_req_mm_increment = f_zero, pr_last_st_block = None, pr_last_steps_remaining = 0,
     pr_last_steps_per_mm = f_zero, pr_last_dt_remainder = f_zero, pr_mm_complete = f_zero, pr_maximum_speed = f_zero,
     pr_exit_speed = f_zero, pr_accelerate_until = f_zero, pr_decelerate_after = f_zero, pr_target_position = f_zero,
     pr_target_feed = f_zero, pr_inv_feedrate = f_zero, pr_current_spindle_rpm = f_zero\<rparr>"

definition amass_levels :: "u32 \<Rightarrow> u32 \<times> u32 \<times> u32" where
  "amass_levels f_step_timer =
     (let level_1 = f_step_timer div 8000; level_2 = push_bit 1 level_1 in (level_1, level_2, push_bit 1 level_2))"

definition st_reset :: "step_env \<Rightarrow> stepgen \<Rightarrow> stepgen" where
  "st_reset env s =
     (let s = (if se_probe_configure env then g_log [ProbeConfigure] s else s);
          s = st_go_idle env s
      in s\<lparr>g_segments := map (\<lambda>seg. seg\<lparr>sg_amass_level := 0\<rparr>) (g_segments s), g_prep_block := 0,
           g_pl := (g_pl s)\<lparr>st_pl_block := None, st_current_speed := f_zero\<rparr>, g_tail := 0, g_head := 0,
           g_prep := zero_prep, g_st := zero_stepper, g_amass := amass_levels (se_f_step_timer env),
           g_cycles_per_min := f_mul (sfp env) (f_of_int (sfp env) (uint (se_f_step_timer env))) (Fin 60)\<rparr>)"

definition st_rpm_changed :: "flt \<Rightarrow> stepgen \<Rightarrow> stepgen" where
  "st_rpm_changed rpm = on_prep (\<lambda>p. p\<lparr>pr_current_spindle_rpm := rpm\<rparr>)"

text \<open>A fast hold drops the segments behind the first that decelerates. The loop cannot go round the ring
  of ten segments twice.\<close>

fun keep_decelerating :: "nat \<Rightarrow> segment list \<Rightarrow> nat \<Rightarrow> nat \<Rightarrow> nat" where
  "keep_decelerating 0 segs old_head head = head"
| "keep_decelerating (Suc n) segs old_head head =
     (if next_segment head \<noteq> old_head \<and> sg_ramp_type (segs ! head) = Ramp_Decel
      then keep_decelerating n segs old_head (next_segment head) else head)"

definition drop_segments :: "stepgen \<Rightarrow> stepgen" where
  "drop_segments s =
     (if next_segment (g_head s) \<noteq> g_tail s then s\<lparr>g_fast_hold := False\<rparr>
      else
        let head = next_segment (g_tail s); st = g_st s;
            near_end = (sx_step_count st < 3 \<or>
              (case sx_exec_segment st of None \<Rightarrow> False | Some i \<Rightarrow> sx_step_count st < drop_bit 3 (sg_n_step (g_segments s ! i))));
            head = (if near_end then next_segment head else head);
            head = keep_decelerating SEGMENT_BUFFER_SIZE (g_segments s) (g_head s) head
        in (on_pl (\<lambda>p. p\<lparr>st_current_speed := sg_current_rate (g_segments s ! head)\<rparr>) s)
             \<lparr>g_fast_hold := True, g_head := next_segment head\<rparr>)"

definition st_update_plan_block :: "step_env \<Rightarrow> bool \<Rightarrow> stepgen \<Rightarrow> stepgen" where
  "st_update_plan_block env fast_hold s =
     (let s = (if fast_hold then drop_segments s else s);
          s = (if st_pl_block (g_pl s) \<noteq> None then on_recalculate (\<lambda>r. r\<lparr>velocity_profile := True\<rparr>) s else s)
      in on_pl (st_update_plan_block_parameters (sfp env)) s)"

text \<open>A call of the planner; if it has the block being cut up loaded again, its profile is to be computed again.\<close>

definition plan_call :: "(planner \<Rightarrow> ('a \<times> planner) option) \<Rightarrow> stepgen \<Rightarrow> ('a \<times> stepgen) option" where
  "plan_call f s =
     map_option (\<lambda>(r, p).
       (r, (if st_pl_block (g_pl s) \<noteq> None \<and> st_pl_block p = None
            then on_recalculate (\<lambda>r. r\<lparr>velocity_profile := True\<rparr>) s else s)\<lparr>g_pl := p\<rparr>)) (f (g_pl s))"

definition st_buffer_line :: "step_env \<Rightarrow> flt list \<Rightarrow> plan_line_data \<Rightarrow> stepgen \<Rightarrow> ((bool \<times> plan_line_data) \<times> stepgen) option" where
  "st_buffer_line env target d =
     plan_call (\<lambda>p. map_option (\<lambda>(added, d', p). ((added, d'), p)) (plan_buffer_line (se_plan env) target d p))"

subsection \<open>Parking motions\<close>

definition st_parking_setup_buffer :: "stepgen \<Rightarrow> stepgen" where
  "st_parking_setup_buffer s =
     (let p = g_prep s;
          s = (if hold_partial_block (pr_recalculate p) \<and> \<not> parking_flag (pr_recalculate p)
               then (on_prep (\<lambda>p. p\<lparr>pr_last_st_block := Some (g_prep_block s), pr_last_steps_remaining := pr_steps_remaining p,
                       pr_last_dt_remainder := pr_dt_remainder p, pr_last_steps_per_mm := pr_steps_per_mm p\<rparr>) s)
                      \<lparr>g_hold_block := g_blocks s ! g_prep_block s\<rparr>
               else s)
      in on_pl (\<lambda>p. p\<lparr>st_pl_block := None\<rparr>)
           (on_recalculate (\<lambda>r. r\<lparr>parking_flag := True, velocity_profile := False\<rparr>) s))"

definition st_parking_restore_buffer :: "step_env \<Rightarrow> stepgen \<Rightarrow> stepgen" where
  "st_parking_restore_buffer env s =
     (let p = g_prep s;
          s = (case (hold_partial_block (pr_recalculate p), pr_last_st_block p) of
                 (True, Some i) \<Rightarrow>
                   (on_prep (\<lambda>p. p\<lparr>pr_steps_remaining := pr_last_steps_remaining p, pr_dt_remainder := pr_last_dt_remainder p,
                      pr_steps_per_mm := pr_last_steps_per_mm p,
                      pr_recalculate := no_recalculate\<lparr>hold_partial_block := True, velocity_profile := True\<rparr>,
                      pr_req_mm_increment := f_div (sfp env) REQ_MM_INCREMENT_SCALAR (pr_last_steps_per_mm p)\<rparr>) s)
                   \<lparr>g_blocks := (g_blocks s)[i := g_hold_block s], g_prep_block := i\<rparr>
               | _ \<Rightarrow> on_recalculate (\<lambda>_. no_recalculate) s)
      in on_pl (\<lambda>p. p\<lparr>st_pl_block := None\<rparr>) s)"

subsection \<open>Loading a block\<close>

text \<open>Step counts are shifted so that no step is lost when a smoothing level divides them.\<close>

definition prep_st_block :: "step_env \<Rightarrow> planner_block \<Rightarrow> st_block \<Rightarrow> st_block" where
  "prep_st_block env b sb =
     (let fp = sfp env in
      sb\<lparr>sb_steps := map (\<lambda>idx. push_bit MAX_AMASS_LEVEL (of_nat (pb_steps b ! idx))) [0..<N_AXIS],
         sb_step_event_count := push_bit MAX_AMASS_LEVEL (of_nat (pb_step_event_count b)),
         sb_direction := pb_direction b, sb_programmed_rate := pb_programmed_rate b, sb_millimeters := pb_millimeters b,
         sb_steps_per_mm := f_div fp (f_of_int fp (int (pb_step_event_count b))) (pb_millimeters b),
         sb_spindle := ps_hal (planner_block.pb_spindle b), sb_output_commands := pb_output_commands b,
         sb_overrides := pb_overrides b, sb_offset_id := pb_offset_id b,
         sb_backlash_motion := backlash_motion (pb_condition b), sb_message := pb_message b\<rparr>)"

definition load_st_block :: "step_env \<Rightarrow> nat \<Rightarrow> stepgen \<Rightarrow> stepgen" where
  "load_st_block env i s =
     (let k = next_st_block (g_prep_block s); b = pl_blocks (g_pl s) ! i
      in on_pl (upd_block i (\<lambda>b. b\<lparr>pb_message := None\<rparr>))
           (s\<lparr>g_prep_block := k,
              g_blocks := (g_blocks s)[k := (prep_st_block env b (g_blocks s ! k))
                \<lparr>sb_dynamic_rpm := is_rpm_rate_adjusted (pb_condition b) \<or> ps_css (planner_block.pb_spindle b) \<noteq> None\<rparr>]\<rparr>))"

definition load_prep :: "step_env \<Rightarrow> planner_block \<Rightarrow> stepgen \<Rightarrow> stepgen" where
  "load_prep env b s =
     (let steps_per_mm = sb_steps_per_mm (g_blocks s ! g_prep_block s)
      in on_prep (\<lambda>p. p\<lparr>pr_steps_per_mm := steps_per_mm, pr_steps_remaining := of_nat (pb_step_event_count b),
           pr_req_mm_increment := f_div (sfp env) REQ_MM_INCREMENT_SCALAR steps_per_mm, pr_dt_remainder := f_zero,
           pr_target_position := f_zero\<rparr>) s)"

text \<open>A block loaded in a hold starts with the speed the last one ended with.\<close>

definition load_speed :: "fpu \<Rightarrow> nat \<Rightarrow> stepgen \<Rightarrow> stepgen" where
  "load_speed fp i s =
     (let exit = pr_exit_speed (g_prep s)
      in if execute_hold (s_step_control (g_sys s)) \<or> decel_override (pr_recalculate (g_prep s))
         then on_recalculate (\<lambda>r. r\<lparr>decel_override := False\<rparr>)
                (on_pl (\<lambda>p. set_entry_speed i (f_mul fp exit exit) (p\<lparr>st_current_speed := exit\<rparr>)) s)
         else on_pl (\<lambda>p. p\<lparr>st_current_speed := f_sqrt fp (entry_speed p i)\<rparr>) s)"

definition load_laser :: "fpu \<Rightarrow> planner_block \<Rightarrow> stepgen \<Rightarrow> stepgen" where
  "load_laser fp b s =
     (if is_rpm_rate_adjusted (pb_condition b)
      then on_prep (\<lambda>p. p\<lparr>pr_inv_feedrate :=
             (if is_laser_ppi_mode (pb_condition b) then Fin 1 else f_div fp (Fin 1) (pb_programmed_rate b))\<rparr>) s
      else s)"

definition prep_load_block :: "step_env \<Rightarrow> nat \<Rightarrow> stepgen \<Rightarrow> stepgen" where
  "prep_load_block env i s =
     (let b = pl_blocks (g_pl s) ! i
      in load_laser (sfp env) b (load_speed (sfp env) i (load_prep env b (load_st_block env i s))))"

text \<open>A profile that is only computed again.\<close>

definition prep_reload :: "step_env \<Rightarrow> stepgen \<Rightarrow> stepgen" where
  "prep_reload env =
     on_recalculate (\<lambda>r. if se_parking_enabled env \<and> parking_flag r then r\<lparr>velocity_profile := False\<rparr> else no_recalculate)"

subsection \<open>The velocity profile of a block\<close>

definition f_gt :: "flt \<Rightarrow> flt \<Rightarrow> bool" where "f_gt a b = f_lt b a"

text \<open>\<open>0.5f / acceleration\<close>; distance from the entry speed to a stop in a feed hold.\<close>

definition hold_profile :: "fpu \<Rightarrow> planner_block \<Rightarrow> prep \<Rightarrow> prep" where
  "hold_profile fp b p =
     (let inv_2_accel = f_div fp (Fin 0.5) (pb_acceleration b);
          decel_dist = f_sub fp (pb_millimeters b) (f_mul fp inv_2_accel (pb_entry_speed_sqr b));
          p = p\<lparr>pr_mm_complete := f_zero, pr_ramp_type := Ramp_Decel\<rparr>
      in if f_lt decel_dist (fp_round fp (- 0.0001))
         then p\<lparr>pr_exit_speed := f_sqrt fp (f_sub fp (pb_entry_speed_sqr b) (speed_gain fp b))\<rparr>
         else p\<lparr>pr_mm_complete := (if f_lt decel_dist (fp_round fp 0.0001) then f_zero else decel_dist), pr_exit_speed := f_zero\<rparr>)"

text \<open>The profile to the exit speed, with the nominal speed as the limit.\<close>

definition normal_profile :: "fpu \<Rightarrow> planner_block \<Rightarrow> flt \<Rightarrow> flt \<Rightarrow> flt \<Rightarrow> prep \<Rightarrow> prep" where
  "normal_profile fp b exit_speed exit_speed_sqr nominal_speed p =
     (let inv_2_accel = f_div fp (Fin 0.5) (pb_acceleration b); mm = pb_millimeters b; entry = pb_entry_speed_sqr b;
          p = p\<lparr>pr_mm_complete := f_zero, pr_ramp_type := Ramp_Accel, pr_accelerate_until := mm, pr_exit_speed := exit_speed,
                pr_target_feed := nominal_speed\<rparr>;
          nominal_speed_sqr = f_mul fp nominal_speed nominal_speed;
          intersect_distance = f_mul fp (Fin 0.5) (f_add fp mm (f_mul fp inv_2_accel (f_sub fp entry exit_speed_sqr)))
      in if f_gt entry nominal_speed_sqr
         then
           let p = p\<lparr>pr_accelerate_until := f_sub fp mm (f_mul fp inv_2_accel (f_sub fp entry nominal_speed_sqr))\<rparr>
           in if f_le (pr_accelerate_until p) f_zero
              then p\<lparr>pr_ramp_type := Ramp_Decel, pr_exit_speed := f_sqrt fp (f_sub fp entry (speed_gain fp b)),
                     pr_recalculate := (pr_recalculate p)\<lparr>decel_override := True\<rparr>\<rparr>
              else p\<lparr>pr_decelerate_after := f_mul fp inv_2_accel (f_sub fp nominal_speed_sqr exit_speed_sqr),
                     pr_maximum_speed := nominal_speed, pr_ramp_type := Ramp_DecelOverride\<rparr>
         else if f_gt intersect_distance f_zero
         then
           if f_lt intersect_distance mm
           then
             let decelerate_after = f_mul fp inv_2_accel (f_sub fp nominal_speed_sqr exit_speed_sqr);
                 p = p\<lparr>pr_decelerate_after := decelerate_after\<rparr>
             in if f_lt decelerate_after intersect_distance
                then
                  let p = p\<lparr>pr_maximum_speed := nominal_speed\<rparr>
                  in if f_eq entry nominal_speed_sqr then p\<lparr>pr_ramp_type := Ramp_Cruise\<rparr>
                     else p\<lparr>pr_accelerate_until :=
                            f_sub fp (pr_accelerate_until p) (f_mul fp inv_2_accel (f_sub fp nominal_speed_sqr entry))\<rparr>
                else p\<lparr>pr_accelerate_until := intersect_distance, pr_decelerate_after := intersect_distance,
                       pr_maximum_speed := f_sqrt fp
                         (f_add fp (f_mul fp (f_mul fp (Fin 2) (pb_acceleration b)) intersect_distance) exit_speed_sqr)\<rparr>
           else p\<lparr>pr_ramp_type := Ramp_Decel\<rparr>
         else p\<lparr>pr_accelerate_until := f_zero, pr_maximum_speed := exit_speed\<rparr>)"

definition prep_profile :: "step_env \<Rightarrow> nat \<Rightarrow> stepgen \<Rightarrow> stepgen" where
  "prep_profile env i s =
     (let fp = sfp env; b = pl_blocks (g_pl s) ! i; sc = s_step_control (g_sys s);
          s = (if execute_hold sc then on_prep (hold_profile fp b) s
               else
                 let exit_speed_sqr = (if execute_sys_motion sc then f_zero else plan_get_exec_block_exit_speed_sqr (g_pl s));
                     exit_speed = (if execute_sys_motion sc then f_zero else f_sqrt fp exit_speed_sqr);
                     (nominal_speed, pl) = plan_compute_profile_nominal_speed (se_plan env) b (g_pl s)
                 in on_prep (normal_profile fp b exit_speed exit_speed_sqr nominal_speed) (s\<lparr>g_pl := pl\<rparr>));
          s = (if s_state (g_sys s) \<noteq> STATE_HOMING
               then on_step_control (\<lambda>c. c\<lparr>update_spindle_rpm :=
                      update_spindle_rpm c \<or> sh_laser (se_spindle env (ps_hal (planner_block.pb_spindle b)))\<rparr>) s
               else s)
      in s\<lparr>g_fast_hold := False\<rparr>)"

subsection \<open>A segment of constant rate\<close>

text \<open>The worker variables of the loop: ramp, speed, distance from the end of the block, and time.\<close>

record ramp =
  ra_type :: ramp_type
  ra_speed :: flt
  ra_mm :: flt
  ra_time :: flt

text \<open>Time to cover a distance at a constant change of speed.\<close>

definition ramp_time :: "fpu \<Rightarrow> flt \<Rightarrow> flt \<Rightarrow> flt \<Rightarrow> flt" where
  "ramp_time fp distance v w = f_div fp (f_mul fp (Fin 2) distance) (f_add fp v w)"

text \<open>\<open>time_var * (speed \<plusminus> 0.5f * speed_var)\<close> with \<open>speed_var = acceleration * time_var\<close>.\<close>

definition ramp_distance :: "fpu \<Rightarrow> flt \<Rightarrow> flt \<Rightarrow> flt \<Rightarrow> flt" where
  "ramp_distance fp time v half_var = f_mul fp time (f_add fp v half_var)"

definition ramp_decel_override :: "fpu \<Rightarrow> planner_block \<Rightarrow> prep \<Rightarrow> ramp \<Rightarrow> ramp" where
  "ramp_decel_override fp b p r =
     (let speed_var = f_mul fp (pb_acceleration b) (ra_time r) in
      if f_le (f_sub fp (ra_speed r) (pr_maximum_speed p)) speed_var
      then r\<lparr>ra_mm := pr_accelerate_until p,
             ra_time := ramp_time fp (f_sub fp (pb_millimeters b) (pr_accelerate_until p)) (ra_speed r) (pr_maximum_speed p),
             ra_type := Ramp_Cruise, ra_speed := pr_maximum_speed p\<rparr>
      else r\<lparr>ra_mm := f_sub fp (ra_mm r) (ramp_distance fp (ra_time r) (ra_speed r) (f_neg (f_mul fp (Fin 0.5) speed_var))),
             ra_speed := f_sub fp (ra_speed r) speed_var\<rparr>)"

definition ramp_accel :: "fpu \<Rightarrow> planner_block \<Rightarrow> prep \<Rightarrow> ramp \<Rightarrow> ramp" where
  "ramp_accel fp b p r =
     (let speed_var = f_mul fp (pb_acceleration b) (ra_time r);
          mm = f_sub fp (ra_mm r) (ramp_distance fp (ra_time r) (ra_speed r) (f_mul fp (Fin 0.5) speed_var))
      in if f_lt mm (pr_accelerate_until p)
         then r\<lparr>ra_mm := pr_accelerate_until p,
                ra_time := ramp_time fp (f_sub fp (pb_millimeters b) (pr_accelerate_until p)) (ra_speed r) (pr_maximum_speed p),
                ra_type := (if f_eq (pr_accelerate_until p) (pr_decelerate_after p) then Ramp_Decel else Ramp_Cruise),
                ra_speed := pr_maximum_speed p\<rparr>
         else r\<lparr>ra_mm := mm, ra_speed := f_add fp (ra_speed r) speed_var\<rparr>)"

definition ramp_cruise :: "fpu \<Rightarrow> prep \<Rightarrow> ramp \<Rightarrow> ramp" where
  "ramp_cruise fp p r =
     (let mm_var = f_sub fp (ra_mm r) (f_mul fp (pr_maximum_speed p) (ra_time r)) in
      if f_lt mm_var (pr_decelerate_after p)
      then r\<lparr>ra_time := f_div fp (f_sub fp (ra_mm r) (pr_decelerate_after p)) (pr_maximum_speed p),
             ra_mm := pr_decelerate_after p, ra_type := Ramp_Decel\<rparr>
      else r\<lparr>ra_mm := mm_var\<rparr>)"

definition ramp_decel :: "fpu \<Rightarrow> planner_block \<Rightarrow> prep \<Rightarrow> ramp \<Rightarrow> ramp" where
  "ramp_decel fp b p r =
     (let speed_var = f_mul fp (pb_acceleration b) (ra_time r);
          mm_var = f_sub fp (ra_mm r) (ramp_distance fp (ra_time r) (ra_speed r) (f_neg (f_mul fp (Fin 0.5) speed_var)))
      in if f_gt (ra_speed r) speed_var \<and> f_gt mm_var (pr_mm_complete p)
         then r\<lparr>ra_mm := mm_var, ra_speed := f_sub fp (ra_speed r) speed_var\<rparr>
         else r\<lparr>ra_time := ramp_time fp (f_sub fp (ra_mm r) (pr_mm_complete p)) (ra_speed r) (pr_exit_speed p),
                ra_mm := pr_mm_complete p, ra_speed := pr_exit_speed p\<rparr>)"

definition ramp_step :: "fpu \<Rightarrow> planner_block \<Rightarrow> prep \<Rightarrow> ramp \<Rightarrow> ramp" where
  "ramp_step fp b p r =
     (case ra_type r of
        Ramp_DecelOverride \<Rightarrow> ramp_decel_override fp b p r
      | Ramp_Accel \<Rightarrow> ramp_accel fp b p r
      | Ramp_Cruise \<Rightarrow> ramp_cruise fp p r
      | Ramp_Decel \<Rightarrow> ramp_decel fp b p r)"

text \<open>The loop that fills the time of the segment, or more if it would not contain a step. It gives the time and
  where the ramp ends; it may run forever.\<close>

partial_function (option) segment_loop ::
  "fpu \<Rightarrow> planner_block \<Rightarrow> prep \<Rightarrow> flt \<Rightarrow> flt \<Rightarrow> flt \<Rightarrow> ramp \<Rightarrow> (flt \<times> ramp) option" where
  "segment_loop fp b p minimum_mm dt_max dt r =
     (let r = ramp_step fp b p r; dt = f_add fp dt (ra_time r) in
      if \<not> f_lt dt dt_max \<and> \<not> f_gt (ra_mm r) minimum_mm then Some (dt, r)
      else
        let dt_max = (if f_lt dt dt_max then dt_max else f_add fp dt_max (DT_SEGMENT fp));
            r = r\<lparr>ra_time := f_sub fp dt_max dt\<rparr>
        in if f_gt (ra_mm r) (pr_mm_complete p) then segment_loop fp b p minimum_mm dt_max dt r else Some (dt, r))"

definition segment_ramp :: "fpu \<Rightarrow> planner_block \<Rightarrow> prep \<Rightarrow> flt \<Rightarrow> (flt \<times> ramp) option" where
  "segment_ramp fp b p speed =
     (let dt_max = DT_SEGMENT fp; minimum_mm = f_sub fp (pb_millimeters b) (pr_req_mm_increment p);
          minimum_mm = (if f_lt minimum_mm f_zero then f_zero else minimum_mm)
      in segment_loop fp b p minimum_mm dt_max f_zero
           \<lparr>ra_type = pr_ramp_type p, ra_speed = speed, ra_mm = pb_millimeters b, ra_time = dt_max\<rparr>)"

text \<open>The speed of the spindle, from \<open>grbl/spindle_control.c\<close>.\<close>

definition spindle_set_rpm :: "fpu \<Rightarrow> spindle_hal \<Rightarrow> flt \<Rightarrow> nat \<Rightarrow> spindle_param \<Rightarrow> flt \<times> spindle_param" where
  "spindle_set_rpm fp hal rpm override_pct p =
     (let rpm = (if override_pct \<noteq> 100 \<and> \<not> sq_option_override_disable p then f_mul fp rpm (percent fp override_pct) else rpm);
          rpm = (if f_le rpm f_zero then f_zero
                 else if f_lt rpm (sh_rpm_min hal) then sh_rpm_min hal
                 else if f_gt rpm (sh_rpm_max hal) then sh_rpm_max hal else rpm)
      in (rpm, p\<lparr>sq_rpm_overridden := rpm, sq_override_pct := override_pct,
                 sq_state_override_disable := sq_option_override_disable p\<rparr>))"

definition segment_rpm :: "step_env \<Rightarrow> planner_block \<Rightarrow> stepgen \<Rightarrow> flt \<times> spindle_param" where
  "segment_rpm env b s =
     (let fp = sfp env; sp = planner_block.pb_spindle b; hal = ps_hal sp; param = g_spindles s hal; cond = pb_condition b;
          set_rpm = (\<lambda>rpm. spindle_set_rpm fp (se_spindle env hal) rpm (sq_override_pct param) param)
      in if \<not> ps_on sp then (f_zero, param\<lparr>sq_rpm := f_zero\<rparr>)
         else case ps_css sp of
           Some c \<Rightarrow>
             let n = of_nat (pb_step_event_count b) - pr_steps_remaining (g_prep s);
                 npos = f_div fp (f_of_int fp (uint n)) (f_of_int fp (int (pb_step_event_count b)))
             in set_rpm (f_add fp (ps_rpm sp) (f_mul fp (css_delta_rpm (pl_css (g_pl s) c)) npos))
         | None \<Rightarrow>
             set_rpm (if is_rpm_rate_adjusted cond \<and> \<not> is_laser_ppi_mode cond
                      then f_mul fp (f_mul fp (ps_rpm sp) (st_current_speed (g_pl s))) (pr_inv_feedrate (g_prep s))
                      else ps_rpm sp))"

definition prep_spindle :: "step_env \<Rightarrow> planner_block \<Rightarrow> segment \<Rightarrow> stepgen \<Rightarrow> segment \<times> stepgen" where
  "prep_spindle env b seg s =
     (if update_spindle_rpm (s_step_control (g_sys s)) \<or> sb_dynamic_rpm (g_blocks s ! g_prep_block s)
      then
        let hal = ps_hal (planner_block.pb_spindle b); (rpm, param) = segment_rpm env b s;
            s = s\<lparr>g_spindles := (g_spindles s)(hal := param)\<rparr>
        in if f_eq rpm (pr_current_spindle_rpm (g_prep s)) then (seg, s)
           else
             (case sh_get_pwm (se_spindle env hal) of
                Some get_pwm \<Rightarrow> seg\<lparr>sg_update_pwm := True, sg_spindle_pwm := get_pwm rpm\<rparr>
              | None \<Rightarrow> seg\<lparr>sg_update_rpm := True, sg_spindle_rpm := rpm\<rparr>,
              on_step_control (\<lambda>c. c\<lparr>update_spindle_rpm := False\<rparr>)
                (on_prep (\<lambda>p. p\<lparr>pr_current_spindle_rpm := rpm\<rparr>) s))
      else (seg, s))"

text \<open>The smoothing level for a step time.\<close>

definition amass_level :: "u32 \<times> u32 \<times> u32 \<Rightarrow> u32 \<Rightarrow> nat" where
  "amass_level levels cycles =
     (case levels of (level_1, level_2, level_3) \<Rightarrow>
        if cycles < level_1 then 0 else if cycles < level_2 then 1 else if cycles < level_3 then 2 else 3)"

definition hold_block_flag :: "step_env \<Rightarrow> stepgen \<Rightarrow> stepgen" where
  "hold_block_flag env s =
     (let s = on_step_control (\<lambda>c. c\<lparr>end_motion := True\<rparr>) s in
      if se_parking_enabled env \<and> \<not> parking_flag (pr_recalculate (g_prep s))
      then on_recalculate (\<lambda>r. r\<lparr>hold_partial_block := True\<rparr>) s else s)"

definition write_segment :: "segment \<Rightarrow> stepgen \<Rightarrow> stepgen" where
  "write_segment seg s = s\<lparr>g_segments := (g_segments s)[g_head s := seg]\<rparr>"

text \<open>What follows when the segment is queued: whether to go on.\<close>

definition segment_done :: "step_env \<Rightarrow> nat \<Rightarrow> flt \<Rightarrow> stepgen \<Rightarrow> bool \<times> stepgen" where
  "segment_done env i mm_remaining s =
     (if f_le mm_remaining (pr_mm_complete (g_prep s))
      then
        let s = (if units_per_rev (pb_condition (pl_blocks (g_pl s) ! i)) then g_log [TaskDeleted Task_sync_velocity] s else s)
        in if f_gt mm_remaining f_zero then (False, hold_block_flag env s)
           else if execute_sys_motion (s_step_control (g_sys s)) then (False, on_step_control (\<lambda>c. c\<lparr>end_motion := True\<rparr>) s)
           else (True, on_pl (\<lambda>p. plan_discard_current_block (p\<lparr>st_pl_block := None\<rparr>)) s)
      else (True, s))"

text \<open>The steps of the segment are those of the distance covered, rounded up at its end.\<close>

definition segment_steps :: "fpu \<Rightarrow> prep \<Rightarrow> flt \<Rightarrow> flt \<times> u32" where
  "segment_steps fp p mm_remaining =
     (let step_dist_remaining = f_mul fp (pr_steps_per_mm p) mm_remaining
      in (step_dist_remaining, f_to_u32 fp (f_ceil step_dist_remaining)))"

text \<open>The segment with its rate and smoothing level, put into the ring; \<open>inv_rate\<close> is the time of a step.\<close>

definition timed_segment :: "step_env \<Rightarrow> planner_block \<Rightarrow> segment \<Rightarrow> flt \<Rightarrow> flt \<Rightarrow> stepgen \<Rightarrow> segment" where
  "timed_segment env b seg inv_rate target s =
     (let fp = sfp env; p = g_prep s;
          cycles = f_to_u32 fp (f_ceil (f_mul fp (g_cycles_per_min s) inv_rate));
          sync = ps_synchronized (planner_block.pb_spindle b) \<and> \<not> units_per_rev (pb_condition b);
          seg = seg\<lparr>sg_spindle_sync := sync\<rparr>;
          seg = (if sync then seg\<lparr>sg_cruising := (pr_ramp_type p = Ramp_Cruise), sg_target_position := target\<rparr> else seg);
          level = amass_level (g_amass s) cycles
      in seg\<lparr>sg_amass_level := level, sg_n_step := push_bit level (sg_n_step seg), sg_cycles_per_tick := drop_bit level cycles,
             sg_current_rate := st_current_speed (g_pl s), sg_ramp_type := pr_ramp_type p\<rparr>)"

definition queue_segment :: "step_env \<Rightarrow> nat \<Rightarrow> segment \<Rightarrow> flt \<Rightarrow> flt \<Rightarrow> flt \<Rightarrow> u32 \<Rightarrow> stepgen \<Rightarrow> stepgen" where
  "queue_segment env i seg dt mm_remaining step_dist_remaining n_steps_remaining s =
     (let fp = sfp env; b = pl_blocks (g_pl s) ! i; p = g_prep s;
          dt = f_add fp dt (pr_dt_remainder p);
          inv_rate = f_div fp dt (f_sub fp (f_of_int fp (uint (pr_steps_remaining p))) step_dist_remaining);
          target = (if ps_synchronized (planner_block.pb_spindle b) \<and> \<not> units_per_rev (pb_condition b)
                    then f_add fp (pr_target_position p) (f_mul fp dt (pr_target_feed p)) else pr_target_position p);
          s = write_segment (timed_segment env b seg inv_rate target s) s;
          s = on_pl (upd_block i (\<lambda>b. b\<lparr>pb_millimeters := mm_remaining\<rparr>)) (s\<lparr>g_head := next_segment (g_head s)\<rparr>)
      in on_prep (\<lambda>p. p\<lparr>pr_target_position := target, pr_steps_remaining := n_steps_remaining,
           pr_dt_remainder := f_mul fp (f_sub fp (f_of_int fp (uint n_steps_remaining)) step_dist_remaining) inv_rate\<rparr>) s)"

definition finish_segment :: "step_env \<Rightarrow> nat \<Rightarrow> segment \<Rightarrow> flt \<Rightarrow> ramp \<Rightarrow> stepgen \<Rightarrow> bool \<times> stepgen" where
  "finish_segment env i seg dt r s =
     (let (step_dist_remaining, n_steps_remaining) = segment_steps (sfp env) (g_prep s) (ra_mm r);
          seg = seg\<lparr>sg_n_step := pr_steps_remaining (g_prep s) - n_steps_remaining\<rparr>
      in if sg_n_step seg = 0 \<and> execute_hold (s_step_control (g_sys s))
         then (False, hold_block_flag env (write_segment seg s))
         else segment_done env i (ra_mm r) (queue_segment env i seg dt (ra_mm r) step_dist_remaining n_steps_remaining s))"

definition prep_segment :: "step_env \<Rightarrow> nat \<Rightarrow> stepgen \<Rightarrow> (bool \<times> stepgen) option" where
  "prep_segment env i s =
     (let b = pl_blocks (g_pl s) ! i;
          seg = (g_segments s ! g_head s)\<lparr>sg_exec_block := g_prep_block s, sg_update_rpm := False, sg_update_pwm := False\<rparr>
      in map_option (\<lambda>(dt, r).
           let s = on_prep (\<lambda>p. p\<lparr>pr_ramp_type := ra_type r\<rparr>) (on_pl (\<lambda>p. p\<lparr>st_current_speed := ra_speed r\<rparr>) s);
               (seg, s) = prep_spindle env b seg s
           in finish_segment env i seg dt r s)
         (segment_ramp (sfp env) b (g_prep s) (st_current_speed (g_pl s))))"

subsection \<open>Filling the segment buffer\<close>

text \<open>The block to cut up: the one being cut, or the next, loaded with its profile. \<open>None\<close> if there is none.\<close>

definition prep_ready :: "step_env \<Rightarrow> stepgen \<Rightarrow> (nat \<times> stepgen) option" where
  "prep_ready env s =
     (case st_pl_block (g_pl s) of
        Some i \<Rightarrow> Some (i, s)
      | None \<Rightarrow>
          (case (if execute_sys_motion (s_step_control (g_sys s)) then Some (plan_get_system_motion_block (g_pl s))
                 else plan_get_current_block (g_pl s)) of
             None \<Rightarrow> None
           | Some i \<Rightarrow>
               let s = on_pl (\<lambda>p. p\<lparr>st_pl_block := Some i\<rparr>) s;
                   s = (if units_per_rev (pb_condition (pl_blocks (g_pl s) ! i)) then g_log [TaskDelayed Task_sync_velocity 10] s else s);
                   s = (if velocity_profile (pr_recalculate (g_prep s)) then prep_reload env s else prep_load_block env i s)
               in Some (i, prep_profile env i s)))"

text \<open>One turn of the loop: whether to go on.\<close>

definition prep_turn :: "step_env \<Rightarrow> stepgen \<Rightarrow> (bool \<times> stepgen) option" where
  "prep_turn env s =
     (case prep_ready env s of
        None \<Rightarrow> Some (False, s)
      | Some (i, s) \<Rightarrow> if g_fast_hold s then Some (False, s) else prep_segment env i s)"

partial_function (option) prep_loop :: "step_env \<Rightarrow> stepgen \<Rightarrow> stepgen option" where
  "prep_loop env s =
     (if next_segment (g_head s) = g_tail s then Some s
      else Option.bind (prep_turn env s) (\<lambda>t. if fst t then prep_loop env (snd t) else Some (snd t)))"

definition st_prep_buffer :: "step_env \<Rightarrow> stepgen \<Rightarrow> stepgen option" where
  "st_prep_buffer env s =
     (if end_motion (s_step_control (g_sys s)) then Some s else prep_loop env s)"

subsection \<open>Reports\<close>

definition st_get_realtime_rate :: "stepgen \<Rightarrow> flt" where
  "st_get_realtime_rate s =
     (if s_state (g_sys s) \<in> {STATE_CYCLE, STATE_HOMING, STATE_HOLD, STATE_JOG, STATE_SAFETY_DOOR}
      then st_current_speed (g_pl s) else f_zero)"

definition st_get_offset_id :: "stepgen \<Rightarrow> int" where
  "st_get_offset_id s =
     (case sx_exec_block (g_st s) of
        Some i \<Rightarrow> sb_offset_id (g_blocks s ! i)
      | None \<Rightarrow>
          if s_holding_state (g_sys s) = Hold_Complete
          then (case plan_get_current_block (g_pl s) of None \<Rightarrow> - 1 | Some i \<Rightarrow> pb_offset_id (pl_blocks (g_pl s) ! i))
          else - 1)"

definition st_get_enable_out :: "step_env \<Rightarrow> bool list" where
  "st_get_enable_out env = se_enable_invert env"

end
