(* ===== verification/Bresenham.thy ===== *)
theory Bresenham
  imports Stepper
begin

text \<open>
  The line algorithm of the stepper interrupt in closed form. A block of e step events has \<open>E = 8 * e\<close> units, an
  interrupt at smoothing level l is \<open>2 ^ (3 - l)\<close> of them. After u units the axis with p steps has made
  \<open>steps_at E p u\<close> steps, and its counter is \<open>counter_at E p u\<close>, whatever levels were used.
\<close>

definition steps_at :: "nat \<Rightarrow> nat \<Rightarrow> nat \<Rightarrow> nat" where
  "steps_at E p u = (E div 2 + p * u - 1) div E"

definition counter_at :: "nat \<Rightarrow> nat \<Rightarrow> nat \<Rightarrow> nat" where
  "counter_at E p u = (E div 2 + p * u - 1) mod E + 1"

lemma counter_bounds: "0 < E \<Longrightarrow> 1 \<le> counter_at E p u \<and> counter_at E p u \<le> E"
  by (simp add: counter_at_def Suc_le_eq)

lemma steps_counter: "2 \<le> E \<Longrightarrow> counter_at E p u + steps_at E p u * E = E div 2 + p * u"
proof -
  assume "2 \<le> E"
  then have "1 \<le> E div 2 + p * u" by linarith
  then show ?thesis
    using div_mult_mod_eq [of "E div 2 + p * u - 1" E] by (simp add: steps_at_def counter_at_def)
qed

lemma steps_counter_unique:
  assumes "2 \<le> E" and "c + k * E = E div 2 + p * u" and "1 \<le> c" and "c \<le> E"
  shows "k = steps_at E p u" and "c = counter_at E p u"
proof -
  have eq: "E div 2 + p * u - 1 = (c - 1) + k * E" and less: "c - 1 < E" using assms by linarith+
  show "k = steps_at E p u" unfolding steps_at_def eq using less by simp
  have "((c - 1) + k * E) mod E = c - 1" using less by (simp del: One_nat_def)
  then show "c = counter_at E p u" unfolding counter_at_def eq using assms(3) by simp
qed

lemma steps_at_0 [simp]: "2 \<le> E \<Longrightarrow> steps_at E p 0 = 0"
  by (simp add: steps_at_def)

lemma counter_at_0: "2 \<le> E \<Longrightarrow> counter_at E p 0 = E div 2"
  using steps_counter [of E p 0] by simp

lemma steps_at_end [simp]: "2 \<le> E \<Longrightarrow> steps_at E p E = p"
  using steps_counter_unique(1) [of E "E div 2" p p E] by (simp add: mult.commute)

lemma bresenham_step:
  assumes "2 \<le> E" and "p * w \<le> E"
  shows "E < counter_at E p u + p * w \<Longrightarrow>
      steps_at E p (u + w) = Suc (steps_at E p u) \<and> counter_at E p (u + w) = counter_at E p u + p * w - E"
    and "counter_at E p u + p * w \<le> E \<Longrightarrow>
      steps_at E p (u + w) = steps_at E p u \<and> counter_at E p (u + w) = counter_at E p u + p * w"
proof -
  let ?c = "counter_at E p u" and ?k = "steps_at E p u"
  have c: "1 \<le> ?c" "?c \<le> E" using counter_bounds [of E p u] assms by simp_all
  have eq: "?c + ?k * E + p * w = E div 2 + p * (u + w)"
    using steps_counter [OF assms(1), of p u] by (simp add: algebra_simps)
  show "E < ?c + p * w \<Longrightarrow> steps_at E p (u + w) = Suc ?k \<and> counter_at E p (u + w) = ?c + p * w - E"
  proof -
    assume less: "E < ?c + p * w"
    have "(?c + p * w - E) + Suc ?k * E = E div 2 + p * (u + w)" using eq less by simp
    moreover have "1 \<le> ?c + p * w - E" "?c + p * w - E \<le> E" using less c assms(2) by linarith+
    ultimately show ?thesis using steps_counter_unique [OF assms(1)] by metis
  qed
  show "?c + p * w \<le> E \<Longrightarrow> steps_at E p (u + w) = ?k \<and> counter_at E p (u + w) = ?c + p * w"
  proof -
    assume "?c + p * w \<le> E"
    moreover have "(?c + p * w) + ?k * E = E div 2 + p * (u + w)" "1 \<le> ?c + p * w" using eq c by simp_all
    ultimately show ?thesis using steps_counter_unique [OF assms(1)] by metis
  qed
qed

lemma steps_at_mono: "u \<le> v \<Longrightarrow> steps_at E p u \<le> steps_at E p v"
  unfolding steps_at_def by (intro div_le_mono diff_le_mono add_left_mono mult_left_mono) auto

text \<open>Never further than half a step from the line.\<close>

lemma half_step:
  assumes "2 \<le> E" and "even E"
  shows "\<bar>real (steps_at E p u) - real p * real u / real E\<bar> \<le> 1 / 2"
proof -
  let ?c = "counter_at E p u" and ?k = "steps_at E p u"
  have "real ?c + real ?k * real E = real E / 2 + real p * real u"
    using steps_counter [OF assms(1), of p u] assms(2)
    by (metis of_nat_add of_nat_mult real_of_nat_div of_nat_numeral)
  then have "real ?k - real p * real u / real E = 1 / 2 - real ?c / real E"
    using assms(1) by (auto simp: divide_simps)
  moreover have "0 \<le> real ?c / real E" "real ?c / real E \<le> 1"
    using counter_bounds [of E p u] assms(1) by simp_all
  ultimately show ?thesis unfolding abs_le_iff by linarith
qed

text \<open>What two separate halves of the line add up to: a step is lost when the axis stands exactly between two
  steps at the break.\<close>

lemma steps_at_restart:
  assumes "2 \<le> E" and "even E" and "u \<le> E"
  shows "steps_at E p u + steps_at E p (E - u) = (if (2 * p * u) mod (2 * E) = E then p - 1 else p)"
proof -
  let ?c = "counter_at E p u" and ?k = "steps_at E p u"
  obtain h where E: "E = 2 * h" using assms(2) by (elim evenE)
  have c: "1 \<le> ?c" "?c \<le> E" using counter_bounds [of E p u] assms by simp_all
  have eq: "?c + ?k * E = h + p * u" using steps_counter [OF assms(1), of p u] E by simp
  have k: "?k \<le> p" using steps_at_mono [OF assms(3), of E p] steps_at_end [OF assms(1)] by simp
  have split: "p * (E - u) + p * u = p * E" using assms(3) by (simp add: algebra_simps flip: distrib_left)
  have pk: "(p - ?k) * E + ?k * E = p * E" using k by (simp flip: distrib_right)
  show ?thesis
  proof (cases "?c = E")
    case True
    then have "2 * p * u = E + ?k * (2 * E)" using eq E by (simp add: algebra_simps)
    then have "(2 * p * u) mod (2 * E) = E" using assms(1) by simp
    moreover have p: "1 \<le> p - ?k"
    proof (rule ccontr)
      assume "\<not> 1 \<le> p - ?k"
      then have "p = ?k" using k by simp
      then have "E + p * E = h + p * u" using eq True by simp
      then have "p * E < p * u" using E assms(1) by linarith
      then show False using assms(3) by simp
    qed
    moreover have "steps_at E p (E - u) = p - ?k - 1"
    proof -
      have "E + (p - ?k - 1) * E = (p - ?k) * E" using p by (metis add.commute mult_eq_if not_one_le_zero)
      then have "E + (p - ?k - 1) * E = E div 2 + p * (E - u)"
        using eq split pk True E by linarith
      then show ?thesis using steps_counter_unique(1) [OF assms(1), of E "p - ?k - 1" p "E - u"] assms(1) by simp
    qed
    ultimately show ?thesis using k by simp
  next
    case False
    have "(2 * p * u) mod (2 * E) \<noteq> E"
    proof
      assume "(2 * p * u) mod (2 * E) = E"
      moreover define m where "m = (2 * p * u) div (2 * E)"
      ultimately have "2 * p * u = m * (2 * E) + E" using div_mult_mod_eq [of "2 * p * u" "2 * E"] by simp
      then have "h + p * u = E + m * E" using E by simp
      then have "?c = E" using steps_counter_unique(2) [OF assms(1), of E m p u] E assms(1) by simp
      with False show False by simp
    qed
    moreover have "steps_at E p (E - u) = p - ?k"
    proof -
      have "(E - ?c) + (p - ?k) * E = E div 2 + p * (E - u)"
        using eq split pk c E by linarith
      then show ?thesis
        using steps_counter_unique(1) [OF assms(1), of "E - ?c" "p - ?k" p "E - u"] c False by simp
    qed
    ultimately show ?thesis using k by simp
  qed
qed

subsection \<open>On machine integers\<close>

lemma unat_step_units:
  assumes "unat w = 8 * p" and "l \<le> 3"
  shows "unat (drop_bit l (w :: u32)) = p * 2 ^ (3 - l)"
proof -
  have "(2::nat) ^ (3 - l) * 2 ^ l = 8" using assms(2) by (simp flip: power_add)
  then have "(8::nat) * p = p * 2 ^ (3 - l) * 2 ^ l" by (metis mult.assoc mult.commute)
  then have "unat w div 2 ^ l = p * 2 ^ (3 - l)" unfolding assms(1) by (metis nonzero_mult_div_cancel_right power_not_zero zero_neq_numeral)
  then show ?thesis by (simp add: unat_drop_bit_eq flip: drop_bit_eq_div)
qed

lemma axis_tick_eq:
  fixes ev steps counter :: u32
  assumes E: "unat ev = E" "2 \<le> E" "E < 2 ^ 31" and steps: "unat steps = p * w" "p * w \<le> E"
    and counter: "unat counter = counter_at E p u"
  shows "fst (axis_tick idx ev steps counter) \<longleftrightarrow> steps_at E p (u + w) = Suc (steps_at E p u)"
    and "\<not> fst (axis_tick idx ev steps counter) \<longleftrightarrow> steps_at E p (u + w) = steps_at E p u"
    and "unat (snd (axis_tick idx ev steps counter)) = counter_at E p (u + w)"
proof -
  note step = bresenham_step [OF E(2) steps(2), of u]
  have c: "counter_at E p u \<le> E" using counter_bounds [of E p u] E(2) by simp
  have sum: "unat (counter + steps) = counter_at E p u + p * w"
    using c E(3) steps counter by (simp add: unat_word_ariths)
  have less: "ev < counter + steps \<longleftrightarrow> E < counter_at E p u + p * w" using E(1) sum by (simp add: word_less_nat_alt)
  have diff: "unat (counter + steps - ev) = counter_at E p u + p * w - E" if "E < counter_at E p u + p * w"
    using that sum E(1) less by (simp add: unat_sub_if_size word_less_nat_alt)
  have tick: "axis_tick idx ev steps counter = bresenham ev steps counter"
  proof (cases "steps = 0")
    case True
    then have "\<not> ev < counter" using c E(1) counter by (simp add: word_less_nat_alt)
    with True show ?thesis by (simp add: axis_tick_def bresenham_def)
  qed (simp add: axis_tick_def)
  show "fst (axis_tick idx ev steps counter) \<longleftrightarrow> steps_at E p (u + w) = Suc (steps_at E p u)"
    and "\<not> fst (axis_tick idx ev steps counter) \<longleftrightarrow> steps_at E p (u + w) = steps_at E p u"
    and "unat (snd (axis_tick idx ev steps counter)) = counter_at E p (u + w)"
    using step less sum diff unfolding tick bresenham_def Let_def
    by (cases "E < counter_at E p u + p * w"; simp)+
qed

end
