(* ===== verification/Step_Work.thy ===== *)
theory Step_Work
  imports Bresenham
begin

text \<open>
  The work in flight between the planner and the motors: what the segments in the ring, the one being executed
  and the rest of the block being cut up still have to do, per block, in units of the line algorithm.
\<close>

subsection \<open>Work lists\<close>

text \<open>Adjacent entries of the same block are added up.\<close>

fun merge :: "(nat \<times> nat) list \<Rightarrow> (nat \<times> nat) list" where
  "merge [] = []"
| "merge (x # xs) =
     (case merge xs of
        [] \<Rightarrow> [x]
      | y # ys \<Rightarrow> if fst x = fst y then (fst x, snd x + snd y) # ys else x # y # ys)"

lemma merge_Nil [simp]: "merge xs = [] \<longleftrightarrow> xs = []"
  by (cases xs) (auto split: list.split)

lemma merge_hd: "xs \<noteq> [] \<Longrightarrow> fst (hd (merge xs)) = fst (hd xs)"
  by (cases xs) (auto split: list.split)

lemma merge_last: "xs \<noteq> [] \<Longrightarrow> fst (last (merge xs)) = fst (last xs)"
proof (induction xs)
  case (Cons x xs)
  then show ?case by (cases "xs = []") (auto split: list.split)
qed simp

lemma length_merge: "length (merge xs) \<le> length xs"
  by (induction xs) (auto split: list.split)

lemma merge_split: "merge (xs @ (b, m) # (b, n) # ys) = merge (xs @ (b, m + n) # ys)"
  by (induction xs) (auto split: list.split)

lemma merge_snoc: "xs = [] \<or> fst (last xs) \<noteq> b \<Longrightarrow> merge (xs @ [(b, m)]) = merge xs @ [(b, m)]"
proof (induction xs)
  case (Cons x xs)
  show ?case
  proof (cases "xs = []")
    case True
    with Cons.prems show ?thesis by auto
  next
    case False
    with Cons have "merge (xs @ [(b, m)]) = merge xs @ [(b, m)]" by simp
    moreover obtain y ys where "merge xs = y # ys" using False by (cases "merge xs") auto
    ultimately show ?thesis by simp
  qed
qed simp

text \<open>Work done at the front.\<close>

lemma merge_front:
  "merge ((b, m + w) # ws) = (b, snd (hd (merge ((b, m) # ws))) + w) # tl (merge ((b, m) # ws))"
  by (auto split: list.split)

lemma merge_zero:
  "merge ((b, 0) # ws) = (if ws \<noteq> [] \<and> fst (hd ws) = b then merge ws else (b, 0) # merge ws)"
proof (cases "merge ws")
  case (Cons y ys)
  then have "fst y = fst (hd ws)" using merge_hd [of ws] by (cases "ws = []") auto
  with Cons show ?thesis by (cases y) auto
qed simp

subsection \<open>Chains in the ring of blocks\<close>

fun chain :: "nat \<Rightarrow> nat list \<Rightarrow> bool" where
  "chain p [] \<longleftrightarrow> True"
| "chain p [b] \<longleftrightarrow> b = p"
| "chain p (b # c # bs) \<longleftrightarrow> c = next_st_block b \<and> chain p (c # bs)"

lemma next_st_block_mod: "b < 9 \<Longrightarrow> next_st_block b = Suc b mod 9"
  by (auto simp: next_st_block_def SEGMENT_BUFFER_SIZE_def less_Suc_eq)

lemma next_st_block_less [simp]: "b < 9 \<Longrightarrow> next_st_block b < 9"
  by (simp add: next_st_block_mod)

lemma chain_nth:
  assumes "chain p bs" and "p < 9" and "\<forall>b \<in> set bs. b < 9" and "j < length bs"
  shows "(bs ! j + (length bs - 1 - j)) mod 9 = p"
  using assms
proof (induction p bs arbitrary: j rule: chain.induct)
  case (3 p b c bs)
  have c: "c = Suc b mod 9" "chain p (c # bs)" using 3(2,4) next_st_block_mod [of b] by auto
  have IH: "((c # bs) ! i + (length (c # bs) - 1 - i)) mod 9 = p" if "i < length (c # bs)" for i
    using that c(2) 3(3,4) by (intro 3(1)) auto
  show ?case
  proof (cases j)
    case 0
    have "(Suc b mod 9 + length bs) mod 9 = p" using IH [of 0] c(1) by simp
    with 0 show ?thesis by (simp add: mod_add_left_eq)
  next
    case (Suc i)
    then show ?thesis using IH [of i] 3(5) by simp
  qed
qed auto

lemma chain_distinct:
  assumes "chain p bs" and "p < 9" and "\<forall>b \<in> set bs. b < 9" and "length bs \<le> 9"
  shows "distinct bs"
proof (rule ccontr)
  assume "\<not> distinct bs"
  then obtain i j where ij: "i < length bs" "j < length bs" "i < j" "bs ! i = bs ! j"
    by (metis distinct_conv_nth linorder_neqE_nat)
  let ?x = "bs ! i" and ?n = "length bs - 1"
  have "(?x + (?n - i)) mod 9 = (?x + (?n - j)) mod 9"
    using chain_nth [OF assms(1-3) ij(1)] chain_nth [OF assms(1-3) ij(2)] ij(4) by simp
  moreover have "?x < 9" "?n - i \<le> 8" "?n - j \<le> 8" using assms(3,4) ij(1) by auto
  moreover have "a mod 9 = (if a < 9 then a else a - 9)" if "a < 18" for a :: nat
    using that by (simp add: le_mod_geq)
  ultimately have "?n - i = ?n - j" by (auto split: if_splits)
  then show False using ij by linarith
qed

end
