(* ===== verification/Step_Flow.thy ===== *)
theory Step_Flow
  imports Step_Work Planner_Motions
begin

text \<open>
  The invariant of the step generator, and that the stepper interrupt keeps it: the position of the machine and
  the steps still in flight always add up.
\<close>

subsection \<open>Steps in flight\<close>

text \<open>A planner block is being cut up.\<close>

definition mid :: "stepgen \<Rightarrow> bool" where
  "mid s \<longleftrightarrow> st_pl_block (g_pl s) \<noteq> None \<or> velocity_profile (pr_recalculate (g_prep s))"

definition seg_units :: "segment \<Rightarrow> nat" where
  "seg_units g = unat (sg_n_step g) * 2 ^ (3 - sg_amass_level g)"

definition seg_queue :: "stepgen \<Rightarrow> segment list" where
  "seg_queue s = ring_list (g_segments s) (g_head s) (g_tail s)"

definition seg_running :: "stepgen \<Rightarrow> bool" where
  "seg_running s \<longleftrightarrow> sx_exec_segment (g_st s) \<noteq> None \<and> sx_step_count (g_st s) \<noteq> 0"

definition queue_work :: "stepgen \<Rightarrow> (nat \<times> nat) list" where
  "queue_work s = map (\<lambda>g. (sg_exec_block g, seg_units g)) (seg_queue s)"

text \<open>Of the segment being executed, what its step count says.\<close>

definition seg_work :: "stepgen \<Rightarrow> (nat \<times> nat) list" where
  "seg_work s =
     (if seg_running s
      then (fst (hd (queue_work s)), unat (sx_step_count (g_st s)) * 2 ^ (3 - sx_amass_level (g_st s))) # tl (queue_work s)
      else queue_work s)"

definition cut_rest :: "stepgen \<Rightarrow> (nat \<times> nat) list" where
  "cut_rest s = (if mid s then [(g_prep_block s, 8 * unat (pr_steps_remaining (g_prep s)))] else [])"

definition groups :: "stepgen \<Rightarrow> (nat \<times> nat) list" where
  "groups s = merge (seg_work s @ cut_rest s)"

definition sb_size :: "st_block \<Rightarrow> nat" where "sb_size sb = unat (sb_step_event_count sb)"
definition sb_axis :: "st_block \<Rightarrow> nat \<Rightarrow> nat" where "sb_axis sb i = unat (sb_steps sb ! i) div 8"

definition sb_sign :: "st_block \<Rightarrow> nat \<Rightarrow> int" where
  "sb_sign sb i = (if sb_direction sb ! i then - 1 else 1)"

text \<open>Step counts below \<open>2 ^ 28\<close>, the units of which fit into 31 bits.\<close>

definition sb_fits :: "st_block \<Rightarrow> bool" where
  "sb_fits sb \<longleftrightarrow> length (sb_direction sb) = N_AXIS \<and>
     (\<exists>e. 1 \<le> e \<and> e < 2 ^ 28 \<and> sb_size sb = 8 * e \<and> (\<forall>i < N_AXIS. \<exists>p \<le> e. unat (sb_steps sb ! i) = 8 * p))"

text \<open>The signed steps an axis still has to make for a block of which m units are left.\<close>

definition steps_left :: "st_block \<Rightarrow> nat \<Rightarrow> nat \<Rightarrow> int" where
  "steps_left sb m i = sb_sign sb i * (int (sb_axis sb i) - int (steps_at (sb_size sb) (sb_axis sb i) (sb_size sb - m)))"

definition in_flight :: "stepgen \<Rightarrow> nat \<Rightarrow> int" where
  "in_flight s i = (\<Sum>(b, m) \<leftarrow> groups s. steps_left (g_blocks s ! b) m i)"

definition in_planner :: "stepgen \<Rightarrow> nat \<Rightarrow> int" where
  "in_planner s i = queue_steps (if mid s then tl (queue (g_pl s)) else queue (g_pl s)) i"

subsection \<open>The invariant\<close>

definition rings_ok :: "stepgen \<Rightarrow> bool" where
  "rings_ok s \<longleftrightarrow> length (g_segments s) = SEGMENT_BUFFER_SIZE \<and> length (g_blocks s) = SEGMENT_BUFFER_SIZE - 1 \<and>
     g_head s < SEGMENT_BUFFER_SIZE \<and> g_tail s < SEGMENT_BUFFER_SIZE \<and> g_prep_block s < SEGMENT_BUFFER_SIZE - 1 \<and>
     length (g_position s) = N_AXIS \<and> (\<forall>g \<in> set (seg_queue s). sg_n_step g \<noteq> 0 \<and> sg_amass_level g \<le> 3)"

definition groups_ok :: "stepgen \<Rightarrow> bool" where
  "groups_ok s \<longleftrightarrow> length (groups s) \<le> 9 \<and> chain (g_prep_block s) (map fst (groups s)) \<and>
     (\<forall>(b, m) \<in> set (groups s). b < 9 \<and> sb_fits (g_blocks s ! b) \<and> m \<le> sb_size (g_blocks s ! b)) \<and>
     (\<forall>(b, m) \<in> set (tl (groups s)). m = sb_size (g_blocks s ! b))"

text \<open>The registers of the interrupt when u units of a block are done.\<close>

definition counters_ok :: "stepgen \<Rightarrow> nat \<Rightarrow> nat \<Rightarrow> bool" where
  "counters_ok s x u \<longleftrightarrow>
     sx_step_event_count (g_st s) = sb_step_event_count (g_blocks s ! x) \<and> sx_dir_out (g_st s) = sb_direction (g_blocks s ! x) \<and>
     (\<forall>i < N_AXIS. unat (sx_counter (g_st s) ! i) = counter_at (sb_size (g_blocks s ! x)) (sb_axis (g_blocks s ! x) i) u)"

definition exec_ok :: "stepgen \<Rightarrow> bool" where
  "exec_ok s \<longleftrightarrow>
     (case groups s of
        [] \<Rightarrow> sx_exec_block (g_st s) \<in> {None, Some (g_prep_block s)}
      | (b, m) # _ \<Rightarrow>
          if sx_exec_block (g_st s) = Some b then counters_ok s b (sb_size (g_blocks s ! b) - m)
          else m = sb_size (g_blocks s ! b))"

definition running_ok :: "stepgen \<Rightarrow> bool" where
  "running_ok s \<longleftrightarrow> length (sx_dir_out (g_st s)) = N_AXIS \<and>
     (sx_exec_block (g_st s) = None \<longrightarrow> sx_exec_segment (g_st s) = None) \<and>
     (seg_running s \<longrightarrow>
        (case seg_queue s of
           [] \<Rightarrow> False
         | g # _ \<Rightarrow> sx_exec_block (g_st s) = Some (sg_exec_block g) \<and> sx_amass_level (g_st s) = sg_amass_level g \<and>
             (\<forall>i < N_AXIS. sx_steps (g_st s) ! i = drop_bit (sg_amass_level g) (sb_steps (g_blocks s ! sg_exec_block g) ! i))))"

definition flow_ok :: "stepgen \<Rightarrow> bool" where
  "flow_ok s \<longleftrightarrow> rings_ok s \<and> groups_ok s \<and> exec_ok s \<and> running_ok s \<and>
     (mid s \<longrightarrow> pr_steps_remaining (g_prep s) \<noteq> 0)"

text \<open>The position the machine will have when all is done.\<close>

definition final_position :: "stepgen \<Rightarrow> nat \<Rightarrow> int" where
  "final_position s i = g_position s ! i + in_flight s i + in_planner s i"

lemma sb_fitsE:
  assumes "sb_fits sb"
  obtains "2 \<le> sb_size sb" "sb_size sb < 2 ^ 31" "even (sb_size sb)"
    "\<And>i l. i < N_AXIS \<Longrightarrow> l \<le> 3 \<Longrightarrow> sb_axis sb i * 2 ^ (3 - l) \<le> sb_size sb"
    "\<And>i l. i < N_AXIS \<Longrightarrow> l \<le> 3 \<Longrightarrow> unat (drop_bit l (sb_steps sb ! i)) = sb_axis sb i * 2 ^ (3 - l)"
proof -
  obtain e where e: "1 \<le> e" "e < 2 ^ 28" "sb_size sb = 8 * e"
      "\<And>i. i < N_AXIS \<Longrightarrow> \<exists>p \<le> e. unat (sb_steps sb ! i) = 8 * p"
    using assms by (auto simp: sb_fits_def)
  have pow: "(2::nat) ^ (3 - l) \<le> 8" for l using power_increasing [of "3 - l" 3 "2::nat"] by simp
  have axis: "sb_axis sb i \<le> e \<and> unat (sb_steps sb ! i) = 8 * sb_axis sb i" if "i < N_AXIS" for i
    using e(4) [OF that] by (auto simp: sb_axis_def)
  show thesis
  proof (rule that)
    show "sb_axis sb i * 2 ^ (3 - l) \<le> sb_size sb" if "i < N_AXIS" for i l
      using mult_mono [of "sb_axis sb i" e "2 ^ (3 - l)" 8] axis [OF that] pow [of l] e(3) by simp
    show "unat (drop_bit l (sb_steps sb ! i)) = sb_axis sb i * 2 ^ (3 - l)" if "i < N_AXIS" "l \<le> 3" for i l
      using unat_step_units [OF _ that(2)] axis [OF that(1)] by blast
  qed (use e in simp_all)
qed

subsection \<open>What does not matter\<close>

definition same_flow :: "stepgen \<Rightarrow> stepgen \<Rightarrow> bool" where
  "same_flow s t \<longleftrightarrow> g_segments t = g_segments s \<and> g_head t = g_head s \<and> g_tail t = g_tail s \<and> g_blocks t = g_blocks s \<and>
     g_prep_block t = g_prep_block s \<and> g_position t = g_position s \<and> mid t = mid s \<and>
     pr_steps_remaining (g_prep t) = pr_steps_remaining (g_prep s) \<and> sx_exec_block (g_st t) = sx_exec_block (g_st s) \<and>
     sx_amass_level (g_st t) = sx_amass_level (g_st s) \<and> sx_step_event_count (g_st t) = sx_step_event_count (g_st s) \<and>
     sx_steps (g_st t) = sx_steps (g_st s) \<and> sx_counter (g_st t) = sx_counter (g_st s) \<and>
     sx_dir_out (g_st t) = sx_dir_out (g_st s) \<and> sx_step_count (g_st t) = sx_step_count (g_st s) \<and>
     seg_running t = seg_running s \<and>
     (sx_exec_segment (g_st t) = sx_exec_segment (g_st s) \<or> sx_exec_segment (g_st t) = None)"

lemma same_flow_refl [simp]: "same_flow s s"
  by (simp add: same_flow_def)

lemma same_flow_trans [trans]: "same_flow s t \<Longrightarrow> same_flow t u \<Longrightarrow> same_flow s u"
  by (auto simp: same_flow_def)

lemma same_flow_eqs:
  assumes "same_flow s t"
  shows "seg_queue t = seg_queue s" "groups t = groups s" "in_flight t = in_flight s"
    "g_pl t = g_pl s \<Longrightarrow> final_position t = final_position s" "flow_ok s \<Longrightarrow> flow_ok t"
proof -
  show q: "seg_queue t = seg_queue s" using assms by (simp add: seg_queue_def same_flow_def)
  then have w: "queue_work t = queue_work s" by (simp add: queue_work_def)
  show g: "groups t = groups s"
    using assms w by (simp add: groups_def cut_rest_def seg_work_def same_flow_def)
  show f: "in_flight t = in_flight s" using assms g by (simp add: in_flight_def fun_eq_iff same_flow_def)
  show "g_pl t = g_pl s \<Longrightarrow> final_position t = final_position s"
    using assms f by (simp add: final_position_def in_planner_def fun_eq_iff same_flow_def)
  show "flow_ok s \<Longrightarrow> flow_ok t"
    using assms q g
    by (auto simp: flow_ok_def rings_ok_def groups_ok_def exec_ok_def running_ok_def counters_ok_def same_flow_def
        split: list.splits if_splits)
qed

lemma g_log_flow [simp]: "same_flow s (g_log es s)"
  by (simp add: same_flow_def g_log_def seg_running_def mid_def)

lemma isr_pulse_flow: "same_flow s (isr_pulse s)" and isr_pulse_pl: "g_pl (isr_pulse s) = g_pl s"
  by (simp_all add: isr_pulse_def same_flow_def seg_running_def mid_def on_defs Let_def)

lemma isr_pulse_exec:
  "sx_exec_block (g_st s) = None \<longrightarrow> sx_exec_segment (g_st s) = None \<Longrightarrow>
   sx_exec_segment (g_st (isr_pulse s)) \<noteq> None \<longleftrightarrow> seg_running s"
  by (auto simp: isr_pulse_def seg_running_def on_defs Let_def)

lemma isr_probe_flow: "same_flow s (isr_probe env s)" and isr_probe_pl: "g_pl (isr_probe env s) = g_pl s"
  by (simp_all add: isr_probe_def same_flow_def seg_running_def mid_def)

end
