(* ===== verification/Step_Isr.thy ===== *)
theory Step_Isr
  imports Step_Flow
begin

text \<open>The stepper interrupt keeps the invariant of the step generator.\<close>

lemma next_segment_mod: "i < SEGMENT_BUFFER_SIZE \<Longrightarrow> next_segment i = Suc i mod SEGMENT_BUFFER_SIZE"
  by (auto simp: next_segment_def SEGMENT_BUFFER_SIZE_def less_Suc_eq)

lemma next_segment_less [simp]: "i < SEGMENT_BUFFER_SIZE \<Longrightarrow> next_segment i < SEGMENT_BUFFER_SIZE"
  by (simp add: next_segment_def SEGMENT_BUFFER_SIZE_def split: if_splits)

lemma next_st_block_neq: "b < 9 \<Longrightarrow> next_st_block b \<noteq> b"
  by (simp add: next_st_block_def SEGMENT_BUFFER_SIZE_def)

lemma seg_queue_Nil: "rings_ok s \<Longrightarrow> seg_queue s = [] \<longleftrightarrow> g_tail s = g_head s"
  using ring_count_0 [of "g_head s" "length (g_segments s)" "g_tail s"]
  by (auto simp: rings_ok_def seg_queue_def length_ring_list simp flip: length_0_conv)

lemma seg_queue_pop:
  assumes "rings_ok s" and "seg_queue s \<noteq> []"
  shows "seg_queue s = g_segments s ! g_tail s # ring_list (g_segments s) (g_head s) (next_segment (g_tail s))"
  using assms seg_queue_Nil [OF assms(1)] ring_list_pop [of "g_head s" "g_segments s" "g_tail s"] next_segment_mod
  by (auto simp: rings_ok_def seg_queue_def)

subsection \<open>One step\<close>

text \<open>While a segment is executed, the first group is that of its block.\<close>

lemma running_groups:
  assumes "flow_ok s" and "seg_running s"
  obtains g gs M Gs where "seg_queue s = g # gs" "groups s = (sg_exec_block g, M) # Gs"
    "sx_exec_block (g_st s) = Some (sg_exec_block g)" "sg_amass_level g \<le> 3" "sx_amass_level (g_st s) = sg_amass_level g"
    "2 ^ (3 - sg_amass_level g) \<le> M"
    "(sg_exec_block g, M - 2 ^ (3 - sg_amass_level g)) # Gs =
      merge ((sg_exec_block g, (unat (sx_step_count (g_st s)) - 1) * 2 ^ (3 - sg_amass_level g)) #
        map (\<lambda>g. (sg_exec_block g, seg_units g)) gs @ cut_rest s)"
proof -
  have ok: "rings_ok s" "running_ok s" using assms(1) by (simp_all add: flow_ok_def)
  obtain g gs where q: "seg_queue s = g # gs" "sx_exec_block (g_st s) = Some (sg_exec_block g)"
      "sx_amass_level (g_st s) = sg_amass_level g" using ok(2) assms(2) by (auto simp: running_ok_def split: list.splits)
  then have l: "sg_amass_level g \<le> 3" using ok(1) by (simp add: rings_ok_def)
  let ?b = "sg_exec_block g" and ?w = "2 ^ (3 - sg_amass_level g) :: nat" and ?n = "unat (sx_step_count (g_st s))"
  let ?ws = "map (\<lambda>g. (sg_exec_block g, seg_units g)) gs @ cut_rest s"
  have "0 < ?n" using assms(2) by (simp add: seg_running_def word_neq_0_conv [symmetric] unat_gt_0)
  then have n: "?n * ?w = (?n - 1) * ?w + ?w" by (cases ?n) simp_all
  have "groups s = merge ((?b, (?n - 1) * ?w + ?w) # ?ws)"
    using assms(2) q n by (simp add: groups_def seg_work_def queue_work_def)
  then have g: "groups s = (?b, snd (hd (merge ((?b, (?n - 1) * ?w) # ?ws))) + ?w) # tl (merge ((?b, (?n - 1) * ?w) # ?ws))"
    unfolding merge_front .
  have "fst (hd (merge ((?b, (?n - 1) * ?w) # ?ws))) = ?b" using merge_hd [of "(?b, (?n - 1) * ?w) # ?ws"] by simp
  then have "(?b, snd (hd (merge ((?b, (?n - 1) * ?w) # ?ws)))) # tl (merge ((?b, (?n - 1) * ?w) # ?ws)) =
      merge ((?b, (?n - 1) * ?w) # ?ws)"
    by (cases "merge ((?b, (?n - 1) * ?w) # ?ws)") (simp_all add: prod_eq_iff del: merge.simps)
  then show thesis using that [OF q(1) g q(2) l q(3)] by (simp del: merge.simps)
qed

lemma isr_step_fields:
  "g_segments (isr_step s) = g_segments s" "g_head (isr_step s) = g_head s" "g_blocks (isr_step s) = g_blocks s"
  "g_prep_block (isr_step s) = g_prep_block s" "mid (isr_step s) = mid s" "g_prep (isr_step s) = g_prep s" "g_pl (isr_step s) = g_pl s"
  "g_tail (isr_step s) = (if sx_step_count (g_st s) \<in> {0, 1} then next_segment (g_tail s) else g_tail s)"
  "sx_step_count (g_st (isr_step s)) = (if sx_step_count (g_st s) = 0 then 0 else sx_step_count (g_st s) - 1)"
  "sx_exec_segment (g_st (isr_step s)) = sx_exec_segment (g_st s)" "sx_exec_block (g_st (isr_step s)) = sx_exec_block (g_st s)"
  "sx_amass_level (g_st (isr_step s)) = sx_amass_level (g_st s)" "sx_steps (g_st (isr_step s)) = sx_steps (g_st s)"
  "sx_step_event_count (g_st (isr_step s)) = sx_step_event_count (g_st s)" "sx_dir_out (g_st (isr_step s)) = sx_dir_out (g_st s)"
  "sx_counter (g_st (isr_step s)) =
     map (\<lambda>i. snd (axis_tick i (sx_step_event_count (g_st s)) (sx_steps (g_st s) ! i) (sx_counter (g_st s) ! i))) [0..<N_AXIS]"
  "g_position (isr_step s) = map (\<lambda>i. g_position s ! i +
     (if fst (axis_tick i (sx_step_event_count (g_st s)) (sx_steps (g_st s) ! i) (sx_counter (g_st s) ! i))
      then if sx_dir_out (g_st s) ! i then - 1 else 1 else 0)) [0..<N_AXIS]"
  by (auto simp: isr_step_def on_defs mid_def Let_def diff_eq_eq)

lemma tick_work:
  assumes "flow_ok s" and "seg_running s" and q: "seg_queue s = g # gs" and g: "groups s = (b, M) # Gs"
    and b: "b = sg_exec_block g" and w: "w = 2 ^ (3 - sg_amass_level g)" "w \<le> M"
    and m: "(b, M - w) # Gs = merge ((b, (unat (sx_step_count (g_st s)) - 1) * w) #
        map (\<lambda>g. (sg_exec_block g, seg_units g)) gs @ cut_rest s)"
    and l: "sx_amass_level (g_st s) = sg_amass_level g"
  shows "seg_queue (isr_step s) = (if sx_step_count (g_st s) = 1 then gs else g # gs)"
    and "groups (isr_step s) = (b, M - w) # Gs \<or> groups (isr_step s) = Gs \<and> M = w"
    and "seg_running (isr_step s) \<longleftrightarrow> sx_step_count (g_st s) \<noteq> 1"
proof -
  let ?t = "isr_step s" and ?n = "sx_step_count (g_st s)"
  have n: "?n \<noteq> 0" "sx_exec_segment (g_st s) \<noteq> None" using assms(2) by (auto simp: seg_running_def)
  have ok: "rings_ok s" using assms(1) by (simp add: flow_ok_def)
  have "ring_list (g_segments s) (g_head s) (next_segment (g_tail s)) = gs"
    using seg_queue_pop [OF ok] q by simp
  then show sq: "seg_queue ?t = (if ?n = 1 then gs else g # gs)"
    using n q by (simp add: seg_queue_def isr_step_fields)
  show run: "seg_running ?t \<longleftrightarrow> ?n \<noteq> 1"
    using n by (auto simp: seg_running_def isr_step_fields diff_eq_eq)
  have cut: "cut_rest ?t = cut_rest s" by (simp add: cut_rest_def isr_step_fields)
  let ?ws = "map (\<lambda>g. (sg_exec_block g, seg_units g)) gs @ cut_rest s"
  show "groups ?t = (b, M - w) # Gs \<or> groups ?t = Gs \<and> M = w"
  proof (cases "?n = 1")
    case True
    then have "groups ?t = merge ?ws" using run sq cut by (simp add: groups_def seg_work_def queue_work_def)
    moreover have "(b, M - w) # Gs = merge ((b, 0) # ?ws)" using m True by simp
    ultimately show ?thesis using w(2) unfolding merge_zero by (auto split: if_splits)
  next
    case False
    have "unat (?n - 1) = unat ?n - 1" using n(1) by (simp add: unat_minus_one)
    then have "groups ?t = merge ((b, (unat ?n - 1) * w) # ?ws)"
      using False n run sq cut l b w(1) by (simp add: groups_def seg_work_def queue_work_def isr_step_fields)
    then show ?thesis using m by simp
  qed
qed

lemma isr_step_flow:
  assumes "flow_ok s" and "seg_running s"
  shows "flow_ok (isr_step s)" and "i < N_AXIS \<Longrightarrow> final_position (isr_step s) i = final_position s i"
proof -
  obtain g gs M Gs where run: "seg_queue s = g # gs" "groups s = (sg_exec_block g, M) # Gs"
      "sx_exec_block (g_st s) = Some (sg_exec_block g)" "sg_amass_level g \<le> 3" "sx_amass_level (g_st s) = sg_amass_level g"
      "2 ^ (3 - sg_amass_level g) \<le> M"
      "(sg_exec_block g, M - 2 ^ (3 - sg_amass_level g)) # Gs =
        merge ((sg_exec_block g, (unat (sx_step_count (g_st s)) - 1) * 2 ^ (3 - sg_amass_level g)) #
          map (\<lambda>g. (sg_exec_block g, seg_units g)) gs @ cut_rest s)"
    by (rule running_groups [OF assms])
  define b where "b = sg_exec_block g"
  define w where "w = (2::nat) ^ (3 - sg_amass_level g)"
  let ?t = "isr_step s" and ?sb = "g_blocks s ! b"
  let ?E = "sb_size ?sb"
  note tick = tick_work [OF assms run(1,2) refl refl run(6,7,5), folded b_def w_def]
  have ok: "rings_ok s" "groups_ok s" "exec_ok s" "running_ok s" and rest: "mid s \<longrightarrow> pr_steps_remaining (g_prep s) \<noteq> 0"
    using assms(1) by (simp_all add: flow_ok_def)
  have grp: "chain (g_prep_block s) (b # map fst Gs)" "b < 9" "sb_fits ?sb" "M \<le> ?E"
      "\<forall>(c, m) \<in> set Gs. c < 9 \<and> sb_fits (g_blocks s ! c) \<and> m \<le> sb_size (g_blocks s ! c)"
      "\<forall>(c, m) \<in> set Gs. m = sb_size (g_blocks s ! c)" "length Gs \<le> 8"
    using ok(2) run(2) by (auto simp: groups_ok_def b_def)
  have cnt: "counters_ok s b (?E - M)" using ok(3) run(2,3) by (simp add: exec_ok_def b_def)
  obtain fits: "2 \<le> ?E" "?E < 2 ^ 31"
      "\<And>i. i < N_AXIS \<Longrightarrow> sb_axis ?sb i * w \<le> ?E"
      "\<And>i. i < N_AXIS \<Longrightarrow> unat (drop_bit (sg_amass_level g) (sb_steps ?sb ! i)) = sb_axis ?sb i * w"
    using sb_fitsE [OF grp(3)] run(4) unfolding w_def by metis
  have wM: "w \<le> M" using run(6) by (simp add: w_def)
  then have u: "?E - M + w = ?E - (M - w)" using grp(4) by simp
  have axis:
    "fst (axis_tick i (sx_step_event_count (g_st s)) (sx_steps (g_st s) ! i) (sx_counter (g_st s) ! i)) \<longleftrightarrow>
       steps_at ?E (sb_axis ?sb i) (?E - (M - w)) = Suc (steps_at ?E (sb_axis ?sb i) (?E - M))"
    "\<not> fst (axis_tick i (sx_step_event_count (g_st s)) (sx_steps (g_st s) ! i) (sx_counter (g_st s) ! i)) \<longleftrightarrow>
       steps_at ?E (sb_axis ?sb i) (?E - (M - w)) = steps_at ?E (sb_axis ?sb i) (?E - M)"
    "unat (snd (axis_tick i (sx_step_event_count (g_st s)) (sx_steps (g_st s) ! i) (sx_counter (g_st s) ! i))) =
       counter_at ?E (sb_axis ?sb i) (?E - (M - w))" if "i < N_AXIS" for i
  proof -
    have "unat (sx_step_event_count (g_st s)) = ?E" "unat (sx_counter (g_st s) ! i) = counter_at ?E (sb_axis ?sb i) (?E - M)"
      "unat (sx_steps (g_st s) ! i) = sb_axis ?sb i * w"
      using cnt ok(4) run(1) assms(2) fits(4) [OF that] that
      by (auto simp: counters_ok_def sb_size_def running_ok_def b_def)
    note axis_tick_eq [OF this(1) fits(1,2) this(3) fits(3) [OF that] this(2), of i, unfolded u]
    then show
      "fst (axis_tick i (sx_step_event_count (g_st s)) (sx_steps (g_st s) ! i) (sx_counter (g_st s) ! i)) \<longleftrightarrow>
         steps_at ?E (sb_axis ?sb i) (?E - (M - w)) = Suc (steps_at ?E (sb_axis ?sb i) (?E - M))"
      "\<not> fst (axis_tick i (sx_step_event_count (g_st s)) (sx_steps (g_st s) ! i) (sx_counter (g_st s) ! i)) \<longleftrightarrow>
         steps_at ?E (sb_axis ?sb i) (?E - (M - w)) = steps_at ?E (sb_axis ?sb i) (?E - M)"
      "unat (snd (axis_tick i (sx_step_event_count (g_st s)) (sx_steps (g_st s) ! i) (sx_counter (g_st s) ! i))) =
         counter_at ?E (sb_axis ?sb i) (?E - (M - w))" by blast+
  qed
  have "rings_ok ?t"
    using ok(1) tick(1) run(1) by (auto simp: rings_ok_def isr_step_fields)
  moreover have "groups_ok ?t"
  proof -
    have "chain (g_prep_block s) (map fst Gs)" using grp(1) by (cases Gs) auto
    then show ?thesis using tick(2) grp wM by (cases Gs) (auto simp: groups_ok_def isr_step_fields)
  qed
  moreover have "exec_ok ?t"
    using tick(2)
  proof
    assume "groups ?t = (b, M - w) # Gs"
    then show ?thesis using cnt axis(3) run(3)
      by (simp add: exec_ok_def counters_ok_def isr_step_fields b_def)
  next
    assume "groups ?t = Gs \<and> M = w"
    then show ?thesis using grp(1,2,6) next_st_block_neq [of b] run(3)
      by (cases Gs) (auto simp: exec_ok_def isr_step_fields b_def)
  qed
  moreover have "running_ok ?t"
    using ok(4) tick(1,3) run(1) assms(2) by (auto simp: running_ok_def isr_step_fields)
  ultimately show "flow_ok ?t" using rest by (simp add: flow_ok_def isr_step_fields)
  assume i: "i < N_AXIS"
  have dir: "sx_dir_out (g_st s) = sb_direction ?sb" using cnt by (simp add: counters_ok_def)
  have "in_flight ?t i = steps_left ?sb (M - w) i + (\<Sum>(b, m) \<leftarrow> Gs. steps_left (g_blocks s ! b) m i)"
    using tick(2) fits(1) by (auto simp: in_flight_def isr_step_fields steps_left_def)
  moreover have "in_flight s i = steps_left ?sb M i + (\<Sum>(b, m) \<leftarrow> Gs. steps_left (g_blocks s ! b) m i)"
    using run(2) by (simp add: in_flight_def b_def)
  moreover have "g_position ?t ! i + steps_left ?sb (M - w) i = g_position s ! i + steps_left ?sb M i"
    using axis(1,2) [OF i] i dir by (auto simp: isr_step_fields steps_left_def sb_sign_def)
  ultimately show "final_position ?t i = final_position s i"
    by (simp add: final_position_def in_planner_def isr_step_fields)
qed

subsection \<open>A new segment\<close>

definition same_moves :: "st_block list \<Rightarrow> st_block list \<Rightarrow> bool" where
  "same_moves xs ys \<longleftrightarrow> length ys = length xs \<and>
     (\<forall>i < length xs. sb_steps (ys ! i) = sb_steps (xs ! i) \<and> sb_step_event_count (ys ! i) = sb_step_event_count (xs ! i) \<and>
        sb_direction (ys ! i) = sb_direction (xs ! i))"

lemma same_moves_refl [simp]: "same_moves xs xs"
  by (simp add: same_moves_def)

lemma same_moves_nth:
  assumes "same_moves xs ys" and "i < length xs"
  shows "sb_fits (ys ! i) = sb_fits (xs ! i)" "sb_size (ys ! i) = sb_size (xs ! i)" "steps_left (ys ! i) = steps_left (xs ! i)"
    "sb_steps (ys ! i) = sb_steps (xs ! i)" "sb_axis (ys ! i) = sb_axis (xs ! i)" "sb_direction (ys ! i) = sb_direction (xs ! i)"
    "sb_step_event_count (ys ! i) = sb_step_event_count (xs ! i)"
  using assms by (auto simp: same_moves_def sb_fits_def sb_size_def steps_left_def sb_axis_def sb_sign_def fun_eq_iff)

lemma isr_new_block_fields:
  fixes env i s
  defines "t \<equiv> isr_new_block env i s"
  shows "g_segments t = g_segments s" "g_head t = g_head s" "g_tail t = g_tail s" "g_prep_block t = g_prep_block s"
    "g_position t = g_position s" "mid t = mid s" "g_prep t = g_prep s" "g_pl t = g_pl s"
    "sx_step_count (g_st t) = sx_step_count (g_st s)" "sx_exec_segment (g_st t) = sx_exec_segment (g_st s)"
    "sx_exec_block (g_st t) = Some i" "sx_step_event_count (g_st t) = sb_step_event_count (g_blocks s ! i)"
    "sx_counter (g_st t) = replicate N_AXIS (drop_bit 1 (sb_step_event_count (g_blocks s ! i)))"
    "g_blocks t = (g_blocks s)[i := (g_blocks s ! i)\<lparr>sb_output_commands := None, sb_message := None\<rparr>]"
    "sx_dir_out (g_st t) = (if True \<in> set (map2 (\<noteq>) (sx_dir_out (g_st s)) (sb_direction (g_blocks s ! i)))
       then sb_direction (g_blocks s ! i) else sx_dir_out (g_st s))"
  by (simp_all add: t_def isr_new_block_def on_defs mid_def Let_def)

lemma map2_neq_same:
  "length xs = length ys \<Longrightarrow> True \<notin> set (map2 (\<noteq>) xs ys) \<Longrightarrow> xs = (ys :: bool list)"
  by (induction xs ys rule: list_induct2) auto

lemma isr_load_fields:
  fixes env s
  defines "t \<equiv> isr_load env s" and "g \<equiv> g_segments s ! g_tail s"
  defines "u \<equiv> (if sx_exec_block (g_st s) \<noteq> Some (sg_exec_block g) then isr_new_block env (sg_exec_block g) s else s)"
  shows "g_segments t = g_segments s" "g_head t = g_head s" "g_tail t = g_tail s" "g_prep_block t = g_prep_block s"
    "g_position t = g_position s" "mid t = mid s" "g_prep t = g_prep s" "g_pl t = g_pl s"
    "sx_step_count (g_st t) = sg_n_step g" "sx_exec_segment (g_st t) = Some (g_tail s)"
    "sx_exec_block (g_st t) = Some (sg_exec_block g)" "sx_amass_level (g_st t) = sg_amass_level g"
    "g_blocks t = g_blocks u" "sx_dir_out (g_st t) = sx_dir_out (g_st u)" "sx_counter (g_st t) = sx_counter (g_st u)"
    "sx_step_event_count (g_st t) = sx_step_event_count (g_st u)"
    "sx_steps (g_st t) = map (\<lambda>i. drop_bit (sg_amass_level g) (sb_steps (g_blocks u ! sg_exec_block g) ! i)) [0..<N_AXIS]"
  by (simp_all add: t_def u_def g_def isr_load_def isr_new_block_def on_defs mid_def Let_def)

lemma isr_load_flow:
  assumes "flow_ok s" and "\<not> seg_running s" and "g_tail s \<noteq> g_head s"
  shows "flow_ok (isr_load env s)" and "seg_running (isr_load env s)" and "final_position (isr_load env s) i = final_position s i"
proof -
  have ok: "rings_ok s" "groups_ok s" "exec_ok s" "running_ok s" and rest: "mid s \<longrightarrow> pr_steps_remaining (g_prep s) \<noteq> 0"
    using assms(1) by (simp_all add: flow_ok_def)
  let ?t = "isr_load env s"
  define g where "g = g_segments s ! g_tail s"
  define b where "b = sg_exec_block g"
  define u where "u = (if sx_exec_block (g_st s) \<noteq> Some b then isr_new_block env b s else s)"
  note fields = isr_load_fields [of env s, folded g_def b_def u_def]
  obtain gs where q: "seg_queue s = g # gs"
    using seg_queue_pop [OF ok(1)] seg_queue_Nil [OF ok(1)] assms(3) g_def by auto
  have qt: "seg_queue ?t = seg_queue s" by (simp add: seg_queue_def fields)
  have n: "sg_n_step g \<noteq> 0" "sg_amass_level g \<le> 3" using ok(1) q by (simp_all add: rings_ok_def)
  then show run: "seg_running ?t" by (simp add: seg_running_def fields)
  have grp: "groups ?t = groups s"
    using run assms(2) q by (simp add: groups_def seg_work_def queue_work_def qt cut_rest_def fields seg_units_def b_def)
  obtain M Gs where G: "groups s = (b, M) # Gs"
    using merge_hd [of "seg_work s @ cut_rest s"] assms(2) q
    by (cases "groups s") (auto simp: groups_def seg_work_def queue_work_def b_def simp del: merge.simps)
  have b: "b < 9" "sb_fits (g_blocks s ! b)" "length (g_blocks s) = 9" using ok(1,2) G
    by (auto simp: groups_ok_def rings_ok_def SEGMENT_BUFFER_SIZE_def)
  have moves: "same_moves (g_blocks s) (g_blocks ?t)"
    using b(1,3) by (auto simp: fields u_def isr_new_block_fields same_moves_def nth_list_update)
  have nth: "sb_fits (g_blocks ?t ! c) = sb_fits (g_blocks s ! c)" "sb_size (g_blocks ?t ! c) = sb_size (g_blocks s ! c)"
     "steps_left (g_blocks ?t ! c) = steps_left (g_blocks s ! c)" if "c < 9" for c
    using same_moves_nth [OF moves] that b(3) by simp_all
  have ids: "c < 9" if "(c, m) \<in> set (groups s)" for c m using ok(2) that by (auto simp: groups_ok_def)
  have "in_flight ?t i = in_flight s i"
    unfolding in_flight_def grp using ids nth(3) by (intro arg_cong [of _ _ sum_list] map_cong) auto
  then show "final_position ?t i = final_position s i"
    by (simp add: final_position_def in_planner_def fields)
  have "rings_ok ?t" using ok(1) b(3) moves by (simp add: rings_ok_def qt fields same_moves_def)
  moreover have "groups_ok ?t"
  proof -
    have "set (tl (groups s)) \<subseteq> set (groups s)" by (cases "groups s") auto
    then have "\<forall>(c, m) \<in> set (tl (groups s)). m = sb_size (g_blocks ?t ! c)"
      using ok(2) ids nth(2) unfolding groups_ok_def by fastforce
    moreover have "\<forall>(c, m) \<in> set (groups s). c < 9 \<and> sb_fits (g_blocks ?t ! c) \<and> m \<le> sb_size (g_blocks ?t ! c)"
      using ok(2) ids nth(1,2) unfolding groups_ok_def by fastforce
    ultimately show ?thesis using ok(2) unfolding groups_ok_def grp fields(4) by simp
  qed
  moreover have "exec_ok ?t"
  proof -
    have bt: "sb_step_event_count (g_blocks ?t ! b) = sb_step_event_count (g_blocks s ! b)"
        "sb_direction (g_blocks ?t ! b) = sb_direction (g_blocks s ! b)" "sb_axis (g_blocks ?t ! b) = sb_axis (g_blocks s ! b)"
        "sb_size (g_blocks ?t ! b) = sb_size (g_blocks s ! b)"
      using same_moves_nth [OF moves] b by simp_all
    have "counters_ok ?t b (sb_size (g_blocks s ! b) - M)"
    proof (cases "sx_exec_block (g_st s) = Some b")
      case True
      then have "counters_ok s b (sb_size (g_blocks s ! b) - M)" using ok(3) G by (simp add: exec_ok_def)
      with True show ?thesis unfolding counters_ok_def bt by (simp add: fields u_def)
    next
      case False
      then have M: "M = sb_size (g_blocks s ! b)" using ok(3) G by (simp add: exec_ok_def)
      have "length (sx_dir_out (g_st s)) = length (sb_direction (g_blocks s ! b))"
        using ok(4) b(2) by (simp add: running_ok_def sb_fits_def)
      from map2_neq_same [OF this] have "sx_dir_out (g_st ?t) = sb_direction (g_blocks s ! b)"
        using False by (simp add: fields u_def isr_new_block_fields)
      moreover have "2 \<le> sb_size (g_blocks s ! b)" using b(2) by (rule sb_fitsE)
      ultimately show ?thesis using False unfolding counters_ok_def bt M
        by (simp add: fields u_def isr_new_block_fields counter_at_0 sb_size_def drop_bit_Suc unat_div)
    qed
    then show ?thesis unfolding exec_ok_def grp G using bt(4) by (simp add: fields)
  qed
  moreover have "running_ok ?t"
  proof -
    have "length (sx_dir_out (g_st ?t)) = N_AXIS"
      using ok(4) b(2) by (simp add: fields u_def isr_new_block_fields running_ok_def sb_fits_def)
    then show ?thesis using qt q by (simp add: running_ok_def fields b_def)
  qed
  ultimately show "flow_ok ?t" using rest by (simp add: flow_ok_def fields)
qed

subsection \<open>The interrupt\<close>

lemma st_go_idle_flow: "same_flow s (st_go_idle env s)" and st_go_idle_pl: "g_pl (st_go_idle env s) = g_pl s"
  by (simp_all add: st_go_idle_def same_flow_def seg_running_def mid_def on_defs Let_def)

lemma isr_shutdown_fields:
  fixes env s
  defines "t \<equiv> isr_shutdown env s"
  shows "g_segments t = g_segments s" "g_head t = g_head s" "g_tail t = g_tail s" "g_prep_block t = g_prep_block s"
    "g_position t = g_position s" "mid t = mid s" "pr_steps_remaining (g_prep t) = pr_steps_remaining (g_prep s)" "g_pl t = g_pl s"
    "g_blocks t = g_blocks s" "g_st t = (g_st s)\<lparr>sx_exec_block := None\<rparr>"
  by (simp_all add: t_def isr_shutdown_def st_go_idle_def on_defs mid_def Let_def split: option.split)

lemma isr_shutdown_flow:
  assumes "flow_ok s" and "groups s = []" and "sx_exec_segment (g_st s) = None"
  shows "flow_ok (isr_shutdown env s)" and "final_position (isr_shutdown env s) = final_position s"
proof -
  let ?t = "isr_shutdown env s"
  have run: "seg_running ?t = seg_running s" "\<not> seg_running s" using assms(3) by (simp_all add: seg_running_def isr_shutdown_fields)
  have q: "seg_queue ?t = seg_queue s" by (simp add: seg_queue_def isr_shutdown_fields)
  have g: "groups ?t = groups s" using run by (simp add: groups_def seg_work_def queue_work_def q cut_rest_def isr_shutdown_fields)
  show "flow_ok ?t"
    using assms run by (simp add: flow_ok_def rings_ok_def groups_ok_def exec_ok_def running_ok_def q g isr_shutdown_fields)
  show "final_position ?t = final_position s"
    using assms(2) g by (simp add: final_position_def in_flight_def in_planner_def fun_eq_iff isr_shutdown_fields)
qed

text \<open>The interrupt does not run dry in the middle of a block.\<close>

definition isr_fed :: "stepgen \<Rightarrow> bool" where
  "isr_fed s \<longleftrightarrow> seg_running s \<or> g_tail s \<noteq> g_head s \<or> \<not> mid s"

theorem isr_flow:
  assumes "flow_ok s" and "isr_fed s"
  shows "flow_ok (stepper_driver_interrupt_handler env s)"
    and "i < N_AXIS \<Longrightarrow> final_position (stepper_driver_interrupt_handler env s) i = final_position s i"
    and "g_pl (stepper_driver_interrupt_handler env s) = g_pl s" and "mid (stepper_driver_interrupt_handler env s) = mid s"
proof -
  let ?p = "isr_pulse s"
  note p = same_flow_eqs [OF isr_pulse_flow, of s]
  have ok: "flow_ok ?p" and fp: "final_position ?p = final_position s" using p assms(1) isr_pulse_pl by auto
  have run: "seg_running ?p = seg_running s" using isr_pulse_flow [of s] by (simp add: same_flow_def)
  have seg: "sx_exec_segment (g_st ?p) \<noteq> None \<longleftrightarrow> seg_running s"
    using assms(1) by (intro isr_pulse_exec) (simp add: flow_ok_def running_ok_def)
  have ring: "g_tail ?p = g_tail s" "g_head ?p = g_head s" "mid ?p = mid s" using isr_pulse_flow [of s] by (simp_all add: same_flow_def)
  let ?t = "stepper_driver_interrupt_handler env s"
  have stepped: "flow_ok (isr_step (isr_probe env u)) \<and>
      (i < N_AXIS \<longrightarrow> final_position (isr_step (isr_probe env u)) i = final_position u i) \<and>
      g_pl (isr_step (isr_probe env u)) = g_pl u \<and> mid (isr_step (isr_probe env u)) = mid u"
    if "flow_ok u" "seg_running u" for u
  proof -
    note pr = same_flow_eqs [OF isr_probe_flow [where s = u and env = env]]
    have "seg_running (isr_probe env u)" "mid (isr_probe env u) = mid u"
      using isr_probe_flow [where s = u and env = env] that(2) by (simp_all add: same_flow_def)
    then show ?thesis
      using isr_step_flow [where s = "isr_probe env u"] pr that(1) isr_probe_pl [where s = u and env = env] by (auto simp: isr_step_fields)
  qed
  consider "seg_running s" "?t = isr_step (isr_probe env ?p)"
    | "\<not> seg_running s" "g_tail s \<noteq> g_head s" "?t = isr_step (isr_probe env (isr_load env ?p))"
    | "\<not> seg_running s" "g_tail s = g_head s" "?t = isr_shutdown env ?p"
    using seg ring by (auto simp: stepper_driver_interrupt_handler_def Let_def)
  then have all: "flow_ok ?t \<and> (i < N_AXIS \<longrightarrow> final_position ?t i = final_position s i) \<and> g_pl ?t = g_pl s \<and> mid ?t = mid s"
  proof cases
    case 1
    then show ?thesis using stepped [OF ok] run fp isr_pulse_pl ring by simp
  next
    case 2
    then have "flow_ok (isr_load env ?p)" "seg_running (isr_load env ?p)" "final_position (isr_load env ?p) i = final_position ?p i"
      using isr_load_flow [OF ok] run ring by auto
    with 2 stepped show ?thesis using fp isr_pulse_pl ring by (simp add: isr_load_fields)
  next
    case 3
    then have "seg_queue ?p = []" "\<not> mid ?p" using seg_queue_Nil [of ?p] ok ring assms(2)
      by (auto simp: flow_ok_def isr_fed_def)
    then have "groups ?p = []" using run 3(1) by (simp add: groups_def seg_work_def queue_work_def cut_rest_def)
    moreover have "sx_exec_segment (g_st ?p) = None" using seg 3(1) by blast
    ultimately show ?thesis using isr_shutdown_flow [OF ok] 3 fp isr_pulse_pl ring by (simp add: isr_shutdown_fields)
  qed
  then show "flow_ok ?t" "i < N_AXIS \<Longrightarrow> final_position ?t i = final_position s i" "g_pl ?t = g_pl s" "mid ?t = mid s" by blast+
qed

end
