(* ===== verification/Step_Planner.thy ===== *)
theory Step_Planner
  imports Step_Isr
begin

text \<open>What the step generator relies on in the planner: the moves of the queued blocks, whatever their speeds.\<close>

definition moves_of :: "planner_block \<Rightarrow> nat list \<times> bool list \<times> nat" where
  "moves_of b = (pb_steps b, pb_direction b, pb_step_event_count b)"

definition block_fits :: "planner_block \<Rightarrow> bool" where
  "block_fits b \<longleftrightarrow> counts_ok b \<and> 0 < pb_step_event_count b \<and> pb_step_event_count b < 2 ^ 28"

lemma moves_of_eq:
  assumes "moves_of b = moves_of c"
  shows "block_steps b = block_steps c" "block_fits b = block_fits c"
  using assms by (auto simp: moves_of_def block_steps_def block_fits_def counts_ok_def fun_eq_iff)

lemma moves_queue_steps: "map moves_of q = map moves_of q' \<Longrightarrow> queue_steps q = queue_steps q'"
proof (induction q arbitrary: q')
  case (Cons b q)
  then obtain c r where "q' = c # r" "moves_of b = moves_of c" "map moves_of q = map moves_of r" by (cases q') auto
  with Cons.IH [of r] moves_of_eq(1) [of b c] show ?case by (simp add: queue_steps_def fun_eq_iff)
qed simp

lemma moves_fits: "map moves_of q = map moves_of q' \<Longrightarrow> (\<forall>b \<in> set q. block_fits b) = (\<forall>b \<in> set q'. block_fits b)"
proof (induction q arbitrary: q')
  case (Cons b q)
  then obtain c r where "q' = c # r" "moves_of b = moves_of c" "map moves_of q = map moves_of r" by (cases q') auto
  with Cons.IH [of r] moves_of_eq(2) [of b c] show ?case by simp
qed simp

definition planner_ok :: "planner \<Rightarrow> bool" where
  "planner_ok p \<longleftrightarrow> ring_ok p \<and> (\<exists>k. planned_at k p) \<and> (st_pl_block p = None \<or> st_pl_block p = Some (pl_tail p)) \<and>
     (queue p = [] \<longrightarrow> st_pl_block p = None) \<and> length (pl_direction p) = N_AXIS \<and> (\<forall>b \<in> set (queue p). block_fits b)"

subsection \<open>Changes of speeds only\<close>

definition same_plan :: "planner \<Rightarrow> planner \<Rightarrow> bool" where
  "same_plan p q \<longleftrightarrow> pl_size q = pl_size p \<and> pl_tail q = pl_tail p \<and> pl_head q = pl_head p \<and> pl_next_head q = pl_next_head p \<and>
     pl_planned q = pl_planned p \<and> pl_position q = pl_position p \<and> pl_direction q = pl_direction p \<and>
     length (pl_blocks q) = length (pl_blocks p) \<and>
     (\<forall>i < length (pl_blocks p). moves_of (pl_blocks q ! i) = moves_of (pl_blocks p ! i))"

lemma same_plan_refl [simp]: "same_plan p p"
  by (simp add: same_plan_def)

lemma same_plan_trans [trans]: "same_plan p q \<Longrightarrow> same_plan q r \<Longrightarrow> same_plan p r"
  by (simp add: same_plan_def)

lemma same_plan_simps [simp]:
  "same_plan p (q\<lparr>st_pl_block := a\<rparr>) = same_plan p q" "same_plan p (q\<lparr>st_current_speed := v\<rparr>) = same_plan p q"
  "same_plan p (q\<lparr>pl_actual_rpm := v\<rparr>) = same_plan p q"
  by (simp_all add: same_plan_def)

lemma same_plan_upd:
  assumes "same_plan p q" and "\<And>b. moves_of (f b) = moves_of b"
  shows "same_plan p (upd_block i f q)"
proof -
  have "moves_of ((pl_blocks q)[i := f (pl_blocks q ! i)] ! j) = moves_of (pl_blocks q ! j)" if "j < length (pl_blocks q)" for j
    using that by (cases "i = j") (simp_all add: assms(2))
  with assms(1) show ?thesis by (simp add: same_plan_def upd_block_def)
qed

lemma same_plan_set_entry: "same_plan p q \<Longrightarrow> same_plan p (set_entry_speed i v q)"
  unfolding set_entry_speed_def by (rule same_plan_upd) (simp_all add: moves_of_def)

lemma same_plan_nominal: "same_plan p (snd (plan_compute_profile_nominal_speed env b p))"
  by (simp add: plan_compute_profile_nominal_speed_def Let_def)

lemma same_plan_eqs:
  assumes "same_plan p q"
  shows "ring_ok q = ring_ok p" "planned_at k q = planned_at k p" "map moves_of (queue q) = map moves_of (queue p)"
    "map moves_of (tl (queue q)) = map moves_of (tl (queue p))" "queue q = [] \<longleftrightarrow> queue p = []"
    "planner_ok p \<Longrightarrow> st_pl_block q = None \<or> st_pl_block q = Some (pl_tail q) \<and> queue q \<noteq> [] \<Longrightarrow> planner_ok q"
proof -
  have s: "slot q = slot p" "ring_len q = ring_len p" using assms by (simp_all add: same_plan_def slot_def ring_len_def fun_eq_iff)
  show ok: "ring_ok q = ring_ok p" using assms by (simp add: same_plan_def ring_ok_def next_block_def)
  show pl: "planned_at k q = planned_at k p" for k using assms s by (simp add: same_plan_def planned_at_def)
  show q: "map moves_of (queue q) = map moves_of (queue p)"
  proof (cases "pl_blocks p = []")
    case True
    then show ?thesis using assms by (simp add: queue_def same_plan_def)
  next
    case False
    then show ?thesis using assms by (auto simp: queue_def ring_list_def same_plan_def)
  qed
  then show "map moves_of (tl (queue q)) = map moves_of (tl (queue p))" by (simp add: map_tl)
  show e: "queue q = [] \<longleftrightarrow> queue p = []" using q by (metis map_is_Nil_conv)
  show "planner_ok p \<Longrightarrow> st_pl_block q = None \<or> st_pl_block q = Some (pl_tail q) \<and> queue q \<noteq> [] \<Longrightarrow> planner_ok q"
    using ok pl e moves_fits [OF q] assms by (auto simp: planner_ok_def same_plan_def)
qed

subsection \<open>Adding a line\<close>

lemma forth_pass_bound: "forth_pass n fp p j q = (q', p') \<Longrightarrow> p' = p \<or> j < p' \<and> p' \<le> j + n"
  by (induction n arbitrary: p j q) (fastforce split: if_splits)+

lemma replan_list_bound:
  assumes "replan_list fp p q = (q', p')" and "p < length q"
  shows "p' < length q"
  using assms by (auto simp: replan_list_def Let_def dest!: forth_pass_bound)

lemma update_direction: "pl_direction (st_update_plan_block_parameters fp s) = pl_direction s"
  by (simp add: st_update_plan_block_parameters_def set_entry_speed_def upd_block_def split: option.split)

lemma reverse_pass_direction: "reverse_pass n fp c b s = Some t \<Longrightarrow> pl_direction t = pl_direction s"
proof (induction n fp c b s rule: reverse_pass.induct)
  case (2 n fp c b s)
  show ?case
  proof (cases "b = pl_planned s")
    case False
    have "pl_direction (reverse_step fp x y u) = pl_direction u" for x y u
      by (simp add: reverse_step_def set_entry_speed_def upd_block_def Let_def)
    with 2 False show ?thesis by (auto simp: Let_def update_direction split: if_splits)
  qed (use 2 in simp)
qed simp

lemma forward_pass_direction: "forward_pass n fp c b s = Some t \<Longrightarrow> pl_direction t = pl_direction s"
proof (induction n fp c b s rule: forward_pass.induct)
  case (2 n fp c b s)
  have "pl_direction (forward_step fp x y u) = pl_direction u" for x y u
    by (simp add: forward_step_def set_entry_speed_def upd_block_def Let_def)
  with 2 show ?case by (auto split: if_splits)
qed simp

lemma recalculate_direction: "planner_recalculate fp s = Some t \<Longrightarrow> pl_direction t = pl_direction s"
  by (auto simp: planner_recalculate_def Let_def bind_eq_Some_conv update_direction set_entry_speed_def upd_block_def
      simp del: reverse_pass.simps forward_pass.simps
      dest!: reverse_pass_direction forward_pass_direction split: if_splits)

lemma buffer_line_direction:
  assumes "plan_buffer_line env target d s = Some (added, d', u)" and "length (pl_direction s) = N_AXIS"
  shows "length (pl_direction u) = N_AXIS"
proof -
  have css: "pl_direction (snd (plan_css env target pos b t)) = pl_direction t" for pos b t
    by (simp add: plan_css_def Let_def split: option.split)
  have nom: "pl_direction (snd (plan_compute_profile_nominal_speed env b t)) = pl_direction t" for b t
    by (simp add: plan_compute_profile_nominal_speed_def Let_def)
  have dir: "length (mo_direction (foldl (axis_motion env target pos)
      \<lparr>mo_block = new_block target d, mo_target_steps = replicate N_AXIS 0, mo_unit_vec = replicate N_AXIS f_zero,
       mo_direction = pl_direction s\<rparr> axes_down)) = N_AXIS" for pos d
    using assms(2) by (intro axis_motion_counts) (simp_all add: counts_ok_def new_block_def zero_block_def)
  show ?thesis
    using assms(1) unfolding plan_buffer_line_def Let_def case_prod_beta
    by (auto simp: upd_block_def plan_push_def Let_def dir css nom split: if_splits dest!: recalculate_direction)
qed

text \<open>A line adds its move at the end of the queue, and its steps to the planner's position.\<close>

lemma line_planner:
  assumes ok: "planner_ok p" and "\<not> plan_check_full_buffer p" and line: "plan_buffer_line env target d p = Some (added, d', u)"
    and "\<not> backlash_motion (ld_condition d)" and "\<not> system_motion (ld_condition d)"
    and small: "\<forall>b \<in> set (queue u). pb_step_event_count b < 2 ^ 28"
  obtains bs where "planner_ok u" "map moves_of (queue u) = map moves_of (queue p @ bs)" "\<not> added \<Longrightarrow> bs = []"
    "\<And>i. i < N_AXIS \<Longrightarrow> pl_position u ! i = pl_position p ! i + queue_steps bs i"
    "st_pl_block u = st_pl_block p \<or> st_pl_block u = None"
proof -
  obtain k where k: "planned_at k p" and p: "ring_ok p" "st_pl_block p = None \<or> st_pl_block p = Some (pl_tail p)"
      "queue p = [] \<Longrightarrow> st_pl_block p = None" and dir: "length (pl_direction p) = N_AXIS"
      and fits: "\<forall>b \<in> set (queue p). block_fits b"
    using ok by (auto simp: planner_ok_def)
  have dir': "length (pl_direction u) = N_AXIS" by (rule buffer_line_direction [OF line dir])
  let ?v = "if k = 0 then current_speed_sqr (pe_fp env) p else pb_entry_speed_sqr (hd (queue p))"
  show thesis
  proof (rule line_state [where env = env and target = target and d = d and v = ?v, OF p(1) k p(2,3) assms(2) refl], goal_cases)
    case 1
    then show ?case .
  next
    case (2 a d'' v)
    then have u: "v = u" "a = added" "\<not> added" using line assms(5) by auto
    with 2 have "planner_ok u" using p dir' fits unfolding planner_ok_def by auto
    then show ?case using 2 u by (intro that [of "[]"]) (simp_all add: queue_steps_def)
  next
    case (3 d'' v c)
    then have u: "v = u" added using line by auto
    have c: "block_fits c" using 3 u small dir by (simp add: moved_def block_fits_def)
    then have "planner_ok u" using 3 u dir' unfolding planner_ok_def by auto
    then show ?case using 3 u assms(4) dir by (intro that [of "[c]"]) (simp_all add: queue_steps_def moved_def)
  next
    case (4 d'' v c k')
    then have u: "v = u" added using line by auto
    obtain b bs where q: "queue p = b # bs" using 4(2) by (cases "queue p") auto
    have "map (set_speed f_zero) (queue u) = map (set_speed f_zero) (queue p @ [c])"
      using replan_list_only [of f_zero "pe_fp env" k] 4(3) q unfolding u(1)
      by (metis (no_types, lifting) append_Cons fst_conv list.sel(1,3) list.simps(9) set_speed_simps(7))
    then have "map moves_of (map (set_speed f_zero) (queue u)) = map moves_of (map (set_speed f_zero) (queue p @ [c]))" by simp
    moreover have "moves_of \<circ> set_speed f_zero = moves_of" by (simp add: moves_of_def set_speed_def fun_eq_iff)
    ultimately have mq: "map moves_of (queue u) = map moves_of (queue p @ [c])" by (simp only: map_map)
    have "counts_ok c" "0 < pb_step_event_count c" using 4(11) dir by (simp_all add: moved_def)
    moreover have "pb_step_event_count c < 2 ^ 28"
    proof -
      have "moves_of c \<in> set (map moves_of (queue u))" unfolding mq by simp
      with small show ?thesis by (auto simp: moves_of_def)
    qed
    ultimately have "\<forall>b \<in> set (queue u). block_fits b"
      using moves_fits [OF mq] fits by (simp add: block_fits_def)
    moreover have "queue u \<noteq> []" using mq by auto
    moreover have "k < Suc (length (queue p))" using k p(1) by (auto simp: planned_at_def)
    then have "k' < Suc (length (queue p))" using replan_list_bound [OF 4(3)] q by simp
    then have "planned_at k' u" using 4(4,5,10) p(1) u(1) by (simp add: planned_at_def)
    ultimately have "planner_ok u" using 4 u dir' p unfolding planner_ok_def by auto
    then show ?case using 4 u assms(4) dir mq by (intro that [of "[c]"]) (simp_all add: queue_steps_def moved_def)
  qed
qed

subsection \<open>Discarding the block that has been cut up\<close>

lemma discard_planner:
  assumes "planner_ok p"
  shows "planner_ok (plan_discard_current_block (p\<lparr>st_pl_block := None\<rparr>))"
    and "queue (plan_discard_current_block (p\<lparr>st_pl_block := None\<rparr>)) = tl (queue p)"
    and "pl_position (plan_discard_current_block p) = pl_position p"
    and "st_pl_block (plan_discard_current_block (p\<lparr>st_pl_block := None\<rparr>)) = None"
proof -
  let ?p = "p\<lparr>st_pl_block := None\<rparr>"
  obtain k where k: "planned_at k p" "ring_ok p" using assms by (auto simp: planner_ok_def)
  have same: "same_plan p ?p" by simp
  have q: "queue ?p = queue p" by (simp add: queue_def)
  note d = discarded [of ?p k]
  have ok: "ring_ok ?p" "planned_at k ?p" using k same_plan_eqs(1,2) [OF same] by simp_all
  have dir: "pl_direction (plan_discard_current_block ?p) = pl_direction p"
    by (simp add: plan_discard_current_block_def plan_cleanup_def upd_block_def Let_def)
  show qd: "queue (plan_discard_current_block ?p) = tl (queue p)" using d(2) [OF ok] q by simp
  show "pl_position (plan_discard_current_block p) = pl_position p"
    by (simp add: plan_discard_current_block_def plan_cleanup_def upd_block_def Let_def)
  show st: "st_pl_block (plan_discard_current_block ?p) = None" using d(4) [OF ok] by simp
  have "set (tl (queue p)) \<subseteq> set (queue p)" by (cases "queue p") auto
  then show "planner_ok (plan_discard_current_block ?p)"
    using d(1,3) [OF ok] st dir qd assms by (auto simp: planner_ok_def)
qed

end
