(* ===== verification/Step_Prep.thy ===== *)
theory Step_Prep
  imports Step_Planner
begin

text \<open>Cutting a planner block into segments keeps the invariant of the step generator.\<close>

definition pipeline_ok :: "stepgen \<Rightarrow> bool" where
  "pipeline_ok s \<longleftrightarrow> flow_ok s \<and> planner_ok (g_pl s) \<and> (mid s \<longrightarrow> queue (g_pl s) \<noteq> []) \<and>
     (st_pl_block (g_pl s) \<noteq> None \<longrightarrow> \<not> velocity_profile (pr_recalculate (g_prep s)))"

text \<open>The steps that have not been cut yet of the block at the front.\<close>

definition uncut :: "stepgen \<Rightarrow> u32" where
  "uncut s = (if mid s then pr_steps_remaining (g_prep s) else of_nat (pb_step_event_count (hd (queue (g_pl s)))))"

text \<open>A segment that is queued has at least one step and not more than there are; with the last one the block is
  done.\<close>

definition cut_ok :: "stepgen \<Rightarrow> stepgen \<Rightarrow> bool" where
  "cut_ok s t \<longleftrightarrow> (g_head t \<noteq> g_head s \<longrightarrow>
     pr_steps_remaining (g_prep t) < uncut s \<and> (mid t \<longleftrightarrow> pr_steps_remaining (g_prep t) \<noteq> 0))"

subsection \<open>Loading a block\<close>

lemma chain_last: "chain p bs \<Longrightarrow> bs \<noteq> [] \<Longrightarrow> last bs = p"
  by (induction p bs rule: chain.induct) auto

lemma chain_snoc: "chain p bs \<Longrightarrow> chain (next_st_block p) (bs @ [next_st_block p])"
  by (induction p bs rule: chain.induct) auto

lemma seg_queue_room:
  assumes "rings_ok s" and "next_segment (g_head s) \<noteq> g_tail s"
  shows "length (seg_queue s) \<le> 8"
  using assms next_segment_mod [of "g_head s"]
  by (auto simp: rings_ok_def seg_queue_def length_ring_list ring_count_cases SEGMENT_BUFFER_SIZE_def Suc_mod_cases split: if_splits)

lemma load_st_block_fields:
  fixes env i s
  defines "t \<equiv> load_st_block env i s" and "k \<equiv> next_st_block (g_prep_block s)" and "b \<equiv> pl_blocks (g_pl s) ! i"
  shows "g_segments t = g_segments s" "g_head t = g_head s" "g_tail t = g_tail s" "g_prep_block t = k"
    "g_position t = g_position s" "g_st t = g_st s" "st_pl_block (g_pl t) = st_pl_block (g_pl s)" "g_prep t = g_prep s"
    "same_plan (g_pl s) (g_pl t)"
    "\<exists>sb. g_blocks t = (g_blocks s)[k := sb] \<and> sb_steps sb = map (\<lambda>idx. push_bit MAX_AMASS_LEVEL (of_nat (pb_steps b ! idx))) [0..<N_AXIS] \<and>
       sb_step_event_count sb = push_bit MAX_AMASS_LEVEL (of_nat (pb_step_event_count b)) \<and> sb_direction sb = pb_direction b"
proof -
  have "same_plan (g_pl s) (upd_block i (\<lambda>b. b\<lparr>pb_message := None\<rparr>) (g_pl s))"
    by (rule same_plan_upd) (simp_all add: moves_of_def)
  then show "same_plan (g_pl s) (g_pl t)" by (simp add: t_def load_st_block_def on_defs Let_def)
  show "\<exists>sb. g_blocks t = (g_blocks s)[k := sb] \<and> sb_steps sb = map (\<lambda>idx. push_bit MAX_AMASS_LEVEL (of_nat (pb_steps b ! idx))) [0..<N_AXIS] \<and>
       sb_step_event_count sb = push_bit MAX_AMASS_LEVEL (of_nat (pb_step_event_count b)) \<and> sb_direction sb = pb_direction b"
    by (auto simp: t_def k_def b_def load_st_block_def prep_st_block_def on_defs Let_def intro!: exI)
qed (simp_all add: t_def k_def load_st_block_def on_defs upd_block_def Let_def)

lemma load_speed_fields:
  fixes fp i s
  defines "t \<equiv> load_speed fp i s"
  shows "g_segments t = g_segments s" "g_head t = g_head s" "g_tail t = g_tail s" "g_prep_block t = g_prep_block s"
    "g_position t = g_position s" "g_st t = g_st s" "st_pl_block (g_pl t) = st_pl_block (g_pl s)" "g_blocks t = g_blocks s"
    "velocity_profile (pr_recalculate (g_prep t)) = velocity_profile (pr_recalculate (g_prep s))"
    "pr_steps_remaining (g_prep t) = pr_steps_remaining (g_prep s)" "same_plan (g_pl s) (g_pl t)"
proof -
  have "same_plan (g_pl s) (set_entry_speed i v (g_pl s\<lparr>st_current_speed := w\<rparr>))" for v w
    by (rule same_plan_set_entry) simp
  then show "same_plan (g_pl s) (g_pl t)" by (simp add: t_def load_speed_def on_defs Let_def)
qed (simp_all add: t_def load_speed_def on_defs set_entry_speed_def upd_block_def Let_def)

lemma prep_load_block_fields:
  fixes env i s
  defines "t \<equiv> prep_load_block env i s" and "k \<equiv> next_st_block (g_prep_block s)" and "b \<equiv> pl_blocks (g_pl s) ! i"
  shows "g_segments t = g_segments s" "g_head t = g_head s" "g_tail t = g_tail s" "g_prep_block t = k"
    "g_position t = g_position s" "g_st t = g_st s" "st_pl_block (g_pl t) = st_pl_block (g_pl s)"
    "velocity_profile (pr_recalculate (g_prep t)) = velocity_profile (pr_recalculate (g_prep s))"
    "pr_steps_remaining (g_prep t) = of_nat (pb_step_event_count b)" "same_plan (g_pl s) (g_pl t)"
    "\<exists>sb. g_blocks t = (g_blocks s)[k := sb] \<and> sb_steps sb = map (\<lambda>idx. push_bit MAX_AMASS_LEVEL (of_nat (pb_steps b ! idx))) [0..<N_AXIS] \<and>
       sb_step_event_count sb = push_bit MAX_AMASS_LEVEL (of_nat (pb_step_event_count b)) \<and> sb_direction sb = pb_direction b"
proof -
  let ?u = "load_st_block env i s"
  let ?v = "load_speed (sfp env) i (load_prep env b ?u)"
  note u = load_st_block_fields [where env = env and i = i and s = s, folded k_def b_def]
  have p: "g_segments (load_prep env b x) = g_segments x" "g_head (load_prep env b x) = g_head x" "g_tail (load_prep env b x) = g_tail x"
    "g_prep_block (load_prep env b x) = g_prep_block x" "g_position (load_prep env b x) = g_position x" "g_st (load_prep env b x) = g_st x"
    "g_pl (load_prep env b x) = g_pl x" "g_blocks (load_prep env b x) = g_blocks x"
    "velocity_profile (pr_recalculate (g_prep (load_prep env b x))) = velocity_profile (pr_recalculate (g_prep x))"
    "pr_steps_remaining (g_prep (load_prep env b x)) = of_nat (pb_step_event_count b)" for x
    by (simp_all add: load_prep_def on_defs Let_def)
  have l: "g_segments (load_laser fp b x) = g_segments x" "g_head (load_laser fp b x) = g_head x" "g_tail (load_laser fp b x) = g_tail x"
    "g_prep_block (load_laser fp b x) = g_prep_block x" "g_position (load_laser fp b x) = g_position x" "g_st (load_laser fp b x) = g_st x"
    "g_pl (load_laser fp b x) = g_pl x" "g_blocks (load_laser fp b x) = g_blocks x"
    "pr_recalculate (g_prep (load_laser fp b x)) = pr_recalculate (g_prep x)"
    "pr_steps_remaining (g_prep (load_laser fp b x)) = pr_steps_remaining (g_prep x)" for fp x
    by (simp_all add: load_laser_def on_defs)
  have t: "t = load_laser (sfp env) b ?v" by (simp add: t_def b_def prep_load_block_def Let_def)
  show "same_plan (g_pl s) (g_pl t)"
    using u(9) load_speed_fields(11) [of "load_prep env b ?u" "sfp env" i] unfolding t l p by (rule same_plan_trans)
  show "\<exists>sb. g_blocks t = (g_blocks s)[k := sb] \<and> sb_steps sb = map (\<lambda>idx. push_bit MAX_AMASS_LEVEL (of_nat (pb_steps b ! idx))) [0..<N_AXIS] \<and>
       sb_step_event_count sb = push_bit MAX_AMASS_LEVEL (of_nat (pb_step_event_count b)) \<and> sb_direction sb = pb_direction b"
    using u(10) unfolding t l load_speed_fields p .
  show "g_segments t = g_segments s" "g_head t = g_head s" "g_tail t = g_tail s" "g_prep_block t = k"
    "g_position t = g_position s" "g_st t = g_st s" "st_pl_block (g_pl t) = st_pl_block (g_pl s)"
    "velocity_profile (pr_recalculate (g_prep t)) = velocity_profile (pr_recalculate (g_prep s))"
    "pr_steps_remaining (g_prep t) = of_nat (pb_step_event_count b)"
    by (simp_all add: t l load_speed_fields p u(1-8))
qed

lemma unat_units:
  assumes "n < 2 ^ 28"
  shows "unat (push_bit MAX_AMASS_LEVEL (of_nat n :: u32)) = 8 * n"
proof -
  have "push_bit 3 (of_nat n :: u32) = of_nat n * 2 ^ 3" by (rule push_bit_eq_mult)
  also have "\<dots> = of_nat (8 * n)" by simp
  finally have "push_bit MAX_AMASS_LEVEL (of_nat n :: u32) = of_nat (8 * n)" unfolding MAX_AMASS_LEVEL_def .
  moreover have "(8 * n) mod 2 ^ LENGTH(32) = 8 * n" using assms by simp
  ultimately show ?thesis by (simp only: unat_of_nat)
qed

lemma loaded_block:
  assumes "block_fits b" and "sb_steps sb = map (\<lambda>idx. push_bit MAX_AMASS_LEVEL (of_nat (pb_steps b ! idx))) [0..<N_AXIS]"
    and "sb_step_event_count sb = push_bit MAX_AMASS_LEVEL (of_nat (pb_step_event_count b))" and "sb_direction sb = pb_direction b"
  shows "sb_fits sb" and "sb_size sb = 8 * pb_step_event_count b" and "i < N_AXIS \<Longrightarrow> steps_left sb (sb_size sb) i = block_steps b i"
proof -
  have b: "0 < pb_step_event_count b" "pb_step_event_count b < 2 ^ 28" "length (pb_direction b) = N_AXIS"
    "\<And>i. i < N_AXIS \<Longrightarrow> pb_steps b ! i \<le> pb_step_event_count b"
    using assms(1) by (auto simp: block_fits_def counts_ok_def)
  show size: "sb_size sb = 8 * pb_step_event_count b" using unat_units [OF b(2)] assms(3) by (simp add: sb_size_def)
  have steps: "unat (sb_steps sb ! i) = 8 * pb_steps b ! i" if "i < N_AXIS" for i
    using unat_units [of "pb_steps b ! i"] assms(2) b(2) b(4) [OF that] that by simp
  show "sb_fits sb" unfolding sb_fits_def using b size steps assms(4) by (metis Suc_leI One_nat_def)
  show "i < N_AXIS \<Longrightarrow> steps_left sb (sb_size sb) i = block_steps b i"
    using steps size b(1) assms(4) by (simp add: steps_left_def sb_axis_def sb_sign_def block_steps_def)
qed

lemma load_flow:
  fixes env
  assumes ok: "flow_ok s" and "\<not> mid s" and "next_segment (g_head s) \<noteq> g_tail s" and fits: "block_fits (pl_blocks (g_pl s) ! i)"
  defines "t \<equiv> prep_load_block env i (on_pl (\<lambda>p. p\<lparr>st_pl_block := Some i\<rparr>) s)"
  shows "flow_ok t" and "a < N_AXIS \<Longrightarrow> in_flight t a = in_flight s a + block_steps (pl_blocks (g_pl s) ! i) a" and "mid t"
proof -
  have parts: "rings_ok s" "groups_ok s" "exec_ok s" "running_ok s" using ok by (simp_all add: flow_ok_def)
  let ?p = "g_prep_block s" and ?b = "pl_blocks (g_pl s) ! i"
  let ?k = "next_st_block ?p"
  note f = prep_load_block_fields [where env = env and i = i and s = "on_pl (\<lambda>p. p\<lparr>st_pl_block := Some i\<rparr>) s", folded t_def]
  obtain sb where sb: "g_blocks t = (g_blocks s)[?k := sb]" "sb_fits sb" "sb_size sb = 8 * pb_step_event_count ?b"
      "\<And>a. a < N_AXIS \<Longrightarrow> steps_left sb (sb_size sb) a = block_steps ?b a"
    using f(11) loaded_block [OF fits] by (auto simp: on_pl_def)
  have p: "?p < 9" "?k < 9" "?k \<noteq> ?p" "length (g_blocks s) = 9"
    using parts(1) next_st_block_neq [of ?p] by (auto simp: rings_ok_def SEGMENT_BUFFER_SIZE_def)
  show mid: "mid t" using f(7) by (simp add: mid_def on_pl_def)
  have g: "groups s = merge (seg_work s)" using assms(2) by (simp add: groups_def cut_rest_def)
  have sw: "seg_queue t = seg_queue s" "seg_running t = seg_running s" "seg_work t = seg_work s"
    using f by (simp_all add: seg_queue_def seg_running_def seg_work_def queue_work_def on_pl_def)
  have "fst (last (seg_work s)) = ?p" if "seg_work s \<noteq> []"
    using that chain_last [of ?p "map fst (groups s)"] merge_last [OF that] parts(2) g by (simp add: groups_ok_def last_map)
  then have "seg_work s = [] \<or> fst (last (seg_work s)) \<noteq> ?k" using p by metis
  moreover have "8 * unat (pr_steps_remaining (g_prep t)) = sb_size sb"
    using f(9) sb(3) fits by (simp add: on_pl_def block_fits_def unat_of_nat)
  ultimately have gt: "groups t = groups s @ [(?k, sb_size sb)]"
    using merge_snoc mid f(4) g by (simp add: groups_def cut_rest_def sw on_pl_def)
  have room: "length (groups s) \<le> 8"
  proof -
    have "seg_running s \<longrightarrow> seg_queue s \<noteq> []" using parts(4) by (auto simp: running_ok_def split: list.splits)
    then have "length (seg_work s) = length (seg_queue s)"
      by (cases "seg_queue s") (auto simp: seg_work_def queue_work_def)
    then show ?thesis using seg_queue_room [OF parts(1) assms(3)] length_merge [of "seg_work s"] unfolding g by linarith
  qed
  have ids: "c < 9" if "c \<in> set (map fst (groups s))" for c using parts(2) that by (auto simp: groups_ok_def)
  have chain: "chain ?k (map fst (groups s) @ [?k])" using parts(2) by (auto simp: groups_ok_def intro: chain_snoc)
  have "distinct (map fst (groups s) @ [?k])"
    using chain ids p room by (intro chain_distinct [OF chain p(2)]) auto
  then have fresh: "c \<noteq> ?k" if "c \<in> set (map fst (groups s))" for c using that by force
  have old: "g_blocks t ! c = g_blocks s ! c" if "c \<in> set (map fst (groups s))" for c
    using fresh [OF that] sb(1) by simp
  have new: "g_blocks t ! ?k = sb" using sb(1) p by simp
  show "in_flight t a = in_flight s a + block_steps ?b a" if "a < N_AXIS"
  proof -
    have "map (\<lambda>(b, m). steps_left (g_blocks t ! b) m a) (groups s) = map (\<lambda>(b, m). steps_left (g_blocks s ! b) m a) (groups s)"
      using old by (intro map_cong) force+
    then have "in_flight s a = (\<Sum>(b, m) \<leftarrow> groups s. steps_left (g_blocks t ! b) m a)" by (simp only: in_flight_def)
    then show ?thesis using new sb(4) [OF that] by (simp add: in_flight_def gt)
  qed
  have "rings_ok t" using parts(1) f p sw by (simp add: rings_ok_def sb(1) on_pl_def SEGMENT_BUFFER_SIZE_def)
  moreover have "groups_ok t"
  proof -
    have old': "g_blocks t ! fst x = g_blocks s ! fst x" if "x \<in> set (groups s)" for x using old that by simp
    have "fst x < 9 \<and> sb_fits (g_blocks t ! fst x) \<and> snd x \<le> sb_size (g_blocks t ! fst x)" if "x \<in> set (groups s)" for x
      using parts(2) that unfolding groups_ok_def old' [OF that] by (auto simp: case_prod_beta)
    then have "\<forall>(b, m) \<in> set (groups s). b < 9 \<and> sb_fits (g_blocks t ! b) \<and> m \<le> sb_size (g_blocks t ! b)" by auto
    moreover have "snd x = sb_size (g_blocks t ! fst x)" if "x \<in> set (tl (groups s))" for x
    proof -
      have "x \<in> set (groups s)" using that by (cases "groups s") auto
      then show ?thesis using parts(2) that unfolding groups_ok_def by (auto simp: case_prod_beta old')
    qed
    then have "\<forall>(b, m) \<in> set (tl (groups s)). m = sb_size (g_blocks t ! b)" by auto
    moreover have "g_prep_block t = ?k" using f(4) by (simp add: on_pl_def)
    ultimately show ?thesis using chain room p(2) new sb(2) unfolding groups_ok_def gt by (cases "groups s") auto
  qed
  moreover have "exec_ok t"
  proof (cases "groups s")
    case Nil
    then show ?thesis using parts(3) p(3) gt new f(6) by (auto simp: exec_ok_def on_pl_def)
  next
    case (Cons g gs)
    then have "g_blocks t ! fst g = g_blocks s ! fst g" using old by simp
    then show ?thesis using parts(3) Cons gt f(6) by (cases g) (auto simp: exec_ok_def counters_ok_def on_pl_def)
  qed
  moreover have "running_ok t"
  proof (cases "seg_queue s")
    case (Cons h hs)
    then have w: "seg_work s \<noteq> []" "fst (hd (seg_work s)) = sg_exec_block h" by (auto simp: seg_work_def queue_work_def)
    then have "fst (hd (groups s)) = sg_exec_block h" "groups s \<noteq> []" using merge_hd [of "seg_work s"] g by simp_all
    then have "sg_exec_block h \<in> set (map fst (groups s))" by (metis hd_in_set image_eqI set_map)
    then show ?thesis using parts(4) Cons sw f(6) old by (simp add: running_ok_def on_pl_def)
  qed (use parts(4) sw f(6) in \<open>simp add: running_ok_def on_pl_def\<close>)
  moreover have "pr_steps_remaining (g_prep t) \<noteq> 0"
    using \<open>8 * unat _ = _\<close> sb(3) fits by (auto simp: block_fits_def)
  ultimately show "flow_ok t" by (simp add: flow_ok_def)
qed

subsection \<open>Queueing a segment\<close>

lemma seg_queue_push:
  assumes "rings_ok s" and "next_segment (g_head s) \<noteq> g_tail s"
  shows "ring_list ((g_segments s)[g_head s := g]) (next_segment (g_head s)) (g_tail s) = seg_queue s @ [g]"
  using assms next_segment_mod [of "g_head s"] ring_list_push [of "g_head s" "g_segments s" "g_tail s" g]
  by (simp add: rings_ok_def seg_queue_def)

lemma seg_queue_write:
  assumes "rings_ok s"
  shows "ring_list ((g_segments s)[g_head s := g]) (g_head s) (g_tail s) = seg_queue s"
proof -
  have "g_head s \<noteq> (g_tail s + i) mod SEGMENT_BUFFER_SIZE" if "i < ring_count SEGMENT_BUFFER_SIZE (g_head s) (g_tail s)" for i
    using assms that by (auto simp: rings_ok_def ring_count_cases add_mod_cases split: if_splits)
  moreover have "length (g_segments s) = SEGMENT_BUFFER_SIZE" using assms by (simp add: rings_ok_def)
  ultimately show ?thesis by (simp add: seg_queue_def ring_list_def)
qed

lemma unat_push_small:
  assumes "l \<le> 3" and "unat (w :: u32) < 2 ^ 28"
  shows "unat (push_bit l w) = unat w * 2 ^ l"
proof -
  have "(2::nat) ^ l \<le> 8" using power_increasing [OF assms(1), of "2::nat"] by simp
  then have "unat w * 2 ^ l \<le> unat w * 8" by (rule mult_le_mono2)
  moreover have "unat w * 8 < 2 ^ LENGTH(32)" using assms(2) by simp
  ultimately have "unat w * 2 ^ l < 2 ^ LENGTH(32)" by (rule le_less_trans)
  then have "(unat w * 2 ^ l) mod 2 ^ LENGTH(32) = unat w * 2 ^ l" by simp
  moreover have "push_bit l w = of_nat (unat w * 2 ^ l)" by (simp add: push_bit_eq_mult)
  ultimately show ?thesis by (simp only: unat_of_nat)
qed

lemma amass_level_le: "amass_level levels c \<le> 3"
  by (simp add: amass_level_def split: prod.split)

text \<open>The state after a segment of the block being cut is queued.\<close>

definition queued :: "stepgen \<Rightarrow> segment \<Rightarrow> stepgen \<Rightarrow> bool" where
  "queued s g t \<longleftrightarrow> g_segments t = (g_segments s)[g_head s := g] \<and> g_head t = next_segment (g_head s) \<and> g_tail t = g_tail s \<and>
     g_blocks t = g_blocks s \<and> g_prep_block t = g_prep_block s \<and> g_position t = g_position s \<and> g_st t = g_st s \<and>
     sg_exec_block g = g_prep_block s \<and> sg_amass_level g \<le> 3 \<and>
     sg_n_step g = push_bit (sg_amass_level g) (pr_steps_remaining (g_prep s) - pr_steps_remaining (g_prep t))"

lemma queued_flow:
  assumes ok: "flow_ok s" and "mid s" and room: "next_segment (g_head s) \<noteq> g_tail s" and q: "queued s g t"
    and cut: "pr_steps_remaining (g_prep t) < pr_steps_remaining (g_prep s)" "mid t \<longleftrightarrow> pr_steps_remaining (g_prep t) \<noteq> 0"
  shows "flow_ok t" and "in_flight t = in_flight s"
proof -
  have parts: "rings_ok s" "groups_ok s" "exec_ok s" "running_ok s" using ok by (simp_all add: flow_ok_def)
  let ?r = "unat (pr_steps_remaining (g_prep s))" and ?r' = "unat (pr_steps_remaining (g_prep t))" and ?p = "g_prep_block s"
  have seg: "seg_queue t = seg_queue s @ [g]"
    using seg_queue_push [OF parts(1) room] q by (simp add: queued_def seg_queue_def)
  have run: "seg_running t = seg_running s" using q by (simp add: queued_def seg_running_def)
  have less: "?r' < ?r" using cut(1) by (simp add: word_less_nat_alt)
  have small: "?r < 2 ^ 28"
  proof -
    let ?G = "groups s"
    have "fst (last ?G) = ?p \<and> 8 * ?r \<le> snd (last ?G)"
    proof -
      have "8 * ?r \<le> snd (last (merge (xs @ [(?p, 8 * ?r)])))" for xs
      proof (induction xs)
        case (Cons x xs)
        then show ?case by (cases "merge (xs @ [(?p, 8 * ?r)])") auto
      qed simp
      then show ?thesis using merge_last [of "seg_work s @ [(?p, 8 * ?r)]"] assms(2) by (simp add: groups_def cut_rest_def)
    qed
    moreover have "last ?G \<in> set ?G" using assms(2) by (intro last_in_set) (simp add: groups_def cut_rest_def)
    ultimately have "8 * ?r \<le> sb_size (g_blocks s ! ?p)" "sb_fits (g_blocks s ! ?p)"
      using parts(2) unfolding groups_ok_def by (fastforce simp: case_prod_beta)+
    then show ?thesis by (auto elim!: sb_fitsE)
  qed
  have diff: "unat (pr_steps_remaining (g_prep s) - pr_steps_remaining (g_prep t)) = ?r - ?r'"
    using less by (simp add: unat_sub_if_size)
  have l: "sg_amass_level g \<le> 3" using q by (simp add: queued_def)
  have units: "seg_units g = 8 * (?r - ?r')"
  proof -
    have "seg_units g = (?r - ?r') * 2 ^ sg_amass_level g * 2 ^ (3 - sg_amass_level g)"
      using q unat_push_small [OF l, of "pr_steps_remaining (g_prep s) - pr_steps_remaining (g_prep t)"] diff small
      by (simp add: seg_units_def queued_def)
    also have "\<dots> = (?r - ?r') * 2 ^ (sg_amass_level g + (3 - sg_amass_level g))" by (simp only: mult.assoc power_add)
    finally show ?thesis using l by simp
  qed
  have n: "sg_n_step g \<noteq> 0"
  proof
    assume "sg_n_step g = 0"
    then show False using units less by (simp add: seg_units_def)
  qed
  have work: "seg_work t = seg_work s @ [(?p, 8 * (?r - ?r'))]"
  proof -
    have "sg_exec_block g = ?p" "g_st t = g_st s" using q by (simp_all add: queued_def)
    moreover have "seg_running s \<longrightarrow> seg_queue s \<noteq> []" using parts(4) by (auto simp: running_ok_def split: list.splits)
    ultimately show ?thesis using units by (cases "seg_queue s") (auto simp: seg_work_def queue_work_def seg run)
  qed
  have g: "groups t = groups s"
  proof (cases "mid t")
    case True
    have "merge (seg_work s @ (?p, 8 * (?r - ?r')) # (?p, 8 * ?r') # []) = merge (seg_work s @ (?p, 8 * (?r - ?r') + 8 * ?r') # [])"
      by (rule merge_split)
    moreover have "8 * (?r - ?r') + 8 * ?r' = 8 * ?r" using less by simp
    ultimately show ?thesis using True assms(2) q by (simp add: groups_def cut_rest_def work queued_def)
  next
    case False
    then have "?r' = 0" using cut(2) by simp
    with False assms(2) show ?thesis by (simp add: groups_def cut_rest_def work)
  qed
  have b: "g_blocks t = g_blocks s" "g_st t = g_st s" "g_prep_block t = g_prep_block s" using q by (simp_all add: queued_def)
  show "in_flight t = in_flight s" by (simp add: in_flight_def g b fun_eq_iff)
  have "rings_ok t" using parts(1) q seg n l by (auto simp: rings_ok_def queued_def)
  moreover have "groups_ok t" using parts(2) by (simp add: groups_ok_def g b)
  moreover have "exec_ok t" using parts(3) by (cases "groups s") (auto simp: exec_ok_def counters_ok_def g b)
  moreover have "running_ok t" using parts(4) run by (auto simp: running_ok_def seg b split: list.splits)
  moreover have "mid t \<longrightarrow> pr_steps_remaining (g_prep t) \<noteq> 0" using cut(2) by simp
  ultimately show "flow_ok t" by (simp add: flow_ok_def)
qed

subsection \<open>One turn of the loop\<close>

lemma prep_profile_flow:
  "same_flow s (prep_profile env i s)" "same_plan (g_pl s) (g_pl (prep_profile env i s))"
  "st_pl_block (g_pl (prep_profile env i s)) = st_pl_block (g_pl s)"
  "velocity_profile (pr_recalculate (g_prep (prep_profile env i s))) = velocity_profile (pr_recalculate (g_prep s))"
  "g_fast_hold (prep_profile env i s) = False"
proof -
  have hold: "pr_steps_remaining (hold_profile fp b p) = pr_steps_remaining p"
    "pr_recalculate (hold_profile fp b p) = pr_recalculate p" for fp b p
    by (simp_all add: hold_profile_def Let_def)
  have norm: "pr_steps_remaining (normal_profile fp b v w n p) = pr_steps_remaining p"
    "velocity_profile (pr_recalculate (normal_profile fp b v w n p)) = velocity_profile (pr_recalculate p)" for fp b v w n p
    by (simp_all add: normal_profile_def Let_def)
  obtain n pl where n: "plan_compute_profile_nominal_speed (se_plan env) (pl_blocks (g_pl s) ! i) (g_pl s) = (n, pl)" by force
  have pl: "same_plan (g_pl s) pl" "st_pl_block pl = st_pl_block (g_pl s)"
    using same_plan_nominal [of "g_pl s" "se_plan env" "pl_blocks (g_pl s) ! i"]
      nominal_ring [of "g_pl s" "se_plan env" "pl_blocks (g_pl s) ! i"] n by (simp_all add: same_ring_def)
  show "same_flow s (prep_profile env i s)" "same_plan (g_pl s) (g_pl (prep_profile env i s))"
    "st_pl_block (g_pl (prep_profile env i s)) = st_pl_block (g_pl s)"
    "velocity_profile (pr_recalculate (g_prep (prep_profile env i s))) = velocity_profile (pr_recalculate (g_prep s))"
    "g_fast_hold (prep_profile env i s) = False"
    using pl by (simp_all add: prep_profile_def n on_defs same_flow_def mid_def seg_running_def hold norm Let_def)
qed

lemma ready_flow:
  assumes ok: "pipeline_ok s" and room: "next_segment (g_head s) \<noteq> g_tail s"
    and sysm: "\<not> execute_sys_motion (s_step_control (g_sys s))" and ready: "prep_ready env s = Some (i, t)"
  shows "flow_ok t" and "mid t" and "st_pl_block (g_pl t) = Some i" and "same_plan (g_pl s) (g_pl t)"
    and "\<not> velocity_profile (pr_recalculate (g_prep t))" and "pr_steps_remaining (g_prep t) = uncut s"
    and "a < N_AXIS \<Longrightarrow> final_position t a = final_position s a" and "g_head t = g_head s" and "g_tail t = g_tail s"
    and "planner_ok (g_pl t)" and "queue (g_pl s) \<noteq> []" and "i = pl_tail (g_pl s)"
proof -
  have flow: "flow_ok s" and pl: "planner_ok (g_pl s)" and qm: "mid s \<longrightarrow> queue (g_pl s) \<noteq> []"
    and vel: "st_pl_block (g_pl s) \<noteq> None \<longrightarrow> \<not> velocity_profile (pr_recalculate (g_prep s))"
    using ok by (simp_all add: pipeline_ok_def)
  have ring: "ring_ok (g_pl s)" using pl by (simp add: planner_ok_def)
  let ?goal = "flow_ok t \<and> mid t \<and> st_pl_block (g_pl t) = Some i \<and> same_plan (g_pl s) (g_pl t) \<and>
    \<not> velocity_profile (pr_recalculate (g_prep t)) \<and> pr_steps_remaining (g_prep t) = uncut s \<and>
    (a < N_AXIS \<longrightarrow> final_position t a = final_position s a) \<and> g_head t = g_head s \<and> g_tail t = g_tail s \<and>
    queue (g_pl s) \<noteq> [] \<and> i = pl_tail (g_pl s)"
  have all: ?goal
  proof (cases "st_pl_block (g_pl s)")
    case (Some j)
    then have "mid s" "t = s" "i = j" using ready by (auto simp: mid_def prep_ready_def)
    moreover have "j = pl_tail (g_pl s)" using pl Some by (auto simp: planner_ok_def)
    ultimately show ?thesis using flow vel Some qm by (simp add: uncut_def)
  next
    case None
    have i: "i = pl_tail (g_pl s)" "queue (g_pl s) \<noteq> []"
      using ready None sysm queue_Nil [OF ring]
      by (auto simp: prep_ready_def plan_get_current_block_def Let_def split: if_splits)
    let ?s = "on_pl (\<lambda>p. p\<lparr>st_pl_block := Some i\<rparr>) s"
    let ?s' = "if units_per_rev (pb_condition (pl_blocks (g_pl ?s) ! i)) then g_log [TaskDelayed Task_sync_velocity 10] ?s else ?s"
    let ?u = "if velocity_profile (pr_recalculate (g_prep ?s')) then prep_reload env ?s' else prep_load_block env i ?s'"
    have t: "t = prep_profile env i ?u"
      using ready None sysm i by (auto simp: prep_ready_def plan_get_current_block_def Let_def split: if_splits)
    obtain b bs where q: "queue (g_pl s) = b # bs" using i(2) by (cases "queue (g_pl s)") auto
    have b: "pl_blocks (g_pl s) ! i = b" "block_fits b"
      using queue_Cons(1) [OF ring q] i(1) pl q by (simp_all add: planner_ok_def)
    define v where "v = prep_profile env i ?u"
    have prof: "same_flow ?u v" "same_plan (g_pl ?u) (g_pl v)" "st_pl_block (g_pl v) = st_pl_block (g_pl ?u)"
      "velocity_profile (pr_recalculate (g_prep v)) = velocity_profile (pr_recalculate (g_prep ?u))"
      unfolding v_def by (rule prep_profile_flow)+
    have tv: "t = v" using t by (simp only: v_def)
    note eqs = same_flow_eqs [OF prof(1)]
    have tl_steps: "queue_steps (tl (queue (g_pl v))) = queue_steps (tl (queue (g_pl s)))" if "same_plan (g_pl s) (g_pl v)"
      using same_plan_eqs(4) [OF that] by (rule moves_queue_steps)
    show ?thesis
    proof (cases "velocity_profile (pr_recalculate (g_prep s))")
      case True
      then have mid: "mid s" by (simp add: mid_def)
      have u: "same_flow s ?u" "same_plan (g_pl s) (g_pl ?u)" "st_pl_block (g_pl ?u) = Some i"
        "\<not> velocity_profile (pr_recalculate (g_prep ?u))" "mid ?u"
        using True by (auto simp: prep_reload_def on_defs same_flow_def mid_def seg_running_def no_recalculate_def)
      have sv: "same_flow s v" using u(1) prof(1) by (rule same_flow_trans)
      have plan: "same_plan (g_pl s) (g_pl v)" using u(2) prof(2) by (rule same_plan_trans)
      have midv: "mid v" using prof(3) u(3) by (simp add: mid_def)
      have "final_position v a = final_position s a"
        using same_flow_eqs(3) [OF sv] tl_steps [OF plan] mid midv sv
        by (simp add: final_position_def in_planner_def same_flow_def)
      then show ?thesis using tv same_flow_eqs(5) [OF sv flow] midv prof(3,4) u(3,4) plan i mid sv
        by (simp add: uncut_def same_flow_def)
    next
      case False
      then have nmid: "\<not> mid s" using None by (simp add: mid_def)
      define w where "w = prep_load_block env i ?s"
      have load: "flow_ok w" "\<And>a. a < N_AXIS \<Longrightarrow> in_flight w a = in_flight s a + block_steps b a" "mid w"
        using load_flow [OF flow nmid room, where i = i and env = env] b unfolding w_def by simp_all
      have uw: "same_flow w ?u" "g_pl ?u = g_pl w"
      proof -
        have "prep_load_block env i (g_log es x) = g_log es (prep_load_block env i x)" for es x
          by (simp add: prep_load_block_def load_laser_def load_speed_def load_prep_def load_st_block_def on_defs Let_def)
        moreover have "g_prep (g_log es x) = g_prep x" "g_prep (on_pl f x) = g_prep x" for es x f by (simp_all add: on_defs)
        ultimately have "?u = w \<or> (\<exists>es. ?u = g_log es w)" using False by (auto simp: w_def)
        then show "same_flow w ?u" "g_pl ?u = g_pl w" by (auto simp: g_log_def same_flow_def seg_running_def mid_def)
      qed
      note fields = prep_load_block_fields [where env = env and i = i and s = ?s, folded w_def]
      have ws: "same_plan (g_pl s) (g_pl w)" "st_pl_block (g_pl w) = Some i" "g_head w = g_head s" "g_tail w = g_tail s"
          "\<not> velocity_profile (pr_recalculate (g_prep w))" "g_position w = g_position s"
          "pr_steps_remaining (g_prep w) = of_nat (pb_step_event_count b)"
        using fields False b(1) same_plan_trans [of "g_pl s" "g_pl ?s" "g_pl w"] by (simp_all add: on_pl_def)
      have wv: "same_flow w v" using uw(1) prof(1) by (rule same_flow_trans)
      have plan: "same_plan (g_pl s) (g_pl v)" using ws(1) prof(2) uw(2) same_plan_trans by metis
      have st: "st_pl_block (g_pl v) = Some i" using prof(3) uw(2) ws(2) by simp
      then have midv: "mid v" by (simp add: mid_def)
      have "velocity_profile (pr_recalculate (g_prep ?u)) = velocity_profile (pr_recalculate (g_prep w))"
        using False by (simp add: w_def prep_load_block_fields(8) g_log_def on_pl_def)
      then have velv: "\<not> velocity_profile (pr_recalculate (g_prep v))" using prof(4) ws(5) by simp
      have "final_position v a = final_position s a" if "a < N_AXIS"
        using same_flow_eqs(3) [OF wv] load(2) [OF that] tl_steps [OF plan] midv nmid ws(6) wv q
        by (simp add: final_position_def in_planner_def same_flow_def queue_steps_def)
      then show ?thesis using tv same_flow_eqs(5) [OF wv load(1)] midv st plan velv ws(3,4,7) wv i nmid q
        by (simp add: uncut_def same_flow_def)
    qed
  qed
  then show "flow_ok t" "mid t" and st: "st_pl_block (g_pl t) = Some i" and plan: "same_plan (g_pl s) (g_pl t)"
    and "\<not> velocity_profile (pr_recalculate (g_prep t))" and "pr_steps_remaining (g_prep t) = uncut s"
    and "a < N_AXIS \<Longrightarrow> final_position t a = final_position s a" and "g_head t = g_head s" and "g_tail t = g_tail s"
    and ne: "queue (g_pl s) \<noteq> []" and i: "i = pl_tail (g_pl s)" by blast+
  show "planner_ok (g_pl t)"
    using same_plan_eqs(5,6) [OF plan] pl st ne i plan by (simp add: same_plan_def)
qed

lemma write_flow:
  assumes "flow_ok s"
  shows "flow_ok (write_segment g s)" and "in_flight (write_segment g s) = in_flight s"
proof -
  let ?t = "write_segment g s"
  have "seg_queue ?t = seg_queue s" using seg_queue_write [of s g] assms by (simp add: flow_ok_def seg_queue_def write_segment_def)
  moreover from this have "groups ?t = groups s"
    by (simp add: groups_def seg_work_def queue_work_def seg_running_def cut_rest_def mid_def write_segment_def)
  ultimately show "flow_ok ?t" "in_flight ?t = in_flight s"
    using assms by (auto simp: flow_ok_def rings_ok_def groups_ok_def exec_ok_def counters_ok_def running_ok_def seg_running_def
        mid_def in_flight_def fun_eq_iff write_segment_def split: list.splits if_splits)
qed

lemma hold_block_flow:
  "same_flow s (hold_block_flag env s)" "g_pl (hold_block_flag env s) = g_pl s"
  "velocity_profile (pr_recalculate (g_prep (hold_block_flag env s))) = velocity_profile (pr_recalculate (g_prep s))"
  by (simp_all add: hold_block_flag_def on_defs same_flow_def mid_def seg_running_def Let_def)

lemma segment_done_fields:
  assumes "segment_done env i mm s = (go, t)"
  shows "g_segments t = g_segments s" "g_head t = g_head s" "g_tail t = g_tail s" "g_blocks t = g_blocks s"
    "g_prep_block t = g_prep_block s" "g_position t = g_position s" "g_st t = g_st s"
    "pr_steps_remaining (g_prep t) = pr_steps_remaining (g_prep s)"
    "velocity_profile (pr_recalculate (g_prep t)) = velocity_profile (pr_recalculate (g_prep s))"
    "g_pl t = g_pl s \<or> g_pl t = plan_discard_current_block (g_pl s\<lparr>st_pl_block := None\<rparr>)"
  using assms by (auto simp: segment_done_def hold_block_flag_def on_defs Let_def split: if_splits)

lemma timed_segment_fields:
  "sg_exec_block (timed_segment env b seg v w s) = sg_exec_block seg" "sg_amass_level (timed_segment env b seg v w s) \<le> 3"
  "sg_n_step (timed_segment env b seg v w s) = push_bit (sg_amass_level (timed_segment env b seg v w s)) (sg_n_step seg)"
  by (simp_all add: timed_segment_def amass_level_le Let_def)

lemma queue_segment_fields:
  fixes env i seg dt mm d n s
  defines "t \<equiv> queue_segment env i seg dt mm d n s"
  shows "sg_exec_block seg = g_prep_block s \<Longrightarrow> sg_n_step seg = pr_steps_remaining (g_prep s) - n \<Longrightarrow> \<exists>g. queued s g t"
    and "g_pl t = upd_block i (\<lambda>b. b\<lparr>pb_millimeters := mm\<rparr>) (g_pl s)"
    and "velocity_profile (pr_recalculate (g_prep t)) = velocity_profile (pr_recalculate (g_prep s))"
proof -
  show "\<exists>g. queued s g t" if "sg_exec_block seg = g_prep_block s" "sg_n_step seg = pr_steps_remaining (g_prep s) - n"
    unfolding t_def queue_segment_def Let_def queued_def
    by (rule exI, (intro conjI; (simp add: on_defs write_segment_def; fail)?))
      (use that in \<open>simp_all add: timed_segment_fields on_defs write_segment_def\<close>)
qed (simp_all add: t_def queue_segment_def write_segment_def on_defs Let_def)

text \<open>The segment is dropped at the end of a hold, or queued.\<close>

lemma finish_cases:
  assumes "finish_segment env i seg dt r s = (go, t)" and "sg_exec_block seg = g_prep_block s"
  obtains (dropped) g where "same_flow (write_segment g s) t" "g_pl t = g_pl s"
      "velocity_profile (pr_recalculate (g_prep t)) = velocity_profile (pr_recalculate (g_prep s))"
    | (queued) g p where "queued s g t" "same_plan (g_pl s) p" "st_pl_block p = st_pl_block (g_pl s)"
      "g_pl t = p \<or> g_pl t = plan_discard_current_block (p\<lparr>st_pl_block := None\<rparr>)"
      "velocity_profile (pr_recalculate (g_prep t)) = velocity_profile (pr_recalculate (g_prep s))"
proof -
  obtain d n where n: "segment_steps (sfp env) (g_prep s) (ra_mm r) = (d, n)" by force
  let ?seg = "seg\<lparr>sg_n_step := pr_steps_remaining (g_prep s) - n\<rparr>"
  let ?p = "upd_block i (\<lambda>b. b\<lparr>pb_millimeters := ra_mm r\<rparr>) (g_pl s)"
  show thesis
  proof (cases "pr_steps_remaining (g_prep s) - n = 0 \<and> execute_hold (s_step_control (g_sys s))")
    case True
    then have "t = hold_block_flag env (write_segment ?seg s)" using assms(1) n by (simp add: finish_segment_def Let_def)
    then show thesis using dropped [of ?seg] hold_block_flow [where s = "write_segment ?seg s" and env = env] by (simp add: write_segment_def)
  next
    case False
    let ?u = "queue_segment env i ?seg dt (ra_mm r) d n s"
    have "segment_done env i (ra_mm r) ?u = (go, t)" using assms(1) False n by (auto simp: finish_segment_def Let_def)
    moreover have "\<exists>g. queued s g ?u" "g_pl ?u = ?p"
        "velocity_profile (pr_recalculate (g_prep ?u)) = velocity_profile (pr_recalculate (g_prep s))"
      using assms(2) by (auto intro: queue_segment_fields(1) simp: queue_segment_fields(2,3))
    ultimately have "\<exists>g u. segment_done env i (ra_mm r) u = (go, t) \<and> queued s g u \<and> g_pl u = ?p \<and>
        velocity_profile (pr_recalculate (g_prep u)) = velocity_profile (pr_recalculate (g_prep s))" by blast
    then obtain g u where u: "segment_done env i (ra_mm r) u = (go, t)" "queued s g u" "g_pl u = ?p"
        "velocity_profile (pr_recalculate (g_prep u)) = velocity_profile (pr_recalculate (g_prep s))" by blast
    have "queued s g t" using u(2) segment_done_fields [OF u(1)] by (simp add: queued_def)
    moreover have "same_plan (g_pl s) ?p" by (rule same_plan_upd) (simp_all add: moves_of_def)
    moreover have "st_pl_block ?p = st_pl_block (g_pl s)" by (simp add: upd_block_def)
    ultimately show thesis
      using queued [of g ?p] segment_done_fields(9,10) [OF u(1)] u(3,4) by metis
  qed
qed

lemma prep_spindle_flow:
  assumes "prep_spindle env b seg s = (seg', t)"
  shows "same_flow s t" and "g_pl t = g_pl s" and "pr_recalculate (g_prep t) = pr_recalculate (g_prep s)"
    and "sg_exec_block seg' = sg_exec_block seg"
proof -
  obtain rpm param where r: "segment_rpm env b s = (rpm, param)" by force
  show "same_flow s t" "g_pl t = g_pl s" "pr_recalculate (g_prep t) = pr_recalculate (g_prep s)" "sg_exec_block seg' = sg_exec_block seg"
    using assms by (auto simp: prep_spindle_def r on_defs same_flow_def mid_def seg_running_def Let_def split: if_splits option.splits)
qed

lemma segment_cases:
  assumes "prep_segment env i s = Some (go, t)" and "st_pl_block (g_pl s) \<noteq> None"
  obtains (dropped) g u where "same_flow s u" "same_flow (write_segment g u) t" "same_plan (g_pl s) (g_pl t)"
      "st_pl_block (g_pl t) = st_pl_block (g_pl s)" "velocity_profile (pr_recalculate (g_prep t)) = velocity_profile (pr_recalculate (g_prep s))"
    | (queued) g u p where "same_flow s u" "queued u g t" "same_plan (g_pl s) p" "st_pl_block p = st_pl_block (g_pl s)"
      "g_pl t = p \<or> g_pl t = plan_discard_current_block (p\<lparr>st_pl_block := None\<rparr>)"
      "velocity_profile (pr_recalculate (g_prep t)) = velocity_profile (pr_recalculate (g_prep s))"
proof -
  let ?b = "pl_blocks (g_pl s) ! i"
  let ?seg = "(g_segments s ! g_head s)\<lparr>sg_exec_block := g_prep_block s, sg_update_rpm := False, sg_update_pwm := False\<rparr>"
  obtain dt r where r: "segment_ramp (sfp env) ?b (g_prep s) (st_current_speed (g_pl s)) = Some (dt, r)"
    using assms(1) by (auto simp: prep_segment_def Let_def)
  define v where "v = on_prep (\<lambda>p. p\<lparr>pr_ramp_type := ra_type r\<rparr>) (on_pl (\<lambda>p. p\<lparr>st_current_speed := ra_speed r\<rparr>) s)"
  obtain seg u where u: "prep_spindle env ?b ?seg v = (seg, u)" by force
  have fin: "finish_segment env i seg dt r u = (go, t)" using assms(1) u by (simp add: prep_segment_def r v_def Let_def)
  have v: "same_flow s v" "same_plan (g_pl s) (g_pl v)" "st_pl_block (g_pl v) = st_pl_block (g_pl s)" "g_prep_block v = g_prep_block s"
    "velocity_profile (pr_recalculate (g_prep v)) = velocity_profile (pr_recalculate (g_prep s))"
    by (simp_all add: v_def on_defs same_flow_def mid_def seg_running_def)
  note sp = prep_spindle_flow [OF u]
  have su: "same_flow s u" using v(1) sp(1) by (rule same_flow_trans)
  have "sg_exec_block seg = g_prep_block u" using sp(4) su by (simp add: same_flow_def)
  from fin this show thesis
  proof (cases rule: finish_cases)
    case (dropped g)
    then show thesis using that(1) [OF su] v sp by simp
  next
    case (queued g p)
    then show thesis using that(2) [OF su] v sp same_plan_trans [OF v(2), of p] by metis
  qed
qed

theorem turn_flow:
  assumes ok: "pipeline_ok s" and room: "next_segment (g_head s) \<noteq> g_tail s"
    and sysm: "\<not> execute_sys_motion (s_step_control (g_sys s))" and turn: "prep_turn env s = Some (go, t)" and cut: "cut_ok s t"
  shows "pipeline_ok t" and "i < N_AXIS \<Longrightarrow> final_position t i = final_position s i"
    and "pl_position (g_pl t) = pl_position (g_pl s)"
proof -
  let ?goal = "pipeline_ok t \<and> (i < N_AXIS \<longrightarrow> final_position t i = final_position s i) \<and> pl_position (g_pl t) = pl_position (g_pl s)"
  have ?goal
  proof (cases "prep_ready env s")
    case None
    then show ?thesis using turn ok by (simp add: prep_turn_def)
  next
    case (Some x)
    obtain j v where x: "x = (j, v)" by force
    note r = ready_flow [OF ok room sysm Some [unfolded x]]
    have pv: "pl_position (g_pl v) = pl_position (g_pl s)" using r(4) by (simp add: same_plan_def)
    have okv: "pipeline_ok v" using r same_plan_eqs(5) [OF r(4)] by (simp add: pipeline_ok_def)
    have keep: ?goal if w: "same_plan (g_pl v) (g_pl t)" "st_pl_block (g_pl t) = st_pl_block (g_pl v)"
        "velocity_profile (pr_recalculate (g_prep t)) = velocity_profile (pr_recalculate (g_prep v))"
        "flow_ok t" "in_flight t = in_flight v" "g_position t = g_position v"
    proof -
      have mid: "mid t" using w(2) r(3) by (simp add: mid_def)
      have "planner_ok (g_pl t)"
        using same_plan_eqs(5,6) [OF w(1)] r(3,10,11,12) same_plan_eqs(5) [OF r(4)] w(1,2) r(4) by (simp add: same_plan_def)
      then have "pipeline_ok t"
        using w r(5,11) mid same_plan_eqs(5) [OF w(1)] same_plan_eqs(5) [OF r(4)] by (simp add: pipeline_ok_def)
      moreover have "final_position t i = final_position v i"
        using w(5,6) mid r(2) moves_queue_steps [OF same_plan_eqs(4) [OF w(1)]] by (simp add: final_position_def in_planner_def)
      ultimately show ?thesis using r(7) pv w(1) by (simp add: same_plan_def)
    qed
    show ?thesis
    proof (cases "g_fast_hold v")
      case True
      then have "t = v" using turn Some x by (simp add: prep_turn_def)
      with keep r(1) show ?thesis by simp
    next
      case False
      then have seg: "prep_segment env j v = Some (go, t)" using turn Some x by (simp add: prep_turn_def)
      have "st_pl_block (g_pl v) \<noteq> None" using r(3) by simp
      from seg this show ?thesis
      proof (cases rule: segment_cases)
        case (dropped g u)
        have u: "flow_ok u" "in_flight u = in_flight v" using same_flow_eqs(3,5) [OF dropped(1)] r(1) by simp_all
        have t: "flow_ok t" "in_flight t = in_flight v"
          using same_flow_eqs(3,5) [OF dropped(2)] write_flow [OF u(1), of g] u(2) by simp_all
        have "g_position t = g_position v" using dropped(1,2) by (simp add: same_flow_def write_segment_def)
        then show ?thesis using keep dropped t by blast
      next
        case (queued g u p)
        have u: "flow_ok u" "in_flight u = in_flight v" "mid u" "pr_steps_remaining (g_prep u) = uncut s"
            "g_head u = g_head s" "g_tail u = g_tail s" "g_position u = g_position v"
          using same_flow_eqs(3,5) [OF queued(1)] r(1,2,6,8,9) queued(1) by (simp_all add: same_flow_def)
        have "rings_ok s" using ok by (simp add: pipeline_ok_def flow_ok_def)
        then have "g_head t \<noteq> g_head s"
          using queued(2) u(5) by (auto simp: queued_def rings_ok_def next_segment_def SEGMENT_BUFFER_SIZE_def split: if_splits)
        then have c: "pr_steps_remaining (g_prep t) < pr_steps_remaining (g_prep u)" "mid t \<longleftrightarrow> pr_steps_remaining (g_prep t) \<noteq> 0"
          using cut u(4) by (simp_all add: cut_ok_def)
        have "next_segment (g_head u) \<noteq> g_tail u" using room u by simp
        from queued_flow [OF u(1,3) this queued(2) c] have t: "flow_ok t" "in_flight t = in_flight v" using u(2) by simp_all
        have pos: "g_position t = g_position v" using queued(2) u(7) by (simp add: queued_def)
        have vel: "\<not> velocity_profile (pr_recalculate (g_prep t))" using queued(6) r(5) by simp
        from queued(5) show ?thesis
        proof
          assume "g_pl t = p"
          then show ?thesis using keep queued t pos by simp
        next
          assume d: "g_pl t = plan_discard_current_block (p\<lparr>st_pl_block := None\<rparr>)"
          have p: "planner_ok p"
            using same_plan_eqs(5,6) [OF queued(3)] r(3,10,11,12) same_plan_eqs(5) [OF r(4)] queued(3,4) r(4) by (simp add: same_plan_def)
          note disc = discard_planner [OF p]
          have nmid: "\<not> mid t" using disc(4) vel d by (simp add: mid_def)
          have "pipeline_ok t" using t(1) disc(1,4) d nmid by (simp add: pipeline_ok_def)
          moreover have "final_position t i = final_position v i"
            using t(2) pos nmid r(2) d disc(2) moves_queue_steps [OF same_plan_eqs(4) [OF queued(3)]]
            by (simp add: final_position_def in_planner_def)
          moreover have "pl_position (g_pl t) = pl_position (g_pl v)"
            using d queued(3) by (simp add: plan_discard_current_block_def plan_cleanup_def upd_block_def same_plan_def Let_def)
          ultimately show ?thesis using r(7) pv by simp
        qed
      qed
    qed
  qed
  then show "pipeline_ok t" "i < N_AXIS \<Longrightarrow> final_position t i = final_position s i" "pl_position (g_pl t) = pl_position (g_pl s)"
    by blast+
qed

end
