(* ===== verification/Step_Pipeline.thy ===== *)
theory Step_Pipeline
  imports Step_Prep
begin

text \<open>
  The planner, the segment generator and the stepper interrupt working together, in any order: no step is lost
  between the planned and the executed motion.
\<close>

subsection \<open>The states\<close>

text \<open>After a reset, with nothing to do; the arrays of the two rings always have their lengths.\<close>

definition at_rest :: "stepgen \<Rightarrow> bool" where
  "at_rest s \<longleftrightarrow> length (g_segments s) = SEGMENT_BUFFER_SIZE \<and> length (g_blocks s) = SEGMENT_BUFFER_SIZE - 1 \<and>
     g_head s = 0 \<and> g_tail s = 0 \<and> g_prep_block s = 0 \<and> g_st s = zero_stepper \<and> g_prep s = zero_prep \<and>
     st_pl_block (g_pl s) = None \<and> ring_ok (g_pl s) \<and> pl_tail (g_pl s) = pl_head (g_pl s) \<and> pl_planned (g_pl s) = pl_tail (g_pl s) \<and>
     length (pl_direction (g_pl s)) = N_AXIS \<and> length (g_position s) = N_AXIS \<and> pl_position (g_pl s) = g_position s"

text \<open>Nothing is left to be done: the planner and the ring of segments are empty and no segment is being executed.\<close>

definition drained :: "stepgen \<Rightarrow> bool" where
  "drained s \<longleftrightarrow> plan_get_current_block (g_pl s) = None \<and> g_tail s = g_head s \<and> sx_step_count (g_st s) = 0"

text \<open>
  A turn of the loop of \<open>st_prep_buffer\<close>, the interrupt, and calls of the planner and the state machine, interleaved
  in any way. The interrupt must not run out of segments in the middle of a block, and is only started when it is
  idle. Step counts are below \<open>2 ^ 28\<close>. The settings may differ between steps.
\<close>

inductive pipeline :: "stepgen \<Rightarrow> stepgen \<Rightarrow> bool" for s where
  pipeline_start: "pipeline s s"
| pipeline_tick: "pipeline s t \<Longrightarrow> isr_fed t \<Longrightarrow> pipeline s (stepper_driver_interrupt_handler env t)"
| pipeline_turn:
    "pipeline s t \<Longrightarrow> next_segment (g_head t) \<noteq> g_tail t \<Longrightarrow> \<not> execute_sys_motion (s_step_control (g_sys t)) \<Longrightarrow>
     prep_turn env t = Some (go, u) \<Longrightarrow> cut_ok t u \<Longrightarrow> pipeline s u"
| pipeline_line:
    "pipeline s t \<Longrightarrow> \<not> plan_check_full_buffer (g_pl t) \<Longrightarrow> st_buffer_line env target d t = Some ((added, d'), u) \<Longrightarrow>
     \<not> backlash_motion (ld_condition d) \<Longrightarrow> \<not> system_motion (ld_condition d) \<Longrightarrow>
     \<forall>b \<in> set (queue (g_pl u)). pb_step_event_count b < 2 ^ 28 \<Longrightarrow> pipeline s u"
| pipeline_update: "pipeline s t \<Longrightarrow> pipeline s (st_update_plan_block env False t)"
| pipeline_reinit: "pipeline s t \<Longrightarrow> plan_call (\<lambda>p. map_option (Pair ()) (plan_cycle_reinitialize fp p)) t = Some (r, u) \<Longrightarrow> pipeline s u"
| pipeline_control: "pipeline s t \<Longrightarrow> pipeline s (on_step_control f t)"
| pipeline_wake_up: "pipeline s t \<Longrightarrow> sx_exec_block (g_st t) = None \<Longrightarrow> pipeline s (st_wake_up env t)"

subsection \<open>Every step keeps the invariant\<close>

definition accounted :: "stepgen \<Rightarrow> bool" where
  "accounted s \<longleftrightarrow> pipeline_ok s \<and> (\<forall>i < N_AXIS. final_position s i = pl_position (g_pl s) ! i)"

lemma at_rest_accounted:
  assumes "at_rest s"
  shows "accounted s"
proof -
  have ring: "ring_ok (g_pl s)" and st: "st_pl_block (g_pl s) = None" using assms by (simp_all add: at_rest_def)
  then have q: "queue (g_pl s) = []" using queue_Nil [OF ring] assms by (simp add: at_rest_def)
  have "ring_len (g_pl s) = 0" using length_queue [OF ring] q by simp
  then have "planned_at 0 (g_pl s)" using assms tail_at [OF ring] by (simp add: planned_at_def at_rest_def)
  then have pl: "planner_ok (g_pl s)" using q ring assms by (auto simp: planner_ok_def at_rest_def)
  have seg: "seg_queue s = []" using assms by (simp add: seg_queue_def at_rest_def ring_list_empty)
  have mid: "\<not> mid s" using assms by (simp add: mid_def at_rest_def zero_prep_def no_recalculate_def)
  have g: "groups s = []" using mid assms by (simp add: groups_def seg_work_def queue_work_def seg cut_rest_def seg_running_def at_rest_def zero_stepper_def)
  have "flow_ok s" using assms mid g seg
    by (simp add: flow_ok_def rings_ok_def groups_ok_def exec_ok_def running_ok_def seg_running_def at_rest_def zero_stepper_def
        SEGMENT_BUFFER_SIZE_def)
  then show ?thesis using pl mid q st g assms
    by (simp add: accounted_def pipeline_ok_def final_position_def in_flight_def in_planner_def queue_steps_def at_rest_def)
qed

text \<open>Steps that touch neither the planner's queue nor what is in flight.\<close>

lemma same_accounted:
  assumes "accounted s" and "same_flow s t" and "same_plan (g_pl s) (g_pl t)" and "planner_ok (g_pl t)"
    and "st_pl_block (g_pl t) \<noteq> None \<longrightarrow> \<not> velocity_profile (pr_recalculate (g_prep t))"
  shows "accounted t"
proof -
  have "mid t = mid s" "g_position t = g_position s" using assms(2) by (simp_all add: same_flow_def)
  then show ?thesis
    using assms same_flow_eqs(3,5) [OF assms(2)] same_plan_eqs(3,5) [OF assms(3)]
      moves_queue_steps [OF same_plan_eqs(4) [OF assms(3)]] moves_queue_steps [OF same_plan_eqs(3) [OF assms(3)]]
    by (cases "mid s") (simp_all add: accounted_def pipeline_ok_def final_position_def in_planner_def same_plan_def)
qed

lemma tick_accounted:
  assumes "accounted s" and "isr_fed s"
  shows "accounted (stepper_driver_interrupt_handler env s)"
proof -
  let ?t = "stepper_driver_interrupt_handler env s"
  have ok: "flow_ok s" using assms(1) by (simp add: accounted_def pipeline_ok_def)
  note isr = isr_flow [OF ok assms(2), where env = env]
  have "velocity_profile (pr_recalculate (g_prep ?t)) = velocity_profile (pr_recalculate (g_prep s))"
  proof -
    have "g_prep (isr_pulse u) = g_prep u" "g_prep (isr_probe env u) = g_prep u" for u
      by (simp_all add: isr_pulse_def isr_probe_def on_defs Let_def)
    moreover have "pr_recalculate (g_prep (isr_shutdown env u)) = pr_recalculate (g_prep u)" for u
      by (simp add: isr_shutdown_def st_go_idle_def on_defs Let_def split: option.split)
    ultimately show ?thesis
      by (simp add: stepper_driver_interrupt_handler_def isr_load_fields isr_step_fields Let_def)
  qed
  then show ?thesis using assms(1) isr by (simp add: accounted_def pipeline_ok_def)
qed

lemma update_accounted:
  assumes "accounted s"
  shows "accounted (st_update_plan_block env False s)"
proof -
  let ?t = "st_update_plan_block env False s"
  have pl: "planner_ok (g_pl s)" using assms by (simp add: accounted_def pipeline_ok_def)
  show ?thesis
  proof (cases "st_pl_block (g_pl s)")
    case None
    then have "?t = s" by (simp add: st_update_plan_block_def st_update_plan_block_parameters_def on_defs)
    with assms show ?thesis by simp
  next
    case (Some i)
    let ?p = "st_update_plan_block_parameters (sfp env) (g_pl s)"
    have p: "same_plan (g_pl s) ?p" "st_pl_block ?p = None"
      using Some same_plan_set_entry [of "g_pl s" "g_pl s" i] by (simp_all add: st_update_plan_block_parameters_def)
    have t: "g_pl ?t = ?p" "velocity_profile (pr_recalculate (g_prep ?t))"
      using Some by (simp_all add: st_update_plan_block_def on_defs Let_def)
    have "same_flow s ?t"
      using Some t(2) by (simp add: same_flow_def mid_def seg_running_def st_update_plan_block_def on_defs Let_def)
    then show ?thesis using same_accounted [OF assms] p t same_plan_eqs(6) [OF p(1) pl] by simp
  qed
qed

text \<open>A call of the planner that may add moves.\<close>

lemma call_accounted:
  assumes acc: "accounted s" and call: "plan_call f s = Some (r, t)" and f: "f (g_pl s) = Some (r, p)"
    and p: "planner_ok p" "map moves_of (queue p) = map moves_of (queue (g_pl s) @ bs)" "st_pl_block p = st_pl_block (g_pl s) \<or> st_pl_block p = None"
    and pos: "\<And>i. i < N_AXIS \<Longrightarrow> pl_position p ! i = pl_position (g_pl s) ! i + queue_steps bs i"
  shows "accounted t"
proof -
  have t: "t = (if st_pl_block (g_pl s) \<noteq> None \<and> st_pl_block p = None
      then on_recalculate (\<lambda>r. r\<lparr>velocity_profile := True\<rparr>) s else s)\<lparr>g_pl := p\<rparr>"
    using call f by (simp add: plan_call_def split: if_splits)
  have flow: "same_flow s t" using p(3) unfolding t
    by (cases "st_pl_block (g_pl s)"; cases "st_pl_block p") (auto simp: same_flow_def mid_def seg_running_def on_defs)
  have mid: "mid t = mid s" "g_position t = g_position s" using flow by (simp_all add: same_flow_def)
  have gp: "g_pl t = p" by (simp add: t)
  have ok: "pipeline_ok s" using acc by (simp add: accounted_def)
  have vel: "st_pl_block p \<noteq> None \<longrightarrow> \<not> velocity_profile (pr_recalculate (g_prep t))"
  proof
    assume st: "st_pl_block p \<noteq> None"
    then have "st_pl_block (g_pl s) = st_pl_block p" using p(3) by auto
    with st ok show "\<not> velocity_profile (pr_recalculate (g_prep t))" unfolding t pipeline_ok_def by (cases "st_pl_block p") simp_all
  qed
  have ne: "mid s \<longrightarrow> queue (g_pl s) \<noteq> [] \<and> queue p \<noteq> []" using ok p(2) by (auto simp: pipeline_ok_def)
  have "in_planner t i = in_planner s i + queue_steps bs i" for i
  proof (cases "mid s")
    case True
    then obtain b q where q: "queue (g_pl s) = b # q" using ne by (cases "queue (g_pl s)") auto
    then have "map moves_of (tl (queue p)) = map moves_of (q @ bs)" using p(2) by (cases "queue p") auto
    from moves_queue_steps [OF this] show ?thesis using True q by (simp add: in_planner_def mid gp queue_steps_def)
  next
    case False
    then show ?thesis using moves_queue_steps [OF p(2)] by (simp add: in_planner_def mid gp queue_steps_def)
  qed
  then show ?thesis
    using acc pos same_flow_eqs(3,5) [OF flow] p(1) vel ne
    by (simp add: accounted_def pipeline_ok_def final_position_def mid gp add.assoc)
qed

lemma reinit_planner:
  assumes ok: "planner_ok p" and re: "plan_cycle_reinitialize fp p = Some u"
  shows "planner_ok u" and "map moves_of (queue u) = map moves_of (queue p)" and "st_pl_block u = None" and "pl_position u = pl_position p"
proof -
  let ?q = "(st_update_plan_block_parameters fp p)\<lparr>pl_planned := pl_tail (st_update_plan_block_parameters fp p)\<rparr>"
  have plan: "same_plan p (st_update_plan_block_parameters fp p)" and st: "st_pl_block ?q = None"
    using same_plan_set_entry [of p p] by (simp_all add: st_update_plan_block_parameters_def split: option.split)
  have ring: "ring_ok ?q" "planned_at 0 ?q" "slot ?q = slot p" "map moves_of (queue ?q) = map moves_of (queue p)"
      "pl_position ?q = pl_position p" "pl_direction ?q = pl_direction p"
  proof -
    have p: "ring_ok p" using ok by (simp add: planner_ok_def)
    then show "ring_ok ?q" using plan by (simp add: ring_ok_def same_plan_def next_block_def)
    show "slot ?q = slot p" using plan by (simp add: slot_def same_plan_def fun_eq_iff)
    then show "planned_at 0 ?q" using tail_at [OF p] plan by (auto simp: planned_at_def same_plan_def)
    show "map moves_of (queue ?q) = map moves_of (queue p)" using same_plan_eqs(3) [OF plan] by simp
    show "pl_position ?q = pl_position p" "pl_direction ?q = pl_direction p" using plan by (simp_all add: same_plan_def)
  qed
  have fits: "\<forall>b \<in> set (queue p). block_fits b" and dir: "length (pl_direction p) = N_AXIS" using ok by (simp_all add: planner_ok_def)
  show "planner_ok u" "map moves_of (queue u) = map moves_of (queue p)" "st_pl_block u = None" "pl_position u = pl_position p"
  proof -
    have "planner_ok u \<and> map moves_of (queue u) = map moves_of (queue p) \<and> st_pl_block u = None \<and> pl_position u = pl_position p"
    proof (cases "pl_tail ?q = pl_head ?q")
      case True
      then have "u = ?q" using re by (simp add: plan_cycle_reinitialize_def Let_def)
      then show ?thesis using ring st dir fits moves_fits [OF ring(4)] by (auto simp: planner_ok_def)
    next
      case False
      then have rc: "planner_recalculate fp ?q = Some u" using re by (simp add: plan_cycle_reinitialize_def Let_def)
      have n: "0 < ring_len ?q" using False queue_Nil [OF ring(1)] length_queue [OF ring(1)] by (cases "queue ?q") auto
      obtain q' k where qk: "(q', k) = (if 0 = ring_len ?q - 1 then (queue ?q, 0) else replan_list fp 0 (queue ?q))"
        by (metis surj_pair)
      then have "\<exists>bl. planner_recalculate fp ?q = Some (?q\<lparr>pl_blocks := bl, pl_planned := slot ?q k\<rparr>) \<and>
          length bl = length (pl_blocks ?q) \<and> queue (?q\<lparr>pl_blocks := bl\<rparr>) = q'"
        using ring st n by (intro recalculate_queue) auto
      then obtain bl where u: "u = ?q\<lparr>pl_blocks := bl, pl_planned := slot ?q k\<rparr>" "length bl = length (pl_blocks ?q)"
          "queue (?q\<lparr>pl_blocks := bl\<rparr>) = q'" using rc by auto
      have "map (set_speed f_zero) q' = map (set_speed f_zero) (queue ?q)"
        using qk replan_list_only [of f_zero fp 0 "queue ?q"] by (auto split: if_splits dest: arg_cong [where f = fst])
      then have "map moves_of (map (set_speed f_zero) q') = map moves_of (map (set_speed f_zero) (queue ?q))" by simp
      moreover have "moves_of \<circ> set_speed f_zero = moves_of" by (simp add: moves_of_def set_speed_def fun_eq_iff)
      ultimately have mq: "map moves_of q' = map moves_of (queue p)" using ring(4) by (simp only: map_map)
      have qu: "queue u = q'" using u(1,3) by (simp add: queue_def)
      have "0 < length (queue ?q)" using n length_queue [OF ring(1)] by simp
      then have "k < length (queue ?q)" using qk replan_list_bound [of fp 0 "queue ?q" q' k] by (auto split: if_splits)
      then have k: "k < ring_len ?q" using length_queue [OF ring(1)] by simp
      have "ring_ok u" using ring(1) u(1,2) by (simp add: ring_ok_def next_block_def)
      moreover have "planned_at k u" using k u(1) by (simp add: planned_at_def slot_def ring_len_def)
      moreover have "st_pl_block u = None" "length (pl_direction u) = N_AXIS" using st u(1) ring(6) dir by simp_all
      moreover have "\<forall>b \<in> set (queue u). block_fits b" using fits moves_fits mq qu by blast
      ultimately show ?thesis using mq qu u(1) ring(5) unfolding planner_ok_def by auto
    qed
    then show "planner_ok u" "map moves_of (queue u) = map moves_of (queue p)" "st_pl_block u = None" "pl_position u = pl_position p"
      by blast+
  qed
qed

lemma pipeline_accounted:
  assumes "pipeline s t" and "at_rest s"
  shows "accounted t"
  using assms
proof (induction rule: pipeline.induct)
  case pipeline_start
  then show ?case by (rule at_rest_accounted)
next
  case (pipeline_tick t env)
  then show ?case using tick_accounted by blast
next
  case (pipeline_turn t env go u)
  then have "pipeline_ok t" "\<forall>i < N_AXIS. final_position t i = pl_position (g_pl t) ! i" by (simp_all add: accounted_def)
  then show ?case using turn_flow [OF _ pipeline_turn(2-5)] by (simp add: accounted_def)
next
  case (pipeline_line t env target d added d' u)
  then have acc: "accounted t" by simp
  then have ok: "planner_ok (g_pl t)" by (simp add: accounted_def pipeline_ok_def)
  obtain p where p: "plan_buffer_line (se_plan env) target d (g_pl t) = Some (added, d', p)" "g_pl u = p"
    using pipeline_line(3) by (auto simp: st_buffer_line_def plan_call_def split: if_splits)
  obtain bs where "planner_ok p" "map moves_of (queue p) = map moves_of (queue (g_pl t) @ bs)"
      "\<And>i. i < N_AXIS \<Longrightarrow> pl_position p ! i = pl_position (g_pl t) ! i + queue_steps bs i"
      "st_pl_block p = st_pl_block (g_pl t) \<or> st_pl_block p = None"
    using line_planner [OF ok pipeline_line(2) p(1) pipeline_line(4,5)] pipeline_line(6) p(2) by metis
  then show ?case
    using call_accounted [OF acc pipeline_line(3) [unfolded st_buffer_line_def]] p(1) by simp
next
  case (pipeline_update t env)
  then show ?case using update_accounted by blast
next
  case (pipeline_reinit t fp r u)
  then have acc: "accounted t" by simp
  then have ok: "planner_ok (g_pl t)" by (simp add: accounted_def pipeline_ok_def)
  obtain p where p: "plan_cycle_reinitialize fp (g_pl t) = Some p" using pipeline_reinit(2) by (auto simp: plan_call_def)
  note re = reinit_planner [OF ok p]
  show ?case
    using call_accounted [OF acc pipeline_reinit(2), of p "[]"] re p by (simp add: queue_steps_def)
next
  case (pipeline_control t f)
  then have acc: "accounted t" by simp
  have flow: "same_flow t (on_step_control f t)" by (simp add: same_flow_def on_defs mid_def seg_running_def)
  have "g_pl (on_step_control f t) = g_pl t" "g_prep (on_step_control f t) = g_prep t" by (simp_all add: on_defs)
  then show ?case using same_accounted [OF acc flow] acc by (simp add: accounted_def pipeline_ok_def)
next
  case (pipeline_wake_up t env)
  let ?u = "st_wake_up env t"
  have acc: "accounted t" using pipeline_wake_up by simp
  have u: "g_segments ?u = g_segments t" "g_head ?u = g_head t" "g_tail ?u = g_tail t" "g_blocks ?u = g_blocks t"
    "g_prep_block ?u = g_prep_block t" "g_position ?u = g_position t" "g_prep ?u = g_prep t" "g_pl ?u = g_pl t"
    "g_st ?u = (g_st t)\<lparr>sx_dir_out := replicate N_AXIS False\<rparr>"
    by (simp_all add: st_wake_up_def on_defs Let_def)
  have run: "\<not> seg_running t" using acc pipeline_wake_up(2) by (simp add: accounted_def pipeline_ok_def flow_ok_def running_ok_def seg_running_def)
  have q: "seg_queue ?u = seg_queue t" "mid ?u = mid t" "seg_running ?u = seg_running t"
    by (simp_all add: seg_queue_def mid_def seg_running_def u)
  have g: "groups ?u = groups t" by (simp add: groups_def seg_work_def queue_work_def cut_rest_def q u)
  have "flow_ok ?u" using acc run pipeline_wake_up(2)
    by (cases "groups t") (auto simp: accounted_def pipeline_ok_def flow_ok_def rings_ok_def groups_ok_def exec_ok_def running_ok_def q g u)
  then show ?case using acc
    by (cases "mid t") (simp_all add: accounted_def pipeline_ok_def final_position_def in_flight_def in_planner_def q g u)
qed

end
