(* ===== verification/Step_Demo.thy ===== *)
theory Step_Demo
  imports Step_Pipeline Planner_Demo
begin

text \<open>Small machines for the examples of the step generator's properties.\<close>

text \<open>A step per millimeter, and fast enough to make one within a segment.\<close>

definition quick_plan :: plan_env where
  "quick_plan = mill_env\<lparr>pe_steps_per_mm := [Fin 1, Fin 1, Fin 1], pe_acceleration := replicate 3 (Fin (10 ^ 12)),
     pe_max_rate := replicate 3 (Fin (10 ^ 6))\<rparr>"

definition plain_spindle :: spindle_hal where
  "plain_spindle = \<lparr>sh_laser = False, sh_rpm_min = f_zero, sh_rpm_max = f_zero, sh_get_pwm = None, sh_pwm_off_value = 0\<rparr>"

definition quick_env :: step_env where
  "quick_env = \<lparr>se_plan = quick_plan, se_f_step_timer = 72000000, se_idle_lock_time = 255, se_energize = replicate 3 True,
     se_enable_invert = replicate 3 False, se_enable_delay = 0, se_parking_enabled = False, se_probe_configure = False,
     se_probe_triggered = False, se_task_ok = True, se_spindle = (\<lambda>_. plain_spindle)\<rparr>"

definition zero_sb :: st_block where
  "zero_sb = \<lparr>sb_steps = [], sb_step_event_count = 0, sb_steps_per_mm = f_zero, sb_millimeters = f_zero, sb_programmed_rate = f_zero,
     sb_message = None, sb_output_commands = None, sb_direction = [], sb_overrides = 0, sb_backlash_motion = False,
     sb_dynamic_rpm = False, sb_offset_id = 0, sb_spindle = 0\<rparr>"

definition zero_segment :: segment where
  "zero_segment = \<lparr>sg_exec_block = 0, sg_cycles_per_tick = 0, sg_current_rate = f_zero, sg_target_position = f_zero, sg_n_step = 0,
     sg_spindle_pwm = 0, sg_spindle_rpm = f_zero, sg_ramp_type = Ramp_Accel, sg_spindle_sync = False, sg_cruising = False,
     sg_amass_level = 0, sg_update_pwm = False, sg_update_rpm = False\<rparr>"

definition zero_param :: spindle_param where
  "zero_param = \<lparr>sq_rpm = f_zero, sq_rpm_overridden = f_zero, sq_override_pct = 100, sq_option_override_disable = False,
     sq_state_override_disable = False\<rparr>"

text \<open>After a reset.\<close>

definition still :: stepgen where
  "still = \<lparr>g_pl = demo0, g_sys = sm_init\<lparr>s_log := []\<rparr>, g_st = zero_stepper, g_blocks = replicate 9 zero_sb,
     g_segments = replicate 10 zero_segment, g_head = 0, g_tail = 0, g_prep = zero_prep, g_prep_block = 0, g_hold_block = zero_sb,
     g_stepping = False, g_fast_hold = False, g_isr_cycles = 0, g_amass = amass_levels 72000000, g_cycles_per_min = Fin (72000000 * 60),
     g_position = [0, 0, 0], g_probe_position = [0, 0, 0], g_probing_active = False, g_homing_axis_lock = [],
     g_steppers_enabled = True, g_override_control = 0, g_commands = (\<lambda>_. []), g_spindles = (\<lambda>_. zero_param), g_events = []\<rparr>"

lemma still_rest: "at_rest still"
  by (simp add: at_rest_def still_def demo0_eq demo_planner_def SEGMENT_BUFFER_SIZE_def ring_ok_def next_block_def N_AXIS_def)

definition quick_data :: "nat option \<Rightarrow> plan_line_data" where
  "quick_data c = demo_data\<lparr>ld_feed_rate := Fin (10 ^ 6), ld_output_commands := c\<rparr>"

definition quick_block :: "nat option \<Rightarrow> planner_block" where
  "quick_block c = (new_block [Fin 1, f_zero, f_zero] (quick_data c))\<lparr>pb_steps := [1, 0, 0],
     pb_step_event_count := 1, pb_millimeters := Fin 1, pb_acceleration := Fin (10 ^ 12), pb_rapid_rate := Fin (10 ^ 6),
     pb_programmed_rate := Fin (10 ^ 6)\<rparr>"

definition quick_planned :: "nat option \<Rightarrow> planner" where
  "quick_planned c = demo0\<lparr>pl_blocks := [quick_block c, zero_block, zero_block, zero_block], pl_head := 1,
     pl_next_head := Suc 1, pl_previous_nominal_speed := Fin (10 ^ 6), pl_previous_unit_vec := [f_one, f_zero, f_zero],
     pl_position := [1, 0, 0]\<rparr>"

lemma sqrt_10_12 [simp]: "sqrt 1000000000000 = 1000000" by (rule real_sqrt_unique) simp_all

lemma lround_1 [simp]: "lround 1 = 1"
proof -
  have "\<lfloor>1 + (1/2::real)\<rfloor> = 1" by linarith
  then show ?thesis by (simp add: lround_def)
qed

lemmas quick_defs = quick_plan_def quick_data_def demo0_eq quick_planned_def quick_block_def max_junction_speed_sqr_def

lemma quick_line: "plan_buffer_line quick_plan [Fin 1, f_zero, f_zero] (quick_data c) demo0 = Some (True, quick_data None, (quick_planned c))"
  by (subst plan_buffer_line_eval, simp add: demo_eval quick_defs, simp add: demo_eval quick_defs,
    simp add: demo_eval quick_defs, simp add: demo_eval quick_defs, simp add: demo_eval quick_defs,
    rule refl, simp add: demo_eval quick_defs, simp add: demo_eval quick_defs,
    rule refl, simp add: demo_eval plan_eval quick_defs)

definition quick1 :: "nat option \<Rightarrow> stepgen" where
  "quick1 c = still\<lparr>g_pl := quick_planned c\<rparr>"

lemma quick1: "st_buffer_line quick_env [Fin 1, f_zero, f_zero] (quick_data c) still = Some ((True, quick_data None), (quick1 c))"
  by (simp add: st_buffer_line_def plan_call_def quick_env_def still_def quick_line quick1_def, simp add: quick_planned_def demo0_eq demo_planner_def)

definition quick_sb :: "nat option \<Rightarrow> st_block" where
  "quick_sb c = zero_sb\<lparr>sb_steps := [8, 0, 0], sb_step_event_count := 8, sb_direction := replicate 3 False,
     sb_programmed_rate := Fin (10 ^ 6), sb_millimeters := Fin 1, sb_steps_per_mm := Fin 1, sb_output_commands := c\<rparr>"

definition quick_prep :: prep where
  "quick_prep = zero_prep\<lparr>pr_steps_per_mm := Fin 1, pr_steps_remaining := 1, pr_req_mm_increment := Fin 1.25,
     pr_target_feed := Fin (10 ^ 6), pr_maximum_speed := Fin (10 ^ 6), pr_accelerate_until := Fin 0.5, pr_decelerate_after := Fin 0.5\<rparr>"

definition quick2 :: "nat option \<Rightarrow> stepgen" where
  "quick2 c = (quick1 c)\<lparr>g_pl := (quick_planned c)\<lparr>st_pl_block := Some 0\<rparr>, g_blocks := (g_blocks still)[1 := quick_sb c], g_prep_block := 1,
     g_prep := quick_prep\<rparr>"

lemmas load_eval = prep_ready_def plan_get_current_block_def no_step_control_def sm_init_def on_defs upd_block_def zero_prep_def
  no_recalculate_def prep_load_block_def load_st_block_def load_prep_def load_speed_def load_laser_def prep_profile_def new_block_def
  zero_block_def demo_data_def plan_data_init_def no_cond_def zero_spindle_def Let_def still_def demo_planner_def next_st_block_def
  SEGMENT_BUFFER_SIZE_def prep_st_block_def zero_sb_def set_entry_speed_def entry_speed_def f_sqrt_def f_of_int_def MAX_AMASS_LEVEL_def
  N_AXIS_def REQ_MM_INCREMENT_SCALAR_def plain_spindle_def plan_get_exec_block_exit_speed_sqr_def plan_compute_profile_nominal_speed_def
  normal_profile_def f_gt_def f_sub_def f_le_def f_eq_def MINIMUM_FEED_RATE_def percent_def next_block_def mill_env_def

lemma quick_ready: "prep_ready quick_env (quick1 c) = Some (0, quick2 c)"
  by (simp add: load_eval quick1_def quick2_def quick_env_def quick_prep_def quick_sb_def quick_defs f_fun_def fmin_def upt_rec)

definition quick_segment :: segment where
  "quick_segment = zero_segment\<lparr>sg_exec_block := 1, sg_cycles_per_tick := 8640, sg_n_step := 1, sg_ramp_type := Ramp_Decel\<rparr>"

definition quick3 :: "nat option \<Rightarrow> stepgen" where
  "quick3 c = (quick2 c)\<lparr>g_pl := (quick_planned c)\<lparr>pl_blocks := [(quick_block c)\<lparr>pb_millimeters := f_zero\<rparr>, zero_block, zero_block, zero_block],
     pl_tail := 1, pl_planned := 1,
     pl_events := (case c of None \<Rightarrow> [] | Some p \<Rightarrow> [CommandsFreed p])\<rparr>, g_segments := (g_segments still)[0 := quick_segment], g_head := 1,
     g_prep := quick_prep\<lparr>pr_ramp_type := Ramp_Decel, pr_steps_remaining := 0\<rparr>\<rparr>"

lemma quick_segment: "segment_ramp exact_fpu (quick_block c) quick_prep f_zero =
    Some (Fin (2 / 10 ^ 6), \<lparr>ra_type = Ramp_Decel, ra_speed = f_zero, ra_mm = f_zero, ra_time = Fin (1 / 6000 - 2 / 10 ^ 6)\<rparr>)"
  by (simp add: segment_ramp_def quick_block_def quick_prep_def segment_loop.simps ramp_step_def ramp_accel_def ramp_decel_def Let_def
    ramp_distance_def ramp_time_def DT_SEGMENT_def ACCELERATION_TICKS_PER_SECOND_def f_of_int_def f_sub_def f_gt_def f_eq_def zero_prep_def)

lemmas segment_eval = prep_segment_def prep_spindle_def finish_segment_def segment_steps_def queue_segment_def timed_segment_def
  write_segment_def segment_done_def amass_level_def amass_levels_def next_segment_def plan_discard_current_block_def plan_cleanup_def

lemma quick2: "pl_blocks (g_pl (quick2 c)) ! 0 = quick_block c" "g_prep (quick2 c) = quick_prep" "st_current_speed (g_pl (quick2 c)) = f_zero"
    "sfp quick_env = exact_fpu" "g_head (quick2 c) = 0" "g_segments (quick2 c) ! 0 = zero_segment" "g_prep_block (quick2 c) = 1" "\<not> g_fast_hold (quick2 c)"
  by (simp_all add: quick2_def quick1_def quick_planned_def still_def demo0_eq demo_planner_def quick_env_def quick_plan_def mill_env_def)

lemma quick_turn: "prep_turn quick_env (quick1 c) = Some (True, quick3 c)"
  by (simp add: prep_turn_def quick_ready prep_segment_def quick2 quick_segment Let_def,
    simp add: segment_eval load_eval quick2_def quick3_def quick_env_def quick_prep_def quick1_def quick_sb_def quick_segment_def zero_segment_def quick_defs f_to_u32_def f_ceil_def f_to_int_def trunc_def split: option.split)

definition quick4 :: "nat option \<Rightarrow> stepgen" where
  "quick4 c = (quick3 c)\<lparr>g_st := (g_st still)\<lparr>sx_exec_block := Some 1, sx_exec_segment := Some 0, sx_step_event_count := 8,
       sx_steps := [8, 0, 0], sx_counter := [4, 4, 4], sx_step_out := [True, False, False], sx_new_block := True\<rparr>,
     g_tail := 1, g_isr_cycles := 8640, g_position := [1, 0, 0], g_blocks := (g_blocks still)[1 := quick_sb None],
     g_events := CyclesPerTick 8640 # (case c of None \<Rightarrow> [] | Some p \<Rightarrow> [FreedCommandsRead p])\<rparr>"

lemmas tick_eval = stepper_driver_interrupt_handler_def isr_pulse_def isr_probe_def isr_load_def isr_new_block_def isr_step_def
  isr_commands_def isr_message_def axis_tick_def bresenham_def OVERRIDE_SYNC_def zero_stepper_def next_segment_def

lemma quick_tick: "stepper_driver_interrupt_handler quick_env (quick3 c) = quick4 c"
  by (simp add: tick_eval on_defs quick4_def quick3_def quick2_def quick1_def still_def quick_segment_def zero_segment_def quick_sb_def zero_sb_def
     N_AXIS_def upt_rec Let_def quick_env_def SEGMENT_BUFFER_SIZE_def sm_init_def split: option.split)

lemma quick_pipeline: "pipeline still (quick4 c)"
proof -
  have "pipeline still (quick1 c)"
    by (rule pipeline_line [OF pipeline_start _ quick1])
      (auto simp: still_def demo0_eq demo_planner_def plan_check_full_buffer_def quick_data_def demo_data_def plan_data_init_def no_cond_def
        quick1_def quick_planned_def queue_def ring_list_def ring_count_def quick_block_def new_block_def zero_block_def)
  then have "pipeline still (quick3 c)"
    by (rule pipeline_turn [OF _ _ _ quick_turn])
      (simp_all add: quick1_def still_def sm_init_def no_step_control_def next_segment_def SEGMENT_BUFFER_SIZE_def cut_ok_def uncut_def quick3_def
         quick2_def quick_prep_def mid_def zero_prep_def no_recalculate_def quick_planned_def demo0_eq demo_planner_def quick_block_def
         queue_def ring_list_def ring_count_def)
  then show ?thesis
    unfolding quick_tick [symmetric] by (rule pipeline_tick) (simp add: isr_fed_def quick3_def quick2_def quick1_def still_def)
qed

end
