(* ===== verification/Step_Dry.thy ===== *)
theory Step_Dry
  imports Step_Demo
begin

subsection \<open>Running dry\<close>

text \<open>A motion of two steps in X and one in Y that takes two segments.\<close>

definition slow_env :: step_env where
  "slow_env = quick_env\<lparr>se_plan := mill_env\<lparr>pe_steps_per_mm := [Fin (1 / 2), Fin (1 / 3), Fin 1],
     pe_acceleration := [Fin 324000000, Fin 243000000, Fin 1], pe_max_rate := replicate 3 (Fin (10 ^ 6))\<rparr>\<rparr>"

definition slow_block :: planner_block where
  "slow_block = (new_block [Fin 4, Fin 3, f_zero] (quick_data None))\<lparr>pb_steps := [2, 1, 0],
     pb_step_event_count := 2, pb_millimeters := Fin 5, pb_acceleration := Fin 405000000, pb_rapid_rate := Fin 1250000,
     pb_programmed_rate := Fin (10 ^ 6)\<rparr>"

definition slow_planned :: planner where
  "slow_planned = demo0\<lparr>pl_blocks := [slow_block, zero_block, zero_block, zero_block], pl_head := 1,
     pl_next_head := Suc 1, pl_previous_nominal_speed := Fin (10 ^ 6), pl_previous_unit_vec := [Fin (4 / 5), Fin (3 / 5), f_zero],
     pl_position := [2, 1, 0]\<rparr>"

lemma sqrt25 [simp]: "sqrt 25 = 5" by (rule real_sqrt_unique) simp_all

lemmas slow_defs = slow_env_def quick_env_def quick_data_def demo0_eq slow_planned_def slow_block_def max_junction_speed_sqr_def

lemma slow_line: "plan_buffer_line (se_plan slow_env) [Fin 4, Fin 3, f_zero] (quick_data None) demo0 = Some (True, quick_data None, slow_planned)"
  by (subst plan_buffer_line_eval, simp add: demo_eval slow_defs, simp add: demo_eval slow_defs,
    simp add: demo_eval slow_defs, simp add: demo_eval slow_defs, simp add: demo_eval slow_defs,
    rule refl, simp add: demo_eval slow_defs, simp add: demo_eval slow_defs,
    rule refl, simp add: demo_eval plan_eval slow_defs)

lemma sqrt_2025 [simp]: "sqrt 2025000000 = 45000" by (rule real_sqrt_unique) simp_all

definition slow_sb :: st_block where
  "slow_sb = zero_sb\<lparr>sb_steps := [16, 8, 0], sb_step_event_count := 16, sb_direction := replicate 3 False,
     sb_programmed_rate := Fin (10 ^ 6), sb_millimeters := Fin 5, sb_steps_per_mm := Fin (2 / 5)\<rparr>"

definition slow_prep :: prep where
  "slow_prep = zero_prep\<lparr>pr_steps_per_mm := Fin (2 / 5), pr_steps_remaining := 2, pr_req_mm_increment := Fin (25 / 8),
     pr_target_feed := Fin (10 ^ 6), pr_maximum_speed := Fin 45000, pr_accelerate_until := Fin (5 / 2), pr_decelerate_after := Fin (5 / 2)\<rparr>"

definition slow1 :: stepgen where "slow1 = still\<lparr>g_pl := slow_planned\<rparr>"

definition slow2 :: stepgen where
  "slow2 = slow1\<lparr>g_pl := slow_planned\<lparr>st_pl_block := Some 0\<rparr>, g_blocks := (g_blocks still)[1 := slow_sb], g_prep_block := 1,
     g_prep := slow_prep\<rparr>"

lemma slow_added: "st_buffer_line slow_env [Fin 4, Fin 3, f_zero] (quick_data None) still = Some ((True, quick_data None), slow1)"
  by (simp add: st_buffer_line_def plan_call_def still_def slow_line slow1_def, simp add: slow_planned_def demo0_eq demo_planner_def)

lemma slow_ready: "prep_ready slow_env slow1 = Some (0, slow2)"
  by (simp add: load_eval slow1_def slow2_def slow_prep_def slow_sb_def slow_defs f_fun_def fmin_def upt_rec)

text \<open>The first segment ends in front of the second step.\<close>

definition slow_ramp :: ramp where
  "slow_ramp = \<lparr>ra_type = Ramp_Decel, ra_speed = Fin 22500, ra_mm = Fin (5 / 8), ra_time = Fin (1 / 18000)\<rparr>"

lemmas ramp_eval = segment_ramp_def segment_loop.simps ramp_step_def ramp_accel_def ramp_decel_def Let_def
    ramp_distance_def ramp_time_def DT_SEGMENT_def ACCELERATION_TICKS_PER_SECOND_def f_of_int_def f_sub_def f_gt_def f_eq_def zero_prep_def

lemma slow_segment: "segment_ramp exact_fpu slow_block slow_prep f_zero = Some (Fin (1 / 6000), slow_ramp)"
  by (simp add: slow_block_def slow_prep_def slow_ramp_def ramp_eval)

definition slow_seg :: segment where
  "slow_seg = zero_segment\<lparr>sg_exec_block := 1, sg_cycles_per_tick := 51428, sg_n_step := 8, sg_ramp_type := Ramp_Decel,
     sg_amass_level := 3, sg_current_rate := Fin 22500\<rparr>"

definition slow3 :: stepgen where
  "slow3 = slow2\<lparr>g_pl := slow_planned\<lparr>pl_blocks := [slow_block\<lparr>pb_millimeters := Fin (5 / 8)\<rparr>, zero_block, zero_block, zero_block],
     st_pl_block := Some 0, st_current_speed := Fin 22500\<rparr>, g_segments := (g_segments still)[0 := slow_seg], g_head := 1,
     g_prep := slow_prep\<lparr>pr_ramp_type := Ramp_Decel, pr_steps_remaining := 1, pr_dt_remainder := Fin (1 / 14000)\<rparr>\<rparr>"

lemma slow2: "pl_blocks (g_pl slow2) ! 0 = slow_block" "g_prep slow2 = slow_prep" "st_current_speed (g_pl slow2) = f_zero"
    "sfp slow_env = exact_fpu" "g_head slow2 = 0" "g_segments slow2 ! 0 = zero_segment" "g_prep_block slow2 = 1" "\<not> g_fast_hold slow2"
  by (simp_all add: slow2_def slow1_def slow_planned_def still_def demo0_eq demo_planner_def slow_env_def quick_env_def mill_env_def)

lemma ceiling_quarter [simp]: "\<lceil>1 / (4::real)\<rceil> = 1" by (rule ceiling_unique) simp_all

lemma slow_turn: "prep_turn slow_env slow1 = Some (True, slow3)"
  by (simp add: prep_turn_def slow_ready prep_segment_def slow2 slow_segment Let_def,
    simp add: segment_eval load_eval slow_ramp_def slow2_def slow3_def slow_prep_def slow1_def slow_sb_def slow_seg_def zero_segment_def
      slow_defs f_to_u32_def f_ceil_def f_to_int_def trunc_def)

text \<open>It is executed; the interrupt finds no other, and shuts down.\<close>

definition slow4 :: stepgen where
  "slow4 = slow3\<lparr>g_st := (g_st still)\<lparr>sx_exec_block := Some 1, sx_exec_segment := Some 0, sx_step_event_count := 16,
       sx_steps := [2, 1, 0], sx_counter := [8, 16, 8], sx_step_out := [False, False, False], sx_amass_level := 3\<rparr>,
     g_tail := 1, g_isr_cycles := 51428, g_position := [1, 0, 0]\<rparr>"

lemma slow_ticks: "\<exists>ev. (stepper_driver_interrupt_handler slow_env ^^ 8) slow3 = slow4\<lparr>g_events := ev\<rparr>"
  by (simp add: eval_nat_numeral,
    simp add: tick_eval on_defs slow4_def slow3_def slow2_def slow1_def still_def slow_seg_def zero_segment_def slow_sb_def zero_sb_def
      N_AXIS_def upt_rec Let_def slow_env_def quick_env_def SEGMENT_BUFFER_SIZE_def sm_init_def)

definition slow5 :: stepgen where
  "slow5 = slow4\<lparr>g_st := (g_st slow4)\<lparr>sx_exec_block := None, sx_exec_segment := None, sx_new_block := False\<rparr>, g_isr_cycles := 0,
     g_sys := set_exec_state_flag EXEC_CYCLE_COMPLETE (g_sys slow4)\<rparr>"

lemma slow_dry: "\<exists>ev'. stepper_driver_interrupt_handler slow_env (slow4\<lparr>g_events := ev\<rparr>) = slow5\<lparr>g_events := ev'\<rparr>"
  by (simp add: tick_eval on_defs isr_shutdown_def st_go_idle_def slow5_def slow4_def slow3_def slow2_def slow1_def still_def slow_sb_def zero_sb_def
     Let_def slow_env_def quick_env_def sm_init_def set_exec_state_flag_def Alarm_None_def)

definition slow_seg2 :: segment where
  "slow_seg2 = zero_segment\<lparr>sg_exec_block := 1, sg_cycles_per_tick := 68571, sg_n_step := 8, sg_ramp_type := Ramp_Decel,
     sg_amass_level := 3\<rparr>"

definition slow6 :: stepgen where
  "slow6 = slow5\<lparr>g_pl := slow_planned\<lparr>pl_blocks := [slow_block\<lparr>pb_millimeters := f_zero\<rparr>, zero_block, zero_block, zero_block],
     pl_tail := 1, pl_planned := 1, st_current_speed := f_zero\<rparr>, g_segments := (g_segments slow5)[1 := slow_seg2], g_head := 2,
     g_prep := (g_prep slow5)\<lparr>pr_steps_remaining := 0, pr_dt_remainder := f_zero\<rparr>\<rparr>"

lemma slow5: "st_pl_block (g_pl slow5) = Some 0" "pl_blocks (g_pl slow5) ! 0 = slow_block\<lparr>pb_millimeters := Fin (5 / 8)\<rparr>"
    "g_prep slow5 = slow_prep\<lparr>pr_ramp_type := Ramp_Decel, pr_steps_remaining := 1, pr_dt_remainder := Fin (1 / 14000)\<rparr>"
    "st_current_speed (g_pl slow5) = Fin 22500" "g_head slow5 = 1" "g_segments slow5 ! 1 = zero_segment" "g_prep_block slow5 = 1"
    "\<not> g_fast_hold slow5"
  by (simp_all add: slow5_def slow4_def slow3_def slow2_def slow1_def slow_planned_def still_def)

lemma slow_segment2: "segment_ramp exact_fpu (slow_block\<lparr>pb_millimeters := Fin (5 / 8)\<rparr>)
      (slow_prep\<lparr>pr_ramp_type := Ramp_Decel, pr_steps_remaining := 1, pr_dt_remainder := Fin (1 / 14000)\<rparr>) (Fin 22500) =
    Some (Fin (1 / 18000), \<lparr>ra_type = Ramp_Decel, ra_speed = f_zero, ra_mm = f_zero, ra_time = Fin (1 / 6000 - 1 / 18000)\<rparr>)"
  by (simp add: slow_block_def slow_prep_def ramp_eval)

lemma ceiling_cycles [simp]: "\<lceil>3840000 / (7::real)\<rceil> = 548572" by (rule ceiling_unique) simp_all

lemma slow_turn2: "prep_turn slow_env (slow5\<lparr>g_events := ev\<rparr>) = Some (True, slow6\<lparr>g_events := ev\<rparr>)"
  by (simp add: prep_turn_def prep_ready_def prep_segment_def slow5 slow2(4) slow_segment2 Let_def,
    simp add: segment_eval load_eval slow_ramp_def slow6_def slow5_def slow4_def slow3_def slow2_def slow_prep_def slow1_def slow_sb_def
      slow_seg2_def zero_segment_def
      slow_defs f_to_u32_def f_ceil_def f_to_int_def trunc_def set_exec_state_flag_def)

definition slow7 :: stepgen where
  "slow7 = slow6\<lparr>g_st := (g_st slow4)\<lparr>sx_exec_segment := Some 1, sx_counter := [8, 16, 8]\<rparr>,
     g_tail := 2, g_isr_cycles := 68571, g_position := [2, 0, 0]\<rparr>"

lemma slow_ticks2: "\<exists>ev'. (stepper_driver_interrupt_handler slow_env ^^ 8) (slow6\<lparr>g_events := ev\<rparr>) = slow7\<lparr>g_events := ev'\<rparr>"
  by (simp add: eval_nat_numeral,
    simp add: tick_eval on_defs slow7_def slow6_def slow5_def slow4_def slow3_def slow2_def slow1_def still_def slow_seg2_def zero_segment_def slow_sb_def zero_sb_def
      N_AXIS_def upt_rec Let_def slow_env_def quick_env_def SEGMENT_BUFFER_SIZE_def sm_init_def set_exec_state_flag_def Alarm_None_def)

end
