(* ===== verification/Step_Props.thy ===== *)
theory Step_Props
  imports Step_Dry
begin

text \<open>The properties of the step generator.\<close>

subsection \<open>The commanded line\<close>

text \<open>What is left of a block when its axes move in a straight line, and where the axis should be by that.\<close>

definition line_left :: "st_block \<Rightarrow> nat \<Rightarrow> nat \<Rightarrow> real" where
  "line_left sb m i = of_int (sb_sign sb i) * real (sb_axis sb i) * real m / real (sb_size sb)"

definition line_position :: "stepgen \<Rightarrow> nat \<Rightarrow> real" where
  "line_position s i = real_of_int (pl_position (g_pl s) ! i) - real_of_int (in_planner s i) -
     (\<Sum>(b, m) \<leftarrow> groups s. line_left (g_blocks s ! b) m i)"

lemma whole_left:
  assumes "sb_fits sb"
  shows "steps_left sb (sb_size sb) i = sb_sign sb i * int (sb_axis sb i)" and "line_left sb (sb_size sb) i = of_int (sb_sign sb i * int (sb_axis sb i))"
proof -
  have "2 \<le> sb_size sb" using assms by (elim sb_fitsE)
  then show "steps_left sb (sb_size sb) i = sb_sign sb i * int (sb_axis sb i)"
    and "line_left sb (sb_size sb) i = of_int (sb_sign sb i * int (sb_axis sb i))"
    by (simp_all add: steps_left_def line_left_def)
qed

lemma near_line:
  assumes "sb_fits sb" and "m \<le> sb_size sb"
  shows "\<bar>real_of_int (steps_left sb m i) - line_left sb m i\<bar> \<le> 1 / 2"
proof -
  let ?E = "sb_size sb" and ?p = "sb_axis sb i"
  have E: "2 \<le> ?E" "even ?E" using assms(1) by (auto elim: sb_fitsE)
  have "real ?p * real (?E - m) / real ?E = real ?p - real ?p * real m / real ?E"
    using assms(2) E by (simp add: of_nat_diff field_simps)
  with half_step [OF E, of ?p "?E - m"] have "\<bar>real ?p - real (steps_at ?E ?p (?E - m)) - real ?p * real m / real ?E\<bar> \<le> 1 / 2" by linarith
  then show ?thesis by (simp add: steps_left_def line_left_def sb_sign_def abs_minus_commute algebra_simps)
qed

text \<open>
  C1. No step is lost on the way through the planner, the rings and the interrupt: whatever lines are planned, cut into
  segments and executed after a reset, in any order, the position of an axis, the steps in flight and the moves in
  the planner add up to the position of the planner; when nothing is left to be done, the machine is where the
  planner thinks it is. Conditions, all of them part of the relation \<open>pipeline\<close>: (1) a segment that is queued takes at
  least one and at most all of the steps left of its block, and the block is done exactly when none is left
  (\<open>cut_ok\<close>), which the floating-point arithmetic of the segment generator does not guarantee; (2) the interrupt
  does not run out of segments in the middle of a block (\<open>isr_fed\<close>), as it does at the end of a feed hold, where
  a step can be lost (\<open>running_dry_loses_step\<close>); (3) there are no fast holds, which drop segments, and no parking or backlash
  motions; (4) a block has less than 2^28 steps, and positions do not overflow.\<close>

theorem position_accounted:
  assumes "at_rest s" and "pipeline s t" and "i < N_AXIS"
  shows "g_position t ! i + in_flight t i + in_planner t i = pl_position (g_pl t) ! i \<and>
    (drained t \<longrightarrow> g_position t ! i = pl_position (g_pl t) ! i)"
proof -
  have acc: "accounted t" using pipeline_accounted [OF assms(2,1)] .
  have "in_flight t i = 0 \<and> in_planner t i = 0" if d: "drained t"
  proof -
    have "ring_ok (g_pl t)" using acc by (simp add: accounted_def pipeline_ok_def planner_ok_def)
    then have q: "queue (g_pl t) = []" using d queue_Nil by (auto simp: drained_def plan_get_current_block_def split: if_splits)
    then have mid: "\<not> mid t" using acc by (auto simp: accounted_def pipeline_ok_def)
    have "seg_queue t = []" using d by (simp add: seg_queue_def drained_def ring_list_empty)
    then have "groups t = []" using mid d by (simp add: groups_def seg_work_def queue_work_def seg_running_def drained_def cut_rest_def)
    then show ?thesis using q mid by (simp add: in_flight_def in_planner_def queue_steps_def)
  qed
  with acc assms(3) show ?thesis by (auto simp: accounted_def final_position_def)
qed

theorem position_accounted_witness:
  "at_rest still \<and> pipeline still (quick4 None) \<and> drained (quick4 None) \<and> g_position (quick4 None) ! 0 = 1 \<and> pl_position (g_pl (quick4 None)) ! 0 = 1"
proof -
  note p = quick_pipeline
  have d: "drained (quick4 None)"
    by (simp add: drained_def quick4_def quick3_def quick_planned_def plan_get_current_block_def still_def zero_stepper_def)
  have "0 < N_AXIS" by (simp add: N_AXIS_def)
  note account = position_accounted [OF still_rest p [of None] this]
  have "g_position (quick4 None) ! 0 = 1" by (simp add: quick4_def)
  with account d p [of None] still_rest show ?thesis by metis
qed

text \<open>
  C2. While motions are executed, each axis is never further than half a step from the commanded straight line, under the
  conditions of C1: every segment takes at least one and at most all of the steps left of its block and the block is
  done when none is left (\<open>cut_ok\<close>), the interrupt does not run out of segments in the middle of a block
  (\<open>isr_fed\<close>), there are no fast holds, parking or backlash motions, and a block has less than 2^28 steps. After a
  feed hold an axis can be a whole step off (\<open>running_dry_loses_step\<close>).\<close>

theorem half_step_accuracy:
  assumes "at_rest s" and "pipeline s t" and "i < N_AXIS"
  shows "\<bar>real_of_int (g_position t ! i) - line_position t i\<bar> \<le> 1 / 2"
proof -
  let ?sb = "\<lambda>b. g_blocks t ! b"
  have acc: "accounted t" using pipeline_accounted [OF assms(2,1)] .
  then have flow: "groups_ok t" by (simp add: accounted_def pipeline_ok_def flow_ok_def)
  have "\<bar>real_of_int (in_flight t i) - (\<Sum>(b, m) \<leftarrow> groups t. line_left (?sb b) m i)\<bar> \<le> 1 / 2"
  proof (cases "groups t")
    case Nil
    then show ?thesis by (simp add: in_flight_def)
  next
    case (Cons x xs)
    have hd: "sb_fits (?sb (fst x))" "snd x \<le> sb_size (?sb (fst x))" and tl: "\<forall>y \<in> set xs. sb_fits (?sb (fst y)) \<and> snd y = sb_size (?sb (fst y))"
      using flow Cons by (auto simp: groups_ok_def)
    have "(\<Sum>(b, m) \<leftarrow> xs. line_left (?sb b) m i) = real_of_int (\<Sum>(b, m) \<leftarrow> xs. steps_left (?sb b) m i)"
      using tl by (induction xs) (auto simp: whole_left)
    with near_line [OF hd, of i] Cons show ?thesis by (simp add: in_flight_def case_prod_beta)
  qed
  moreover have "real_of_int (g_position t ! i) + real_of_int (in_flight t i) + real_of_int (in_planner t i) = real_of_int (pl_position (g_pl t) ! i)"
    using acc assms(3) by (simp add: accounted_def final_position_def flip: of_int_add)
  ultimately show ?thesis unfolding line_position_def by linarith
qed

theorem half_step_accuracy_witness:
  "pipeline still (quick4 None) \<and> line_position (quick4 None) 0 = 1 \<and> \<bar>real_of_int (g_position (quick4 None) ! 0) - line_position (quick4 None) 0\<bar> \<le> 1 / 2"
proof -
  have "seg_queue (quick4 None) = []"
    by (simp add: seg_queue_def quick4_def quick3_def ring_list_empty)
  moreover have "\<not> mid (quick4 None)"
    by (simp add: mid_def quick4_def quick3_def quick_planned_def demo0_eq demo_planner_def quick_prep_def zero_prep_def no_recalculate_def)
  moreover have "queue (g_pl (quick4 None)) = []"
    by (simp add: quick4_def quick3_def quick_planned_def queue_def ring_list_empty)
  ultimately have "line_position (quick4 None) 0 = 1"
    by (simp add: line_position_def in_planner_def queue_steps_def groups_def seg_work_def queue_work_def cut_rest_def seg_running_def)
      (simp add: quick4_def quick3_def quick_planned_def still_def zero_stepper_def)
  moreover have "0 < N_AXIS" by (simp add: N_AXIS_def)
  ultimately show ?thesis using half_step_accuracy [OF still_rest quick_pipeline] quick_pipeline by blast
qed

text \<open>
  C39. The output commands of a short motion are read after they were freed: the planner frees them with the block as soon
  as it is cut up, and the stepper interrupt reads them when the motion starts, after that.\<close>

theorem short_motion_reads_freed_commands:
  "\<exists>t u. st_buffer_line quick_env [Fin 1, f_zero, f_zero] (quick_data (Some p)) still = Some ((True, quick_data None), t) \<and>
     st_prep_buffer quick_env t = Some u \<and> CommandsFreed p \<in> set (pl_events (g_pl u)) \<and>
     FreedCommandsRead p \<in> set (g_events (stepper_driver_interrupt_handler quick_env u))"
proof -
  have "prep_turn quick_env (quick3 (Some p)) = Some (False, quick3 (Some p))"
    by (simp add: prep_turn_def prep_ready_def quick3_def quick2_def quick1_def quick_planned_def plan_get_current_block_def still_def sm_init_def
        no_step_control_def demo0_eq demo_planner_def)
  then have "st_prep_buffer quick_env (quick1 (Some p)) = Some (quick3 (Some p))"
    by (simp add: st_prep_buffer_def prep_loop.simps quick_turn)
      (simp add: quick1_def quick2_def quick3_def still_def sm_init_def no_step_control_def next_segment_def SEGMENT_BUFFER_SIZE_def)
  moreover have "CommandsFreed p \<in> set (pl_events (g_pl (quick3 (Some p))))" by (simp add: quick3_def)
  moreover have "FreedCommandsRead p \<in> set (g_events (stepper_driver_interrupt_handler quick_env (quick3 (Some p))))"
    by (simp add: quick_tick) (simp add: quick4_def)
  ultimately show ?thesis using quick1 by blast
qed

text \<open>
  C40. Running out of segments in the middle of a block loses a step of each axis that is exactly half-way between two steps:
  the interrupt forgets the block it executes, so that its counters start anew with the next segment. Here an axis
  is planned to make one step while another makes two, and makes none.\<close>

theorem running_dry_loses_step:
  "\<exists>s t v w. st_buffer_line slow_env [Fin 4, Fin 3, f_zero] (quick_data None) still = Some ((True, quick_data None), s) \<and>
     prep_turn slow_env s = Some (True, t) \<and>
     v = stepper_driver_interrupt_handler slow_env ((stepper_driver_interrupt_handler slow_env ^^ 8) t) \<and> sx_exec_block (g_st v) = None \<and>
     prep_turn slow_env v = Some (True, w) \<and>
     (let x = (stepper_driver_interrupt_handler slow_env ^^ 8) w in
        drained x \<and> g_position x = [2, 0, 0] \<and> pl_position (g_pl x) = [2, 1, 0])"
proof -
  obtain e1 where e1: "(stepper_driver_interrupt_handler slow_env ^^ 8) slow3 = slow4\<lparr>g_events := e1\<rparr>" using slow_ticks by blast
  obtain e2 where e2: "stepper_driver_interrupt_handler slow_env (slow4\<lparr>g_events := e1\<rparr>) = slow5\<lparr>g_events := e2\<rparr>"
    using slow_dry by blast
  obtain e3 where e3: "(stepper_driver_interrupt_handler slow_env ^^ 8) (slow6\<lparr>g_events := e2\<rparr>) = slow7\<lparr>g_events := e3\<rparr>"
    using slow_ticks2 by blast
  have "sx_exec_block (g_st (slow5\<lparr>g_events := e2\<rparr>)) = None" by (simp add: slow5_def)
  moreover have "drained (slow7\<lparr>g_events := e3\<rparr>) \<and> g_position (slow7\<lparr>g_events := e3\<rparr>) = [2, 0, 0] \<and>
      pl_position (g_pl (slow7\<lparr>g_events := e3\<rparr>)) = [2, 1, 0]"
    by (simp add: drained_def slow7_def slow6_def slow4_def slow_planned_def plan_get_current_block_def still_def zero_stepper_def)
  ultimately show ?thesis
    using slow_added slow_turn slow_turn2 [of e2] e1 e2 e3 by (metis (no_types, lifting))
qed

end
