(* ===== verification/Spec2Isabelle.thy ===== *)
theory Spec2Isabelle
  imports Crc Utf8 Override Canbus TaskQueue_Run Modbus_Frames Modbus_Retry Modbus_Api StateMachine_Props
    Errors NutsBolts Ngc_Flow_Subs Planner_Props Step_Props
begin

text \<open>
  A model of grblHAL, the CNC controller firmware, as ported to the MKS Robin Nano V2 (sources under \<open>src/\<close>,
  the core of the firmware in \<open>src/grbl\<close>).

  \<^bold>\<open>The program.\<close> G-code arrives character by character on a stream (serial, USB, a file on a card), is
  assembled into lines, parsed and planned; steps are produced by interrupts. A foreground loop polls
  tasks and real-time events; a state machine reacts to the latter. A G-code program may compute with
  parameters and expressions and may contain O-word conditionals, loops and subroutines, the latter
  also in files that temporarily replace the input stream. Peripherals such as spindles are driven over
  Modbus RTU or the CAN bus.

  \<^bold>\<open>Theories and sources.\<close>
  \<^item> \<open>Prelude\<close>: machine integers, ring buffers over a C array, and the locale \<open>bounded_fifo\<close>, the contract of
    every queue of the firmware. \<open>Override\<close>, \<open>Canbus\<close> interpret it.
  \<^item> \<open>Crc\<close>: \<open>grbl/crc.c\<close>. The locale \<open>checksum\<close> gives error detection and is interpreted on the
    routines of the code.
  \<^item> \<open>Utf8\<close>: the encoder of \<open>grbl/utf8.c\<close>.
  \<^item> \<open>Override\<close>: the three command queues of \<open>grbl/override.c\<close>.
  \<^item> \<open>Canbus\<close>: the message queues and the poll task of \<open>grbl/canbus.c\<close>; the driver accepts a message or not
    in every call.
  \<^item> \<open>TaskQueue\<close>, \<open>TaskQueue_Inv\<close>, \<open>TaskQueue_Run\<close>: the task queues of \<open>grbl/grbllib.c\<close>, linked lists in a
    pool of nodes; their well-formedness; the foreground loop.
  \<^item> \<open>StateMachine\<close>, \<open>StateMachine_Props\<close>: \<open>grbl/state_machine.c\<close>; reachable states are those of an
    inductive step relation over the calls of \<open>state_update\<close> and \<open>state_set\<close>.
  \<^item> \<open>Modbus\<close>, \<open>Modbus_Frames\<close>, \<open>Modbus_Retry\<close>: the Modbus client \<open>grbl/modbus_rtu.c\<close>;
    \<open>Modbus_Api\<close>: requests and replies of \<open>grbl/modbus.c\<close>.
  \<^item> \<open>Errors\<close>: status and alarm codes with their descriptions, \<open>grbl/errors.c\<close>, \<open>grbl/alarms.c\<close>.
  \<^item> \<open>Float32\<close>: single precision numbers. A value is a real number, an infinity or not a number; rounding and
    the conversions that C leaves undefined are fields of a record \<open>fpu\<close>, so that theorems hold for any
    rounding; \<open>exact_fpu\<close> is the instance the witnesses use.
  \<^item> \<open>NutsBolts\<close>: reading and printing of numbers and dates, \<open>grbl/nuts_bolts.c\<close>.
  \<^item> \<open>Ngc_Machine\<close>, \<open>Ngc_Params\<close>: the predefined and the user parameters of \<open>grbl/ngc_params.c\<close>. The locale
    \<open>ctx_store\<close> states what a store of parameters by context promises and is interpreted on the stores of
    numbered and of named parameters.
  \<^item> \<open>Ngc_Expr\<close>, \<open>Ngc_Expr_Props\<close>, \<open>Ngc_Text\<close>: \<open>grbl/ngc_expr.c\<close>, the expression evaluator with its operator
    stack against a reference semantics, and the substitution of parameters in messages.
  \<^item> \<open>Stream_File\<close>: the stack of redirected input streams, \<open>grbl/stream_file.c\<close>.
  \<^item> \<open>Ngc_Flow\<close>, \<open>Ngc_Flow_Props\<close>, \<open>Ngc_Flow_Subs\<close>: \<open>grbl/ngc_flowctrl.c\<close>, the O-word flow control.
  \<^item> \<open>Planner\<close>: the motion planner \<open>grbl/planner.c\<close>, a ring of blocks with the speeds at which they are entered.
    \<open>Lookahead\<close> states what a plan is: speeds within limits and within reach of their neighbours; the locale
    \<open>lookahead\<close> gives the greatest plan and what replanning a part of it keeps. \<open>Float_Order\<close> interprets it on
    single precision numbers under \<open>ieee\<close> (rounding is monotone and exact where IEEE 754 says so) for blocks
    with \<open>block_ok\<close> (limit and speed gain not negative and not NaN). \<open>Planner_Ring\<close> takes the ring to a list,
    \<open>Planner_Plan\<close> and \<open>Planner_Stream\<close> the passes over the ring to the greatest plan, \<open>Planner_State\<close> and
    \<open>Planner_Motions\<close> hold the invariants over lines added, executed and finished; \<open>Planner_Demo\<close> a small machine.
  \<^item> \<open>Stepper\<close>: the step generator \<open>grbl/stepper.c\<close>, between the planner and the motors: the main program cuts
    blocks into segments, the timer interrupt executes them. \<open>Bresenham\<close> is the line algorithm of the interrupt
    in closed form, \<open>Step_Work\<close> and \<open>Step_Flow\<close> count the steps in flight and state the invariant of the two
    rings and the registers of the interrupt. It is kept by the interrupt (\<open>Step_Isr\<close>), by the planner
    (\<open>Step_Planner\<close>) and by the segment generator (\<open>Step_Prep\<close>), in any interleaving (\<open>Step_Pipeline\<close>).
    \<open>Step_Demo\<close> and \<open>Step_Dry\<close> run small motions, \<open>Step_Props\<close> has the properties.

  \<^bold>\<open>State and effects.\<close> The static variables of a C file are a record, every function a HOL function from
  record to record. What a function hands to other parts of the firmware (driver calls, callbacks,
  messages) is appended to a list of events or is a parameter. Linked lists are lists, except in
  \<open>TaskQueue\<close>, where nodes are shared and reused. Results that C leaves undefined (accesses outside of an
  array, freed memory) are explicit: \<open>None\<close> or \<open>Overflow\<close>.

  \<^bold>\<open>Fuel.\<close> The mutually recursive readers of \<open>Ngc_Expr\<close> take one more than the length of the line, since
  every level consumes a character (\<open>expressions_return\<close>); the passes of \<open>Ngc_Text\<close> likewise; the error
  handler of named subroutines one more than the height of the stack (\<open>report_status_ends\<close>). The passes of the
  planner take two more than the size of the ring, which they never go round (\<open>recalculate_queue\<close>,
  \<open>buffer_line_returns\<close>). The loops of \<open>TaskQueue_Run\<close>, \<open>Modbus\<close> and \<open>Stepper\<close> that may not end return an option,
  and theorems say when they return.

  \<^bold>\<open>Not modelled.\<close> The drivers under \<open>Drivers\<close>, \<open>Src\<close>, \<open>Middlewares\<close>, \<open>USB_DEVICE\<close> and the file system \<open>FatFs\<close> are
  vendored or hardware access. The motor drivers, displays, spindle and plugin directories are
  peripheral to the core. Of the core, the G-code parser, motion control and homing, the protocol loop, the
  settings store, the reports and kinematics are left out. Planner and step generator are those of the
  default configuration: three axes, no jerk limit, backlash compensation or spindle synchronisation.
  Operations of a component are atomic steps; the stepper interrupt may come between any two of them.
\<close>

end
